(* ===== verification/Prelude.thy ===== *)
theory Prelude
  imports Main
begin

text \<open>
  Shared vocabulary of the development: the named collections the component theories feed and
  use, Go's signed 64-bit integers with their wrap-around, and generic lemmas on lists, options
  and maps.
\<close>

section \<open>Named collections\<close>

named_theorems go_eval \<open>definitions a witness unfolds to evaluate a concrete input\<close>
named_theorems returns_iff \<open>when a fallible operation returns a value\<close>

section \<open>Signed 64-bit integers\<close>

text \<open>
  Go's \<open>int\<close>, \<open>int64\<close> and \<open>time.Duration\<close> are two's complement 64-bit integers. The models
  use \<open>int\<close> and apply \<open>int64\<close> wherever an operation of the source can leave the range.
\<close>

definition int64_min :: int where "int64_min = - 9223372036854775808"
definition int64_max :: int where "int64_max = 9223372036854775807"

definition in_int64 :: "int \<Rightarrow> bool" where
  "in_int64 z \<longleftrightarrow> int64_min \<le> z \<and> z \<le> int64_max"

definition int64 :: "int \<Rightarrow> int" where
  "int64 z = (z + 9223372036854775808) mod 18446744073709551616 - 9223372036854775808"

lemmas int64_defs = int64_def in_int64_def int64_min_def int64_max_def

lemma in_int64_int64 [simp]: "in_int64 (int64 z)"
proof -
  have "0 \<le> (z + 9223372036854775808) mod 18446744073709551616"
    and "(z + 9223372036854775808) mod 18446744073709551616 < 18446744073709551616"
    by simp_all
  then show ?thesis by (simp add: int64_defs)
qed

lemma int64_id: "in_int64 z \<Longrightarrow> int64 z = z"
  unfolding int64_defs by (simp add: mod_pos_pos_trivial)

lemma int64_idem [simp]: "int64 (int64 z) = int64 z"
  by (simp add: int64_id)

lemma int64_mod: "int64 z mod 18446744073709551616 = z mod 18446744073709551616"
proof -
  have "((z + k) mod m - k) mod m = z mod m" for k m :: int
    by (metis add_diff_cancel_right' mod_diff_left_eq)
  then show ?thesis unfolding int64_def .
qed

lemma int64_eq_iff: "int64 a = int64 b \<longleftrightarrow> a mod 18446744073709551616 = b mod 18446744073709551616"
proof
  assume "int64 a = int64 b"
  then show "a mod 18446744073709551616 = b mod 18446744073709551616"
    using int64_mod [of a] int64_mod [of b] by simp
next
  assume "a mod 18446744073709551616 = b mod 18446744073709551616"
  then have "(a + 9223372036854775808) mod 18446744073709551616 =
      (b + 9223372036854775808) mod 18446744073709551616"
    by (rule mod_add_cong [OF _ refl])
  then show "int64 a = int64 b" by (simp only: int64_def)
qed

lemma int64_add_left [simp]: "int64 (int64 a + b) = int64 (a + b)"
  unfolding int64_eq_iff by (metis int64_mod mod_add_left_eq)

lemma int64_add_right [simp]: "int64 (a + int64 b) = int64 (a + b)"
  unfolding int64_eq_iff by (metis int64_mod mod_add_right_eq)

lemma int64_mult_left [simp]: "int64 (int64 a * b) = int64 (a * b)"
  unfolding int64_eq_iff by (metis int64_mod mod_mult_left_eq)

lemma int64_small: "\<bar>z\<bar> \<le> 9223372036854775807 \<Longrightarrow> int64 z = z"
  by (rule int64_id) (auto simp: in_int64_def int64_min_def int64_max_def)

text \<open>Go's integer division and remainder truncate towards zero.\<close>

lemma int64_wrap:
  assumes "int64_max < z" and "z \<le> 2 * int64_max"
  shows "int64 z = z - 18446744073709551616"
proof -
  have "(z + 9223372036854775808) mod 18446744073709551616 =
      (z + 9223372036854775808 - 18446744073709551616) mod 18446744073709551616"
    by (simp only: minus_mod_self2)
  also have "\<dots> = z + 9223372036854775808 - 18446744073709551616"
    using assms by (intro mod_pos_pos_trivial) (simp_all add: int64_max_def)
  finally show ?thesis by (simp add: int64_def)
qed

definition go_div :: "int \<Rightarrow> int \<Rightarrow> int" where
  "go_div a b = sgn a * sgn b * (\<bar>a\<bar> div \<bar>b\<bar>)"

lemma go_div_nonneg: "0 \<le> a \<Longrightarrow> 0 < b \<Longrightarrow> go_div a b = a div b"
  by (cases "a = 0") (simp_all add: go_div_def)

section \<open>Lists\<close>

lemma length_filter_eq_zero: "length (filter P xs) = 0 \<longleftrightarrow> (\<forall>x \<in> set xs. \<not> P x)"
  by (auto simp: filter_empty_conv)

lemma distinct_map_filter: "distinct (map f xs) \<Longrightarrow> distinct (map f (filter P xs))"
  by (induction xs) auto

lemma sorted_wrt_take: "sorted_wrt R xs \<Longrightarrow> sorted_wrt R (take n xs)"
  by (metis append_take_drop_id sorted_wrt_append)

lemma sorted_wrt_drop: "sorted_wrt R xs \<Longrightarrow> sorted_wrt R (drop n xs)"
  by (metis append_take_drop_id sorted_wrt_append)

lemma list_all_append_iff: "list_all P (xs @ ys) \<longleftrightarrow> list_all P xs \<and> list_all P ys"
  by (induction xs) auto

text \<open>The first element with a property, as Go's search loops with an early \<open>return\<close> find it.\<close>

lemma find_Some_props: "find P xs = Some x \<Longrightarrow> x \<in> set xs \<and> P x"
  by (induction xs) (auto split: if_splits)

lemma find_None_iff_ball: "find P xs = None \<longleftrightarrow> (\<forall>x \<in> set xs. \<not> P x)"
  by (induction xs) auto

section \<open>Results\<close>

text \<open>
  A fallible operation returns \<open>Inl\<close> of an error or \<open>Inr\<close> of its result. \<open>and_then\<close> is the
  source's \<open>if err != nil { return err }\<close>.
\<close>

definition and_then :: "'e + 'a \<Rightarrow> ('a \<Rightarrow> 'e + 'b) \<Rightarrow> 'e + 'b" where
  "and_then m f = (case m of Inl e \<Rightarrow> Inl e | Inr x \<Rightarrow> f x)"

lemma and_then_simps [simp]:
  "and_then (Inl e) f = Inl e"
  "and_then (Inr x) f = f x"
  by (simp_all add: and_then_def)

lemma and_then_Inr_iff [returns_iff]:
  "and_then m f = Inr y \<longleftrightarrow> (\<exists>x. m = Inr x \<and> f x = Inr y)"
  by (cases m) auto

lemma and_then_Inl_iff [returns_iff]:
  "and_then m f = Inl e \<longleftrightarrow> m = Inl e \<or> (\<exists>x. m = Inr x \<and> f x = Inl e)"
  by (cases m) auto

definition check_that :: "bool \<Rightarrow> 'e \<Rightarrow> 'e + unit" where
  "check_that b e = (if b then Inr () else Inl e)"

lemma check_that_simps [simp]:
  "check_that True e = Inr ()"
  "check_that False e = Inl e"
  by (simp_all add: check_that_def)

lemma check_that_Inr_iff [returns_iff]: "check_that b e = Inr u \<longleftrightarrow> b"
  by (simp add: check_that_def)

lemma check_that_Inl_iff [returns_iff]: "check_that b e = Inl e' \<longleftrightarrow> \<not> b \<and> e = e'"
  by (simp add: check_that_def)

end
