(* ===== verification/Go_Strings.thy ===== *)
theory Go_Strings
  imports Prelude
begin

text \<open>
  The functions of Go's \<open>strings\<close>, \<open>strconv\<close> and \<open>unicode/utf8\<close> packages that the modelled
  code calls. A Go string is a sequence of bytes and an Isabelle \<open>string\<close> is a list of 8-bit
  characters, so the two coincide: \<open>length\<close> is Go's \<open>len\<close>, and a non-ASCII rune is the bytes of
  its UTF-8 encoding.
\<close>

section \<open>Characters\<close>

abbreviation byte :: "char \<Rightarrow> nat" where
  "byte c \<equiv> of_char c"

definition is_digit :: "char \<Rightarrow> bool" where
  "is_digit c \<longleftrightarrow> 48 \<le> byte c \<and> byte c \<le> 57"

definition digit_val :: "char \<Rightarrow> nat" where
  "digit_val c = byte c - 48"

definition digit_char :: "nat \<Rightarrow> char" where
  "digit_char d = char_of (48 + d)"

lemma byte_less_256: "byte c < 256"
  by (cases c) (simp add: of_char_Char)

lemma digit_char_props:
  assumes "d < 10"
  shows "is_digit (digit_char d)" and "digit_val (digit_char d) = d"
  using assms by (simp_all add: is_digit_def digit_val_def digit_char_def)

section \<open>Prefixes, suffixes and substrings\<close>

definition has_prefix :: "string \<Rightarrow> string \<Rightarrow> bool" where
  "has_prefix s p \<longleftrightarrow> take (length p) s = p"

definition has_suffix :: "string \<Rightarrow> string \<Rightarrow> bool" where
  "has_suffix s p \<longleftrightarrow> length p \<le> length s \<and> drop (length s - length p) s = p"

definition trim_prefix :: "string \<Rightarrow> string \<Rightarrow> string" where
  "trim_prefix s p = (if has_prefix s p then drop (length p) s else s)"

definition trim_suffix :: "string \<Rightarrow> string \<Rightarrow> string" where
  "trim_suffix s p = (if has_suffix s p then take (length s - length p) s else s)"

fun contains_str :: "string \<Rightarrow> string \<Rightarrow> bool" where
  "contains_str [] sub = (sub = [])"
| "contains_str (c # cs) sub = (has_prefix (c # cs) sub \<or> contains_str cs sub)"

lemma has_prefix_iff: "has_prefix s p \<longleftrightarrow> (\<exists>t. s = p @ t)"
  by (metis append_eq_conv_conj append_take_drop_id has_prefix_def)

lemma has_prefix_append [simp]: "has_prefix (p @ t) p"
  by (auto simp: has_prefix_iff)

lemma has_prefix_Nil [simp]: "has_prefix s []"
  by (simp add: has_prefix_def)

lemma has_prefix_Cons [simp]:
  "has_prefix (c # cs) (d # ds) \<longleftrightarrow> c = d \<and> has_prefix cs ds"
  "has_prefix [] (d # ds) \<longleftrightarrow> False"
  by (auto simp: has_prefix_def)

lemma has_suffix_iff: "has_suffix s p \<longleftrightarrow> (\<exists>t. s = t @ p)"
proof
  assume "has_suffix s p"
  then show "\<exists>t. s = t @ p"
    by (metis append_take_drop_id has_suffix_def)
next
  assume "\<exists>t. s = t @ p"
  then show "has_suffix s p" by (auto simp: has_suffix_def)
qed

lemma contains_str_iff: "contains_str s sub \<longleftrightarrow> (\<exists>a b. s = a @ sub @ b)"
proof (induction s)
  case Nil
  then show ?case by simp
next
  case (Cons c cs)
  have "(\<exists>a b. c # cs = a @ sub @ b) \<longleftrightarrow> has_prefix (c # cs) sub \<or> (\<exists>a b. cs = a @ sub @ b)"
    by (auto simp: has_prefix_iff Cons_eq_append_conv)
  then show ?case using Cons.IH by simp
qed

lemma contains_char_iff: "contains_str s [c] \<longleftrightarrow> c \<in> set s"
  by (auto simp: contains_str_iff in_set_conv_decomp)

text \<open>\<open>strings.Cut\<close>: the text before and after the first occurrence of a separator.\<close>

fun cut :: "string \<Rightarrow> string \<Rightarrow> (string \<times> string) option" where
  "cut [] sep = (if sep = [] then Some ([], []) else None)"
| "cut (c # cs) sep =
     (if has_prefix (c # cs) sep then Some ([], drop (length sep) (c # cs))
      else map_option (\<lambda>(a, b). (c # a, b)) (cut cs sep))"

lemma cut_SomeD: "cut s sep = Some (a, b) \<Longrightarrow> s = a @ sep @ b"
proof (induction s arbitrary: a)
  case Nil
  then show ?case by (simp split: if_splits)
next
  case (Cons c cs)
  show ?case
  proof (cases "has_prefix (c # cs) sep")
    case True
    then obtain t where "c # cs = sep @ t" by (auto simp: has_prefix_iff)
    with Cons.prems True show ?thesis by (metis append_Nil append_eq_conv_conj cut.simps(2)
      option.inject prod.inject)
  next
    case False
    with Cons.prems obtain a' where "cut cs sep = Some (a', b)" "a = c # a'"
      by (auto split: if_splits)
    with Cons.IH show ?thesis by simp
  qed
qed

lemma cut_eq_None: "cut s sep = None \<longleftrightarrow> \<not> contains_str s sep"
  by (induction s) auto

section \<open>Counting and replacing\<close>

text \<open>
  \<open>strings.Count\<close> and \<open>strings.Replace(s, old, new, -1)\<close> for a non-empty \<open>old\<close>, the only one
  the code passes: occurrences are taken from the left and do not overlap.
\<close>

function count_str :: "string \<Rightarrow> string \<Rightarrow> nat" where
  "count_str s sub =
     (if s = [] \<or> sub = [] then 0
      else if has_prefix s sub then Suc (count_str (drop (length sub) s) sub)
      else count_str (tl s) sub)"
  by pat_completeness auto
termination
  by (relation "measure (\<lambda>(s, sub). length s)") auto

declare count_str.simps [simp del]

function replace_all :: "string \<Rightarrow> string \<Rightarrow> string \<Rightarrow> string" where
  "replace_all s old new =
     (if s = [] \<or> old = [] then s
      else if has_prefix s old then new @ replace_all (drop (length old) s) old new
      else hd s # replace_all (tl s) old new)"
  by pat_completeness auto
termination
  by (relation "measure (\<lambda>(s, old, new). length s)") auto

declare replace_all.simps [simp del]

lemma count_str_Nil [simp]: "count_str [] sub = 0"
  by (simp add: count_str.simps)

lemma replace_all_Nil [simp]: "replace_all [] old new = []"
  by (simp add: replace_all.simps)

lemma count_str_Cons [simp]:
  "d \<noteq> [] \<Longrightarrow> count_str (c # cs) d =
     (if has_prefix (c # cs) d then Suc (count_str (drop (length d) (c # cs)) d)
      else count_str cs d)"
  by (simp add: count_str.simps [of "c # cs" d])

lemma replace_all_Cons [simp]:
  "d \<noteq> [] \<Longrightarrow> replace_all (c # cs) d new =
     (if has_prefix (c # cs) d then new @ replace_all (drop (length d) (c # cs)) d new
      else c # replace_all cs d new)"
  by (simp add: replace_all.simps [of "c # cs" d new])

text \<open>For a single character the two are the list operations.\<close>

lemma count_str_char: "count_str s [c] = count_list s c"
  by (induction s) auto

lemma replace_all_char: "replace_all s [c] new = concat (map (\<lambda>x. if x = c then new else [x]) s)"
  by (induction s) auto

lemma replace_char_empty: "replace_all s [c] [] = filter (\<lambda>x. x \<noteq> c) s"
  by (induction s) auto

lemma replace_char_char: "replace_all s [c] [d] = map (\<lambda>x. if x = c then d else x) s"
  by (induction s) auto

lemma replace_char_absent: "c \<notin> set s \<Longrightarrow> replace_all s [c] new = s"
  by (induction s) auto

section \<open>Splitting and joining\<close>

text \<open>\<open>strings.Split\<close> with a one-character separator, and \<open>strings.Join\<close>.\<close>

fun split_char :: "char \<Rightarrow> string \<Rightarrow> string list" where
  "split_char d [] = [[]]"
| "split_char d (c # cs) =
     (if c = d then [] # split_char d cs
      else (case split_char d cs of [] \<Rightarrow> [[c]] | w # ws \<Rightarrow> (c # w) # ws))"

fun join :: "string \<Rightarrow> string list \<Rightarrow> string" where
  "join sep [] = []"
| "join sep [x] = x"
| "join sep (x # y # ys) = x @ sep @ join sep (y # ys)"

lemma split_char_not_Nil [simp]: "split_char d s \<noteq> []"
  by (cases s) (auto split: list.splits)

lemma join_split_char [simp]: "join [d] (split_char d s) = s"
proof (induction s)
  case Nil
  then show ?case by simp
next
  case (Cons c cs)
  obtain w ws where eq: "split_char d cs = w # ws"
    by (meson neq_Nil_conv split_char_not_Nil)
  with Cons.IH show ?case by (cases ws) auto
qed

lemma split_char_no_sep: "w \<in> set (split_char d s) \<Longrightarrow> d \<notin> set w"
proof (induction s arbitrary: w)
  case Nil
  then show ?case by simp
next
  case (Cons c cs)
  obtain v vs where eq: "split_char d cs = v # vs"
    by (meson neq_Nil_conv split_char_not_Nil)
  with Cons show ?case by (auto split: if_splits)
qed

lemma split_char_absent: "d \<notin> set s \<Longrightarrow> split_char d s = [s]"
  by (induction s) auto

lemma split_char_append: "d \<notin> set a \<Longrightarrow> split_char d (a @ d # b) = a # split_char d b"
  by (induction a) auto

lemma split_char_join:
  "xs \<noteq> [] \<Longrightarrow> \<forall>x \<in> set xs. d \<notin> set x \<Longrightarrow> split_char d (join [d] xs) = xs"
  by (induction "[d]" xs rule: join.induct) (auto simp: split_char_absent split_char_append)

lemma length_split_char: "length (split_char d s) = Suc (count_list s d)"
proof (induction s)
  case Nil
  then show ?case by simp
next
  case (Cons c cs)
  obtain w ws where eq: "split_char d cs = w # ws"
    by (meson neq_Nil_conv split_char_not_Nil)
  with Cons.IH show ?case by auto
qed

lemma hd_split_char_append: "d \<notin> set a \<Longrightarrow> hd (split_char d (a @ d # b)) = a"
  by (simp add: split_char_append)

section \<open>White space\<close>

text \<open>
  The UTF-8 encodings of the runes \<open>unicode.IsSpace\<close> accepts. No encoding is a prefix or a
  suffix of another, so trimming byte sequences from an end trims the runes.
\<close>

definition ascii_spaces :: "string list" where
  "ascii_spaces = [[CHR 0x09], [CHR 0x0A], [CHR 0x0B], [CHR 0x0C], [CHR 0x0D], [CHR 0x20]]"

definition wide_spaces :: "string list" where
  "wide_spaces =
     [[CHR 0xC2, CHR 0x85], [CHR 0xC2, CHR 0xA0], [CHR 0xE1, CHR 0x9A, CHR 0x80],
      [CHR 0xE2, CHR 0x80, CHR 0x80], [CHR 0xE2, CHR 0x80, CHR 0x81],
      [CHR 0xE2, CHR 0x80, CHR 0x82], [CHR 0xE2, CHR 0x80, CHR 0x83],
      [CHR 0xE2, CHR 0x80, CHR 0x84], [CHR 0xE2, CHR 0x80, CHR 0x85],
      [CHR 0xE2, CHR 0x80, CHR 0x86], [CHR 0xE2, CHR 0x80, CHR 0x87],
      [CHR 0xE2, CHR 0x80, CHR 0x88], [CHR 0xE2, CHR 0x80, CHR 0x89],
      [CHR 0xE2, CHR 0x80, CHR 0x8A], [CHR 0xE2, CHR 0x80, CHR 0xA8],
      [CHR 0xE2, CHR 0x80, CHR 0xA9], [CHR 0xE2, CHR 0x80, CHR 0xAF],
      [CHR 0xE2, CHR 0x81, CHR 0x9F], [CHR 0xE3, CHR 0x80, CHR 0x80]]"

definition spaces :: "string list" where
  "spaces = ascii_spaces @ wide_spaces"

definition leading_space :: "string \<Rightarrow> nat" where
  "leading_space s = (case find (has_prefix s) spaces of None \<Rightarrow> 0 | Some w \<Rightarrow> length w)"

lemma leading_space_le: "leading_space s \<le> length s"
  by (auto simp: leading_space_def has_prefix_iff split: option.splits dest!: find_Some_props)

function trim_left :: "string \<Rightarrow> string" where
  "trim_left s = (if leading_space s = 0 then s else trim_left (drop (leading_space s) s))"
  by pat_completeness auto
termination
proof (relation "measure length")
  fix s :: string
  assume "leading_space s \<noteq> 0"
  with leading_space_le [of s] show "(drop (leading_space s) s, s) \<in> measure length" by simp
qed simp

declare trim_left.simps [simp del]

definition trailing_space :: "string \<Rightarrow> nat" where
  "trailing_space s = (case find (has_suffix s) spaces of None \<Rightarrow> 0 | Some w \<Rightarrow> length w)"

lemma trailing_space_le: "trailing_space s \<le> length s"
  by (auto simp: trailing_space_def has_suffix_iff split: option.splits dest!: find_Some_props)

function trim_right :: "string \<Rightarrow> string" where
  "trim_right s =
     (if trailing_space s = 0 then s else trim_right (take (length s - trailing_space s) s))"
  by pat_completeness auto
termination
proof (relation "measure length")
  fix s :: string
  assume "trailing_space s \<noteq> 0"
  with trailing_space_le [of s]
  show "(take (length s - trailing_space s) s, s) \<in> measure length" by simp
qed simp

declare trim_right.simps [simp del]

definition trim_space :: "string \<Rightarrow> string" where
  "trim_space s = trim_right (trim_left s)"

text \<open>A text whose first and last bytes are printable ASCII is left alone.\<close>

definition graphic :: "char \<Rightarrow> bool" where
  "graphic c \<longleftrightarrow> 33 \<le> byte c \<and> byte c < 127"

lemma spaces_not_graphic:
  "list_all (\<lambda>w. w \<noteq> [] \<and> \<not> graphic (hd w) \<and> \<not> graphic (last w)) spaces"
  by (simp add: spaces_def ascii_spaces_def wide_spaces_def graphic_def)

lemma leading_space_graphic: "graphic c \<Longrightarrow> leading_space (c # cs) = 0"
proof -
  assume g: "graphic c"
  have "\<not> has_prefix (c # cs) w" if "w \<in> set spaces" for w
  proof -
    from that spaces_not_graphic have "w \<noteq> []" and "\<not> graphic (hd w)"
      by (auto simp only: list_all_iff)
    with g show ?thesis by (cases w) auto
  qed
  then have "find (has_prefix (c # cs)) spaces = None" by (simp add: find_None_iff_ball)
  then show ?thesis by (simp add: leading_space_def)
qed

lemma trailing_space_graphic: "graphic c \<Longrightarrow> trailing_space (cs @ [c]) = 0"
proof -
  assume g: "graphic c"
  have "\<not> has_suffix (cs @ [c]) w" if "w \<in> set spaces" for w
  proof
    assume "has_suffix (cs @ [c]) w"
    with that spaces_not_graphic have "last w = c" and "\<not> graphic (last w)"
      by (auto simp: has_suffix_iff list_all_iff) (metis last_appendR last_snoc)
    with g show False by simp
  qed
  then have "find (has_suffix (cs @ [c])) spaces = None" by (simp add: find_None_iff_ball)
  then show ?thesis by (simp add: trailing_space_def)
qed

lemma trim_left_graphic: "graphic c \<Longrightarrow> trim_left (c # cs) = c # cs"
  by (simp add: trim_left.simps leading_space_graphic)

lemma trim_right_graphic: "graphic c \<Longrightarrow> trim_right (cs @ [c]) = cs @ [c]"
  by (simp add: trim_right.simps trailing_space_graphic)

lemma trim_space_graphic:
  assumes "s \<noteq> []" and "graphic (hd s)" and "graphic (last s)"
  shows "trim_space s = s"
proof -
  have "trim_left s = s" using assms(1,2) by (cases s) (simp_all add: trim_left_graphic)
  moreover have "trim_right s = s"
    using assms(1,3) trim_right_graphic [of "last s" "butlast s"] by simp
  ultimately show ?thesis by (simp add: trim_space_def)
qed

text \<open>\<open>strings.Trim(s, cutset)\<close> for a cutset of one ASCII character.\<close>

definition trim_char :: "char \<Rightarrow> string \<Rightarrow> string" where
  "trim_char c s = rev (dropWhile (\<lambda>x. x = c) (rev (dropWhile (\<lambda>x. x = c) s)))"

lemma trim_char_absent: "c \<notin> set s \<Longrightarrow> trim_char c s = s"
  unfolding trim_char_def by (metis dropWhile_eq_self_iff hd_in_set rev_rev_ident set_rev)

text \<open>\<open>strings.Fields\<close>: the maximal runs of bytes between white space.\<close>

function fields_from :: "string \<Rightarrow> string \<Rightarrow> string list" where
  "fields_from acc s =
     (if s = [] then (if acc = [] then [] else [rev acc])
      else if leading_space s = 0 then fields_from (hd s # acc) (tl s)
      else (if acc = [] then [] else [rev acc]) @ fields_from [] (drop (leading_space s) s))"
  by pat_completeness auto
termination
proof (relation "measure (length \<circ> snd)")
  fix acc s :: string
  assume "s \<noteq> []" and "leading_space s \<noteq> 0"
  with leading_space_le [of s]
  show "(([], drop (leading_space s) s), (acc, s)) \<in> measure (length \<circ> snd)" by simp
qed auto

declare fields_from.simps [simp del]

definition Fields :: "string \<Rightarrow> string list" where
  "Fields s = fields_from [] s"

section \<open>Letter case\<close>

text \<open>
  \<open>strings.ToLower\<close> and \<open>strings.ToUpper\<close>. Every use of the modelled code compares the result
  with ASCII text, so what matters is which runes map to ASCII: the ASCII letters, and of all
  others exactly the Kelvin sign (lower case \<open>k\<close>), dotted capital I (lower case \<open>i\<close>), dotless i
  (upper case \<open>I\<close>) and long s (upper case \<open>S\<close>). Other non-ASCII runes are kept.
\<close>

definition lower_char :: "char \<Rightarrow> char" where
  "lower_char c = (if 65 \<le> byte c \<and> byte c \<le> 90 then char_of (byte c + 32) else c)"

definition upper_char :: "char \<Rightarrow> char" where
  "upper_char c = (if 97 \<le> byte c \<and> byte c \<le> 122 then char_of (byte c - 32) else c)"

fun to_lower :: "string \<Rightarrow> string" where
  "to_lower [] = []"
| "to_lower (c # cs) =
     (if has_prefix (c # cs) [CHR 0xE2, CHR 0x84, CHR 0xAA] then CHR ''k'' # to_lower (drop 2 cs)
      else if has_prefix (c # cs) [CHR 0xC4, CHR 0xB0] then CHR ''i'' # to_lower (drop 1 cs)
      else lower_char c # to_lower cs)"

fun to_upper :: "string \<Rightarrow> string" where
  "to_upper [] = []"
| "to_upper (c # cs) =
     (if has_prefix (c # cs) [CHR 0xC4, CHR 0xB1] then CHR ''I'' # to_upper (drop 1 cs)
      else if has_prefix (c # cs) [CHR 0xC5, CHR 0xBF] then CHR ''S'' # to_upper (drop 1 cs)
      else upper_char c # to_upper cs)"

text \<open>
  \<open>strings.EqualFold\<close>, exact when one of the two strings is ASCII: besides the ASCII letters,
  only the Kelvin sign folds to \<open>k\<close> and long s to \<open>s\<close>.
\<close>

fun fold_case :: "string \<Rightarrow> string" where
  "fold_case [] = []"
| "fold_case (c # cs) =
     (if has_prefix (c # cs) [CHR 0xE2, CHR 0x84, CHR 0xAA] then CHR ''k'' # fold_case (drop 2 cs)
      else if has_prefix (c # cs) [CHR 0xC5, CHR 0xBF] then CHR ''s'' # fold_case (drop 1 cs)
      else lower_char c # fold_case cs)"

definition equal_fold :: "string \<Rightarrow> string \<Rightarrow> bool" where
  "equal_fold s t \<longleftrightarrow> fold_case s = fold_case t"

definition ascii_str :: "string \<Rightarrow> bool" where
  "ascii_str s \<longleftrightarrow> (\<forall>c \<in> set s. byte c < 128)"

lemma ascii_str_Cons [simp]: "ascii_str (c # cs) \<longleftrightarrow> byte c < 128 \<and> ascii_str cs"
  by (auto simp: ascii_str_def)

lemma ascii_str_Nil [simp]: "ascii_str []"
  by (simp add: ascii_str_def)

lemma to_lower_ascii: "ascii_str s \<Longrightarrow> to_lower s = map lower_char s"
  by (induction s) (auto simp: has_prefix_iff)

lemma fold_case_ascii: "ascii_str s \<Longrightarrow> fold_case s = map lower_char s"
  by (induction s) (auto simp: has_prefix_iff)

lemma lower_char_idem [simp]: "lower_char (lower_char c) = lower_char c"
  by (auto simp: lower_char_def)

lemma equal_fold_refl [simp]: "equal_fold s s"
  by (simp add: equal_fold_def)

lemma equal_fold_sym: "equal_fold s t \<longleftrightarrow> equal_fold t s"
  by (auto simp: equal_fold_def)

end
