(* ===== verification/Line_End.thy ===== *)
theory Line_End
  imports Go_Strings
begin

text \<open>
  Package \<open>lineend\<close> (\<open>src/src/lineend/lineend.go\<close>): detecting the line terminator of a text and
  converting to a given one. On a text with one kind of terminator every conversion replaces
  exactly the terminators; the exact condition under which a conversion to LF leaves no CR is
  proved for all texts.
\<close>

section \<open>The code\<close>

abbreviation CR :: char where "CR \<equiv> CHR 0x0D"
abbreviation LF :: char where "LF \<equiv> CHR 0x0A"

definition GetLineEnd :: "string \<Rightarrow> string" where
  "GetLineEnd text =
     (let dos = count_str text [CR, LF];
          oldMac = count_str text [CR];
          unix = count_str text [LF]
      in if dos = 0 \<and> oldMac = 0 \<and> unix = 0 then []
         else if dos \<ge> oldMac \<and> dos \<ge> unix then [CR, LF]
         else if oldMac \<ge> dos \<and> oldMac \<ge> unix then [CR]
         else if unix \<ge> dos \<and> unix \<ge> oldMac then [LF]
         else [])"

definition DosToOldMac :: "string \<Rightarrow> string" where
  "DosToOldMac text = replace_all text [LF] []"

definition DosToUnix :: "string \<Rightarrow> string" where
  "DosToUnix text = replace_all text [CR] []"

definition OldMacToDos :: "string \<Rightarrow> string" where
  "OldMacToDos text = replace_all text [CR] [CR, LF]"

definition OldMacToUnix :: "string \<Rightarrow> string" where
  "OldMacToUnix text = replace_all text [CR] [LF]"

definition UnixToDos :: "string \<Rightarrow> string" where
  "UnixToDos text = replace_all text [LF] [CR, LF]"

definition UnixToOldMac :: "string \<Rightarrow> string" where
  "UnixToOldMac text = replace_all text [LF] [CR]"

definition UnknownToDos :: "string \<Rightarrow> string" where
  "UnknownToDos text =
     (if GetLineEnd text = [CR] then OldMacToDos text
      else if GetLineEnd text = [LF] then UnixToDos text
      else text)"

definition UnknownToOldMac :: "string \<Rightarrow> string" where
  "UnknownToOldMac text =
     (if GetLineEnd text = [CR, LF] then DosToOldMac text
      else if GetLineEnd text = [LF] then UnixToOldMac text
      else text)"

definition UnknownToUnix :: "string \<Rightarrow> string" where
  "UnknownToUnix text =
     (if GetLineEnd text = [CR, LF] then DosToUnix text
      else if GetLineEnd text = [CR] then OldMacToUnix text
      else text)"

lemmas convert_defs =
  DosToOldMac_def DosToUnix_def OldMacToDos_def OldMacToUnix_def UnixToDos_def UnixToOldMac_def

lemmas unknown_defs = UnknownToDos_def UnknownToOldMac_def UnknownToUnix_def

section \<open>Counting terminators\<close>

lemma count_crlf_le_cr: "count_str s [CR, LF] \<le> count_list s CR"
proof (induction s rule: length_induct)
  case (1 s)
  show ?case
  proof (cases s)
    case Nil
    then show ?thesis by simp
  next
    case (Cons c cs)
    with 1 have tl: "count_str cs [CR, LF] \<le> count_list cs CR" by simp
    show ?thesis
    proof (cases "has_prefix s [CR, LF]")
      case True
      with Cons obtain r where s: "s = CR # LF # r" by (auto simp: has_prefix_iff)
      with 1 have "count_str r [CR, LF] \<le> count_list r CR" by simp
      with s show ?thesis by simp
    next
      case False
      with Cons tl show ?thesis by auto
    qed
  qed
qed

lemma count_crlf_le_lf: "count_str s [CR, LF] \<le> count_list s LF"
proof (induction s rule: length_induct)
  case (1 s)
  show ?case
  proof (cases s)
    case Nil
    then show ?thesis by simp
  next
    case (Cons c cs)
    with 1 have tl: "count_str cs [CR, LF] \<le> count_list cs LF" by simp
    show ?thesis
    proof (cases "has_prefix s [CR, LF]")
      case True
      with Cons obtain r where s: "s = CR # LF # r" by (auto simp: has_prefix_iff)
      with 1 have "count_str r [CR, LF] \<le> count_list r LF" by simp
      with s show ?thesis by simp
    next
      case False
      with Cons tl show ?thesis by auto
    qed
  qed
qed

text \<open>
  The detection in terms of the three counts; the final \<open>return ""\<close> of the source is dead code.
\<close>

lemma GetLineEnd_cases:
  "GetLineEnd s =
     (if count_list s CR = 0 \<and> count_list s LF = 0 then []
      else if count_str s [CR, LF] = count_list s CR \<and> count_str s [CR, LF] = count_list s LF
        then [CR, LF]
      else if count_list s LF \<le> count_list s CR then [CR]
      else [LF])"
  using count_crlf_le_cr [of s] count_crlf_le_lf [of s]
  by (auto simp: GetLineEnd_def count_str_char Let_def)

section \<open>Texts with one kind of terminator\<close>

text \<open>A text built from lines without terminators, joined with the terminator \<open>e\<close>.\<close>

definition plain_line :: "string \<Rightarrow> bool" where
  "plain_line l \<longleftrightarrow> CR \<notin> set l \<and> LF \<notin> set l"

definition terminators :: "string list" where
  "terminators = [[LF], [CR], [CR, LF]]"

definition uniform_text :: "string \<Rightarrow> string list \<Rightarrow> bool" where
  "uniform_text e ls \<longleftrightarrow> e \<in> set terminators \<and> ls \<noteq> [] \<and> (\<forall>l \<in> set ls. plain_line l)"

lemma uniform_Cons:
  "uniform_text e (l # m # ls) \<Longrightarrow> plain_line l \<and> uniform_text e (m # ls)"
  by (simp add: uniform_text_def)

lemma count_list_append: "count_list (xs @ ys) x = count_list xs x + count_list ys x"
  by (induction xs) auto

lemma count_list_plain:
  "plain_line l \<Longrightarrow> count_list l CR = 0" "plain_line l \<Longrightarrow> count_list l LF = 0"
  by (simp_all add: plain_line_def count_list_0_iff)

lemma count_list_join:
  "ls \<noteq> [] \<Longrightarrow> \<forall>l \<in> set ls. count_list l c = 0 \<Longrightarrow>
     count_list (join e ls) c = (length ls - 1) * count_list e c"
  by (induction e ls rule: join.induct) (auto simp: count_list_append)

lemma count_crlf_skip: "plain_line l \<Longrightarrow> count_str (l @ s) [CR, LF] = count_str s [CR, LF]"
  by (induction l) (auto simp: plain_line_def)

lemma count_crlf_join:
  "ls \<noteq> [] \<Longrightarrow> \<forall>l \<in> set ls. plain_line l \<Longrightarrow>
     count_str (join [CR, LF] ls) [CR, LF] = length ls - 1"
proof (induction "[CR, LF]" ls rule: join.induct)
  case (2 x)
  then show ?case using count_crlf_skip [of x "[]"] by simp
next
  case (3 x y ys)
  then show ?case by (simp add: count_crlf_skip)
qed simp

lemma GetLineEnd_join:
  assumes "uniform_text e (l # m # ls)"
  shows "GetLineEnd (join e (l # m # ls)) = e"
proof -
  let ?ls = "l # m # ls"
  have plain: "\<forall>l \<in> set ?ls. plain_line l" using assms by (simp add: uniform_text_def)
  then have cr: "count_list (join e ?ls) CR = Suc (length ls) * count_list e CR"
    and lf: "count_list (join e ?ls) LF = Suc (length ls) * count_list e LF"
    using count_list_join [of ?ls _ e] by (simp_all add: count_list_plain)
  from assms consider "e = [LF]" | "e = [CR]" | "e = [CR, LF]"
    by (auto simp: uniform_text_def terminators_def)
  then show ?thesis
  proof cases
    case 3
    with cr lf count_crlf_join [OF _ plain] show ?thesis by (simp add: GetLineEnd_cases)
  qed (use cr lf count_crlf_le_lf [of "join e ?ls"] count_crlf_le_cr [of "join e ?ls"]
      in \<open>simp_all add: GetLineEnd_cases\<close>)
qed

lemma replace_char_append:
  "replace_all (s @ t) [c] new = replace_all s [c] new @ replace_all t [c] new"
  by (simp add: replace_all_char)

lemma replace_char_plain:
  "plain_line l \<Longrightarrow> c = CR \<or> c = LF \<Longrightarrow> replace_all l [c] new = l"
  by (auto simp: plain_line_def intro: replace_char_absent)

lemma replace_char_join:
  "\<forall>l \<in> set ls. plain_line l \<Longrightarrow> c = CR \<or> c = LF \<Longrightarrow>
     replace_all (join e ls) [c] new = join (replace_all e [c] new) ls"
  by (induction e ls rule: join.induct) (auto simp: replace_char_append replace_char_plain)

section \<open>Converters\<close>

text \<open>
  What the paste form relies on: a conversion to the terminator \<open>t\<close> rewrites every text with
  one kind of terminator to the same lines joined with \<open>t\<close>.
\<close>

locale line_converter =
  fixes conv :: "string \<Rightarrow> string" and t :: string
  assumes target: "t \<in> set terminators"
    and conv_single: "plain_line l \<Longrightarrow> conv l = l"
    and conv_many: "uniform_text e (l # m # ls) \<Longrightarrow> conv (join e (l # m # ls)) = join t (l # m # ls)"
begin

lemma conv_join:
  assumes u: "uniform_text e ls"
  shows "conv (join e ls) = join t ls"
proof (cases ls)
  case Nil
  with u show ?thesis by (simp add: uniform_text_def)
next
  case (Cons l ms)
  show ?thesis
  proof (cases ms)
    case Nil
    with Cons u show ?thesis by (simp add: uniform_text_def conv_single)
  next
    case (Cons m ks)
    with \<open>ls = l # ms\<close> u show ?thesis by (metis conv_many)
  qed
qed

lemma uniform_target: "uniform_text e ls \<Longrightarrow> uniform_text t ls"
  using target by (simp add: uniform_text_def)

lemma conv_idem: "uniform_text e ls \<Longrightarrow> conv (conv (join e ls)) = conv (join e ls)"
  by (simp add: conv_join [OF uniform_target] conv_join)

end

text \<open>One conversion after another is the last one alone.\<close>

locale line_converter_pair = a: line_converter conv1 t1 + b: line_converter conv2 t2
  for conv1 t1 conv2 t2
begin

lemma conv_after: "uniform_text e ls \<Longrightarrow> conv2 (conv1 (join e ls)) = conv2 (join e ls)"
  by (simp add: a.conv_join b.conv_join a.uniform_target)

end

lemma plain_GetLineEnd: "plain_line l \<Longrightarrow> GetLineEnd l = []"
  by (simp add: GetLineEnd_cases count_list_plain)

lemma uniform_terminator:
  "uniform_text e ls \<Longrightarrow> e = [LF] \<or> e = [CR] \<or> e = [CR, LF]"
  by (auto simp: uniform_text_def terminators_def)

lemma uniform_plain: "uniform_text e ls \<Longrightarrow> \<forall>l \<in> set ls. plain_line l"
  by (simp add: uniform_text_def)

lemma unknown_many:
  assumes u: "uniform_text e (l # m # ls)"
  shows "UnknownToUnix (join e (l # m # ls)) = join [LF] (l # m # ls)"
    and "UnknownToDos (join e (l # m # ls)) = join [CR, LF] (l # m # ls)"
    and "UnknownToOldMac (join e (l # m # ls)) = join [CR] (l # m # ls)"
  using uniform_terminator [OF u] replace_char_join [OF uniform_plain [OF u]]
  by (auto simp only: unknown_defs convert_defs GetLineEnd_join [OF u])
    (simp_all del: join.simps)

lemma unknown_single:
  "plain_line l \<Longrightarrow> UnknownToUnix l = l"
  "plain_line l \<Longrightarrow> UnknownToDos l = l"
  "plain_line l \<Longrightarrow> UnknownToOldMac l = l"
  by (simp_all add: unknown_defs plain_GetLineEnd)

interpretation to_unix: line_converter UnknownToUnix "[LF]"
  by unfold_locales (simp add: terminators_def, rule unknown_single, assumption,
      rule unknown_many)

interpretation to_dos: line_converter UnknownToDos "[CR, LF]"
  by unfold_locales (simp add: terminators_def, rule unknown_single, assumption,
      rule unknown_many)

interpretation to_mac: line_converter UnknownToOldMac "[CR]"
  by unfold_locales (simp add: terminators_def, rule unknown_single, assumption,
      rule unknown_many)

interpretation unix_dos: line_converter_pair UnknownToDos "[CR, LF]" UnknownToUnix "[LF]"
  by unfold_locales

section \<open>Properties\<close>

text \<open>
  On every text whose line terminators are all of one kind (LF, CR or CRLF), the three
  conversions of the paste form return the same lines joined with LF, CRLF and CR.
\<close>

theorem unknown_conversions_correct:
  assumes "uniform_text e ls"
  shows "UnknownToUnix (join e ls) = join [LF] ls
       \<and> UnknownToDos (join e ls) = join [CR, LF] ls
       \<and> UnknownToOldMac (join e ls) = join [CR] ls"
  using to_unix.conv_join [OF assms] to_dos.conv_join [OF assms] to_mac.conv_join [OF assms]
  by blast

theorem unknown_conversions_correct_witness:
  "UnknownToUnix (join [CR, LF] [''ab'', [], ''c'']) = join [LF] [''ab'', [], ''c'']"
proof -
  have "uniform_text [CR, LF] [''ab'', [], ''c'']"
    by (simp add: uniform_text_def terminators_def plain_line_def)
  from unknown_conversions_correct [OF this] show ?thesis by blast
qed

text \<open>
  For every text whatsoever, the conversion to LF leaves a CR behind exactly when the text
  has a CR and more LFs than CRs: such a mixed text is returned unchanged.
\<close>

theorem UnknownToUnix_keeps_cr_iff:
  "CR \<in> set (UnknownToUnix s) \<longleftrightarrow> CR \<in> set s \<and> count_list s CR < count_list s LF"
proof -
  have "CR \<in> set s \<longleftrightarrow> count_list s CR \<noteq> 0" by (simp add: count_list_0_iff)
  then show ?thesis
    using count_crlf_le_cr [of s] count_crlf_le_lf [of s]
    by (auto simp: UnknownToUnix_def GetLineEnd_cases DosToUnix_def OldMacToUnix_def
        replace_char_empty replace_char_char)
qed

end
