(* ===== verification/Go_Conv.thy ===== *)
theory Go_Conv
  imports Go_Strings
begin

text \<open>
  \<open>strconv.Atoi\<close>, \<open>strconv.ParseInt(s, 10, 64)\<close>, \<open>strconv.Itoa\<close> and
  \<open>utf8.RuneCountInString\<close>. Parsing and formatting are proved to be inverse on the whole range
  of 64-bit integers.
\<close>

section \<open>Decimal digits\<close>

fun digits_value :: "nat \<Rightarrow> string \<Rightarrow> nat option" where
  "digits_value acc [] = Some acc"
| "digits_value acc (c # cs) =
     (if is_digit c then digits_value (10 * acc + digit_val c) cs else None)"

definition parse_nat :: "string \<Rightarrow> nat option" where
  "parse_nat s = (if s = [] then None else digits_value 0 s)"

fun show_nat :: "nat \<Rightarrow> string" where
  "show_nat n = (if n < 10 then [digit_char n] else show_nat (n div 10) @ [digit_char (n mod 10)])"

declare show_nat.simps [simp del]

lemma digits_value_append:
  "digits_value acc (s @ t) =
     (case digits_value acc s of None \<Rightarrow> None | Some v \<Rightarrow> digits_value v t)"
  by (induction s arbitrary: acc) auto

lemma digits_value_None: "digits_value acc s = None \<longleftrightarrow> (\<exists>c \<in> set s. \<not> is_digit c)"
  by (induction s arbitrary: acc) auto

lemma show_nat_not_Nil [simp]: "show_nat n \<noteq> []"
  by (subst show_nat.simps) simp

lemma digits_value_show_nat: "digits_value 0 (show_nat n) = Some n"
proof (induction n rule: show_nat.induct)
  case (1 n)
  show ?case
  proof (cases "n < 10")
    case True
    then show ?thesis by (simp add: show_nat.simps [of n] digit_char_props)
  next
    case False
    with "1.IH" show ?thesis
      by (simp add: show_nat.simps [of n] digits_value_append digit_char_props)
  qed
qed

lemma show_nat_digits: "c \<in> set (show_nat n) \<Longrightarrow> is_digit c"
  using digits_value_show_nat [of n] digits_value_None [of 0 "show_nat n"] by auto

lemma parse_nat_show_nat [simp]: "parse_nat (show_nat n) = Some n"
  by (simp add: parse_nat_def digits_value_show_nat)

section \<open>Signed integers\<close>

text \<open>
  An optional sign and decimal digits; \<open>Bad_syntax\<close> and \<open>Out_of_range\<close> are the two errors of
  \<open>strconv\<close>. On a range error the functions also return the nearest representable value, which
  one caller uses (\<open>atoi_value\<close>).
\<close>

datatype num_error = Bad_syntax | Out_of_range

definition split_sign :: "string \<Rightarrow> bool \<times> string" where
  "split_sign s = (case s of
       c # cs \<Rightarrow> if c = CHR ''-'' then (True, cs) else if c = CHR ''+'' then (False, cs) else (False, s)
     | [] \<Rightarrow> (False, []))"

definition parse_int :: "string \<Rightarrow> num_error + int" where
  "parse_int s = (let (neg, ds) = split_sign s in
     case parse_nat ds of
       None \<Rightarrow> Inl Bad_syntax
     | Some n \<Rightarrow> (let v = (if neg then - int n else int n) in
         if in_int64 v then Inr v else Inl Out_of_range))"

definition atoi_value :: "string \<Rightarrow> int" where
  "atoi_value s = (case parse_int s of
       Inr v \<Rightarrow> v
     | Inl Bad_syntax \<Rightarrow> 0
     | Inl Out_of_range \<Rightarrow> (if fst (split_sign s) then int64_min else int64_max))"

definition show_int :: "int \<Rightarrow> string" where
  "show_int z = (if z < 0 then CHR ''-'' # show_nat (nat (- z)) else show_nat (nat z))"

lemma split_sign_show_nat [simp]: "split_sign (show_nat n) = (False, show_nat n)"
proof -
  obtain c cs where eq: "show_nat n = c # cs"
    by (meson neq_Nil_conv show_nat_not_Nil)
  then have "is_digit c" using show_nat_digits [of c n] by simp
  then have "c \<noteq> CHR ''-''" and "c \<noteq> CHR ''+''" by (auto simp: is_digit_def)
  with eq show ?thesis by (simp add: split_sign_def)
qed

lemma parse_int_show_int: "in_int64 z \<Longrightarrow> parse_int (show_int z) = Inr z"
  by (simp add: parse_int_def show_int_def) (simp add: split_sign_def)

lemma parse_int_in_int64: "parse_int s = Inr v \<Longrightarrow> in_int64 v"
  by (auto simp: parse_int_def Let_def split: prod.splits option.splits if_splits)

lemma parse_int_empty [simp]: "parse_int [] = Inl Bad_syntax"
  by (simp add: parse_int_def split_sign_def parse_nat_def)

lemma show_int_chars: "c \<in> set (show_int z) \<Longrightarrow> is_digit c \<or> c = CHR ''-''"
  by (auto simp: show_int_def dest: show_nat_digits split: if_splits)

lemma show_int_not_Nil [simp]: "show_int z \<noteq> []"
  by (simp add: show_int_def)

lemma show_int_inject:
  "in_int64 a \<Longrightarrow> in_int64 b \<Longrightarrow> show_int a = show_int b \<longleftrightarrow> a = b"
  using parse_int_show_int by (metis sum.inject(2))

lemma digit_graphic: "is_digit c \<Longrightarrow> graphic c"
  by (simp add: is_digit_def graphic_def)

lemma show_int_graphic: "c \<in> set (show_int z) \<Longrightarrow> graphic c"
  using show_int_chars [of c z] by (auto simp: digit_graphic) (simp add: graphic_def)

lemma trim_space_show_int [simp]: "trim_space (show_int z) = show_int z"
  by (rule trim_space_graphic) (simp_all add: show_int_graphic [of _ z])

section \<open>Counting runes\<close>

text \<open>
  The length in bytes of the first rune: the ranges of a well-formed UTF-8 sequence, and 1 for
  an invalid byte, which Go counts as one rune (U+FFFD).
\<close>

definition cont :: "nat \<Rightarrow> bool" where
  "cont b \<longleftrightarrow> 128 \<le> b \<and> b \<le> 191"

fun rune_width :: "nat list \<Rightarrow> nat" where
  "rune_width (a # b # c # d # _) =
     (if a < 128 then 1
      else if 194 \<le> a \<and> a \<le> 223 \<and> cont b then 2
      else if (a = 224 \<and> 160 \<le> b \<and> b \<le> 191 \<or> a = 237 \<and> 128 \<le> b \<and> b \<le> 159
               \<or> 225 \<le> a \<and> a \<le> 239 \<and> a \<noteq> 237 \<and> cont b) \<and> cont c then 3
      else if (a = 240 \<and> 144 \<le> b \<and> b \<le> 191 \<or> 241 \<le> a \<and> a \<le> 243 \<and> cont b
               \<or> a = 244 \<and> 128 \<le> b \<and> b \<le> 143) \<and> cont c \<and> cont d then 4
      else 1)"
| "rune_width [a, b, c] =
     (if a < 128 then 1
      else if 194 \<le> a \<and> a \<le> 223 \<and> cont b then 2
      else if (a = 224 \<and> 160 \<le> b \<and> b \<le> 191 \<or> a = 237 \<and> 128 \<le> b \<and> b \<le> 159
               \<or> 225 \<le> a \<and> a \<le> 239 \<and> a \<noteq> 237 \<and> cont b) \<and> cont c then 3
      else 1)"
| "rune_width [a, b] = (if 194 \<le> a \<and> a \<le> 223 \<and> cont b then 2 else 1)"
| "rune_width _ = 1"

lemma rune_width_pos: "0 < rune_width bs"
  by (induction bs rule: rune_width.induct) auto

function rune_count_bytes :: "nat list \<Rightarrow> nat" where
  "rune_count_bytes bs = (if bs = [] then 0 else Suc (rune_count_bytes (drop (rune_width bs) bs)))"
  by pat_completeness auto
termination
proof (relation "measure length")
  fix bs :: "nat list"
  assume "bs \<noteq> []"
  with rune_width_pos [of bs] show "(drop (rune_width bs) bs, bs) \<in> measure length"
    by (cases bs) auto
qed simp

declare rune_count_bytes.simps [simp del]

definition rune_count :: "string \<Rightarrow> nat" where
  "rune_count s = rune_count_bytes (map of_char s)"

lemma rune_count_le_length: "rune_count s \<le> length s"
proof -
  have "rune_count_bytes bs \<le> length bs" for bs
  proof (induction bs rule: rune_count_bytes.induct)
    case (1 bs)
    show ?case
    proof (cases "bs = []")
      case False
      with "1.IH" have "rune_count_bytes (drop (rune_width bs) bs) \<le> length bs - rune_width bs"
        by simp
      with False rune_width_pos [of bs] show ?thesis
        by (subst rune_count_bytes.simps) (cases bs, auto)
    qed (simp add: rune_count_bytes.simps)
  qed
  from this [of "map of_char s"] show ?thesis by (simp add: rune_count_def)
qed

lemma rune_width_ascii: "a < 128 \<Longrightarrow> rune_width (a # bs) = 1"
  by (cases "a # bs" rule: rune_width.cases) auto

lemma rune_count_ascii: "ascii_str s \<Longrightarrow> rune_count s = length s"
  unfolding rune_count_def
  by (induction s) (simp_all add: rune_count_bytes.simps rune_width_ascii)

lemma rune_count_Nil [simp]: "rune_count [] = 0"
  by (simp add: rune_count_def rune_count_bytes.simps)

text \<open>\<open>[]rune(s)\<close>, each rune as its encoding; an invalid byte becomes U+FFFD.\<close>

function rune_list :: "string \<Rightarrow> string list" where
  "rune_list s =
     (if s = [] then []
      else let w = rune_width (map of_char s)
           in (if w = 1 \<and> byte (hd s) \<ge> 128 then [CHR 0xEF, CHR 0xBF, CHR 0xBD] else take w s)
              # rune_list (drop w s))"
  by pat_completeness auto
termination
proof (relation "measure length")
  fix s :: string and w
  assume "s \<noteq> []" "w = rune_width (map of_char s)"
  with rune_width_pos [of "map of_char s"] show "(drop w s, s) \<in> measure length"
    by (cases s) auto
qed simp

declare rune_list.simps [simp del]

text \<open>\<open>string([]rune(s)[n:])\<close>; the code uses it on paths that have the first \<open>n\<close> runes.\<close>

definition drop_runes :: "nat \<Rightarrow> string \<Rightarrow> string" where
  "drop_runes n s = concat (drop n (rune_list s))"

lemma rune_list_ascii: "ascii_str s \<Longrightarrow> rune_list s = map (\<lambda>c. [c]) s"
proof (induction s)
  case (Cons c s)
  then show ?case by (subst rune_list.simps) (simp add: rune_width_ascii Let_def)
qed (simp add: rune_list.simps)

lemma drop_runes_ascii: "ascii_str s \<Longrightarrow> drop_runes n s = drop n s"
  by (simp add: drop_runes_def rune_list_ascii drop_map concat_map_singleton)

section \<open>Hexadecimal\<close>

text \<open>\<open>hex.EncodeToString\<close> and \<open>hex.DecodeString\<close> (which reads both letter cases).\<close>

definition hex_digit :: "nat \<Rightarrow> char" where
  "hex_digit d = (if d < 10 then char_of (48 + d) else char_of (87 + d))"

definition hex_value :: "char \<Rightarrow> nat option" where
  "hex_value c =
     (let b = byte c in
      if 48 \<le> b \<and> b \<le> 57 then Some (b - 48)
      else if 97 \<le> b \<and> b \<le> 102 then Some (b - 87)
      else if 65 \<le> b \<and> b \<le> 70 then Some (b - 55)
      else None)"

fun hex_encode :: "string \<Rightarrow> string" where
  "hex_encode [] = []"
| "hex_encode (c # cs) = hex_digit (byte c div 16) # hex_digit (byte c mod 16) # hex_encode cs"

fun hex_decode :: "string \<Rightarrow> string option" where
  "hex_decode [] = Some []"
| "hex_decode [_] = None"
| "hex_decode (a # b # cs) =
     (case (hex_value a, hex_value b, hex_decode cs) of
        (Some x, Some y, Some r) \<Rightarrow> Some (char_of (16 * x + y) # r)
      | _ \<Rightarrow> None)"

lemma hex_value_digit [simp]: "d < 16 \<Longrightarrow> hex_value (hex_digit d) = Some d"
  by (auto simp: hex_value_def hex_digit_def Let_def)

lemma hex_decode_encode [simp]: "hex_decode (hex_encode s) = Some s"
proof (induction s)
  case (Cons c cs)
  have "byte c div 16 < 16" by (rule less_mult_imp_div_less) (simp add: byte_less_256)
  moreover have "16 * (byte c div 16) + byte c mod 16 = byte c" by simp
  ultimately show ?case using Cons by (simp del: mult_div_mod_eq)
qed simp

lemma length_hex_encode [simp]: "length (hex_encode s) = 2 * length s"
  by (induction s) auto

lemma hex_encode_inject: "hex_encode s = hex_encode t \<longleftrightarrow> s = t"
  by (metis hex_decode_encode option.inject)

lemma hex_digit_graphic: "d < 16 \<Longrightarrow> graphic (hex_digit d)"
  by (auto simp: hex_digit_def graphic_def)

end
