(* ===== verification/Durations.thy ===== *)
theory Durations
  imports Go_Conv
begin

text \<open>
  \<open>ParseDuration\<close> of the command line (\<open>src/src/cli/duration.go\<close>): a sequence of numbers with a
  unit (m, h, d, w), spaces ignored, summed with 64-bit wrap-around and scaled to nanoseconds.
\<close>

section \<open>The code\<close>

datatype duration_error = Invalid_format string

definition unit_seconds :: "char \<Rightarrow> int option" where
  "unit_seconds c =
     (if c = CHR ''m'' then Some 60
      else if c = CHR ''h'' then Some (60 * 60)
      else if c = CHR ''d'' then Some (60 * 60 * 24)
      else if c = CHR ''w'' then Some (60 * 60 * 24 * 7)
      else None)"

text \<open>
  The loop over the characters with its variables \<open>out\<close> and \<open>tmp\<close>. A byte of a non-ASCII rune is
  neither a space, a digit nor a unit, so both orders of failing give the one error there is.
\<close>

fun duration_loop :: "string \<Rightarrow> int \<Rightarrow> string \<Rightarrow> string \<Rightarrow> duration_error + int" where
  "duration_loop whole out tmp [] = Inr (int64 (out * 1000000000))"
| "duration_loop whole out tmp (c # cs) =
     (if c = CHR '' '' then duration_loop whole out tmp cs
      else if is_digit c then duration_loop whole out (tmp @ [c]) cs
      else (case parse_int tmp of
          Inl _ \<Rightarrow> Inl (Invalid_format whole)
        | Inr val \<Rightarrow> (case unit_seconds c of
            None \<Rightarrow> Inl (Invalid_format whole)
          | Some u \<Rightarrow> duration_loop whole (int64 (out + int64 (val * u))) [] cs)))"

definition ParseDuration :: "string \<Rightarrow> duration_error + int" where
  "ParseDuration s = duration_loop s 0 [] s"

section \<open>Terms\<close>

text \<open>The format the function is meant to read: a list of counts with a unit.\<close>

definition valid_term :: "nat \<times> char \<Rightarrow> bool" where
  "valid_term nc \<longleftrightarrow> unit_seconds (snd nc) \<noteq> None \<and> in_int64 (int (fst nc))"

definition show_term :: "nat \<times> char \<Rightarrow> string" where
  "show_term nc = show_nat (fst nc) @ [snd nc]"

definition term_seconds :: "nat \<times> char \<Rightarrow> int" where
  "term_seconds nc = int (fst nc) * the (unit_seconds (snd nc))"

definition total_seconds :: "(nat \<times> char) list \<Rightarrow> int" where
  "total_seconds ts = sum_list (map term_seconds ts)"

definition show_terms :: "(nat \<times> char) list \<Rightarrow> string" where
  "show_terms ts = concat (map show_term ts)"

lemma unit_not_digit: "unit_seconds c = Some u \<Longrightarrow> \<not> is_digit c \<and> c \<noteq> CHR '' ''"
  by (auto simp: unit_seconds_def is_digit_def split: if_splits)

lemma duration_loop_digits:
  "\<forall>c \<in> set ds. is_digit c \<Longrightarrow>
     duration_loop w out tmp (ds @ s) = duration_loop w out (tmp @ ds) s"
proof (induction ds arbitrary: tmp)
  case (Cons c cs)
  then have "c \<noteq> CHR '' ''" by (auto simp: is_digit_def)
  with Cons show ?case by simp
qed simp

lemma parse_int_show_nat: "in_int64 (int n) \<Longrightarrow> parse_int (show_nat n) = Inr (int n)"
  using parse_int_show_int [of "int n"] by (simp add: show_int_def)

lemma duration_loop_term:
  assumes "valid_term nc"
  shows "duration_loop w out [] (show_term nc @ s) =
           duration_loop w (int64 (out + term_seconds nc)) [] s"
proof -
  obtain n c where nc: "nc = (n, c)" by fastforce
  from assms obtain u where u: "unit_seconds c = Some u" and n: "in_int64 (int n)"
    by (auto simp: nc valid_term_def)
  have "duration_loop w out [] (show_nat n @ (c # s)) =
          duration_loop w out (show_nat n) (c # s)"
    using duration_loop_digits [of "show_nat n" w out "[]" "c # s"] show_nat_digits [of _ n]
    by (metis append_Nil)
  with unit_not_digit [OF u] show ?thesis
    by (simp add: nc show_term_def term_seconds_def u parse_int_show_nat n)
qed

lemma duration_loop_terms:
  "\<forall>nc \<in> set ts. valid_term nc \<Longrightarrow>
     duration_loop w (int64 out) [] (show_terms ts @ s) =
       duration_loop w (int64 (out + total_seconds ts)) [] s"
proof (induction ts arbitrary: out)
  case Nil
  then show ?case by (simp add: show_terms_def total_seconds_def)
next
  case (Cons nc ts)
  then show ?case
    by (simp add: show_terms_def total_seconds_def duration_loop_term add.assoc)
qed

lemma duration_loop_whole:
  "duration_loop w out tmp s = Inr d \<Longrightarrow> duration_loop w' out tmp s = Inr d"
  by (induction s arbitrary: out tmp) (auto split: if_splits sum.splits option.splits)

lemma duration_loop_spaces:
  "duration_loop w out tmp (filter (\<lambda>c. c \<noteq> CHR '' '') s) = duration_loop w out tmp s"
  by (induction s arbitrary: out tmp) (auto split: sum.splits option.splits)

section \<open>Properties\<close>

text \<open>
  A duration written as a list of counts with units, followed by nothing or by a last number
  without a unit, parses to the sum of the terms in nanoseconds, wrapped to 64 bits: the
  trailing number is dropped without an error.
\<close>

theorem ParseDuration_terms:
  assumes "\<forall>nc \<in> set ts. valid_term nc" and "\<forall>c \<in> set trailing. is_digit c"
  shows "ParseDuration (show_terms ts @ trailing) = Inr (int64 (total_seconds ts * 1000000000))"
proof -
  have "ParseDuration (show_terms ts @ trailing) =
      duration_loop (show_terms ts @ trailing) (int64 (total_seconds ts)) [] trailing"
    using duration_loop_terms [OF assms(1), of _ 0 trailing]
    by (simp add: ParseDuration_def int64_id in_int64_def int64_min_def int64_max_def)
  also have "\<dots> = Inr (int64 (total_seconds ts * 1000000000))"
    using duration_loop_digits [OF assms(2), of _ _ "[]" "[]"] by simp
  finally show ?thesis .
qed

theorem ParseDuration_terms_witness:
  "ParseDuration (show_terms [(1, CHR ''h''), (1, CHR ''d'')] @ ''90'') = Inr 90000000000000"
proof -
  have "\<forall>nc \<in> set [(1, CHR ''h''), (1, CHR ''d'')]. valid_term nc"
    by (simp add: valid_term_def unit_seconds_def in_int64_def int64_min_def int64_max_def)
  moreover have "\<forall>c \<in> set ''90''. is_digit c" by (simp add: is_digit_def)
  ultimately have "ParseDuration (show_terms [(1, CHR ''h''), (1, CHR ''d'')] @ ''90'') =
      Inr (int64 (total_seconds [(1, CHR ''h''), (1, CHR ''d'')] * 1000000000))"
    by (rule ParseDuration_terms)
  then show ?thesis
    by (simp add: total_seconds_def term_seconds_def unit_seconds_def int64_def)
qed

text \<open>
  Spaces anywhere in the text, inside a number too, do not change the duration read.
\<close>

theorem ParseDuration_spaces:
  "ParseDuration s = Inr d \<longleftrightarrow> ParseDuration (filter (\<lambda>c. c \<noteq> CHR '' '') s) = Inr d"
  unfolding ParseDuration_def
  by (metis duration_loop_spaces duration_loop_whole)

end
