(* ===== verification/Rate_Limit.thy ===== *)
theory Rate_Limit
  imports Prelude
begin

text \<open>
  The per-client rate limiter of package \<open>netshare\<close> (\<open>src/src/netshare/ratelimit.go\<close>): a fixed
  window per client that opens with the first request and counts the requests in it, a worker
  that drops expired windows, and the system of a 5 minute, a 15 minute and a 1 hour limiter.
  Every operation runs under the limiter's lock, so an interleaving of goroutines is a sequence
  of events. Times are Unix seconds from the system clock, far below the 64-bit range.
\<close>

section \<open>The code\<close>

record rate_limit_ip =
  use_time :: int
  use_count :: nat

record rate_limit =
  limit_period :: int
  limit_count :: nat
  bucket :: "string \<Rightarrow> rate_limit_ip option"

definition NewRateLimit :: "int \<Rightarrow> nat \<Rightarrow> rate_limit" where
  "NewRateLimit period count = \<lparr>limit_period = period, limit_count = count, bucket = Map.empty\<rparr>"

text \<open>A Go map read of a missing key gives the zero value.\<close>

definition entry :: "rate_limit \<Rightarrow> string \<Rightarrow> rate_limit_ip" where
  "entry rl ip = (case bucket rl ip of None \<Rightarrow> \<lparr>use_time = 0, use_count = 0\<rparr> | Some d \<Rightarrow> d)"

definition CheckAndUse :: "rate_limit \<Rightarrow> string \<Rightarrow> int \<Rightarrow> int \<times> rate_limit" where
  "CheckAndUse rl ip timeNow =
     (if limit_count rl = 0 then (0, rl)
      else if use_time (entry rl ip) + limit_period rl \<le> timeNow
        then (0, rl\<lparr>bucket := (bucket rl)(ip \<mapsto> \<lparr>use_time = timeNow, use_count = 1\<rparr>)\<rparr>)
      else if use_count (entry rl ip) < limit_count rl
        then (0, rl\<lparr>bucket := (bucket rl)(ip \<mapsto>
                 (entry rl ip)\<lparr>use_count := use_count (entry rl ip) + 1\<rparr>)\<rparr>)
      else (use_time (entry rl ip) + limit_period rl - timeNow, rl))"

text \<open>One round of \<open>runWorker\<close>, with the time it read before taking the lock.\<close>

definition sweep :: "rate_limit \<Rightarrow> int \<Rightarrow> rate_limit" where
  "sweep rl timeNow = rl\<lparr>bucket := (\<lambda>ip. case bucket rl ip of
       None \<Rightarrow> None
     | Some d \<Rightarrow> if use_time d + limit_period rl \<le> timeNow then None else Some d)\<rparr>"

record rate_limit_system =
  per5Min :: rate_limit
  per15Min :: rate_limit
  per1Hour :: rate_limit

definition NewRateLimitSystem :: "nat \<Rightarrow> nat \<Rightarrow> nat \<Rightarrow> rate_limit_system" where
  "NewRateLimitSystem n5 n15 n60 =
     \<lparr>per5Min = NewRateLimit (5 * 60) n5,
      per15Min = NewRateLimit (15 * 60) n15,
      per1Hour = NewRateLimit (60 * 60) n60\<rparr>"

text \<open>
  The system's check; the first component is \<open>0\<close> for a nil error and otherwise the
  \<open>RetryAfter\<close> of the \<open>RateLimitError\<close>.
\<close>

definition CheckAndUseSystem ::
    "rate_limit_system \<Rightarrow> string \<Rightarrow> int \<Rightarrow> int \<times> rate_limit_system" where
  "CheckAndUseSystem s ip timeNow =
     (let (tmp, l5) = CheckAndUse (per5Min s) ip timeNow; s = s\<lparr>per5Min := l5\<rparr> in
      if tmp \<noteq> 0 then (tmp, s)
      else let (tmp, l15) = CheckAndUse (per15Min s) ip timeNow; s = s\<lparr>per15Min := l15\<rparr> in
      if tmp \<noteq> 0 then (tmp, s)
      else let (tmp, l60) = CheckAndUse (per1Hour s) ip timeNow; s = s\<lparr>per1Hour := l60\<rparr> in
      if tmp \<noteq> 0 then (tmp, s)
      else (0, s))"

section \<open>Runs\<close>

datatype rl_event = Request string int | Sweep int

fun responses :: "rate_limit \<Rightarrow> rl_event list \<Rightarrow> (string \<times> int \<times> int) list" where
  "responses rl [] = []"
| "responses rl (Request ip t # es) =
     (ip, t, fst (CheckAndUse rl ip t)) # responses (snd (CheckAndUse rl ip t)) es"
| "responses rl (Sweep t # es) = responses (sweep rl t) es"

fun event_time :: "rl_event \<Rightarrow> int" where
  "event_time (Request _ t) = t"
| "event_time (Sweep t) = t"

fun is_request :: "rl_event \<Rightarrow> bool" where
  "is_request (Request _ _) = True"
| "is_request (Sweep _) = False"

text \<open>
  The clock is read under the lock by requests, so their times do not decrease; the worker reads
  it before locking, so a sweep only knows a time no later than the following requests'.
\<close>

definition timed :: "rl_event list \<Rightarrow> bool" where
  "timed es \<longleftrightarrow> sorted_wrt (\<lambda>a b. is_request b \<longrightarrow> event_time a \<le> event_time b) es
     \<and> (\<forall>e \<in> set es. 0 \<le> event_time e)"

definition granted :: "string \<Rightarrow> int \<Rightarrow> int \<Rightarrow> (string \<times> int \<times> int) list \<Rightarrow> nat" where
  "granted ip w p rs = length (filter (\<lambda>(i, t, r). i = ip \<and> w \<le> t \<and> t < w + p \<and> r = 0) rs)"

lemma granted_Nil [simp]: "granted ip w p [] = 0"
  by (simp add: granted_def)

lemma granted_Cons [simp]:
  "granted ip w p ((i, t, r) # rs) =
     (if i = ip \<and> w \<le> t \<and> t < w + p \<and> r = 0 then 1 else 0) + granted ip w p rs"
  by (simp add: granted_def)

lemma timed_Cons:
  "timed (e # es) \<longleftrightarrow> timed es \<and> 0 \<le> event_time e
     \<and> (\<forall>b \<in> set es. is_request b \<longrightarrow> event_time e \<le> event_time b)"
  by (auto simp: timed_def)

section \<open>What the operations do to an entry\<close>

definition rl_ok :: "rate_limit \<Rightarrow> bool" where
  "rl_ok rl \<longleftrightarrow> 0 < limit_period rl
     \<and> (\<forall>ip. 0 \<le> use_time (entry rl ip)
          \<and> (limit_count rl \<noteq> 0 \<longrightarrow> use_count (entry rl ip) \<le> limit_count rl))"

lemma CheckAndUse_frame [simp]:
  "limit_period (snd (CheckAndUse rl ip t)) = limit_period rl"
  "limit_count (snd (CheckAndUse rl ip t)) = limit_count rl"
  by (simp_all add: CheckAndUse_def)

lemma sweep_frame [simp]:
  "limit_period (sweep rl t) = limit_period rl"
  "limit_count (sweep rl t) = limit_count rl"
  by (simp_all add: sweep_def)

lemma entry_update [simp]:
  "entry (rl\<lparr>bucket := (bucket rl)(ip \<mapsto> d)\<rparr>) ip' = (if ip' = ip then d else entry rl ip')"
  by (simp add: entry_def)

lemma entry_other: "ip' \<noteq> ip \<Longrightarrow> entry (snd (CheckAndUse rl ip t)) ip' = entry rl ip'"
  by (simp add: CheckAndUse_def)

lemma entry_sweep:
  "entry (sweep rl t) ip =
     (if use_time (entry rl ip) + limit_period rl \<le> t then \<lparr>use_time = 0, use_count = 0\<rparr>
      else entry rl ip)"
  by (simp add: entry_def sweep_def split: option.splits)

lemma rl_ok_New [simp]: "0 < p \<Longrightarrow> rl_ok (NewRateLimit p n)"
  by (simp add: rl_ok_def NewRateLimit_def entry_def)

lemma rl_ok_CheckAndUse: "rl_ok rl \<Longrightarrow> 0 \<le> t \<Longrightarrow> rl_ok (snd (CheckAndUse rl ip t))"
  by (auto simp: rl_ok_def CheckAndUse_def)

lemma rl_ok_sweep: "rl_ok rl \<Longrightarrow> rl_ok (sweep rl t)"
  by (auto simp: rl_ok_def entry_sweep)

lemma CheckAndUse_retry_nonneg: "0 \<le> fst (CheckAndUse rl ip t)"
  by (simp add: CheckAndUse_def)

lemma CheckAndUse_refused:
  "fst (CheckAndUse rl ip t) \<noteq> 0 \<Longrightarrow> snd (CheckAndUse rl ip t) = rl"
  by (auto simp: CheckAndUse_def split: if_splits)

section \<open>The limiter interface\<close>

text \<open>
  What the handlers rely on: a check never answers a negative wait, keeps the limiter well formed
  and leaves it unchanged when it refuses.
\<close>

locale limiter =
  fixes check :: "'s \<Rightarrow> string \<Rightarrow> int \<Rightarrow> int \<times> 's" and ok :: "'s \<Rightarrow> bool"
  assumes ok_check: "ok s \<Longrightarrow> 0 \<le> t \<Longrightarrow> ok (snd (check s ip t))"
    and retry_nonneg: "ok s \<Longrightarrow> 0 \<le> fst (check s ip t)"
begin

lemma ok_fold: "ok s \<Longrightarrow> \<forall>(ip, t) \<in> set reqs. 0 \<le> t \<Longrightarrow>
    ok (fold (\<lambda>(ip, t) s. snd (check s ip t)) reqs s)"
  by (induction reqs arbitrary: s) (auto simp: ok_check)

lemma retry_pos: "ok s \<Longrightarrow> fst (check s ip t) \<noteq> 0 \<Longrightarrow> 0 < fst (check s ip t)"
  using retry_nonneg [of s ip t] by linarith

end

text \<open>An honest limiter grants the request that waited as long as it was told to.\<close>

locale honest_limiter = limiter +
  assumes refused_same: "ok s \<Longrightarrow> fst (check s ip t) \<noteq> 0 \<Longrightarrow> snd (check s ip t) = s"
    and honest: "ok s \<Longrightarrow> fst (check s ip t) \<noteq> 0 \<Longrightarrow> fst (check s ip (t + fst (check s ip t))) = 0"
begin

lemma waiting_works:
  assumes "ok s" and "fst (check s ip t) = r" and "r \<noteq> 0"
  shows "fst (check (snd (check s ip t)) ip (t + r)) = 0"
  using assms refused_same honest by metis

end

interpretation window: honest_limiter CheckAndUse rl_ok
proof
  fix rl :: rate_limit and ip :: string and t :: int
  assume "rl_ok rl"
  show "fst (CheckAndUse rl ip t) \<noteq> 0 \<Longrightarrow> fst (CheckAndUse rl ip (t + fst (CheckAndUse rl ip t))) = 0"
    by (auto simp: CheckAndUse_def split: if_splits)
qed (auto intro: rl_ok_CheckAndUse CheckAndUse_retry_nonneg dest: CheckAndUse_refused)

definition system_ok :: "rate_limit_system \<Rightarrow> bool" where
  "system_ok s \<longleftrightarrow> rl_ok (per5Min s) \<and> rl_ok (per15Min s) \<and> rl_ok (per1Hour s)"

lemma CheckAndUseSystem_steps:
  "CheckAndUseSystem s ip t =
     (let c5 = CheckAndUse (per5Min s) ip t;
          c15 = CheckAndUse (per15Min s) ip t;
          c60 = CheckAndUse (per1Hour s) ip t
      in if fst c5 \<noteq> 0 then (fst c5, s\<lparr>per5Min := snd c5\<rparr>)
         else if fst c15 \<noteq> 0 then (fst c15, s\<lparr>per5Min := snd c5, per15Min := snd c15\<rparr>)
         else (fst c60, s\<lparr>per5Min := snd c5, per15Min := snd c15, per1Hour := snd c60\<rparr>))"
  by (simp add: CheckAndUseSystem_def Let_def case_prod_beta)

interpretation stack: limiter CheckAndUseSystem system_ok
  by unfold_locales
    (simp_all add: CheckAndUseSystem_steps system_ok_def Let_def window.ok_check window.retry_nonneg)

section \<open>How many requests a window grants\<close>

lemma granted_outside:
  assumes "\<forall>e \<in> set es. is_request e \<longrightarrow> w + p \<le> event_time e"
  shows "granted ip w p (responses rl es) = 0"
  using assms by (induction rl es rule: responses.induct) auto

lemma timed_reach:
  "timed (e # es) \<Longrightarrow> b \<le> event_time e \<Longrightarrow> \<forall>e' \<in> set es. is_request e' \<longrightarrow> b \<le> event_time e'"
  by (auto simp: timed_Cons)

text \<open>Inside the window an entry opened at \<open>u \<ge> w\<close> still grants what is left of its count.\<close>

lemma granted_open_entry:
  assumes "timed es" and "limit_count rl \<noteq> 0"
    and "w \<le> use_time (entry rl ip)" and "use_count (entry rl ip) \<le> limit_count rl"
  shows "granted ip w (limit_period rl) (responses rl es)
           \<le> limit_count rl - use_count (entry rl ip)"
  using assms
proof (induction rl es rule: responses.induct)
  case (2 rl i t es)
  let ?p = "limit_period rl" and ?u = "use_time (entry rl ip)" and ?rl' = "snd (CheckAndUse rl i t)"
  have tm: "timed es" using "2.prems" by (simp add: timed_Cons)
  consider "i \<noteq> ip" | "i = ip" "t < ?u + ?p" | "i = ip" "?u + ?p \<le> t" by linarith
  then show ?case
  proof cases
    case 1
    with "2.IH" [OF tm] "2.prems" show ?thesis by (simp add: entry_other)
  next
    case 2
    with "2.IH" [OF tm] "2.prems" show ?thesis by (auto simp: CheckAndUse_def)
  next
    case 3
    then have "w + ?p \<le> t" using "2.prems" by simp
    with "2.prems" have "granted ip w ?p (responses ?rl' es) = 0"
      by (intro granted_outside timed_reach [of "Request i t"]) auto
    with \<open>w + ?p \<le> t\<close> show ?thesis by simp
  qed
next
  case (3 rl t es)
  have tm: "timed es" using "3.prems" by (simp add: timed_Cons)
  show ?case
  proof (cases "use_time (entry rl ip) + limit_period rl \<le> t")
    case True
    with "3.prems" have "granted ip w (limit_period rl) (responses (sweep rl t) es) = 0"
      by (intro granted_outside timed_reach [of "Sweep t"]) auto
    then show ?thesis by simp
  next
    case False
    with "3.IH" [OF tm] "3.prems" show ?thesis by (simp add: entry_sweep)
  qed
qed simp

lemma granted_after_open:
  assumes "timed (Request ip t # es)" and "limit_count rl \<noteq> 0" and "w \<le> t"
    and "use_time (entry rl ip) + limit_period rl \<le> t"
  shows "granted ip w (limit_period rl) (responses (snd (CheckAndUse rl ip t)) es)
           \<le> limit_count rl - 1"
  using granted_open_entry [of es "snd (CheckAndUse rl ip t)" w ip] assms
  by (simp add: timed_Cons CheckAndUse_def)

text \<open>From the start of the window on, an expired entry allows one full count.\<close>

lemma granted_expired_entry:
  assumes "timed es" and "rl_ok rl" and "limit_count rl \<noteq> 0"
    and "\<forall>e \<in> set es. is_request e \<longrightarrow> w \<le> event_time e"
    and "\<forall>e \<in> set es. is_request e \<longrightarrow> use_time (entry rl ip) + limit_period rl \<le> event_time e"
  shows "granted ip w (limit_period rl) (responses rl es) \<le> limit_count rl"
  using assms
proof (induction rl es rule: responses.induct)
  case (2 rl i t es)
  have tm: "timed es" and t: "0 \<le> t" using "2.prems" by (simp_all add: timed_Cons)
  show ?case
  proof (cases "i = ip")
    case True
    with granted_after_open [of ip t es rl w] "2.prems" show ?thesis by auto
  next
    case False
    with "2.IH" [OF tm] "2.prems" t show ?thesis by (simp add: entry_other rl_ok_CheckAndUse)
  qed
next
  case (3 rl t es)
  have tm: "timed es" using "3.prems" by (simp add: timed_Cons)
  have "0 \<le> use_time (entry rl ip)" using "3.prems" by (simp add: rl_ok_def)
  then have "\<forall>e \<in> set es. is_request e \<longrightarrow>
      use_time (entry (sweep rl t) ip) + limit_period rl \<le> event_time e"
    using "3.prems"(5) by (fastforce simp: entry_sweep)
  with "3.IH" [OF tm] "3.prems" show ?case by (simp add: rl_ok_sweep)
qed simp

lemma granted_from_start:
  assumes "timed es" and "rl_ok rl" and "limit_count rl \<noteq> 0"
    and "\<forall>e \<in> set es. is_request e \<longrightarrow> w \<le> event_time e"
  shows "granted ip w (limit_period rl) (responses rl es)
           \<le> (limit_count rl - use_count (entry rl ip)) + limit_count rl"
  using assms
proof (induction rl es rule: responses.induct)
  case (2 rl i t es)
  have tm: "timed es" and t: "0 \<le> t" using "2.prems" by (simp_all add: timed_Cons)
  have IH: "granted ip w (limit_period rl) (responses (snd (CheckAndUse rl i t)) es)
      \<le> (limit_count rl - use_count (entry (snd (CheckAndUse rl i t)) ip)) + limit_count rl"
    using "2.IH" [OF tm] "2.prems" t by (simp add: rl_ok_CheckAndUse)
  consider "i \<noteq> ip" | "i = ip" "use_time (entry rl ip) + limit_period rl \<le> t"
    | "i = ip" "t < use_time (entry rl ip) + limit_period rl" by linarith
  then show ?case
  proof cases
    case 1
    with IH show ?thesis by (simp add: entry_other)
  next
    case 2
    with granted_after_open [of ip t es rl w] "2.prems" show ?thesis by auto
  next
    case 3
    with IH "2.prems"(3) show ?thesis by (auto simp: CheckAndUse_def)
  qed
next
  case (3 rl t es)
  have tm: "timed es" using "3.prems" by (simp add: timed_Cons)
  show ?case
  proof (cases "use_time (entry rl ip) + limit_period rl \<le> t")
    case True
    moreover have "0 \<le> use_time (entry rl ip)" using "3.prems" by (simp add: rl_ok_def)
    ultimately have "\<forall>e \<in> set es. is_request e \<longrightarrow>
        use_time (entry (sweep rl t) ip) + limit_period rl \<le> event_time e"
      using timed_reach [OF "3.prems"(1), of "limit_period rl"] by (simp add: entry_sweep)
    with granted_expired_entry [OF tm, of "sweep rl t" w ip] "3.prems" show ?thesis
      by (simp add: rl_ok_sweep)
  next
    case False
    with "3.IH" [OF tm] "3.prems" show ?thesis by (simp add: entry_sweep rl_ok_sweep)
  qed
qed simp

lemma granted_bound:
  assumes "timed es" and "rl_ok rl" and "limit_count rl \<noteq> 0"
  shows "granted ip w (limit_period rl) (responses rl es) \<le> 2 * limit_count rl"
  using assms
proof (induction rl es rule: responses.induct)
  case (2 rl i t es)
  have tm: "timed es" and t: "0 \<le> t" using "2.prems" by (simp_all add: timed_Cons)
  show ?case
  proof (cases "w \<le> t")
    case True
    then have "\<forall>e \<in> set (Request i t # es). is_request e \<longrightarrow> w \<le> event_time e"
      using "2.prems"(1) by (auto simp: timed_Cons)
    from granted_from_start [OF "2.prems" this] show ?thesis by (rule order_trans) simp
  next
    case False
    with "2.IH" [OF tm] "2.prems" t show ?thesis by (simp add: rl_ok_CheckAndUse)
  qed
next
  case (3 rl t es)
  then show ?case by (simp add: timed_Cons rl_ok_sweep)
qed simp

lemma granted_bound_New:
  "timed es \<Longrightarrow> 0 < p \<Longrightarrow> n \<noteq> 0 \<Longrightarrow>
     granted ip w p (responses (NewRateLimit p n) es) \<le> 2 * n"
  using granted_bound [of es "NewRateLimit p n" ip w] rl_ok_New [of p n]
  by (simp add: NewRateLimit_def)

section \<open>The worker does not change any answer\<close>

text \<open>Two limiters that differ only in entries expired for every request still to come.\<close>

definition same_answers :: "rl_event list \<Rightarrow> rate_limit \<Rightarrow> rate_limit \<Rightarrow> bool" where
  "same_answers es a b \<longleftrightarrow> limit_period a = limit_period b \<and> limit_count a = limit_count b
     \<and> (\<forall>ip. entry a ip = entry b ip
          \<or> (\<forall>e \<in> set es. is_request e \<longrightarrow>
               use_time (entry a ip) + limit_period a \<le> event_time e
               \<and> use_time (entry b ip) + limit_period b \<le> event_time e))"

lemma same_answers_check:
  assumes "same_answers (Request i t # es) a b"
  shows "fst (CheckAndUse a i t) = fst (CheckAndUse b i t)
       \<and> same_answers es (snd (CheckAndUse a i t)) (snd (CheckAndUse b i t))"
proof -
  have eq: "limit_period a = limit_period b" "limit_count a = limit_count b"
    using assms by (simp_all add: same_answers_def)
  have own: "entry a i = entry b i \<or>
      use_time (entry a i) + limit_period a \<le> t \<and> use_time (entry b i) + limit_period b \<le> t"
    using assms by (auto simp: same_answers_def)
  then have "fst (CheckAndUse a i t) = fst (CheckAndUse b i t)"
    using eq by (auto simp: CheckAndUse_def)
  moreover have "same_answers es (snd (CheckAndUse a i t)) (snd (CheckAndUse b i t))"
  proof (cases "limit_count a = 0")
    case True
    with assms eq show ?thesis by (auto simp: same_answers_def CheckAndUse_def)
  next
    case False
    then have "entry (snd (CheckAndUse a i t)) i = entry (snd (CheckAndUse b i t)) i"
      using own eq by (auto simp: CheckAndUse_def)
    moreover have "entry (snd (CheckAndUse a i t)) ip = entry a ip \<and>
        entry (snd (CheckAndUse b i t)) ip = entry b ip" if "ip \<noteq> i" for ip
      using that by (simp add: entry_other)
    moreover have "entry a ip = entry b ip \<or> (\<forall>e \<in> set es. is_request e \<longrightarrow>
        use_time (entry a ip) + limit_period a \<le> event_time e
        \<and> use_time (entry b ip) + limit_period b \<le> event_time e)" for ip
      using assms by (auto simp: same_answers_def)
    ultimately have "entry (snd (CheckAndUse a i t)) ip = entry (snd (CheckAndUse b i t)) ip \<or>
        (\<forall>e \<in> set es. is_request e \<longrightarrow>
          use_time (entry (snd (CheckAndUse a i t)) ip) + limit_period a \<le> event_time e
          \<and> use_time (entry (snd (CheckAndUse b i t)) ip) + limit_period b \<le> event_time e)" for ip
      by (cases "ip = i") (simp, metis)
    with eq show ?thesis unfolding same_answers_def CheckAndUse_frame by blast
  qed
  ultimately show ?thesis by blast
qed

lemma same_answers_sweep:
  assumes "timed (Sweep t # es)" and "rl_ok a" and "same_answers es a b"
  shows "same_answers es (sweep a t) b"
proof -
  have later: "\<forall>e \<in> set es. is_request e \<longrightarrow> t \<le> event_time e"
    using assms(1) by (simp add: timed_Cons)
  have eq: "limit_period a = limit_period b" "limit_count a = limit_count b"
    using assms(3) by (simp_all add: same_answers_def)
  have "entry (sweep a t) ip = entry b ip \<or> (\<forall>e \<in> set es. is_request e \<longrightarrow>
      use_time (entry (sweep a t) ip) + limit_period a \<le> event_time e
      \<and> use_time (entry b ip) + limit_period b \<le> event_time e)" for ip
  proof (cases "use_time (entry a ip) + limit_period a \<le> t")
    case True
    have "0 \<le> use_time (entry a ip)" using assms(2) by (simp add: rl_ok_def)
    with True later have "\<forall>e \<in> set es. is_request e \<longrightarrow>
        limit_period a \<le> event_time e \<and> use_time (entry a ip) + limit_period a \<le> event_time e"
      by force
    moreover have "entry a ip = entry b ip \<or> (\<forall>e \<in> set es. is_request e \<longrightarrow>
        use_time (entry b ip) + limit_period b \<le> event_time e)"
      using assms(3) by (auto simp: same_answers_def)
    ultimately show ?thesis using True eq by (auto simp: entry_sweep)
  next
    case False
    then have "entry (sweep a t) ip = entry a ip" by (simp add: entry_sweep)
    moreover have "entry a ip = entry b ip \<or> (\<forall>e \<in> set es. is_request e \<longrightarrow>
        use_time (entry a ip) + limit_period a \<le> event_time e
        \<and> use_time (entry b ip) + limit_period b \<le> event_time e)"
      using assms(3) unfolding same_answers_def by blast
    ultimately show ?thesis by simp
  qed
  with eq show ?thesis unfolding same_answers_def sweep_frame by blast
qed

lemma responses_without_sweeps:
  assumes "timed es" and "rl_ok a" and "same_answers es a b"
  shows "responses a es = responses b (filter is_request es)"
  using assms
proof (induction a es arbitrary: b rule: responses.induct)
  case (2 a i t es)
  then show ?case using same_answers_check [of i t es a b] by (simp add: timed_Cons rl_ok_CheckAndUse)
next
  case (3 a t es)
  from 3 have "same_answers es (sweep a t) b"
    by (intro same_answers_sweep) (auto simp: same_answers_def)
  with 3 show ?case by (simp add: timed_Cons rl_ok_sweep)
qed simp

section \<open>The system of three limiters\<close>

datatype tier = Tier5 | Tier15 | Tier60

fun tier_of :: "tier \<Rightarrow> rate_limit_system \<Rightarrow> rate_limit" where
  "tier_of Tier5 s = per5Min s"
| "tier_of Tier15 s = per15Min s"
| "tier_of Tier60 s = per1Hour s"

text \<open>A request to the system, or a round of the worker of one of its limiters.\<close>

datatype system_event = Sys_request string int | Sys_sweep tier int

fun sweep_tier :: "tier \<Rightarrow> int \<Rightarrow> rate_limit_system \<Rightarrow> rate_limit_system" where
  "sweep_tier Tier5 t s = s\<lparr>per5Min := sweep (per5Min s) t\<rparr>"
| "sweep_tier Tier15 t s = s\<lparr>per15Min := sweep (per15Min s) t\<rparr>"
| "sweep_tier Tier60 t s = s\<lparr>per1Hour := sweep (per1Hour s) t\<rparr>"

fun system_responses :: "rate_limit_system \<Rightarrow> system_event list \<Rightarrow> (string \<times> int \<times> int) list" where
  "system_responses s [] = []"
| "system_responses s (Sys_request ip t # es) =
     (ip, t, fst (CheckAndUseSystem s ip t)) # system_responses (snd (CheckAndUseSystem s ip t)) es"
| "system_responses s (Sys_sweep k t # es) = system_responses (sweep_tier k t s) es"

text \<open>The events one limiter of the system sees: a request reaches it only past the shorter ones.\<close>

fun reaches :: "tier \<Rightarrow> rate_limit_system \<Rightarrow> string \<Rightarrow> int \<Rightarrow> bool" where
  "reaches Tier5 s ip t = True"
| "reaches Tier15 s ip t = (fst (CheckAndUse (per5Min s) ip t) = 0)"
| "reaches Tier60 s ip t =
     (fst (CheckAndUse (per5Min s) ip t) = 0 \<and> fst (CheckAndUse (per15Min s) ip t) = 0)"

fun tier_events :: "tier \<Rightarrow> rate_limit_system \<Rightarrow> system_event list \<Rightarrow> rl_event list" where
  "tier_events k s [] = []"
| "tier_events k s (Sys_request ip t # es) =
     (if reaches k s ip t then [Request ip t] else [])
       @ tier_events k (snd (CheckAndUseSystem s ip t)) es"
| "tier_events k s (Sys_sweep j t # es) =
     (if j = k then [Sweep t] else []) @ tier_events k (sweep_tier j t s) es"

fun as_event :: "system_event \<Rightarrow> rl_event" where
  "as_event (Sys_request ip t) = Request ip t"
| "as_event (Sys_sweep k t) = Sweep t"

lemma tier_after_request:
  "tier_of k (snd (CheckAndUseSystem s ip t)) =
     (if reaches k s ip t then snd (CheckAndUse (tier_of k s) ip t) else tier_of k s)"
  by (cases k) (auto simp: CheckAndUseSystem_steps Let_def)

lemma tier_after_sweep:
  "tier_of k (sweep_tier j t s) = (if j = k then sweep (tier_of k s) t else tier_of k s)"
  by (cases j; cases k) simp_all

lemma system_grant_reaches:
  "fst (CheckAndUseSystem s ip t) = 0 \<Longrightarrow>
     reaches k s ip t \<and> fst (CheckAndUse (tier_of k s) ip t) = 0"
  by (cases k) (auto simp: CheckAndUseSystem_steps Let_def split: if_splits)

lemma system_granted_le_tier:
  "granted ip w p (system_responses s es)
     \<le> granted ip w p (responses (tier_of k s) (tier_events k s es))"
proof (induction s es rule: system_responses.induct)
  case (2 s i t es)
  then show ?case
    using system_grant_reaches [of s i t k] tier_after_request [of k s i t] by auto
next
  case (3 s j t es)
  then show ?case by (cases "j = k") (simp_all add: tier_after_sweep)
qed simp

lemma set_tier_events: "set (tier_events k s es) \<subseteq> as_event ` set es"
  by (induction k s es rule: tier_events.induct) auto

lemma timed_tier_events: "timed (map as_event es) \<Longrightarrow> timed (tier_events k s es)"
proof (induction k s es rule: tier_events.induct)
  case (2 k s ip t es)
  then show ?case using set_tier_events [of k "snd (CheckAndUseSystem s ip t)" es]
    by (fastforce simp: timed_Cons)
next
  case (3 k s j t es)
  then show ?case using set_tier_events [of k "sweep_tier j t s" es]
    by (fastforce simp: timed_Cons)
qed simp

section \<open>Properties\<close>

text \<open>
  C8: Whatever the requests of all clients and the rounds of the cleaning worker, a limiter of
  \<open>n\<close> requests per period grants one client at most \<open>2 * n\<close> requests in any interval of one
  period (a fixed window allows a burst on each side of its boundary, and no more).
\<close>

theorem any_window_bound:
  assumes "timed es" and "0 < p" and "n \<noteq> 0"
  shows "granted ip w p (responses (NewRateLimit p n) es) \<le> 2 * n"
  using assms by (rule granted_bound_New)

theorem any_window_bound_witness:
  "granted ''a'' 1000 300 (responses (NewRateLimit 300 1)
     [Request ''a'' 1000, Request ''a'' 1001, Sweep 1200, Request ''b'' 1250]) \<le> 2"
proof -
  have "timed [Request ''a'' 1000, Request ''a'' 1001, Sweep 1200, Request ''b'' 1250]"
    by (simp add: timed_def)
  from any_window_bound [OF this, of 300 1 "''a''" 1000] show ?thesis by simp
qed

text \<open>
  A limiter whose window for a client has expired grants that client at most \<open>n\<close> requests in
  the period that starts with the client's next request.
\<close>

theorem fresh_window_bound:
  assumes "timed (Request ip t # es)" and "limit_count rl \<noteq> 0"
    and "use_time (entry rl ip) + limit_period rl \<le> t"
  shows "granted ip t (limit_period rl) (responses rl (Request ip t # es)) \<le> limit_count rl"
  using granted_after_open [of ip t es rl t] assms by auto

theorem fresh_window_bound_witness:
  "granted ''a'' 1000 300 (responses (NewRateLimit 300 1) [Request ''a'' 1000, Request ''a'' 1001]) \<le> 1"
proof -
  have "timed [Request ''a'' 1000, Request ''a'' 1001]"
    by (simp add: timed_def)
  then show ?thesis
    using fresh_window_bound [of "''a''" 1000 "[Request ''a'' 1001]" "NewRateLimit 300 1"]
    by (simp add: NewRateLimit_def entry_def)
qed

text \<open>
  The background worker is invisible: in every run, each client gets the same answer to each
  request as if the worker had never removed an entry.
\<close>

theorem worker_invisible:
  assumes "timed es" and "0 < p"
  shows "responses (NewRateLimit p n) es = responses (NewRateLimit p n) (filter is_request es)"
  using assms by (intro responses_without_sweeps) (simp_all add: same_answers_def)

theorem worker_invisible_witness:
  "responses (NewRateLimit 60 1) [Request ''a'' 100, Sweep 170, Request ''a'' 171]
     = responses (NewRateLimit 60 1) [Request ''a'' 100, Request ''a'' 171]"
  using worker_invisible [of "[Request ''a'' 100, Sweep 170, Request ''a'' 171]" 60 1]
  by (simp add: timed_def)

text \<open>
  A single limiter is honest: a client refused with \<open>Retry-After\<close> r who waits r seconds and
  asks again is granted.
\<close>

theorem retry_after_honest:
  assumes "rl_ok rl" and "fst (CheckAndUse rl ip t) = r" and "r \<noteq> 0"
  shows "0 < r \<and> fst (CheckAndUse (snd (CheckAndUse rl ip t)) ip (t + r)) = 0"
  using window.waiting_works [OF assms] window.retry_pos [OF assms(1), of ip t] assms by simp

theorem retry_after_honest_witness:
  "fst (CheckAndUse (snd (CheckAndUse (snd (CheckAndUse (NewRateLimit 60 1) ''a'' 100)) ''a'' 110))
     ''a'' (110 + 50)) = 0"
proof -
  let ?rl = "snd (CheckAndUse (NewRateLimit 60 1) ''a'' 100)"
  have ok: "rl_ok ?rl" by (intro rl_ok_CheckAndUse rl_ok_New) simp_all
  have r: "fst (CheckAndUse ?rl ''a'' 110) = 50"
    by (simp add: CheckAndUse_def NewRateLimit_def entry_def)
  from retry_after_honest [OF ok r] show ?thesis by simp
qed

text \<open>
  The system of three limiters is not honest: a request refused by the 15 minute limiter has
  already used up the 5 minute limiter, so waiting the announced second is answered with a new
  refusal of almost 5 minutes.
\<close>

theorem system_retry_not_honest:
  "\<exists>s ip t r. system_ok s \<and> fst (CheckAndUseSystem s ip t) = r \<and> r = 1
     \<and> fst (CheckAndUseSystem (snd (CheckAndUseSystem s ip t)) ip (t + r)) = 299"
proof (intro exI conjI)
  let ?s = "snd (CheckAndUseSystem (NewRateLimitSystem 1 1 0) ''a'' 1000)"
  have "system_ok (NewRateLimitSystem 1 1 0)"
    by (simp add: system_ok_def NewRateLimitSystem_def)
  then show "system_ok ?s" by (rule stack.ok_check) simp
  show "fst (CheckAndUseSystem ?s ''a'' 1899) = 1"
    and "fst (CheckAndUseSystem (snd (CheckAndUseSystem ?s ''a'' 1899)) ''a'' (1899 + 1)) = 299"
    by (simp_all add: CheckAndUseSystem_steps Let_def CheckAndUse_def NewRateLimitSystem_def
        NewRateLimit_def entry_def)
qed simp

text \<open>
  The system grants a client, in any hour, at most twice its hourly limit, whatever the
  shorter limiters answer and whenever the three workers run.
\<close>

theorem system_hour_bound:
  assumes "timed (map as_event es)" and "n60 \<noteq> 0"
  shows "granted ip w 3600 (system_responses (NewRateLimitSystem n5 n15 n60) es) \<le> 2 * n60"
proof -
  let ?s = "NewRateLimitSystem n5 n15 n60"
  have "granted ip w 3600 (responses (tier_of Tier60 ?s) (tier_events Tier60 ?s es)) \<le> 2 * n60"
    using granted_bound_New [OF timed_tier_events [OF assms(1)], of 3600 n60] assms(2)
    by (simp add: NewRateLimitSystem_def)
  with system_granted_le_tier show ?thesis by (rule order_trans)
qed

theorem system_hour_bound_witness:
  "granted ''a'' 1000 3600 (system_responses (NewRateLimitSystem 5 10 20)
     [Sys_request ''a'' 1000, Sys_sweep Tier5 1100, Sys_request ''a'' 1200]) \<le> 40"
  using system_hour_bound [of "[Sys_request ''a'' 1000, Sys_sweep Tier5 1100, Sys_request ''a'' 1200]"
      20 "''a''" 1000 5 10]
  by (simp add: timed_def)

end
