(* ===== verification/Sql_Text.thy ===== *)
theory Sql_Text
  imports Go_Conv
begin

text \<open>
  The text side of package \<open>storage\<close> (\<open>src/src/storage/storage.go\<close>): the rewriting of numbered
  placeholders for MySQL, the per-driver fragments of the schema statements, and the path of the
  SQLite cache with the directory \<open>NewPool\<close> cuts from it.
\<close>

section \<open>Placeholders\<close>

text \<open>
  An argument is \<open>Some\<close> value, or \<open>None\<close> for a nil interface. The loop of \<open>normSQL\<close>: the rewritten
  query and the 0-based argument index of each placeholder, in the order they appear.
\<close>

definition starts_placeholder :: "char \<Rightarrow> string \<Rightarrow> bool" where
  "starts_placeholder c cs \<longleftrightarrow> c = CHR ''$'' \<and> cs \<noteq> [] \<and> 49 \<le> byte (hd cs) \<and> byte (hd cs) \<le> 57"

function norm_loop :: "string \<Rightarrow> string \<times> int list" where
  "norm_loop [] = ([], [])"
| "norm_loop (c # cs) =
     (if starts_placeholder c cs then
        (let n = atoi_value (takeWhile is_digit cs);
             (q, order) = norm_loop (dropWhile is_digit cs)
         in (CHR ''?'' # q, (n - 1) # order))
      else (let (q, order) = norm_loop cs in (c # q, order)))"
  by pat_completeness auto
termination
  by (relation "measure length") (auto simp: le_imp_less_Suc length_dropWhile_le)

definition normSQL :: "string \<Rightarrow> string \<Rightarrow> 'a option list \<Rightarrow> string \<times> 'a option list" where
  "normSQL driver query args =
     (if driver \<noteq> ''mysql'' \<and> driver \<noteq> ''mariadb'' then (query, args)
      else (let (q, order) = norm_loop query in
        if order = [] then (q, args)
        else (q, map (\<lambda>idx. if idx < int (length args) then args ! nat idx else None) order)))"

text \<open>
  What a statement means to the two families of drivers, as its text with the bound values in
  place: a numbered placeholder reads the argument with its number, a question mark the next one.
\<close>

function bind_numbered :: "string \<Rightarrow> 'a option list \<Rightarrow> (char + 'a option) list" where
  "bind_numbered [] args = []"
| "bind_numbered (c # cs) args =
     (if starts_placeholder c cs then
        (let idx = atoi_value (takeWhile is_digit cs) - 1
         in Inr (if idx < int (length args) then args ! nat idx else None)
              # bind_numbered (dropWhile is_digit cs) args)
      else Inl c # bind_numbered cs args)"
  by pat_completeness auto
termination
  by (relation "measure (length \<circ> fst)") (auto simp: le_imp_less_Suc length_dropWhile_le)

fun bind_question :: "string \<Rightarrow> 'a option list \<Rightarrow> (char + 'a option) list" where
  "bind_question [] args = []"
| "bind_question (c # cs) args =
     (if c = CHR ''?'' then (case args of
          [] \<Rightarrow> Inr None # bind_question cs []
        | a # as \<Rightarrow> Inr a # bind_question cs as)
      else Inl c # bind_question cs args)"

lemma set_dropWhile_subset: "set (dropWhile P xs) \<subseteq> set xs"
  by (induction xs) auto

lemma bind_question_norm_loop:
  "CHR ''?'' \<notin> set query \<Longrightarrow>
     bind_question (fst (norm_loop query))
       (map (\<lambda>idx. if idx < int (length args) then args ! nat idx else None) (snd (norm_loop query)))
     = bind_numbered query args"
proof (induction query rule: norm_loop.induct)
  case (2 c cs)
  have "CHR ''?'' \<notin> set (dropWhile is_digit cs)"
    using "2.prems" set_dropWhile_subset [of is_digit cs] by auto
  with 2 show ?case by (auto simp: Let_def split: prod.splits)
qed simp

lemma norm_loop_no_order:
  "snd (norm_loop query) = [] \<Longrightarrow> CHR ''?'' \<notin> set query \<Longrightarrow>
     bind_question (fst (norm_loop query)) args = bind_numbered query args"
proof (induction query rule: norm_loop.induct)
  case (2 c cs)
  then have "\<not> starts_placeholder c cs" by (simp add: case_prod_beta Let_def split: if_splits)
  with 2 show ?case by (auto simp: case_prod_beta)
qed simp

text \<open>The index of a placeholder is never negative, so the slice access cannot panic.\<close>

lemma digits_value_ge: "digits_value acc s = Some v \<Longrightarrow> acc \<le> v"
proof (induction s arbitrary: acc)
  case (Cons c cs)
  then have "10 * acc + digit_val c \<le> v" by (simp split: if_splits)
  then show ?case by simp
qed simp

lemma placeholder_pos: "starts_placeholder c cs \<Longrightarrow> 1 \<le> atoi_value (takeWhile is_digit cs)"
proof -
  assume "starts_placeholder c cs"
  then obtain d ds where cs: "cs = d # ds" and d: "49 \<le> byte d" "byte d \<le> 57"
    by (cases cs) (auto simp: starts_placeholder_def)
  let ?t = "takeWhile is_digit cs"
  have dig: "is_digit d" using d by (simp add: is_digit_def)
  then have t: "?t = d # takeWhile is_digit ds" by (simp add: cs)
  have "\<forall>c \<in> set ?t. is_digit c" by (auto dest: set_takeWhileD)
  then obtain v where v: "digits_value 0 ?t = Some v"
    using digits_value_None [of 0 ?t] by (cases "digits_value 0 ?t") auto
  then have "1 \<le> v" using digits_value_ge [of "digit_val d" "takeWhile is_digit ds" v] d
    by (simp add: t dig digit_val_def)
  moreover have "split_sign ?t = (False, ?t)"
    using d by (auto simp: t split_sign_def)
  ultimately show ?thesis
    using v t by (auto simp: atoi_value_def parse_int_def parse_nat_def int64_max_def Let_def)
qed

lemma norm_loop_indices: "i \<in> set (snd (norm_loop query)) \<Longrightarrow> 0 \<le> i"
proof (induction query rule: norm_loop.induct)
  case (2 c cs)
  then show ?case using placeholder_pos [of c cs]
    by (auto simp: Let_def split: prod.splits if_splits)
qed simp

section \<open>Schema statements\<close>

record sqlFrags =
  AutoIncPK :: string
  NowDefault :: string
  TableSuffix :: string

text \<open>A single-quoted SQL literal.\<close>

definition quoted :: "string \<Rightarrow> string" where
  "quoted s = CHR 0x27 # s @ [CHR 0x27]"

definition sqlite_now :: string where
  "sqlite_now = ''(strftime('' @ quoted ''%s'' @ '', '' @ quoted ''now'' @ ''))''"

definition sqlFragsFor :: "string \<Rightarrow> sqlFrags" where
  "sqlFragsFor driver =
     (if driver = ''postgres'' then
        \<lparr>AutoIncPK = ''SERIAL PRIMARY KEY'',
         NowDefault = ''(EXTRACT(EPOCH FROM NOW())::BIGINT)'',
         TableSuffix = []\<rparr>
      else if driver = ''mysql'' \<or> driver = ''mariadb'' then
        \<lparr>AutoIncPK = ''INT AUTO_INCREMENT PRIMARY KEY'',
         NowDefault = ''(UNIX_TIMESTAMP())'',
         TableSuffix = '' ENGINE=InnoDB DEFAULT CHARSET=utf8mb4''\<rparr>
      else
        \<lparr>AutoIncPK = ''INTEGER PRIMARY KEY AUTOINCREMENT'',
         NowDefault = sqlite_now,
         TableSuffix = []\<rparr>)"

text \<open>\<open>strings.LastIndex\<close>: the start of the last occurrence.\<close>

fun last_index :: "string \<Rightarrow> string \<Rightarrow> nat option" where
  "last_index [] sub = (if sub = [] then Some 0 else None)"
| "last_index (c # cs) sub =
     (case last_index cs sub of
        Some i \<Rightarrow> Some (Suc i)
      | None \<Rightarrow> if has_prefix (c # cs) sub then Some 0 else None)"

text \<open>The statement \<open>execCreate\<close> sends to the driver.\<close>

definition execCreate_stmt :: "string \<Rightarrow> sqlFrags \<Rightarrow> string" where
  "execCreate_stmt stmt f =
     (let stmt = replace_all stmt ''INTEGER PRIMARY KEY AUTOINCREMENT'' (AutoIncPK f);
          stmt = replace_all stmt sqlite_now (NowDefault f)
      in if TableSuffix f = [] then stmt
         else let stmt = replace_all stmt ''TEXT    PRIMARY KEY'' ''VARCHAR(512) PRIMARY KEY'';
                  stmt = replace_all stmt ''TEXT PRIMARY KEY'' ''VARCHAR(512) PRIMARY KEY'';
                  stmt = replace_all stmt ''TEXT NOT NULL UNIQUE'' ''VARCHAR(512) NOT NULL UNIQUE'';
                  stmt = replace_all stmt ''TEXT UNIQUE'' ''VARCHAR(512) UNIQUE''
              in (case last_index stmt '');'' of
                    Some idx \<Rightarrow> take idx stmt @ '')'' @ TableSuffix f @ '';''
                  | None \<Rightarrow> stmt))"

lemma replace_all_same: "replace_all s x x = s"
proof (induction s rule: length_induct)
  case (1 s)
  show ?case
  proof (cases "s = [] \<or> x = []")
    case True
    then show ?thesis by (simp add: replace_all.simps)
  next
    case False
    then obtain c cs where s: "s = c # cs" by (cases s) auto
    show ?thesis
    proof (cases "has_prefix s x")
      case True
      then obtain t where t: "s = x @ t" by (auto simp: has_prefix_iff)
      with False 1 have "replace_all t x x = t" by simp
      moreover have "replace_all s x x = x @ replace_all t x x"
        by (subst replace_all.simps) (use False True t in simp)
      ultimately show ?thesis using t by simp
    next
      case neg: False
      from 1 s have "replace_all cs x x = cs" by simp
      with False neg s show ?thesis by simp
    qed
  qed
qed

section \<open>The SQLite cache path\<close>

text \<open>
  What the functions read from outside: \<open>runtime.GOOS\<close>, the effective user id and the
  environment (an unset variable reads as the empty string).
\<close>

record host =
  goos :: string
  geteuid :: int
  getenv :: "string \<Rightarrow> string"

definition isRunningAsRoot :: "host \<Rightarrow> bool" where
  "isRunningAsRoot h \<longleftrightarrow> geteuid h = 0"

definition bslash :: string where "bslash = [CHR 0x5C]"

definition windows_db_path :: string where
  "windows_db_path =
     bslash @ ''CasPaste'' @ bslash @ ''Data'' @ bslash @ ''db'' @ bslash @ ''caspaste.db''"

definition getDefaultDbPath :: "host \<Rightarrow> string" where
  "getDefaultDbPath h =
     (if goos h = ''windows'' then
        (if getenv h ''LOCALAPPDATA'' \<noteq> [] then getenv h ''LOCALAPPDATA'' @ windows_db_path
         else getenv h ''PROGRAMDATA'' @ windows_db_path)
      else if goos h = ''darwin'' then
        (if isRunningAsRoot h then ''/var/lib/webappsgo/caspaste/db/caspaste.db''
         else if getenv h ''HOME'' \<noteq> []
           then getenv h ''HOME'' @ ''/Library/Application Support/CasPaste/db/caspaste.db''
         else ''/var/lib/webappsgo/caspaste/db/caspaste.db'')
      else
        (if isRunningAsRoot h then ''/var/lib/webappsgo/caspaste/db/caspaste.db''
         else if getenv h ''HOME'' \<noteq> []
           then getenv h ''HOME'' @ ''/.local/share/webappsgo/caspaste/db/caspaste.db''
         else ''/var/lib/webappsgo/caspaste/db/caspaste.db''))"

definition getSQLiteCachePath :: "host \<Rightarrow> string \<Rightarrow> string" where
  "getSQLiteCachePath h dataDir =
     (if getenv h ''CASPASTE_DB_DIR'' \<noteq> [] then getenv h ''CASPASTE_DB_DIR'' @ ''/caspaste.db''
      else if dataDir \<noteq> [] then dataDir @ ''/db/caspaste.db''
      else getDefaultDbPath h)"

text \<open>
  \<open>NewPool\<close>, with what the database packages answer: whether opening and pinging the main pool
  and opening the backup pool succeed. Slicing \<open>backupPath[:-1]\<close> panics.
\<close>

datatype pool_result =
    Pool_ready (pool_sql_driver: string) (pool_driver: string) (pool_backup: "string option")
  | Open_error
  | Ping_error
  | Slice_panic

definition NewPool :: "host \<Rightarrow> bool \<Rightarrow> bool \<Rightarrow> bool \<Rightarrow> string \<Rightarrow> string \<Rightarrow> pool_result" where
  "NewPool h open_ok ping_ok backup_ok driverName dataDir =
     (let sqlDriverName = (if driverName = ''postgres'' then ''pgx'' else driverName) in
      if \<not> open_ok then Open_error
      else if \<not> ping_ok then Ping_error
      else if driverName \<in> {''postgres'', ''mysql'', ''mariadb'', ''libsql''} then
        (let backupPath = getSQLiteCachePath h dataDir in
         case last_index backupPath ''/'' of
           None \<Rightarrow> Slice_panic
         | Some _ \<Rightarrow> Pool_ready sqlDriverName driverName (if backup_ok then Some backupPath else None))
      else Pool_ready sqlDriverName driverName None)"

lemma last_index_eq_None: "sub \<noteq> [] \<Longrightarrow> last_index s sub = None \<longleftrightarrow> \<not> contains_str s sub"
  by (induction s) (auto split: option.splits)

lemma last_index_char: "last_index s [c] = None \<longleftrightarrow> c \<notin> set s"
  by (simp add: last_index_eq_None contains_char_iff)

lemma panic_iff_no_slash:
  "NewPool h True True backup_ok driver dataDir = Slice_panic \<longleftrightarrow>
     driver \<in> {''postgres'', ''mysql'', ''mariadb'', ''libsql''}
     \<and> CHR ''/'' \<notin> set (getSQLiteCachePath h dataDir)"
  unfolding NewPool_def Let_def last_index_char [symmetric] by (simp split: option.splits)

lemma windows_path_no_slash: "CHR ''/'' \<notin> set windows_db_path"
  by (simp add: windows_db_path_def bslash_def)

lemma default_path_no_slash_iff:
  "CHR ''/'' \<notin> set (getDefaultDbPath h) \<longleftrightarrow> goos h = ''windows''
     \<and> CHR ''/'' \<notin> set (if getenv h ''LOCALAPPDATA'' \<noteq> [] then getenv h ''LOCALAPPDATA''
                      else getenv h ''PROGRAMDATA'')"
  using windows_path_no_slash by (simp add: getDefaultDbPath_def)

lemma cache_path_no_slash_iff:
  "CHR ''/'' \<notin> set (getSQLiteCachePath h dataDir) \<longleftrightarrow>
     getenv h ''CASPASTE_DB_DIR'' = [] \<and> dataDir = [] \<and> CHR ''/'' \<notin> set (getDefaultDbPath h)"
  by (simp add: getSQLiteCachePath_def)

section \<open>Properties\<close>

text \<open>
  C37: For MySQL and MariaDB the rewritten query with the reordered arguments means the same
  statement as the numbered one: every placeholder is bound to the argument with its number,
  whatever the order, repetition or number of placeholders.
\<close>

theorem normSQL_binds_same:
  assumes "CHR ''?'' \<notin> set query" and "driver \<in> {''mysql'', ''mariadb''}"
  shows "(let (q, a) = normSQL driver query args in bind_question q a) = bind_numbered query args"
  using bind_question_norm_loop [OF assms(1), of args] norm_loop_no_order [OF _ assms(1), of args]
    assms(2)
  by (auto simp: normSQL_def Let_def split: prod.splits)

theorem normSQL_binds_same_witness:
  "(let (q, a) = normSQL ''mysql'' ''SET b = $2 WHERE id = $1 OR p = $1'' [Some (1::int), Some 2]
    in bind_question q a) = bind_numbered ''SET b = $2 WHERE id = $1 OR p = $1'' [Some 1, Some 2]"
  by (rule normSQL_binds_same) simp_all

text \<open>
  The slice of the arguments is safe: every placeholder index is non-negative, and the
  rewritten query has as many arguments as placeholders (or the given ones if it has none).
\<close>

theorem normSQL_indices_safe:
  "list_all (\<lambda>i. 0 \<le> i) (snd (norm_loop query))
   \<and> length (snd (normSQL ''mysql'' query args)) =
       (if snd (norm_loop query) = [] then length args else length (snd (norm_loop query)))"
  using norm_loop_indices by (auto simp: list_all_iff normSQL_def Let_def split: prod.splits)

text \<open>
  For the SQLite family and unknown drivers, \<open>execCreate\<close> sends every schema statement
  unchanged.
\<close>

theorem execCreate_sqlite_identity:
  assumes "driver \<notin> {''postgres'', ''mysql'', ''mariadb''}"
  shows "execCreate_stmt stmt (sqlFragsFor driver) = stmt"
  using assms by (simp add: execCreate_stmt_def sqlFragsFor_def replace_all_same Let_def)

theorem execCreate_sqlite_identity_witness:
  "execCreate_stmt ''CREATE TABLE t (id TEXT PRIMARY KEY);'' (sqlFragsFor ''sqlite'')
     = ''CREATE TABLE t (id TEXT PRIMARY KEY);''"
  by (rule execCreate_sqlite_identity) simp

text \<open>
  Opening a pool panics exactly when a remote driver is used on Windows with neither a data
  directory nor \<open>CASPASTE_DB_DIR\<close> and the base directory has no forward slash; \<open>InitDB\<close> passes
  no data directory.
\<close>

theorem NewPool_panics_iff:
  "NewPool h True True backup_ok driver dataDir = Slice_panic \<longleftrightarrow>
     driver \<in> {''postgres'', ''mysql'', ''mariadb'', ''libsql''}
     \<and> goos h = ''windows'' \<and> dataDir = [] \<and> getenv h ''CASPASTE_DB_DIR'' = []
     \<and> CHR ''/'' \<notin> set (if getenv h ''LOCALAPPDATA'' \<noteq> [] then getenv h ''LOCALAPPDATA''
                      else getenv h ''PROGRAMDATA'')"
  unfolding panic_iff_no_slash cache_path_no_slash_iff default_path_no_slash_iff by blast

end
