(* ===== verification/Tables.thy ===== *)
theory Tables
  imports Prelude
begin

text \<open>
  SQL tables as lists of rows in insertion order, and the statements the code issues on them:
  lookup by a key column, \<open>INSERT\<close> under a uniqueness constraint, \<open>INSERT OR REPLACE\<close>, \<open>UPDATE\<close>
  and \<open>DELETE\<close> with a \<open>WHERE\<close> clause, and the number of rows affected. The paste, session, token
  and secret tables are instances.
\<close>

section \<open>Statements\<close>

definition tbl_find :: "('r \<Rightarrow> 'k) \<Rightarrow> 'k \<Rightarrow> 'r list \<Rightarrow> 'r option" where
  "tbl_find key k t = find (\<lambda>r. key r = k) t"

text \<open>\<open>INSERT\<close> fails (\<open>None\<close>) when a row with the same key exists.\<close>

definition tbl_insert :: "('r \<Rightarrow> 'k) \<Rightarrow> 'r \<Rightarrow> 'r list \<Rightarrow> 'r list option" where
  "tbl_insert key r t = (if key r \<in> key ` set t then None else Some (t @ [r]))"

definition tbl_replace :: "('r \<Rightarrow> 'k) \<Rightarrow> 'r \<Rightarrow> 'r list \<Rightarrow> 'r list" where
  "tbl_replace key r t = filter (\<lambda>x. key x \<noteq> key r) t @ [r]"

definition tbl_update :: "('r \<Rightarrow> bool) \<Rightarrow> ('r \<Rightarrow> 'r) \<Rightarrow> 'r list \<Rightarrow> 'r list" where
  "tbl_update P f t = map (\<lambda>r. if P r then f r else r) t"

definition tbl_delete :: "('r \<Rightarrow> bool) \<Rightarrow> 'r list \<Rightarrow> 'r list" where
  "tbl_delete P t = filter (\<lambda>r. \<not> P r) t"

definition tbl_count :: "('r \<Rightarrow> bool) \<Rightarrow> 'r list \<Rightarrow> nat" where
  "tbl_count P t = length (filter P t)"

lemmas tbl_defs =
  tbl_find_def tbl_insert_def tbl_replace_def tbl_update_def tbl_delete_def tbl_count_def

text \<open>
  A write statement fails, or takes effect; in the second case asking for the number of affected
  rows may still fail.
\<close>

datatype outcome = Failed | Uncounted | Written

section \<open>Uniqueness of the key\<close>

definition tbl_ok :: "('r \<Rightarrow> 'k) \<Rightarrow> 'r list \<Rightarrow> bool" where
  "tbl_ok key t \<longleftrightarrow> distinct (map key t)"

lemma tbl_ok_Nil [simp]: "tbl_ok key []"
  by (simp add: tbl_ok_def)

lemma tbl_ok_insert: "tbl_ok key t \<Longrightarrow> tbl_insert key r t = Some t' \<Longrightarrow> tbl_ok key t'"
  by (auto simp: tbl_ok_def tbl_insert_def split: if_splits)

lemma tbl_ok_replace: "tbl_ok key t \<Longrightarrow> tbl_ok key (tbl_replace key r t)"
  by (auto simp: tbl_ok_def tbl_replace_def distinct_map_filter)

lemma tbl_ok_delete: "tbl_ok key t \<Longrightarrow> tbl_ok key (tbl_delete P t)"
  by (auto simp: tbl_ok_def tbl_delete_def distinct_map_filter)

lemma tbl_ok_update:
  assumes "tbl_ok key t" and "\<And>r. P r \<Longrightarrow> key (f r) = key r"
  shows "tbl_ok key (tbl_update P f t)"
proof -
  have "map key (tbl_update P f t) = map key t"
    using assms(2) by (simp add: tbl_update_def)
  with assms(1) show ?thesis by (simp add: tbl_ok_def)
qed

section \<open>Lookups\<close>

lemma tbl_find_Some: "tbl_find key k t = Some r \<Longrightarrow> r \<in> set t \<and> key r = k"
  unfolding tbl_find_def by (rule find_Some_props)

lemma tbl_find_None: "tbl_find key k t = None \<longleftrightarrow> k \<notin> key ` set t"
  unfolding tbl_find_def find_None_iff_ball by auto

lemma tbl_find_iff:
  assumes "tbl_ok key t"
  shows "tbl_find key k t = Some r \<longleftrightarrow> r \<in> set t \<and> key r = k"
proof
  assume r: "r \<in> set t \<and> key r = k"
  then obtain r' where r': "tbl_find key k t = Some r'"
    by (cases "tbl_find key k t") (auto simp: tbl_find_None)
  then have "r' \<in> set t \<and> key r' = k" by (rule tbl_find_Some)
  with r assms have "r' = r" by (auto simp: tbl_ok_def distinct_map dest: inj_onD)
  with r' show "tbl_find key k t = Some r" by simp
qed (rule tbl_find_Some)

lemma tbl_find_insert:
  "tbl_insert key r t = Some t' \<Longrightarrow>
     tbl_find key k t' = (if k = key r then Some r else tbl_find key k t)"
proof -
  assume "tbl_insert key r t = Some t'"
  then have t': "t' = t @ [r]" and new: "key r \<notin> key ` set t"
    by (simp_all add: tbl_insert_def split: if_splits)
  from new have "find (\<lambda>x. key x = key r) t = None"
    unfolding find_None_iff_ball by (metis image_eqI)
  moreover have "find (\<lambda>x. key x = k) (t @ [r]) =
      (case find (\<lambda>x. key x = k) t of None \<Rightarrow> find (\<lambda>x. key x = k) [r] | Some x \<Rightarrow> Some x)"
    by (induction t) auto
  ultimately show ?thesis by (auto simp: t' tbl_find_def split: option.splits)
qed

lemma tbl_find_filter_key:
  "tbl_find key k (filter (\<lambda>x. key x \<noteq> k') t) = (if k = k' then None else tbl_find key k t)"
  by (induction t) (auto simp: tbl_find_def)

lemma tbl_find_replace:
  "tbl_find key k (tbl_replace key r t) = (if k = key r then Some r else tbl_find key k t)"
proof -
  have "tbl_insert key r (filter (\<lambda>x. key x \<noteq> key r) t) = Some (tbl_replace key r t)"
    by (auto simp: tbl_insert_def tbl_replace_def)
  then show ?thesis by (simp add: tbl_find_insert tbl_find_filter_key)
qed

lemma tbl_find_update:
  assumes "\<And>r. P r \<Longrightarrow> key (f r) = key r"
  shows "tbl_find key k (tbl_update P f t) =
           map_option (\<lambda>r. if P r then f r else r) (tbl_find key k t)"
  using assms by (induction t) (auto simp: tbl_find_def tbl_update_def)

lemma tbl_find_delete:
  assumes "tbl_ok key t"
  shows "tbl_find key k (tbl_delete P t) =
           (case tbl_find key k t of None \<Rightarrow> None | Some r \<Rightarrow> if P r then None else Some r)"
proof -
  have iff: "tbl_find key k (tbl_delete P t) = Some r \<longleftrightarrow> tbl_find key k t = Some r \<and> \<not> P r" for r
    using tbl_find_iff [OF assms] tbl_find_iff [OF tbl_ok_delete [OF assms]]
    by (auto simp: tbl_delete_def)
  show ?thesis
  proof (cases "tbl_find key k (tbl_delete P t)")
    case None
    with iff show ?thesis by (cases "tbl_find key k t") auto
  next
    case (Some r)
    then have "tbl_find key k t = Some r \<and> \<not> P r" using iff by blast
    with Some show ?thesis by simp
  qed
qed

lemma tbl_find_delete_key:
  "tbl_find key k (tbl_delete (\<lambda>r. key r = k') t) = (if k = k' then None else tbl_find key k t)"
  unfolding tbl_delete_def by (rule tbl_find_filter_key)

section \<open>Rows affected\<close>

lemma tbl_count_zero: "tbl_count P t = 0 \<longleftrightarrow> (\<forall>r \<in> set t. \<not> P r)"
  by (simp add: tbl_count_def filter_empty_conv)

lemma tbl_count_key: "tbl_count (\<lambda>r. key r = k) t = 0 \<longleftrightarrow> tbl_find key k t = None"
  by (auto simp: tbl_count_zero tbl_find_None)

lemma tbl_count_key_and:
  assumes "tbl_ok key t"
  shows "tbl_count (\<lambda>r. key r = k \<and> Q r) t = 0 \<longleftrightarrow>
           (case tbl_find key k t of None \<Rightarrow> True | Some r \<Rightarrow> \<not> Q r)"
  using tbl_find_iff [OF assms, of k]
  by (auto simp: tbl_count_zero tbl_find_None split: option.splits) (metis option.inject)

lemma tbl_delete_none: "tbl_count P t = 0 \<Longrightarrow> tbl_delete P t = t"
  by (auto simp: tbl_count_zero tbl_delete_def filter_id_conv)

lemma tbl_delete_twice: "tbl_delete P (tbl_delete P t) = tbl_delete P t"
  by (simp add: tbl_delete_def)

lemma set_tbl_delete: "set (tbl_delete P t) = {r \<in> set t. \<not> P r}"
  by (auto simp: tbl_delete_def)

lemma keys_tbl_delete: "key ` set (tbl_delete P t) \<subseteq> key ` set t"
  by (auto simp: tbl_delete_def)

section \<open>Revocation\<close>

text \<open>
  What the session and token services promise about a credential that is gone: no operation but one
  that issues it anew brings it back.
\<close>

locale revocable =
  fixes step :: "'op \<Rightarrow> 's \<Rightarrow> 's" and look :: "'s \<Rightarrow> 'k \<Rightarrow> 'v option" and ok :: "'s \<Rightarrow> bool"
    and issues :: "'op \<Rightarrow> 'k \<Rightarrow> bool"
  assumes ok_step: "ok s \<Longrightarrow> ok (step a s)"
    and look_step: "ok s \<Longrightarrow> \<not> issues a k \<Longrightarrow> look s k = None \<Longrightarrow> look (step a s) k = None"
begin

lemma ok_run: "ok s \<Longrightarrow> ok (fold step as s)"
  by (induction as arbitrary: s) (simp_all add: ok_step)

lemma stays_revoked:
  "ok s \<Longrightarrow> look s k = None \<Longrightarrow> list_all (\<lambda>a. \<not> issues a k) as \<Longrightarrow> look (fold step as s) k = None"
  by (induction as arbitrary: s) (simp_all add: ok_step look_step)

end

end
