(* ===== verification/Storage.thy ===== *)
theory Storage
  imports Go_Conv Tables
begin

text \<open>
  The paste table of package \<open>storage\<close> (\<open>src/src/storage/paste.go\<close>, \<open>secrets.go\<close>, \<open>share.go\<close>,
  \<open>migrate.go\<close>): the SQL statements as functions on tables of rows, the operations on the primary
  table and the SQLite backup, their error paths, and the contract the handlers rely on.
  Whether a statement reaches its database is outside the code: each operation takes the
  outcomes (\<open>True\<close> for success) of the statements it issues, and the clock readings.
\<close>

section \<open>Rows and tables\<close>

record paste =
  p_id :: string
  p_title :: string
  p_body :: string
  p_create_time :: int
  p_delete_time :: int
  p_one_use :: bool
  p_syntax :: string
  p_author :: string
  p_author_email :: string
  p_author_url :: string
  p_is_file :: bool
  p_file_name :: string
  p_mime_type :: string
  p_is_editable :: bool
  p_is_private :: bool
  p_is_url :: bool
  p_original_url :: string

type_synonym table = "paste list"

abbreviation row :: "table \<Rightarrow> string \<Rightarrow> paste option" where
  "row t i \<equiv> tbl_find p_id i t"

text \<open>\<open>UPDATE pastes SET ... WHERE id = $1\<close> sets every column but \<open>id\<close> and \<open>create_time\<close>.\<close>

definition sql_update :: "paste \<Rightarrow> table \<Rightarrow> table" where
  "sql_update p = tbl_update (\<lambda>r. p_id r = p_id p) (\<lambda>r. p\<lparr>p_create_time := p_create_time r\<rparr>)"

text \<open>\<open>WHERE (delete_time < $1) AND (delete_time > 0)\<close>, and the same test in \<open>PasteGet\<close>.\<close>

definition expired_at :: "int \<Rightarrow> paste \<Rightarrow> bool" where
  "expired_at now p \<longleftrightarrow> p_delete_time p < now \<and> p_delete_time p > 0"

section \<open>The database handle\<close>

record db =
  pool :: table
  backup_pool :: "table option"

datatype db_error = ErrNotFoundID | SQL_error | Rand_error | Hex_error

text \<open>A write to the backup is attempted when there is one; its failure is only logged.\<close>

definition on_backup :: "bool \<Rightarrow> (table \<Rightarrow> table) \<Rightarrow> db \<Rightarrow> db" where
  "on_backup ok f d =
     (case backup_pool d of
        None \<Rightarrow> d
      | Some b \<Rightarrow> if ok then d\<lparr>backup_pool := Some (f b)\<rparr> else d)"

section \<open>Operations\<close>

text \<open>
  \<open>genTokenCrypto\<close> picks the character of each position with \<open>rand.Int\<close> below the length of the
  alphabet; the drawn numbers are its argument, \<open>None\<close> for a failing read.
\<close>

definition token_chars :: string where
  "token_chars = ''abcdefghijklmnopqrstuvwxyzABCDEFGHIJKLMNOPQRSTUVWXYZ0123456789''"

fun genTokenCrypto :: "nat \<Rightarrow> nat option list \<Rightarrow> string option" where
  "genTokenCrypto 0 rs = Some []"
| "genTokenCrypto (Suc n) [] = None"
| "genTokenCrypto (Suc n) (None # rs) = None"
| "genTokenCrypto (Suc n) (Some r # rs) =
     map_option (\<lambda>t. token_chars ! r # t) (genTokenCrypto n rs)"

definition PasteAdd ::
    "nat option list \<Rightarrow> int \<Rightarrow> bool \<Rightarrow> bool \<Rightarrow> paste \<Rightarrow> db \<Rightarrow>
     (db_error + string \<times> int \<times> int) \<times> db" where
  "PasteAdd rands now ok ok_backup paste d =
     (case genTokenCrypto 8 rands of
        None \<Rightarrow> (Inl Rand_error, d)
      | Some i \<Rightarrow>
          let paste = paste\<lparr>p_id := i, p_create_time := now\<rparr>;
              paste = (if p_delete_time paste < 0 then paste\<lparr>p_delete_time := 0\<rparr> else paste)
          in if \<not> ok then (Inl SQL_error, d)
             else (case tbl_insert p_id paste (pool d) of
                 None \<Rightarrow> (Inl SQL_error, d)
               | Some t \<Rightarrow>
                   (Inr (p_id paste, p_create_time paste, p_delete_time paste),
                    on_backup ok_backup (tbl_replace p_id paste) (d\<lparr>pool := t\<rparr>))))"

definition PasteUpdate :: "outcome \<Rightarrow> bool \<Rightarrow> paste \<Rightarrow> db \<Rightarrow> (db_error + unit) \<times> db" where
  "PasteUpdate w ok_backup paste d =
     (let d' = d\<lparr>pool := sql_update paste (pool d)\<rparr>
      in case w of
          Failed \<Rightarrow> (Inl SQL_error, d)
        | Uncounted \<Rightarrow> (Inl SQL_error, d')
        | Written \<Rightarrow>
            if tbl_count (\<lambda>r. p_id r = p_id paste) (pool d) = 0 then (Inl ErrNotFoundID, d')
            else (Inr (), on_backup ok_backup (sql_update paste) d'))"

definition PasteDelete :: "outcome \<Rightarrow> bool \<Rightarrow> string \<Rightarrow> db \<Rightarrow> (db_error + unit) \<times> db" where
  "PasteDelete w ok_backup i d =
     (let d' = d\<lparr>pool := tbl_delete (\<lambda>r. p_id r = i) (pool d)\<rparr>
      in case w of
          Failed \<Rightarrow> (Inl SQL_error, d)
        | Uncounted \<Rightarrow> (Inl SQL_error, d')
        | Written \<Rightarrow>
            if tbl_count (\<lambda>r. p_id r = i) (pool d) = 0 then (Inl ErrNotFoundID, d')
            else (Inr (), on_backup ok_backup (tbl_delete (\<lambda>r. p_id r = i)) d'))"

definition PasteDeleteIfOneUse :: "outcome \<Rightarrow> bool \<Rightarrow> string \<Rightarrow> db \<Rightarrow> (db_error + bool) \<times> db" where
  "PasteDeleteIfOneUse w ok_backup i d =
     (let d' = d\<lparr>pool := tbl_delete (\<lambda>r. p_id r = i \<and> p_one_use r) (pool d)\<rparr>
      in case w of
          Failed \<Rightarrow> (Inl SQL_error, d)
        | Uncounted \<Rightarrow> (Inl SQL_error, d')
        | Written \<Rightarrow>
            let n = tbl_count (\<lambda>r. p_id r = i \<and> p_one_use r) (pool d)
            in (Inr (n > 0),
                if n > 0 then on_backup ok_backup (tbl_delete (\<lambda>r. p_id r = i)) d' else d'))"

definition PasteGet :: "int \<Rightarrow> bool \<Rightarrow> bool \<Rightarrow> string \<Rightarrow> db \<Rightarrow> (db_error + paste) \<times> db" where
  "PasteGet now ok_query ok_delete i d =
     (if \<not> ok_query then (Inl SQL_error, d)
      else (case row (pool d) i of
          None \<Rightarrow> (Inl ErrNotFoundID, d)
        | Some paste \<Rightarrow>
            if expired_at now paste then
              (if \<not> ok_delete then (Inl SQL_error, d)
               else (Inl ErrNotFoundID,
                     d\<lparr>pool := tbl_delete (\<lambda>r. p_id r = p_id paste) (pool d)\<rparr>))
            else (Inr paste, d)))"

definition PasteDeleteExpired ::
    "int \<Rightarrow> int \<Rightarrow> outcome \<Rightarrow> bool \<Rightarrow> db \<Rightarrow> (db_error + nat) \<times> db" where
  "PasteDeleteExpired now now_backup w ok_backup d =
     (let d' = d\<lparr>pool := tbl_delete (expired_at now) (pool d)\<rparr>
      in case w of
          Failed \<Rightarrow> (Inl SQL_error, d)
        | Uncounted \<Rightarrow> (Inl SQL_error, d')
        | Written \<Rightarrow>
            (Inr (tbl_count (expired_at now) (pool d)),
             on_backup ok_backup (tbl_delete (expired_at now_backup)) d'))"

record paste_list_item =
  li_id :: string
  li_title :: string
  li_syntax :: string
  li_create_time :: int
  li_delete_time :: int

definition list_item :: "paste \<Rightarrow> paste_list_item" where
  "list_item p = \<lparr>li_id = p_id p, li_title = p_title p, li_syntax = p_syntax p,
     li_create_time = p_create_time p, li_delete_time = p_delete_time p\<rparr>"

text \<open>
  The rows of the listing query before \<open>LIMIT\<close> and \<open>OFFSET\<close>; rows with equal creation time, whose
  order SQL leaves open, stay in table order.
\<close>

definition listed :: "int \<Rightarrow> paste \<Rightarrow> bool" where
  "listed now p \<longleftrightarrow> (p_delete_time p > now \<or> p_delete_time p = 0) \<and> \<not> p_is_private p"

definition list_rows :: "int \<Rightarrow> table \<Rightarrow> paste list" where
  "list_rows now t = sort_key (\<lambda>p. - p_create_time p) (filter (listed now) t)"

definition list_limit :: "int \<Rightarrow> int" where
  "list_limit limit = (if limit \<le> 0 \<or> limit > 100 then 50 else limit)"

definition PasteList :: "int \<Rightarrow> bool \<Rightarrow> int \<Rightarrow> int \<Rightarrow> db \<Rightarrow> db_error + paste_list_item list" where
  "PasteList now ok limit offset d =
     (let limit = list_limit limit;
          offset = (if offset < 0 then 0 else offset)
      in if \<not> ok then Inl SQL_error
         else Inr (map list_item (take (nat limit) (drop (nat offset) (list_rows now (pool d))))))"

section \<open>Well-formed databases\<close>

definition db_ok :: "db \<Rightarrow> bool" where
  "db_ok d \<longleftrightarrow> tbl_ok p_id (pool d)
     \<and> (case backup_pool d of None \<Rightarrow> True | Some b \<Rightarrow> tbl_ok p_id b)"

definition view :: "db \<Rightarrow> string \<Rightarrow> paste option" where
  "view d i = row (pool d) i"

lemma pool_on_backup [simp]: "pool (on_backup ok f d) = pool d"
  by (simp add: on_backup_def split: option.splits)

lemma view_on_backup [simp]: "view (on_backup ok f d) = view d"
  by (rule ext) (simp add: view_def)

lemma view_pool_update [simp]: "view (d\<lparr>pool := t\<rparr>) i = row t i"
  by (simp add: view_def)

lemma db_ok_on_backup:
  assumes "db_ok (d\<lparr>pool := t\<rparr>)" and "\<And>b. tbl_ok p_id b \<Longrightarrow> tbl_ok p_id (f b)"
  shows "db_ok (on_backup ok f (d\<lparr>pool := t\<rparr>))"
  using assms by (auto simp: db_ok_def on_backup_def split: option.splits)

lemma db_ok_pool: "db_ok d \<Longrightarrow> tbl_ok p_id t \<Longrightarrow> db_ok (d\<lparr>pool := t\<rparr>)"
  by (simp add: db_ok_def)

lemma db_ok_tbl: "db_ok d \<Longrightarrow> tbl_ok p_id (pool d)"
  by (simp add: db_ok_def)

lemma tbl_ok_sql_update: "tbl_ok p_id t \<Longrightarrow> tbl_ok p_id (sql_update p t)"
  unfolding sql_update_def by (rule tbl_ok_update) simp_all

lemma row_sql_update:
  "row (sql_update p t) i =
     (if i = p_id p then map_option (\<lambda>r. p\<lparr>p_create_time := p_create_time r\<rparr>) (row t i) else row t i)"
proof -
  have "row (sql_update p t) i = map_option (\<lambda>r. if p_id r = p_id p
      then p\<lparr>p_create_time := p_create_time r\<rparr> else r) (row t i)"
    unfolding sql_update_def by (rule tbl_find_update) simp
  then show ?thesis by (cases "row t i") (auto dest: tbl_find_Some)
qed

lemmas tbl_ok_intros =
  tbl_ok_insert tbl_ok_replace tbl_ok_delete tbl_ok_sql_update db_ok_on_backup db_ok_pool db_ok_tbl

text \<open>Every operation keeps the key unique, in the primary table and in the backup.\<close>

lemma db_ok_PasteAdd: "db_ok d \<Longrightarrow> db_ok (snd (PasteAdd rs now ok okb p d))"
  by (auto simp: PasteAdd_def Let_def split: option.splits intro!: db_ok_on_backup db_ok_pool
      tbl_ok_replace intro: tbl_ok_insert db_ok_tbl)

lemma db_ok_PasteUpdate: "db_ok d \<Longrightarrow> db_ok (snd (PasteUpdate w okb p d))"
  by (cases w) (simp_all add: PasteUpdate_def Let_def tbl_ok_intros)

lemma db_ok_PasteDelete: "db_ok d \<Longrightarrow> db_ok (snd (PasteDelete w okb i d))"
  by (cases w) (simp_all add: PasteDelete_def Let_def tbl_ok_intros)

lemma db_ok_PasteDeleteIfOneUse: "db_ok d \<Longrightarrow> db_ok (snd (PasteDeleteIfOneUse w okb i d))"
  by (cases w) (simp_all add: PasteDeleteIfOneUse_def Let_def tbl_ok_intros)

lemma db_ok_PasteGet: "db_ok d \<Longrightarrow> db_ok (snd (PasteGet now ok okd i d))"
  by (simp add: PasteGet_def tbl_ok_intros split: option.splits)

lemma db_ok_PasteDeleteExpired: "db_ok d \<Longrightarrow> db_ok (snd (PasteDeleteExpired now nowb w okb d))"
  by (cases w) (simp_all add: PasteDeleteExpired_def tbl_ok_intros)

lemmas db_ok_ops =
  db_ok_PasteAdd db_ok_PasteUpdate db_ok_PasteDelete db_ok_PasteDeleteIfOneUse
  db_ok_PasteGet db_ok_PasteDeleteExpired

section \<open>What each operation does to the visible rows\<close>

definition added :: "string \<Rightarrow> int \<Rightarrow> paste \<Rightarrow> paste" where
  "added i now p = p\<lparr>p_id := i, p_create_time := now,
     p_delete_time := (if p_delete_time p < 0 then 0 else p_delete_time p)\<rparr>"

lemma added_fields [simp]:
  "p_id (added i now p) = i"
  "p_one_use (added i now p) = p_one_use p"
  "p_body (added i now p) = p_body p"
  "p_create_time (added i now p) = now"
  "p_is_private (added i now p) = p_is_private p"
  by (simp_all add: added_def)

lemma PasteAdd_eq:
  "PasteAdd rs now ok okb p d =
     (case genTokenCrypto 8 rs of
        None \<Rightarrow> (Inl Rand_error, d)
      | Some i \<Rightarrow> if \<not> ok \<or> view d i \<noteq> None then (Inl SQL_error, d)
          else (Inr (i, now, p_delete_time (added i now p)),
                on_backup okb (tbl_replace p_id (added i now p))
                  (d\<lparr>pool := pool d @ [added i now p]\<rparr>)))"
proof -
  have "(let q = p\<lparr>p_id := i, p_create_time := now\<rparr>
         in if p_delete_time q < 0 then q\<lparr>p_delete_time := 0\<rparr> else q) = added i now p" for i
    by (simp add: added_def Let_def)
  then show ?thesis
    by (auto simp: PasteAdd_def Let_def tbl_insert_def view_def tbl_find_None
        split: option.splits)
qed

lemma view_PasteAdd:
  assumes "PasteAdd rs now ok okb p d = (Inr (i, c, x), d')"
  shows "view d i = None \<and> view d' = (view d)(i \<mapsto> added i now p) \<and> c = now
       \<and> x = p_delete_time (added i now p)"
proof -
  from assms have i: "view d i = None" and d': "d' = on_backup okb (tbl_replace p_id (added i now p))
      (d\<lparr>pool := pool d @ [added i now p]\<rparr>)" and cx: "c = now" "x = p_delete_time (added i now p)"
    by (auto simp: PasteAdd_eq split: option.splits if_splits)
  have ins: "tbl_insert p_id (added i now p) (pool d) = Some (pool d @ [added i now p])"
    using i by (simp add: tbl_insert_def view_def tbl_find_None)
  have "view d' = (view d)(i \<mapsto> added i now p)"
    by (rule ext) (simp add: d' tbl_find_insert [OF ins], simp add: view_def)
  with i cx show ?thesis by blast
qed

lemma sql_update_none: "tbl_count (\<lambda>r. p_id r = p_id p) t = 0 \<Longrightarrow> sql_update p t = t"
  unfolding sql_update_def tbl_update_def by (rule map_idI) (auto simp: tbl_count_zero)

lemma view_PasteUpdate:
  "view (snd (PasteUpdate w okb p d)) i =
     (if w \<noteq> Failed \<and> i = p_id p
      then map_option (\<lambda>r. p\<lparr>p_create_time := p_create_time r\<rparr>) (view d i) else view d i)"
  by (cases w) (simp_all add: PasteUpdate_def row_sql_update Let_def view_def)

lemma PasteDelete_eq:
  "PasteDelete w okb i d =
     (let d' = d\<lparr>pool := tbl_delete (\<lambda>r. p_id r = i) (pool d)\<rparr>
      in case w of
          Failed \<Rightarrow> (Inl SQL_error, d)
        | Uncounted \<Rightarrow> (Inl SQL_error, d')
        | Written \<Rightarrow>
            if view d i = None then (Inl ErrNotFoundID, d)
            else (Inr (), on_backup okb (tbl_delete (\<lambda>r. p_id r = i)) d'))"
proof -
  have "d\<lparr>pool := tbl_delete (\<lambda>r. p_id r = i) (pool d)\<rparr> = d" if "row (pool d) i = None"
    using that tbl_delete_none [of "\<lambda>r. p_id r = i" "pool d"] by (simp add: tbl_count_key)
  then show ?thesis
    by (cases w) (simp_all add: PasteDelete_def tbl_count_key view_def Let_def)
qed

lemma view_PasteDelete:
  "view (snd (PasteDelete w okb i d)) j = (if w \<noteq> Failed \<and> j = i then None else view d j)"
  by (cases w) (simp_all add: PasteDelete_def tbl_find_delete_key Let_def view_def)

lemma PasteDelete_fst:
  "fst (PasteDelete w okb i d) = Inr () \<longleftrightarrow> w = Written \<and> view d i \<noteq> None"
  by (cases w) (simp_all add: PasteDelete_eq Let_def)

lemma PasteDeleteIfOneUse_fst:
  assumes "db_ok d"
  shows "fst (PasteDeleteIfOneUse w okb i d) =
           (if w = Written then Inr (case view d i of None \<Rightarrow> False | Some p \<Rightarrow> p_one_use p)
            else Inl SQL_error)"
  using tbl_count_key_and [OF db_ok_tbl [OF assms], of i p_one_use]
  by (cases w) (auto simp: PasteDeleteIfOneUse_def Let_def view_def split: option.splits)

lemma view_PasteDeleteIfOneUse:
  assumes "db_ok d"
  shows "view (snd (PasteDeleteIfOneUse w okb i d)) j =
           (if w \<noteq> Failed \<and> j = i then (case view d i of None \<Rightarrow> None
              | Some p \<Rightarrow> if p_one_use p then None else Some p) else view d j)"
proof -
  have "row (tbl_delete (\<lambda>r. p_id r = i \<and> p_one_use r) (pool d)) j =
      (if j = i then (case view d i of None \<Rightarrow> None
         | Some p \<Rightarrow> if p_one_use p then None else Some p) else view d j)"
    using tbl_find_delete [OF db_ok_tbl [OF assms], of j "\<lambda>r. p_id r = i \<and> p_one_use r"]
    by (auto simp: view_def split: option.splits dest: tbl_find_Some)
  then show ?thesis
    by (cases w) (auto simp: PasteDeleteIfOneUse_def Let_def view_def)
qed

lemma PasteGet_eq:
  "PasteGet now ok okd i d =
     (if \<not> ok then (Inl SQL_error, d)
      else (case view d i of
          None \<Rightarrow> (Inl ErrNotFoundID, d)
        | Some p \<Rightarrow>
            if expired_at now p then
              (if \<not> okd then (Inl SQL_error, d)
               else (Inl ErrNotFoundID, d\<lparr>pool := tbl_delete (\<lambda>r. p_id r = i) (pool d)\<rparr>))
            else (Inr p, d)))"
  by (auto simp: PasteGet_def view_def split: option.splits dest: tbl_find_Some)

lemma PasteGet_Inr [returns_iff]:
  "fst (PasteGet now ok okd i d) = Inr p \<longleftrightarrow> ok \<and> view d i = Some p \<and> \<not> expired_at now p"
  by (auto simp: PasteGet_eq split: option.splits)

lemma PasteGet_same: "fst (PasteGet now ok okd i d) = Inr p \<Longrightarrow> snd (PasteGet now ok okd i d) = d"
  by (auto simp: PasteGet_eq split: option.splits if_splits)

lemma view_PasteGet:
  "view (snd (PasteGet now ok okd i d)) j =
     (if ok \<and> okd \<and> j = i then (case view d i of None \<Rightarrow> None
        | Some p \<Rightarrow> if expired_at now p then None else Some p) else view d j)"
  by (auto simp: PasteGet_eq tbl_find_delete_key view_def split: option.splits)

lemma view_PasteDeleteExpired:
  assumes "db_ok d"
  shows "view (snd (PasteDeleteExpired now nowb w okb d)) j =
           (if w \<noteq> Failed then (case view d j of None \<Rightarrow> None
              | Some p \<Rightarrow> if expired_at now p then None else Some p) else view d j)"
  using tbl_find_delete [OF db_ok_tbl [OF assms], of j "expired_at now"]
  by (cases w) (simp_all add: PasteDeleteExpired_def Let_def view_def)

lemmas view_ops =
  view_PasteUpdate view_PasteDelete view_PasteDeleteIfOneUse view_PasteGet view_PasteDeleteExpired

end
