(* ===== verification/Store_Laws.thy ===== *)
theory Store_Laws
  imports Storage "HOL-Library.Multiset"
begin

text \<open>
  What the paste table promises: sequences of storage operations keep the keys unique and the
  SQLite backup a mirror of the primary table; the listing is a faithful, ordered pagination of the
  public rows; the sweep of expired rows is invisible to readers.
\<close>

section \<open>Sequences of operations\<close>

datatype db_op =
    Op_add "nat option list" int bool bool paste
  | Op_update outcome bool paste
  | Op_delete outcome bool string
  | Op_take outcome bool string
  | Op_get int bool bool string
  | Op_sweep int int outcome bool

fun run_op :: "db_op \<Rightarrow> db \<Rightarrow> db" where
  "run_op (Op_add rs now ok okb p) d = snd (PasteAdd rs now ok okb p d)"
| "run_op (Op_update w okb p) d = snd (PasteUpdate w okb p d)"
| "run_op (Op_delete w okb i) d = snd (PasteDelete w okb i d)"
| "run_op (Op_take w okb i) d = snd (PasteDeleteIfOneUse w okb i d)"
| "run_op (Op_get now ok okd i) d = snd (PasteGet now ok okd i d)"
| "run_op (Op_sweep now nowb w okb) d = snd (PasteDeleteExpired now nowb w okb d)"

definition run_ops :: "db_op list \<Rightarrow> db \<Rightarrow> db" where
  "run_ops ops d = fold run_op ops d"

lemma run_ops_simps [simp]:
  "run_ops [] d = d"
  "run_ops (a # ops) d = run_ops ops (run_op a d)"
  by (simp_all add: run_ops_def)

lemma db_ok_run_op: "db_ok d \<Longrightarrow> db_ok (run_op a d)"
  by (cases a) (simp_all add: db_ok_ops)

lemma db_ok_run_ops: "db_ok d \<Longrightarrow> db_ok (run_ops ops d)"
  by (induction ops arbitrary: d) (simp_all add: db_ok_run_op)

section \<open>The backup as a mirror\<close>

definition backup_view :: "db \<Rightarrow> string \<Rightarrow> paste option" where
  "backup_view d i = (case backup_pool d of None \<Rightarrow> None | Some b \<Rightarrow> row b i)"

text \<open>
  Every row of the primary table is in the backup, and a row only the backup has is expired
  (\<open>PasteGet\<close> deletes an expired row from the primary table alone).
\<close>

definition mirrors :: "int \<Rightarrow> (string \<Rightarrow> paste option) \<Rightarrow> (string \<Rightarrow> paste option) \<Rightarrow> bool" where
  "mirrors t v b \<longleftrightarrow> (\<forall>i p. v i = Some p \<longrightarrow> b i = Some p)
     \<and> (\<forall>i p. b i = Some p \<longrightarrow> v i = Some p \<or> expired_at t p)"

definition mirrored :: "int \<Rightarrow> db \<Rightarrow> bool" where
  "mirrored t d \<longleftrightarrow> backup_pool d \<noteq> None \<and> mirrors t (view d) (backup_view d)"

text \<open>
  Operations of which every write to the backup succeeds, no write is left uncounted, and whose
  clock readings are at most \<open>t\<close>, the two readings of a sweep being equal.
\<close>

fun clean_op :: "int \<Rightarrow> db_op \<Rightarrow> bool" where
  "clean_op t (Op_add rs now ok okb p) = okb"
| "clean_op t (Op_update w okb p) = (okb \<and> w \<noteq> Uncounted)"
| "clean_op t (Op_delete w okb i) = (okb \<and> w \<noteq> Uncounted)"
| "clean_op t (Op_take w okb i) = (okb \<and> w \<noteq> Uncounted)"
| "clean_op t (Op_get now ok okd i) = (now \<le> t)"
| "clean_op t (Op_sweep now nowb w okb) = (okb \<and> w \<noteq> Uncounted \<and> now \<le> t \<and> nowb = now)"

lemma backup_view_pool [simp]: "backup_view (d\<lparr>pool := t\<rparr>) = backup_view d"
  by (rule ext) (simp add: backup_view_def)

lemma backup_pool_on_backup [simp]: "backup_pool (on_backup ok f d) = None \<longleftrightarrow> backup_pool d = None"
  by (simp add: on_backup_def split: option.splits)

lemma backup_view_on_backup:
  "backup_pool d = Some b \<Longrightarrow> backup_view (on_backup True f d) i = row (f b) i"
  by (simp add: on_backup_def backup_view_def)

lemma expired_at_mono: "expired_at now p \<Longrightarrow> now \<le> t \<Longrightarrow> expired_at t p"
  by (simp add: expired_at_def)

lemma mirrors_put: "mirrors t v b \<Longrightarrow> mirrors t (v(i \<mapsto> p)) (b(i \<mapsto> p))"
  by (auto simp: mirrors_def)

lemma mirrors_del: "mirrors t v b \<Longrightarrow> mirrors t (v(i := None)) (b(i := None))"
  by (auto simp: mirrors_def)

lemma mirrors_drop:
  "mirrors t v b \<Longrightarrow> v i = Some p \<Longrightarrow> expired_at t p \<Longrightarrow> mirrors t (v(i := None)) b"
  by (auto simp: mirrors_def)

definition swept :: "int \<Rightarrow> (string \<Rightarrow> paste option) \<Rightarrow> string \<Rightarrow> paste option" where
  "swept now v i = (case v i of None \<Rightarrow> None | Some p \<Rightarrow> if expired_at now p then None else Some p)"

lemma swept_Some: "swept now v i = Some p \<longleftrightarrow> v i = Some p \<and> \<not> expired_at now p"
  by (auto simp: swept_def split: option.splits)

lemma mirrors_sweep: "mirrors t v b \<Longrightarrow> mirrors t (swept now v) (swept now b)"
  unfolding mirrors_def swept_Some by blast

lemma mirrored_intro:
  "backup_pool d' \<noteq> None \<Longrightarrow> view d' = v \<Longrightarrow> backup_view d' = b \<Longrightarrow> mirrors t v b \<Longrightarrow> mirrored t d'"
  by (simp add: mirrored_def)

lemma mirrored_both:
  assumes "mirrored t d"
    and "\<And>b. backup_pool d = Some b \<Longrightarrow> mirrors t (row q) (row (f b))"
  shows "mirrored t (on_backup True f (d\<lparr>pool := q\<rparr>))"
proof -
  obtain b where b: "backup_pool d = Some b" using assms(1) by (auto simp: mirrored_def)
  have "view (on_backup True f (d\<lparr>pool := q\<rparr>)) = row q" by (rule ext) simp
  moreover have "backup_view (on_backup True f (d\<lparr>pool := q\<rparr>)) = row (f b)"
    by (rule ext) (simp add: backup_view_on_backup b)
  ultimately show ?thesis using assms(2) [OF b] b by (simp add: mirrored_def)
qed

lemma backup_view_row: "backup_pool d = Some b \<Longrightarrow> backup_view d = row b"
  by (rule ext) (simp add: backup_view_def)

lemma mirrored_mirrors: "mirrored t d \<Longrightarrow> backup_pool d = Some b \<Longrightarrow> mirrors t (row (pool d)) (row b)"
  unfolding mirrored_def backup_view_row [symmetric] by (simp add: view_def [abs_def])

lemma row_delete_id: "row (tbl_delete (\<lambda>r. p_id r = i) t) = (row t)(i := None)"
  by (rule ext) (simp add: tbl_find_delete_key)

lemma mirrored_add:
  assumes "mirrored t d"
  shows "mirrored t (snd (PasteAdd rs now ok True p d))"
proof (cases "fst (PasteAdd rs now ok True p d)")
  case (Inl e)
  then have "snd (PasteAdd rs now ok True p d) = d"
    by (auto simp: PasteAdd_eq split: option.splits if_splits)
  with assms show ?thesis by simp
next
  case (Inr r)
  then obtain i where i: "view d i = None" and
    d': "snd (PasteAdd rs now ok True p d) =
      on_backup True (tbl_replace p_id (added i now p)) (d\<lparr>pool := pool d @ [added i now p]\<rparr>)"
    by (auto simp: PasteAdd_eq split: option.splits if_splits)
  have ins: "tbl_insert p_id (added i now p) (pool d) = Some (pool d @ [added i now p])"
    using i by (simp add: tbl_insert_def view_def tbl_find_None)
  have "mirrors t (row (pool d @ [added i now p])) (row (tbl_replace p_id (added i now p) b))"
    if "backup_pool d = Some b" for b
  proof -
    have "row (pool d @ [added i now p]) = (row (pool d))(i \<mapsto> added i now p)"
      by (rule ext) (simp add: tbl_find_insert [OF ins])
    moreover have "row (tbl_replace p_id (added i now p) b) = (row b)(i \<mapsto> added i now p)"
      by (rule ext) (simp add: tbl_find_replace)
    ultimately show ?thesis using mirrors_put [OF mirrored_mirrors [OF assms that]] by simp
  qed
  with mirrored_both [OF assms] show ?thesis by (simp add: d')
qed

lemma mirrors_update:
  assumes "mirrors t (row a) (row b)" and "row a (p_id p) \<noteq> None"
  shows "mirrors t (row (sql_update p a)) (row (sql_update p b))"
proof -
  from assms(2) obtain r where r: "row a (p_id p) = Some r" by blast
  then have "row b (p_id p) = Some r" using assms(1) by (auto simp: mirrors_def)
  then have "row (sql_update p b) = (row b)(p_id p \<mapsto> p\<lparr>p_create_time := p_create_time r\<rparr>)"
    by (intro ext) (simp add: row_sql_update)
  moreover have "row (sql_update p a) = (row a)(p_id p \<mapsto> p\<lparr>p_create_time := p_create_time r\<rparr>)"
    using r by (intro ext) (simp add: row_sql_update)
  ultimately show ?thesis using mirrors_put [OF assms(1)] by simp
qed

lemma mirrored_update:
  assumes "mirrored t d" and "w \<noteq> Uncounted"
  shows "mirrored t (snd (PasteUpdate w True p d))"
proof (cases "w = Written \<and> row (pool d) (p_id p) \<noteq> None")
  case True
  then have "snd (PasteUpdate w True p d) =
      on_backup True (sql_update p) (d\<lparr>pool := sql_update p (pool d)\<rparr>)"
    by (auto simp: PasteUpdate_def Let_def tbl_count_key)
  with True show ?thesis
    by (simp add: mirrored_both [OF assms(1)] mirrors_update mirrored_mirrors [OF assms(1)])
next
  case False
  then have "snd (PasteUpdate w True p d) = d"
    using assms(2) sql_update_none [of p "pool d"]
    by (cases w) (auto simp: PasteUpdate_def Let_def tbl_count_key)
  with assms(1) show ?thesis by simp
qed

lemma mirrored_delete:
  assumes "mirrored t d" and "w \<noteq> Uncounted"
  shows "mirrored t (snd (PasteDelete w True i d))"
proof (cases "w = Written \<and> view d i \<noteq> None")
  case True
  then show ?thesis
    by (auto simp: PasteDelete_eq Let_def row_delete_id mirrors_del
        mirrored_both [OF assms(1)] mirrored_mirrors [OF assms(1)])
next
  case False
  then have "snd (PasteDelete w True i d) = d"
    using assms(2) by (cases w) (auto simp: PasteDelete_eq Let_def)
  with assms(1) show ?thesis by simp
qed

lemma mirrored_take:
  assumes "mirrored t d" and "w \<noteq> Uncounted" and "db_ok d"
  shows "mirrored t (snd (PasteDeleteIfOneUse w True i d))"
proof (cases "w = Written \<and> fst (PasteDeleteIfOneUse w True i d) = Inr True")
  case True
  then have one: "\<exists>p. view d i = Some p \<and> p_one_use p"
    using PasteDeleteIfOneUse_fst [OF assms(3), of w True i] by (auto split: option.splits)
  have snd: "snd (PasteDeleteIfOneUse w True i d) = on_backup True (tbl_delete (\<lambda>r. p_id r = i))
      (d\<lparr>pool := tbl_delete (\<lambda>r. p_id r = i \<and> p_one_use r) (pool d)\<rparr>)"
    using True by (auto simp: PasteDeleteIfOneUse_def Let_def)
  have "row (tbl_delete (\<lambda>r. p_id r = i \<and> p_one_use r) (pool d)) = (row (pool d))(i := None)"
    using one tbl_find_delete [OF db_ok_tbl [OF assms(3)], of _ "\<lambda>r. p_id r = i \<and> p_one_use r"]
    by (intro ext) (auto simp: view_def split: option.splits dest: tbl_find_Some)
  then show ?thesis unfolding snd
    by (simp add: row_delete_id mirrors_del mirrored_both [OF assms(1)] mirrored_mirrors [OF assms(1)])
next
  case False
  then have "snd (PasteDeleteIfOneUse w True i d) = d"
    using assms(2) tbl_delete_none [of "\<lambda>r. p_id r = i \<and> p_one_use r" "pool d"]
    by (cases w) (auto simp: PasteDeleteIfOneUse_def Let_def)
  with assms(1) show ?thesis by simp
qed

lemma mirrored_get:
  assumes "mirrored t d" and "now \<le> t"
  shows "mirrored t (snd (PasteGet now ok okd i d))"
proof (cases "snd (PasteGet now ok okd i d) = d")
  case True
  with assms(1) show ?thesis by simp
next
  case False
  then obtain p where p: "view d i = Some p" "expired_at now p" and
    d': "snd (PasteGet now ok okd i d) = d\<lparr>pool := tbl_delete (\<lambda>r. p_id r = i) (pool d)\<rparr>"
    by (auto simp: PasteGet_eq split: option.splits if_splits)
  have "view (d\<lparr>pool := tbl_delete (\<lambda>r. p_id r = i) (pool d)\<rparr>) = (view d)(i := None)"
    by (rule ext) (simp add: view_def tbl_find_delete_key)
  with assms p show ?thesis
    unfolding d' mirrored_def by (simp add: mirrors_drop expired_at_mono)
qed

lemma row_sweep: "tbl_ok p_id t \<Longrightarrow> row (tbl_delete (expired_at now) t) = swept now (row t)"
  by (rule ext) (simp add: tbl_find_delete swept_def)

lemma mirrored_sweep:
  assumes "mirrored t d" and "w \<noteq> Uncounted" and "db_ok d"
  shows "mirrored t (snd (PasteDeleteExpired now now w True d))"
proof (cases w)
  case Written
  have "mirrors t (row (tbl_delete (expired_at now) (pool d))) (row (tbl_delete (expired_at now) b))"
    if "backup_pool d = Some b" for b
  proof -
    have "tbl_ok p_id (pool d)" "tbl_ok p_id b" using assms(3) that by (simp_all add: db_ok_def)
    then show ?thesis
      by (simp add: row_sweep mirrors_sweep [OF mirrored_mirrors [OF assms(1) that]])
  qed
  then show ?thesis
    by (simp add: Written PasteDeleteExpired_def Let_def mirrored_both [OF assms(1)])
qed (use assms in \<open>simp_all add: PasteDeleteExpired_def\<close>)

lemma mirrored_run_op:
  "mirrored t d \<Longrightarrow> db_ok d \<Longrightarrow> clean_op t a \<Longrightarrow> mirrored t (run_op a d)"
  by (cases a) (simp_all add: mirrored_add mirrored_update mirrored_delete mirrored_take mirrored_get
      mirrored_sweep)

lemma mirrored_run_ops:
  "mirrored t d \<Longrightarrow> db_ok d \<Longrightarrow> list_all (clean_op t) ops \<Longrightarrow> mirrored t (run_ops ops d)"
  by (induction ops arbitrary: d) (simp_all add: mirrored_run_op db_ok_run_op)

section \<open>The listing\<close>

lemma list_rows_set: "set (list_rows now t) = {p \<in> set t. listed now p}"
  by (simp add: list_rows_def)

lemma list_rows_sorted: "sorted_wrt (\<lambda>p q. p_create_time p \<ge> p_create_time q) (list_rows now t)"
proof -
  have "sorted (map (\<lambda>p. - p_create_time p) (list_rows now t))"
    by (simp add: list_rows_def)
  then show ?thesis by (simp add: sorted_map)
qed

lemma list_rows_mset: "mset (list_rows now t) = filter_mset (listed now) (mset t)"
  by (simp add: list_rows_def)

lemma list_rows_distinct: "tbl_ok p_id t \<Longrightarrow> distinct (map p_id (list_rows now t))"
proof -
  assume "tbl_ok p_id t"
  then have "distinct (map p_id (filter (listed now) t))"
    by (simp add: tbl_ok_def distinct_map_filter)
  moreover have "mset (map p_id (filter (listed now) t)) = mset (map p_id (list_rows now t))"
    by (simp add: list_rows_mset)
  ultimately show ?thesis by (metis mset_eq_imp_distinct_iff)
qed

definition page :: "int \<Rightarrow> int \<Rightarrow> int \<Rightarrow> table \<Rightarrow> paste list" where
  "page now limit offset t = take (nat limit) (drop (nat offset) (list_rows now t))"

lemma PasteList_page:
  "PasteList now ok limit offset d = Inr items \<longleftrightarrow>
     ok \<and> items = map list_item (page now (list_limit limit) (max 0 offset) (pool d))"
  by (auto simp: PasteList_def Let_def page_def max_def)

lemma pages_concat:
  "concat (map (\<lambda>k. take l (drop (k * l) xs)) [0..<n]) = take (n * l) xs"
proof (induction n)
  case (Suc n)
  have "take (n * l) xs @ take l (drop (n * l) xs) = take (n * l + l) xs"
    by (simp add: take_add)
  with Suc show ?case by (simp add: add.commute)
qed simp

lemma page_pages:
  assumes "0 < limit"
  shows "concat (map (\<lambda>k. page now limit (int k * limit) t) [0..<n]) =
           take (n * nat limit) (list_rows now t)"
  using assms by (simp add: page_def nat_mult_distrib pages_concat)

section \<open>Tokens\<close>

lemma genTokenCrypto_Some:
  "genTokenCrypto n rs = Some t \<Longrightarrow> list_all (\<lambda>r. case r of None \<Rightarrow> True | Some k \<Rightarrow> k < 62) rs \<Longrightarrow>
     length t = n \<and> set t \<subseteq> set token_chars"
proof (induction n rs arbitrary: t rule: genTokenCrypto.induct)
  case (4 n r rs)
  then have "r < length token_chars" by (simp add: token_chars_def)
  then have "token_chars ! r \<in> set token_chars" by (rule nth_mem)
  with 4 show ?case by auto
qed simp_all

section \<open>Properties\<close>



definition sample_paste :: paste where
  "sample_paste = \<lparr>p_id = [], p_title = ''t'', p_body = ''b'', p_create_time = 0,
     p_delete_time = 50, p_one_use = True, p_syntax = ''plaintext'', p_author = [],
     p_author_email = [], p_author_url = [], p_is_file = False, p_file_name = [],
     p_mime_type = [], p_is_editable = False, p_is_private = False, p_is_url = False,
     p_original_url = []\<rparr>"

abbreviation sample_rands :: "nat option list" where
  "sample_rands \<equiv> replicate 8 (Some 0)"

abbreviation sample_id :: string where
  "sample_id \<equiv> ''aaaaaaaa''"

lemma sample_token [simp]: "genTokenCrypto 8 (replicate 8 (Some 0)) = Some ''aaaaaaaa''"
  by (simp add: numeral_eq_Suc token_chars_def)


text \<open>
  A listing never has more than 100 items, has no paste twice, is ordered from the newest to the
  oldest, and every item is of a paste that is not private and that \<open>PasteGet\<close> returns at that time.
\<close>

theorem PasteList_correct:
  assumes "db_ok d" and "PasteList now ok limit offset d = Inr items"
  shows "length items \<le> 100 \<and> distinct (map li_id items)
       \<and> sorted_wrt (\<lambda>x y. li_create_time x \<ge> li_create_time y) items
       \<and> list_all (\<lambda>x. \<exists>p. fst (PasteGet now True okd (li_id x) d) = Inr p \<and> list_item p = x
            \<and> \<not> p_is_private p) items"
proof -
  let ?ps = "page now (list_limit limit) (max 0 offset) (pool d)"
  have items: "items = map list_item ?ps" using assms(2) by (simp add: PasteList_page)
  have li: "li_id \<circ> list_item = p_id" "\<And>p. li_create_time (list_item p) = p_create_time p"
    by (auto simp: list_item_def)
  have "length items \<le> nat (list_limit limit)" by (simp add: items page_def)
  then have "length items \<le> 100" unfolding list_limit_def by (auto split: if_splits)
  moreover have "distinct (map li_id items)"
    using distinct_take [OF distinct_drop [OF list_rows_distinct [OF db_ok_tbl [OF assms(1)]]]]
    by (simp add: items li page_def take_map drop_map)
  moreover have "sorted_wrt (\<lambda>x y. li_create_time x \<ge> li_create_time y) items"
    by (simp add: items sorted_wrt_map li page_def sorted_wrt_take sorted_wrt_drop list_rows_sorted)
  moreover have "\<exists>q. fst (PasteGet now True okd (li_id (list_item p)) d) = Inr q
      \<and> list_item q = list_item p \<and> \<not> p_is_private q" if "p \<in> set ?ps" for p
  proof (intro exI conjI)
    have p: "p \<in> set (pool d)" "listed now p"
      using that list_rows_set unfolding page_def by (auto dest!: in_set_takeD in_set_dropD)
    then have "view d (p_id p) = Some p"
      using tbl_find_iff [OF db_ok_tbl [OF assms(1)]] by (simp add: view_def)
    with p(2) show "fst (PasteGet now True okd (li_id (list_item p)) d) = Inr p"
      by (auto simp: PasteGet_Inr listed_def expired_at_def list_item_def)
    show "\<not> p_is_private p" using p(2) by (simp add: listed_def)
  qed simp
  ultimately show ?thesis by (simp add: items list_all_iff)
qed

lemma PasteList_correct_witness:
  "db_ok \<lparr>pool = [sample_paste], backup_pool = None\<rparr>
   \<and> (\<exists>items. PasteList 10 True 0 (- 3) \<lparr>pool = [sample_paste], backup_pool = None\<rparr> = Inr items
        \<and> items \<noteq> [] \<and> length items \<le> 100 \<and> distinct (map li_id items))"
proof -
  let ?d = "\<lparr>pool = [sample_paste], backup_pool = None\<rparr>"
  have ok: "db_ok ?d" by (simp add: db_ok_def tbl_ok_def)
  have l: "PasteList 10 True 0 (- 3) ?d = Inr [list_item sample_paste]"
    by (simp add: PasteList_def list_rows_def listed_def list_limit_def sample_paste_def Let_def)
  show ?thesis using ok l PasteList_correct [OF ok l] by blast
qed



text \<open>
  Cleaning is invisible to readers: whether or not the sweep of expired pastes ran at \<open>now\<close>, a
  later \<open>PasteGet\<close> of any id gives the same answer.
\<close>

theorem sweep_invisible:
  assumes "db_ok d" and "now \<le> later"
  shows "fst (PasteGet later ok True i (snd (PasteDeleteExpired now nowb w okb d))) =
           fst (PasteGet later ok True i d)"
  using expired_at_mono [OF _ assms(2)] view_PasteDeleteExpired [OF assms(1)]
  by (auto simp: PasteGet_eq split: option.splits)

lemma sweep_invisible_witness:
  "db_ok \<lparr>pool = [sample_paste], backup_pool = None\<rparr>
   \<and> pool (snd (PasteDeleteExpired 60 60 Written True \<lparr>pool = [sample_paste], backup_pool = None\<rparr>)) = []
   \<and> fst (PasteGet 60 True True []
        (snd (PasteDeleteExpired 60 60 Written True \<lparr>pool = [sample_paste], backup_pool = None\<rparr>))) =
      fst (PasteGet 60 True True [] \<lparr>pool = [sample_paste], backup_pool = None\<rparr>)"
proof -
  have ok: "db_ok \<lparr>pool = [sample_paste], backup_pool = None\<rparr>" by (simp add: db_ok_def tbl_ok_def)
  have "pool (snd (PasteDeleteExpired 60 60 Written True
      \<lparr>pool = [sample_paste], backup_pool = None\<rparr>)) = []"
    by (simp add: PasteDeleteExpired_def tbl_defs expired_at_def sample_paste_def Let_def on_backup_def)
  with ok sweep_invisible [OF ok order_refl] show ?thesis by blast
qed

text \<open>
  A paste that is stored can be read back: \<open>PasteAdd\<close> draws an id of eight alphanumeric characters
  that was free, and at any time when the returned deletion time has not passed (or is zero, for
  never) \<open>PasteGet\<close> returns the paste under this id with the reported times and everything else as
  submitted; no other id changes.
\<close>

theorem PasteAdd_PasteGet:
  assumes "PasteAdd rs now ok okb p d = (Inr (i, c, x), d')"
    and "list_all (\<lambda>r. case r of None \<Rightarrow> True | Some k \<Rightarrow> k < 62) rs"
  shows "length i = 8 \<and> set i \<subseteq> set token_chars \<and> view d i = None \<and> c = now \<and> 0 \<le> x
       \<and> (x = 0 \<or> t \<le> x \<longleftrightarrow> fst (PasteGet t True okd i d') =
              Inr (p\<lparr>p_id := i, p_create_time := c, p_delete_time := x\<rparr>))
       \<and> (j = i \<or> view d' j = view d j)"
proof -
  have v: "view d i = None" "view d' = (view d)(i \<mapsto> added i now p)" "c = now"
    "x = p_delete_time (added i now p)"
    using view_PasteAdd [OF assms(1)] by auto
  have "genTokenCrypto 8 rs = Some i"
    using assms(1) by (auto simp: PasteAdd_eq split: option.splits if_splits)
  then have "length i = 8 \<and> set i \<subseteq> set token_chars" by (rule genTokenCrypto_Some [OF _ assms(2)])
  moreover have "added i now p = p\<lparr>p_id := i, p_create_time := c, p_delete_time := x\<rparr>"
    by (simp add: v added_def)
  ultimately show ?thesis
    using v by (auto simp: PasteGet_Inr expired_at_def added_def)
qed

lemma PasteAdd_PasteGet_witness:
  "\<exists>d'. PasteAdd sample_rands 10 True True sample_paste \<lparr>pool = [], backup_pool = None\<rparr> =
          (Inr (sample_id, 10, 50), d')
      \<and> fst (PasteGet 50 True True sample_id d') =
          Inr (sample_paste\<lparr>p_id := sample_id, p_create_time := 10, p_delete_time := 50\<rparr>)"
proof -
  have a: "PasteAdd sample_rands 10 True True sample_paste \<lparr>pool = [], backup_pool = None\<rparr> =
      (Inr (sample_id, 10, 50), \<lparr>pool = [sample_paste\<lparr>p_id := sample_id, p_create_time := 10\<rparr>],
         backup_pool = None\<rparr>)"
    by (simp add: PasteAdd_def tbl_defs on_backup_def sample_paste_def Let_def)
  have "list_all (\<lambda>r. case r of None \<Rightarrow> True | Some k \<Rightarrow> k < 62) sample_rands"
    by (simp add: list_all_iff)
  from PasteAdd_PasteGet [OF a this, of 50 True] a show ?thesis by auto
qed

end
