(* ===== verification/Go_Net.thy ===== *)
theory Go_Net
  imports Go_Conv "HOL-Library.Word"
begin

unbundle bit_operations_syntax

text \<open>
  What the code uses of the Go package \<open>net\<close>: \<open>SplitHostPort\<close>, \<open>ParseIP\<close> with its IPv4 and IPv6
  grammars, and the classification of addresses. An \<open>IP\<close> is a list of bytes, \<open>nil\<close> the value \<open>None\<close>.
\<close>

type_synonym ip = "8 word list"

section \<open>Host and port\<close>

fun last_colon :: "string \<Rightarrow> (string \<times> string) option" where
  "last_colon [] = None"
| "last_colon (c # cs) =
     (case last_colon cs of
        Some (h, p) \<Rightarrow> Some (c # h, p)
      | None \<Rightarrow> if c = CHR '':'' then Some ([], cs) else None)"

text \<open>
  In the bracketed form the first closing bracket must be just before the last colon. Errors are
  \<open>None\<close>.
\<close>

definition SplitHostPort :: "string \<Rightarrow> (string \<times> string) option" where
  "SplitHostPort hostport =
     (case last_colon hostport of
        None \<Rightarrow> None
      | Some (h, port) \<Rightarrow>
          if has_prefix hostport ''['' then
            (case cut hostport '']'' of
               None \<Rightarrow> None
             | Some (a, b) \<Rightarrow>
                 if a @ '']'' \<noteq> h then None
                 else if CHR ''['' \<in> set (drop 1 hostport) \<or> CHR '']'' \<in> set b then None
                 else Some (drop 1 a, port))
          else if CHR '':'' \<in> set h then None
          else if CHR ''['' \<in> set hostport \<or> CHR '']'' \<in> set hostport then None
          else Some (h, port))"

section \<open>Parsing addresses\<close>

definition ipv4_field :: "string \<Rightarrow> 8 word option" where
  "ipv4_field f =
     (case parse_nat f of
        None \<Rightarrow> None
      | Some v \<Rightarrow> if v > 255 \<or> (hd f = CHR ''0'' \<and> length f > 1) then None else Some (of_nat v))"

fun all_some :: "'a option list \<Rightarrow> 'a list option" where
  "all_some [] = Some []"
| "all_some (None # xs) = None"
| "all_some (Some x # xs) = map_option (\<lambda>ys. x # ys) (all_some xs)"

definition parse_ipv4 :: "string \<Rightarrow> ip option" where
  "parse_ipv4 s =
     (let parts = split_char (CHR ''.'') s
      in if length parts = 4 then all_some (map ipv4_field parts) else None)"

text \<open>The value of a hexadecimal digit, as \<open>hex.DecodeString\<close> reads it.\<close>

definition hex_group :: "string \<Rightarrow> nat" where
  "hex_group ds = foldl (\<lambda>acc c. acc * 16 + (case hex_value c of None \<Rightarrow> 0 | Some v \<Rightarrow> v)) 0 ds"

definition is_hex :: "char \<Rightarrow> bool" where
  "is_hex c \<longleftrightarrow> hex_value c \<noteq> None"

text \<open>
  The loop of \<open>parseIPv6\<close> over the groups: the bytes read so far, the position of the ellipsis, the
  rest of the text.
\<close>

function ipv6_loop :: "ip \<Rightarrow> nat option \<Rightarrow> string \<Rightarrow> (ip \<times> nat option) option" where
  "ipv6_loop bs ell s =
     (if length bs \<ge> 16 then (if s = [] then Some (bs, ell) else None)
      else
        let ds = takeWhile is_hex s; rest = dropWhile is_hex s
        in if ds = [] \<or> length ds > 4 then None
           else if has_prefix rest ''.'' then
             (if ell = None \<and> length bs \<noteq> 12 \<or> length bs + 4 > 16 then None
              else map_option (\<lambda>v4. (bs @ v4, ell)) (parse_ipv4 s))
           else
             let bs' = bs @ [of_nat (hex_group ds div 256), of_nat (hex_group ds mod 256)]
             in case rest of
                  [] \<Rightarrow> Some (bs', ell)
                | c # s' \<Rightarrow>
                    if c \<noteq> CHR '':'' \<or> s' = [] then None
                    else if has_prefix s' '':'' then
                      (if ell \<noteq> None then None
                       else if drop 1 s' = [] then Some (bs', Some (length bs'))
                       else ipv6_loop bs' (Some (length bs')) (drop 1 s'))
                    else ipv6_loop bs' ell s')"
  by pat_completeness auto
termination by (relation "measure (\<lambda>(bs, ell, s). 16 - length bs)") auto

declare ipv6_loop.simps [simp del]

definition expand_ellipsis :: "ip \<times> nat option \<Rightarrow> ip option" where
  "expand_ellipsis r =
     (case r of (bs, ell) \<Rightarrow>
        if length bs < 16 then
          (case ell of None \<Rightarrow> None
           | Some e \<Rightarrow> Some (take e bs @ replicate (16 - length bs) 0 @ drop e bs))
        else if ell \<noteq> None then None else Some bs)"

definition parse_ipv6 :: "string \<Rightarrow> ip option" where
  "parse_ipv6 s =
     (if CHR ''%'' \<in> set s then None
      else if has_prefix s ''::'' then
        (if length s = 2 then Some (replicate 16 0)
         else Option.bind (ipv6_loop [] (Some 0) (drop 2 s)) expand_ellipsis)
      else Option.bind (ipv6_loop [] None s) expand_ellipsis)"

definition v4_prefix :: ip where
  "v4_prefix = replicate 10 0 @ [0xFF, 0xFF]"

definition ParseIP :: "string \<Rightarrow> ip option" where
  "ParseIP s =
     (case find (\<lambda>c. c = CHR ''.'' \<or> c = CHR '':'' \<or> c = CHR ''%'') s of
        None \<Rightarrow> None
      | Some c \<Rightarrow>
          if c = CHR ''.'' then map_option (\<lambda>b. v4_prefix @ b) (parse_ipv4 s)
          else if c = CHR '':'' then parse_ipv6 s
          else None)"

section \<open>Classification\<close>

definition To4 :: "ip \<Rightarrow> ip option" where
  "To4 i =
     (if length i = 4 then Some i
      else if length i = 16 \<and> take 12 i = v4_prefix then Some (drop 12 i)
      else None)"

definition IsLoopback :: "ip \<Rightarrow> bool" where
  "IsLoopback i =
     (case To4 i of Some b \<Rightarrow> b ! 0 = 127 | None \<Rightarrow> i = replicate 15 0 @ [1])"

definition IsLinkLocalUnicast :: "ip \<Rightarrow> bool" where
  "IsLinkLocalUnicast i =
     (case To4 i of
        Some b \<Rightarrow> b ! 0 = 169 \<and> b ! 1 = 254
      | None \<Rightarrow> length i = 16 \<and> i ! 0 = 0xFE \<and> i ! 1 AND 0xC0 = 0x80)"

lemma all_some_length: "all_some xs = Some ys \<Longrightarrow> length ys = length xs"
  by (induction xs arbitrary: ys rule: all_some.induct) auto

lemma parse_ipv4_length: "parse_ipv4 s = Some b \<Longrightarrow> length b = 4"
  by (auto simp: parse_ipv4_def Let_def dest: all_some_length split: if_splits)

lemma ipv6_loop_length:
  "ipv6_loop bs ell s = Some (bs', ell') \<Longrightarrow> length bs \<le> 16 \<Longrightarrow> even (length bs) \<Longrightarrow>
     (case ell of None \<Rightarrow> True | Some e \<Rightarrow> e \<le> length bs) \<Longrightarrow>
     length bs' \<le> 16 \<and> (case ell' of None \<Rightarrow> True | Some e \<Rightarrow> e \<le> length bs')"
proof (induction bs ell s arbitrary: bs' ell' rule: ipv6_loop.induct)
  case (1 bs ell s)
  show ?case
  proof (cases "length bs \<ge> 16")
    case True
    with 1(3-) show ?thesis by (auto simp: ipv6_loop.simps [of bs] split: if_splits)
  next
    case False
    with 1(4,5) have le: "length bs + 2 \<le> 16" by presburger
    let ?ds = "takeWhile is_hex s" and ?rest = "dropWhile is_hex s"
    let ?bs = "bs @ [of_nat (hex_group ?ds div 256), of_nat (hex_group ?ds mod 256)]"
    have ds: "\<not> (?ds = [] \<or> length ?ds > 4)"
      using 1(3) False by (subst (asm) ipv6_loop.simps) (auto simp: Let_def split: if_splits)
    show ?thesis
    proof (cases "has_prefix ?rest ''.''")
      case True
      have "length bs + 4 \<le> 16" "\<exists>v4. parse_ipv4 s = Some v4 \<and> bs' = bs @ v4 \<and> ell' = ell"
        using 1(3) False True ds
        by (subst (asm) ipv6_loop.simps; auto simp: Let_def split: if_splits)+
      with 1(6) show ?thesis by (auto dest: parse_ipv4_length split: option.splits)
    next
      case dot: False
      have ell2: "case ell of None \<Rightarrow> True | Some e \<Rightarrow> e \<le> length ?bs"
        using 1(6) by (auto split: option.splits)
      show ?thesis
      proof (cases ?rest)
        case Nil
        then have "bs' = ?bs \<and> ell' = ell"
          using 1(3) False ds
          by (subst (asm) ipv6_loop.simps) (auto simp: Let_def Nil simp del: dropWhile_eq_Nil_conv)
        with le ell2 show ?thesis by (auto split: option.splits)
      next
        case (Cons c s')
        have step: "(if c \<noteq> CHR '':'' \<or> s' = [] then None
            else if has_prefix s' '':'' then
              (if ell \<noteq> None then None
               else if drop 1 s' = [] then Some (?bs, Some (length ?bs))
               else ipv6_loop ?bs (Some (length ?bs)) (drop 1 s'))
            else ipv6_loop ?bs ell s') = Some (bs', ell')"
          using 1(3) False ds dot Cons
          by (subst (asm) ipv6_loop.simps) (simp add: Let_def)
        have even: "even (length ?bs)" "length ?bs \<le> 16" using le 1(5) by simp_all
        show ?thesis
        proof (cases "has_prefix s' '':''")
          case True
          with step le have "ell = None" and r: "(bs', ell') = (?bs, Some (length ?bs)) \<or>
              drop 1 s' \<noteq> [] \<and> ipv6_loop ?bs (Some (length ?bs)) (drop 1 s') = Some (bs', ell')"
            by (auto split: if_splits)
          from r show ?thesis
          proof
            assume "(bs', ell') = (?bs, Some (length ?bs))"
            with le show ?thesis by simp
          next
            assume d: "drop 1 s' \<noteq> [] \<and> ipv6_loop ?bs (Some (length ?bs)) (drop 1 s') = Some (bs', ell')"
            then have l: "ipv6_loop ?bs (Some (length ?bs)) (drop 1 s') = Some (bs', ell')" by blast
            show ?thesis
              by (rule 1(1) [OF False refl refl _ _ refl Cons _ True _ _ l even(2,1)])
                (use ds dot step \<open>ell = None\<close> True d in \<open>auto split: if_splits\<close>)
          qed
        next
          case colon: False
          with step have l: "ipv6_loop ?bs ell s' = Some (bs', ell')" by (auto split: if_splits)
          show ?thesis
            by (rule 1(2) [OF False refl refl _ _ refl Cons _ colon l even(2,1) ell2])
              (use ds dot step in \<open>auto split: if_splits\<close>)
        qed
      qed
    qed
  qed
qed

lemma ParseIP_length: "ParseIP s = Some i \<Longrightarrow> length i = 16"
proof -
  have e: "length i = 16" if "ipv6_loop [] ell t = Some r" "expand_ellipsis r = Some i"
    "ell = None \<or> ell = Some 0" for ell t r i
  proof -
    obtain bs ell' where r: "r = (bs, ell')" by (cases r)
    have "length bs \<le> 16 \<and> (case ell' of None \<Rightarrow> True | Some e \<Rightarrow> e \<le> length bs)"
      by (rule ipv6_loop_length [OF that(1) [unfolded r]]) (use that(3) in auto)
    with that(2) r show ?thesis by (auto simp: expand_ellipsis_def split: if_splits option.splits)
  qed
  assume "ParseIP s = Some i"
  then consider b where "i = v4_prefix @ b" "parse_ipv4 s = Some b" | "parse_ipv6 s = Some i"
    by (auto simp: ParseIP_def split: option.splits if_splits)
  then show ?thesis
  proof cases
    case 1
    then show ?thesis by (auto simp: v4_prefix_def dest: parse_ipv4_length)
  next
    case 2
    then show ?thesis
      using e by (auto simp: parse_ipv6_def bind_eq_Some_conv split: if_splits)
  qed
qed

end
