(* ===== verification/Validation.thy ===== *)
theory Validation
  imports Go_Conv
begin

text \<open>
  Packages \<open>validation\<close> (\<open>bool.go\<close>, \<open>driver.go\<close>, \<open>fqdn.go\<close>), \<open>portutil\<close> and \<open>mode\<close>: reading of
  booleans, database connection strings, host names, mail addresses, port settings and the
  application mode. Listening sockets, random numbers, the host name of the system, the default
  route and the environment are arguments.
\<close>

section \<open>Booleans\<close>

definition truthy :: "string list" where
  "truthy = [''1'', ''yes'', ''true'', ''enable'', ''enabled'', ''on'',
     ''yep'', ''yup'', ''yeah'', ''affirmative'', ''aye'',
     ''si'', ''oui'', ''da'', ''hai'', ''totally'', ''sure'',
     ''ok'', ''okay'', ''accept'', ''allow'', ''grant'',
     ''y'', ''t'', ''active'']"

definition falsey :: "string list" where
  "falsey = [''0'', ''no'', ''false'', ''disable'', ''disabled'', ''off'',
     ''nope'', ''nah'', ''nay'', ''negative'', ''nein'',
     ''non'', ''niet'', ''iie'', ''lie'', ''noway'', ''never'',
     ''deny'', ''reject'', ''block'', ''revoke'',
     ''n'', ''f'', ''inactive'']"

definition ParseBool :: "string \<Rightarrow> bool \<times> bool" where
  "ParseBool s =
     (if s = [] then (False, False)
      else let s = to_lower (trim_space s)
           in if s \<in> set truthy then (True, True)
              else if s \<in> set falsey then (False, True)
              else (False, False))"

definition IsTruthy :: "string \<Rightarrow> bool" where
  "IsTruthy s = (case ParseBool s of (value, wasSet) \<Rightarrow> wasSet \<and> value)"

definition IsFalsey :: "string \<Rightarrow> bool" where
  "IsFalsey s = (case ParseBool s of (value, wasSet) \<Rightarrow> wasSet \<and> \<not> value)"

section \<open>Database connection strings\<close>

definition DetectDriver :: "string \<Rightarrow> string option" where
  "DetectDriver source =
     (let source = to_lower (trim_space source)
      in if has_prefix source ''sqlite://'' then Some ''sqlite''
         else if has_prefix source ''sqlite3://'' then Some ''sqlite''
         else if has_prefix source ''postgres://'' \<or> has_prefix source ''postgresql://''
           then Some ''postgres''
         else if has_prefix source ''mysql://'' then Some ''mysql''
         else if has_prefix source ''mariadb://'' then Some ''mysql''
         else if has_prefix source ''libsql://'' \<or> has_prefix source ''file:'' then Some ''libsql''
         else if contains_str source ''/'' \<or> has_suffix source ''.db'' then Some ''sqlite''
         else None)"

definition NormalizeDriver :: "string \<Rightarrow> string" where
  "NormalizeDriver driver =
     (let driver = to_lower driver
      in if driver = ''mariadb'' \<or> driver = ''maria'' then ''mysql''
         else if driver = ''sqlite3'' then ''sqlite''
         else if driver = ''postgresql'' then ''postgres''
         else if driver = ''turso'' then ''libsql''
         else driver)"

definition NormalizeConnectionString :: "string \<Rightarrow> string \<Rightarrow> string" where
  "NormalizeConnectionString driver source =
     (if driver = ''libsql'' then source
      else if driver = ''sqlite'' then
        (if has_prefix source ''sqlite://'' then trim_prefix source ''sqlite://''
         else if has_prefix source ''sqlite3://'' then trim_prefix source ''sqlite3://''
         else source)
      else if driver = ''postgres'' then source
      else if driver = ''mysql'' then
        (if has_prefix source ''mysql://'' \<or> has_prefix source ''mariadb://'' then
           let source = trim_prefix (trim_prefix source ''mysql://'') ''mariadb://''
           in case cut source ''@'' of
                None \<Rightarrow> source
              | Some (userPass, rest) \<Rightarrow>
                  (case cut rest ''/'' of
                     None \<Rightarrow> source
                   | Some (hostPort, db) \<Rightarrow>
                       userPass @ ''@tcp('' @ hostPort @ '')'' @ ''/'' @ db)
         else source)
      else source)"

section \<open>Host names\<close>

text \<open>
  The pattern of \<open>ValidateFQDN\<close>: labels separated by dots, each of one to 63 letters, digits and
  hyphens, with a letter or digit at both ends.
\<close>

definition is_alnum :: "char \<Rightarrow> bool" where
  "is_alnum c \<longleftrightarrow> (let b = byte c in 97 \<le> b \<and> b \<le> 122 \<or> 65 \<le> b \<and> b \<le> 90 \<or> 48 \<le> b \<and> b \<le> 57)"

definition dns_label :: "string \<Rightarrow> bool" where
  "dns_label l \<longleftrightarrow> l \<noteq> [] \<and> length l \<le> 63 \<and> is_alnum (hd l) \<and> is_alnum (last l)
     \<and> list_all (\<lambda>c. is_alnum c \<or> c = CHR ''-'') l"

definition dns_pattern :: "string \<Rightarrow> bool" where
  "dns_pattern s \<longleftrightarrow> list_all dns_label (split_char (CHR ''.'') s)"

definition forbiddenHosts :: "string list" where
  "forbiddenHosts = [''localhost'', ''localhost.localdomain'', ''localdomain'', ''local'',
     ''localhost.local'', ''localhost6'', ''localhost6.localdomain6'', ''localdomain6'']"

datatype fqdn_error =
    Fqdn_empty | Fqdn_no_dot | Fqdn_format | Fqdn_dot_end | Fqdn_localhost | Fqdn_ip
  | No_route | Email_empty | Email_no_at | Email_ats | Email_local | Email_domain

definition ValidateFQDN :: "string \<Rightarrow> fqdn_error + unit" where
  "ValidateFQDN fqdn =
     (if fqdn = [] then Inl Fqdn_empty
      else if \<not> contains_str fqdn ''.'' then Inl Fqdn_no_dot
      else
        let fqdn = (if contains_str fqdn '':'' then hd (split_char (CHR '':'') fqdn) else fqdn)
        in if \<not> dns_pattern fqdn then Inl Fqdn_format
           else if has_prefix fqdn ''.'' \<or> has_suffix fqdn ''.'' then Inl Fqdn_dot_end
           else let lower = to_lower fqdn
           in if list_ex (\<lambda>f. lower = f \<or> has_suffix lower (''.'' @ f)) forbiddenHosts
             then Inl Fqdn_localhost
           else if fqdn \<noteq> [] \<and> list_all (\<lambda>c. is_digit c \<or> c = CHR ''.'' \<or> c = CHR '':'') fqdn
             then Inl Fqdn_ip
           else Inr ())"

definition before_port :: "string \<Rightarrow> string" where
  "before_port h = (if contains_str h '':'' then hd (split_char (CHR '':'') h) else h)"

definition usable_fqdn :: "string \<Rightarrow> bool" where
  "usable_fqdn h \<longleftrightarrow> contains_str h ''.'' \<and> ValidateFQDN h = Inr ()"

definition DetermineFQDN ::
    "string \<Rightarrow> string \<Rightarrow> string option \<Rightarrow> string option \<Rightarrow> fqdn_error + string" where
  "DetermineFQDN fromProxy fromConfig hostname globalIP =
     (if fromConfig \<noteq> [] \<and> usable_fqdn (before_port fromConfig) then Inr (before_port fromConfig)
      else if fromProxy \<noteq> [] \<and> usable_fqdn (before_port fromProxy) then Inr (before_port fromProxy)
      else (case hostname of
          Some h \<Rightarrow> if usable_fqdn h then Inr h
                    else (case globalIP of None \<Rightarrow> Inl No_route | Some ip \<Rightarrow> Inr ip)
        | None \<Rightarrow> (case globalIP of None \<Rightarrow> Inl No_route | Some ip \<Rightarrow> Inr ip)))"

definition ValidateEmail :: "string \<Rightarrow> fqdn_error + unit" where
  "ValidateEmail email =
     (if email = [] then Inl Email_empty
      else if \<not> contains_str email ''@'' then Inl Email_no_at
      else case split_char (CHR ''@'') email of
          [loc, domain] \<Rightarrow>
            if loc = [] then Inl Email_local
            else if domain = [] then Inl Email_domain
            else ValidateFQDN domain
        | _ \<Rightarrow> Inl Email_ats)"

section \<open>Ports\<close>

datatype port_error =
    Port_empty | Http_port_syntax | Http_port_range | Https_port_syntax | Https_port_range
  | Invalid_range | No_port

definition port_in_range :: "int \<Rightarrow> bool" where
  "port_in_range p \<longleftrightarrow> 1 \<le> p \<and> p \<le> 65535"

definition ParsePorts :: "string \<Rightarrow> port_error + int \<times> int" where
  "ParsePorts portStr =
     (if portStr = [] then Inl Port_empty
      else let parts = split_char (CHR '','') portStr
      in case parse_int (trim_space (parts ! 0)) of
          Inl _ \<Rightarrow> Inl Http_port_syntax
        | Inr httpPort \<Rightarrow>
            if \<not> port_in_range httpPort then Inl Http_port_range
            else if length parts = 2 then
              (case parse_int (trim_space (parts ! 1)) of
                 Inl _ \<Rightarrow> Inl Https_port_syntax
               | Inr httpsPort \<Rightarrow>
                   if \<not> port_in_range httpsPort then Inl Https_port_range
                   else Inr (httpPort, httpsPort))
            else Inr (httpPort, 0))"

definition FormatPorts :: "int \<Rightarrow> int \<Rightarrow> string" where
  "FormatPorts httpPort httpsPort =
     (if httpsPort > 0 then show_int httpPort @ '','' @ show_int httpsPort else show_int httpPort)"

text \<open>\<open>can_listen\<close> tells whether \<open>net.Listen\<close> succeeds.\<close>

definition IsPortAvailable :: "(int \<Rightarrow> bool) \<Rightarrow> int \<Rightarrow> bool" where
  "IsPortAvailable can_listen port = (port_in_range port \<and> can_listen port)"

text \<open>
  \<open>rand\<close> gives the number \<open>rand.Intn\<close> draws at each attempt and \<open>can_listen\<close> the outcome of
  \<open>net.Listen\<close> at that moment.
\<close>

fun try_ports ::
    "nat \<Rightarrow> (nat \<Rightarrow> int) \<Rightarrow> (nat \<Rightarrow> int \<Rightarrow> bool) \<Rightarrow> int \<Rightarrow> nat \<Rightarrow> port_error + int" where
  "try_ports 0 rand can_listen minPort attempts = Inl No_port"
| "try_ports (Suc n) rand can_listen minPort attempts =
     (let port = rand attempts + minPort
      in if IsPortAvailable (can_listen attempts) port then Inr port
         else try_ports n rand can_listen minPort (attempts + 1))"

definition FindUnusedPort ::
    "(nat \<Rightarrow> int) \<Rightarrow> (nat \<Rightarrow> int \<Rightarrow> bool) \<Rightarrow> int \<Rightarrow> int \<Rightarrow> port_error + int" where
  "FindUnusedPort rand can_listen minPort maxPort =
     (if minPort < 1 \<or> maxPort > 65535 \<or> minPort > maxPort then Inl Invalid_range
      else try_ports 100 rand can_listen minPort 0)"

section \<open>Application mode\<close>

datatype AppMode = Production | Development

record mode_state =
  currentMode :: AppMode
  debugEnabled :: bool
  blockProfileRate :: nat
  mutexProfileFraction :: nat

definition initial_mode :: mode_state where
  "initial_mode = \<lparr>currentMode = Production, debugEnabled = False, blockProfileRate = 0,
     mutexProfileFraction = 0\<rparr>"

fun mode_String :: "AppMode \<Rightarrow> string" where
  "mode_String Development = ''development''"
| "mode_String Production = ''production''"

definition updateAppModeProfilingSettings :: "mode_state \<Rightarrow> mode_state" where
  "updateAppModeProfilingSettings m =
     (if debugEnabled m then m\<lparr>blockProfileRate := 1, mutexProfileFraction := 1\<rparr>
      else m\<lparr>blockProfileRate := 0, mutexProfileFraction := 0\<rparr>)"

definition SetDebugEnabled :: "bool \<Rightarrow> mode_state \<Rightarrow> mode_state" where
  "SetDebugEnabled enabled m = updateAppModeProfilingSettings (m\<lparr>debugEnabled := enabled\<rparr>)"

definition SetAppMode :: "string \<Rightarrow> mode_state \<Rightarrow> mode_state" where
  "SetAppMode s m =
     (let l = to_lower s;
          m = (if l \<in> {''dev'', ''devel'', ''development''} then m\<lparr>currentMode := Development\<rparr>
               else if l = ''debug'' then SetDebugEnabled True (m\<lparr>currentMode := Development\<rparr>)
               else m\<lparr>currentMode := Production\<rparr>)
      in updateAppModeProfilingSettings m)"

definition GetAppModeString :: "mode_state \<Rightarrow> string" where
  "GetAppModeString m =
     mode_String (currentMode m) @ (if debugEnabled m then '' [debugging]'' else [])"

definition FromEnv :: "string \<Rightarrow> string \<Rightarrow> mode_state \<Rightarrow> mode_state" where
  "FromEnv MODE DEBUG m =
     (let m = (if MODE \<noteq> [] then SetAppMode MODE m else m)
      in case ParseBool DEBUG of (val, wasSet) \<Rightarrow> if wasSet then SetDebugEnabled val m else m)"

section \<open>Booleans: facts\<close>

lemma truthy_falsey_disjoint: "set truthy \<inter> set falsey = {}"
  by (simp add: truthy_def falsey_def)

lemma ParseBool_value: "fst (ParseBool s) \<Longrightarrow> snd (ParseBool s)"
  by (auto simp: ParseBool_def Let_def split: if_splits)

lemma IsTruthy_iff: "IsTruthy s \<longleftrightarrow> s \<noteq> [] \<and> to_lower (trim_space s) \<in> set truthy"
  by (auto simp: IsTruthy_def ParseBool_def Let_def)

lemma IsFalsey_iff: "IsFalsey s \<longleftrightarrow> s \<noteq> [] \<and> to_lower (trim_space s) \<in> set falsey"
  using truthy_falsey_disjoint by (auto simp: IsFalsey_def ParseBool_def Let_def)

section \<open>Host names: facts\<close>

text \<open>Characters that are safe in a host name of a URL.\<close>

definition host_char :: "char \<Rightarrow> bool" where
  "host_char c \<longleftrightarrow> is_alnum c \<or> c = CHR ''-'' \<or> c = CHR ''.''"

lemma dns_pattern_chars: "dns_pattern s \<Longrightarrow> list_all host_char s"
proof -
  assume d: "dns_pattern s"
  have "set (join [CHR ''.''] ws) \<subseteq> insert (CHR ''.'') (\<Union> (set ` set ws))" for ws
    by (induction "[CHR ''.'']" ws rule: join.induct) auto
  from this [of "split_char (CHR ''.'') s"]
  have "set s \<subseteq> insert (CHR ''.'') (\<Union> (set ` set (split_char (CHR ''.'') s)))" by simp
  with d show ?thesis
    by (fastforce simp: dns_pattern_def dns_label_def list_all_iff host_char_def)
qed

lemma before_port_no_colon: "contains_str (before_port h) '':'' \<longleftrightarrow> False"
proof -
  have "hd (split_char (CHR '':'') h) \<in> set (split_char (CHR '':'') h)" by simp
  then have "CHR '':'' \<notin> set (hd (split_char (CHR '':'') h))" by (rule split_char_no_sep)
  then show ?thesis by (auto simp: before_port_def contains_char_iff)
qed

definition proper_fqdn :: "string \<Rightarrow> bool" where
  "proper_fqdn h \<longleftrightarrow> list_all host_char h \<and> list_all dns_label (split_char (CHR ''.'') h)
     \<and> CHR ''.'' \<in> set h \<and> \<not> list_all (\<lambda>c. is_digit c \<or> c = CHR ''.'') h
     \<and> map lower_char h \<notin> set forbiddenHosts"

lemma host_char_ascii: "list_all host_char h \<Longrightarrow> ascii_str h"
  by (induction h) (auto simp: host_char_def is_alnum_def Let_def)

lemma ValidateFQDN_no_port:
  assumes "ValidateFQDN h = Inr ()" and "\<not> contains_str h '':''"
  shows "proper_fqdn h"
proof -
  have p: "dns_pattern h" and dot: "CHR ''.'' \<in> set h"
    and loc: "\<not> list_ex (\<lambda>f. to_lower h = f \<or> has_suffix (to_lower h) (''.'' @ f)) forbiddenHosts"
    and ip: "\<not> (h \<noteq> [] \<and> list_all (\<lambda>c. is_digit c \<or> c = CHR ''.'' \<or> c = CHR '':'') h)"
    using assms by (simp_all add: ValidateFQDN_def Let_def contains_char_iff split: if_splits)
  have chars: "list_all host_char h" using p by (rule dns_pattern_chars)
  have "to_lower h = map lower_char h" by (rule to_lower_ascii [OF host_char_ascii [OF chars]])
  with loc have "map lower_char h \<notin> set forbiddenHosts" by (auto simp: list_ex_iff)
  moreover have "\<not> list_all (\<lambda>c. is_digit c \<or> c = CHR ''.'') h"
    using ip dot by (auto simp: list_all_iff)
  ultimately show ?thesis using p dot chars by (simp add: proper_fqdn_def dns_pattern_def)
qed

lemma usable_before_port: "usable_fqdn (before_port h) \<Longrightarrow> proper_fqdn (before_port h)"
  unfolding usable_fqdn_def by (rule ValidateFQDN_no_port) (simp_all add: before_port_no_colon)

section \<open>Properties\<close>

text \<open>
  When the configuration or the reverse proxy names the server, the host \<open>DetermineFQDN\<close> adopts is
  a proper one: at least two dot separated labels of letters, digits and hyphens, no port, no IP
  address, not a local name, so nothing a client sends in a forwarding header can put other
  characters into generated URLs.
\<close>

theorem DetermineFQDN_proper:
  assumes "DetermineFQDN fromProxy fromConfig hostname globalIP = Inr h"
    and "\<not> (case hostname of None \<Rightarrow> False | Some x \<Rightarrow> x = h)" and "globalIP \<noteq> Some h"
  shows "proper_fqdn h \<and> (h = before_port fromConfig \<or> h = before_port fromProxy)"
  using assms usable_before_port
  by (auto simp: DetermineFQDN_def split: if_splits option.splits)

lemma DetermineFQDN_proper_witness:
  "DetermineFQDN ''paste.example.org:8080'' ''localhost:1'' None None = Inr ''paste.example.org''
   \<and> proper_fqdn ''paste.example.org''"
proof -
  have "DetermineFQDN ''paste.example.org:8080'' ''localhost:1'' None None = Inr ''paste.example.org''"
    by code_simp
  with DetermineFQDN_proper [OF this] show ?thesis by simp
qed

text \<open>
  \<open>ValidateFQDN\<close> itself accepts names it documents to reject: the check for a dot is made before
  the port is cut off, and the port is not looked at.
\<close>

theorem ValidateFQDN_single_label:
  "ValidateFQDN ''intranet:1.'' = Inr () \<and> ValidateFQDN ''intranet'' = Inl Fqdn_no_dot
   \<and> ValidateFQDN ''example.org:<script>'' = Inr () \<and> ValidateEmail ''root@intranet:.'' = Inr ()"
  by code_simp

text \<open>
  Reading back a formatted port setting gives the ports that were formatted, exactly when they are
  in range (a second port of at most zero stands for none); and every accepted setting is in range.
\<close>

theorem ParsePorts_roundtrip:
  assumes "in_int64 http" and "in_int64 https"
  shows "(ParsePorts (FormatPorts http https) = Inr (http, max 0 https) \<longleftrightarrow>
            port_in_range http \<and> https \<le> 65535)
       \<and> (ParsePorts s = Inr (a, b) \<longrightarrow> port_in_range a \<and> (b = 0 \<or> port_in_range b))"
proof (rule conjI)
  have comma: "CHR '','' \<notin> set (show_int z)" for z
    using show_int_chars [of "CHR '',''" z] by (auto simp: is_digit_def)
  show "ParsePorts (FormatPorts http https) = Inr (http, max 0 https) \<longleftrightarrow>
      port_in_range http \<and> https \<le> 65535"
  proof (cases "https > 0")
    case True
    have "split_char (CHR '','') (FormatPorts http https) = [show_int http, show_int https]"
      using True by (simp add: FormatPorts_def split_char_append split_char_absent comma)
    with True show ?thesis
      by (auto simp: ParsePorts_def FormatPorts_def Let_def parse_int_show_int assms port_in_range_def
          split: if_splits)
  next
    case False
    have "split_char (CHR '','') (FormatPorts http https) = [show_int http]"
      using False by (simp add: FormatPorts_def split_char_absent comma)
    with False show ?thesis
      by (auto simp: ParsePorts_def FormatPorts_def Let_def parse_int_show_int assms port_in_range_def
          split: if_splits)
  qed
  show "ParsePorts s = Inr (a, b) \<longrightarrow> port_in_range a \<and> (b = 0 \<or> port_in_range b)"
    by (auto simp: ParsePorts_def Let_def split: if_splits sum.splits)
qed

lemma ParsePorts_roundtrip_witness:
  "in_int64 8080 \<and> in_int64 64453 \<and> ParsePorts (FormatPorts 8080 64453) = Inr (8080, 64453)
   \<and> ParsePorts ''1,2,3'' = Inr (1, 0)"
proof -
  have i: "in_int64 8080" "in_int64 64453" by (simp_all add: int64_defs)
  have "ParsePorts ''1,2,3'' = Inr (1, 0)" by code_simp
  with i ParsePorts_roundtrip [OF i] show ?thesis by (simp add: port_in_range_def max_def)
qed

lemma try_ports_Inr:
  "try_ports n rand can minPort a = Inr port \<Longrightarrow>
     \<exists>k < n. port = rand (a + k) + minPort \<and> IsPortAvailable (can (a + k)) port"
proof (induction n arbitrary: a)
  case (Suc n)
  show ?case
  proof (cases "IsPortAvailable (can a) (rand a + minPort)")
    case True
    with Suc.prems show ?thesis by (intro exI [of _ 0]) (simp add: Let_def)
  next
    case False
    with Suc.prems have "try_ports n rand can minPort (a + 1) = Inr port" by (simp add: Let_def)
    from Suc.IH [OF this] obtain k where "k < n" "port = rand (a + 1 + k) + minPort"
      "IsPortAvailable (can (a + 1 + k)) port" by blast
    then show ?thesis by (intro exI [of _ "Suc k"]) simp
  qed
qed simp

text \<open>
  \<open>FindUnusedPort\<close> returns only a port of the requested range on which it could listen, and when
  every attempt it makes hits a free port it succeeds.
\<close>

theorem FindUnusedPort_sound:
  assumes "FindUnusedPort rand can_listen minPort maxPort = Inr port"
    and "\<And>k. 0 \<le> rand k \<and> rand k < maxPort - minPort + 1"
  shows "minPort \<le> port \<and> port \<le> maxPort \<and> port_in_range port \<and> (\<exists>k < 100. can_listen k port)"
proof -
  from assms(1) have "try_ports 100 rand can_listen minPort 0 = Inr port"
    by (simp add: FindUnusedPort_def split: if_splits)
  from try_ports_Inr [OF this] obtain k where
    k: "k < 100" "port = rand k + minPort" "IsPortAvailable (can_listen k) port" by auto
  with assms(2) [of k] show ?thesis by (auto simp: IsPortAvailable_def)
qed

lemma FindUnusedPort_sound_witness:
  "FindUnusedPort (\<lambda>k. int k mod 3) (\<lambda>k p. p = 8002) 8000 8002 = Inr 8002
   \<and> (\<exists>k < (100::nat). (8002::int) = 8002)"
proof -
  have f: "FindUnusedPort (\<lambda>k. int k mod 3) (\<lambda>k p. p = 8002) 8000 8002 = Inr 8002"
    by (simp add: FindUnusedPort_def numeral_eq_Suc Let_def IsPortAvailable_def port_in_range_def)
  show ?thesis using f FindUnusedPort_sound [OF f] by simp
qed

text \<open>
  An explicit \<open>DEBUG\<close> variable wins over \<open>MODE=debug\<close>, without it \<open>MODE=debug\<close> switches debugging
  on, and in every case the profiling rates agree with the debug flag.
\<close>

theorem FromEnv_debug:
  "debugEnabled (FromEnv MODE DEBUG initial_mode) \<longleftrightarrow>
     (if snd (ParseBool DEBUG) then fst (ParseBool DEBUG) else to_lower MODE = ''debug'')
   \<and> blockProfileRate (FromEnv MODE DEBUG initial_mode) =
       (if debugEnabled (FromEnv MODE DEBUG initial_mode) then 1 else 0)
   \<and> mutexProfileFraction (FromEnv MODE DEBUG initial_mode) =
       (if debugEnabled (FromEnv MODE DEBUG initial_mode) then 1 else 0)"
  by (auto simp: FromEnv_def SetAppMode_def SetDebugEnabled_def updateAppModeProfilingSettings_def
      initial_mode_def Let_def split: prod.splits)

end
