(* ===== verification/Hosts.thy ===== *)
theory Hosts
  imports Go_Net Validation
begin

text \<open>
  \<open>src/src/netshare/host.go\<close> and \<open>netshare.go\<close>: the public host, protocol and client address of a
  request, derived from proxy headers, and the error values of the handlers. A request is the part
  of \<open>http.Request\<close> the code reads; \<open>header\<close> is \<open>Header.Get\<close>, with the empty string for an absent
  header.
\<close>

record request =
  header :: "string \<Rightarrow> string"
  req_Host :: string
  has_TLS :: bool
  url_Scheme :: string
  RemoteAddr :: string

datatype net_error =
    ErrBadRequest | ErrUnauthorized | ErrNotFound | ErrMethodNotAllowed | ErrPayloadTooLarge
  | RateLimitError int | ErrInternal

text \<open>
  The shared loop of the \<open>Forwarded\<close> header: the first part with the given key whose unquoted value
  the continuation accepts.
\<close>

fun forwarded_parts :: "string \<Rightarrow> (string \<Rightarrow> 'a option) \<Rightarrow> string list \<Rightarrow> 'a option" where
  "forwarded_parts key k [] = None"
| "forwarded_parts key k (part # parts) =
     (let part = trim_space part
      in if has_prefix part key then
           (case k (trim_char (CHR 0x22) (trim_prefix part key)) of
              Some v \<Rightarrow> Some v
            | None \<Rightarrow> forwarded_parts key k parts)
         else forwarded_parts key k parts)"

definition nonempty :: "string \<Rightarrow> string option" where
  "nonempty s = (if s \<noteq> [] then Some s else None)"

definition GetHost :: "request \<Rightarrow> string" where
  "GetHost req =
     (case (if header req ''Forwarded'' \<noteq> []
            then forwarded_parts ''host='' nonempty (split_char (CHR '';'') (header req ''Forwarded''))
            else None) of
        Some host \<Rightarrow> host
      | None \<Rightarrow>
          if header req ''X-Forwarded-Host'' \<noteq> []
          then hd (split_char (CHR '','') (header req ''X-Forwarded-Host''))
          else req_Host req)"

definition GetProtocol :: "request \<Rightarrow> string" where
  "GetProtocol req =
     (case (if header req ''Forwarded'' \<noteq> []
            then forwarded_parts ''proto='' nonempty (split_char (CHR '';'') (header req ''Forwarded''))
            else None) of
        Some proto \<Rightarrow> proto
      | None \<Rightarrow>
          if header req ''X-Forwarded-Proto'' \<noteq> []
            then hd (split_char (CHR '','') (header req ''X-Forwarded-Proto''))
          else if IsTruthy (header req ''X-Forwarded-Ssl'') then ''https''
          else if header req ''X-Scheme'' \<noteq> [] then header req ''X-Scheme''
          else if has_TLS req then ''https''
          else if url_Scheme req \<noteq> [] then url_Scheme req
          else ''http'')"

definition BuildPasteURL :: "request \<Rightarrow> string \<Rightarrow> string" where
  "BuildPasteURL req pasteID =
     (let proto = GetProtocol req;
          host = GetHost req;
          host = (if contains_str host '':'' then
                    (let parts = split_char (CHR '':'') host
                     in if length parts = 2 then
                          (let port = parts ! 1
                           in if (proto = ''http'' \<and> port = ''80'')
                                 \<or> (proto = ''https'' \<and> port = ''443'')
                              then parts ! 0 else host)
                        else host)
                  else host)
      in proto @ ''://'' @ host @ ''/'' @ pasteID)"

definition bytesInRange :: "ip \<Rightarrow> ip \<Rightarrow> ip \<Rightarrow> bool" where
  "bytesInRange i mn mx =
     (if length i \<noteq> length mn \<or> length i \<noteq> length mx then False
      else list_all (\<lambda>(b, lo, hi). \<not> (b < lo \<or> hi < b)) (zip i (zip mn mx)))"

definition privateIPv4Ranges :: "(ip \<times> ip) list" where
  "privateIPv4Ranges =
     [([10, 0, 0, 0], [10, 255, 255, 255]),
      ([172, 16, 0, 0], [172, 31, 255, 255]),
      ([192, 168, 0, 0], [192, 168, 255, 255]),
      ([127, 0, 0, 0], [127, 255, 255, 255])]"

definition isPrivateIP :: "ip option \<Rightarrow> bool" where
  "isPrivateIP oip =
     (case oip of
        None \<Rightarrow> False
      | Some i \<Rightarrow>
          (case To4 i of
             Some b \<Rightarrow> list_ex (\<lambda>(mn, mx). bytesInRange b mn mx) privateIPv4Ranges
           | None \<Rightarrow>
               if IsLoopback i \<or> IsLinkLocalUnicast i then True
               else if length i = 16 \<and> i ! 0 AND 0xFE = 0xFC then True
               else False))"

text \<open>The value of a \<open>for=\<close> part, with its port removed.\<close>

definition forwarded_for :: "string \<Rightarrow> ip option" where
  "forwarded_for forVal =
     (let forVal =
        (if contains_str forVal '']:'' then
           (let v = trim_prefix forVal ''['' in case cut v '']:'' of None \<Rightarrow> v | Some (a, b) \<Rightarrow> a)
         else if contains_str forVal '':'' \<and> count_str forVal '':'' = 1 then
           hd (split_char (CHR '':'') forVal)
         else forVal)
      in ParseIP forVal)"

definition header_ip :: "request \<Rightarrow> string \<Rightarrow> (string \<Rightarrow> string) \<Rightarrow> ip option" where
  "header_ip req name sel =
     (if header req name \<noteq> [] then ParseIP (trim_space (sel (header req name))) else None)"

fun first_some :: "'a option list \<Rightarrow> 'a option \<Rightarrow> 'a option" where
  "first_some [] d = d"
| "first_some (Some x # xs) d = Some x"
| "first_some (None # xs) d = first_some xs d"

definition GetClientAddrTrusted :: "request \<Rightarrow> bool \<Rightarrow> ip option" where
  "GetClientAddrTrusted req trustProxy =
     (case SplitHostPort (RemoteAddr req) of
        None \<Rightarrow> None
      | Some (host, _) \<Rightarrow>
          let remoteIP = ParseIP host;
              shouldTrust = (trustProxy \<or> isPrivateIP remoteIP)
          in if \<not> shouldTrust then remoteIP
             else first_some
               [if header req ''Forwarded'' \<noteq> []
                then forwarded_parts ''for='' forwarded_for
                       (split_char (CHR '';'') (header req ''Forwarded''))
                else None,
                header_ip req ''X-Real-IP'' id,
                header_ip req ''X-Forwarded-For'' (\<lambda>v. hd (split_char (CHR '','') v)),
                header_ip req ''CF-Connecting-IP'' id,
                header_ip req ''True-Client-IP'' id]
               remoteIP)"

definition GetClientAddr :: "request \<Rightarrow> ip option" where
  "GetClientAddr req = GetClientAddrTrusted req False"

section \<open>Address ranges as prefixes\<close>

text \<open>The blocks of the comment in \<open>isPrivateIP\<close>, as prefix and number of leading bits.\<close>

definition ipv4_num :: "ip \<Rightarrow> nat" where
  "ipv4_num b = fold (\<lambda>w acc. acc * 256 + unat w) b 0"

definition in_cidr :: "ip \<times> nat \<Rightarrow> ip \<Rightarrow> bool" where
  "in_cidr block b =
     (case block of (net, n) \<Rightarrow> ipv4_num b div 2 ^ (32 - n) = ipv4_num net div 2 ^ (32 - n))"

definition private_blocks :: "(ip \<times> nat) list" where
  "private_blocks = [([10, 0, 0, 0], 8), ([172, 16, 0, 0], 12), ([192, 168, 0, 0], 16), ([127, 0, 0, 0], 8)]"

lemma byte_bounds: "unat (w :: 8 word) < 256"
  using unsigned_less [of w] by simp

lemma byte_eq_iff: "(w :: 8 word) = v \<longleftrightarrow> unat w = unat v"
  by (simp add: word_unat_eq_iff)

lemma four_bytes: "length b = 4 \<Longrightarrow> \<exists>w x y z. b = [w, x, y, z]"
  by (auto simp: numeral_eq_Suc length_Suc_conv)

lemma range_v4:
  "bytesInRange [w, x, y, z] [a, b, c, d] [a', b', c', d'] \<longleftrightarrow>
     (unat a \<le> unat w \<and> unat w \<le> unat a') \<and> (unat b \<le> unat x \<and> unat x \<le> unat b')
     \<and> (unat c \<le> unat y \<and> unat y \<le> unat c') \<and> (unat d \<le> unat z \<and> unat z \<le> unat d')"
  by (simp add: bytesInRange_def not_less word_le_nat_alt)

lemma byte_max: "unat (w :: 8 word) \<le> 255"
  using byte_bounds [of w] by simp

lemma private_v4:
  "list_ex (\<lambda>(mn, mx). bytesInRange [w, x, y, z] mn mx) privateIPv4Ranges \<longleftrightarrow>
     unat w = 10 \<or> unat w = 172 \<and> 16 \<le> unat x \<and> unat x \<le> 31
     \<or> unat w = 192 \<and> unat x = 168 \<or> unat w = 127"
  by (simp add: privateIPv4Ranges_def range_v4 byte_max) arith

lemma two_digits:
  assumes "l < (m::nat)" and "L < m"
  shows "h * m + l = H * m + L \<longleftrightarrow> h = H \<and> l = L"
proof
  assume e: "h * m + l = H * m + L"
  then have "(h * m + l) div m = (H * m + L) div m" by simp
  then have "h = H" using assms by simp
  with e show "h = H \<and> l = L" by simp
qed simp

lemma top_bytes:
  assumes "x < (256::nat)" and "y < 256" and "z < 256"
  shows "(((w * 256 + x) * 256 + y) * 256 + z) div 16777216 = w"
    and "(((w * 256 + x) * 256 + y) * 256 + z) div 65536 = w * 256 + x"
    and "(((w * 256 + x) * 256 + y) * 256 + z) div 1048576 = w * 16 + x div 16"
proof -
  let ?n = "((w * 256 + x) * 256 + y) * 256 + z"
  have a: "?n div 256 = (w * 256 + x) * 256 + y" using assms by simp
  have "?n div 65536 = ?n div 256 div 256" by (simp add: div_mult2_eq [symmetric])
  also have "\<dots> = w * 256 + x" unfolding a using assms by simp
  finally show b: "?n div 65536 = w * 256 + x" .
  have "?n div 16777216 = ?n div 65536 div 256" by (simp add: div_mult2_eq [symmetric])
  then show "?n div 16777216 = w" unfolding b using assms by simp
  have "?n div 1048576 = ?n div 65536 div 16" by (simp add: div_mult2_eq [symmetric])
  then show "?n div 1048576 = w * 16 + x div 16" unfolding b by simp
qed

lemma block_nums:
  "ipv4_num [10, 0, 0, 0] = 167772160" "ipv4_num [172, 16, 0, 0] = 2886729728"
  "ipv4_num [192, 168, 0, 0] = 3232235520" "ipv4_num [127, 0, 0, 0] = 2130706432"
  by (simp_all add: ipv4_num_def)

lemma blocks_v4:
  "list_ex (\<lambda>block. in_cidr block [w, x, y, z]) private_blocks \<longleftrightarrow>
     unat w = 10 \<or> unat w = 172 \<and> 16 \<le> unat x \<and> unat x \<le> 31
     \<or> unat w = 192 \<and> unat x = 168 \<or> unat w = 127"
proof -
  note t = top_bytes [OF byte_bounds [of x] byte_bounds [of y] byte_bounds [of z], of "unat w"]
  have num: "ipv4_num [w, x, y, z] = ((unat w * 256 + unat x) * 256 + unat y) * 256 + unat z"
    by (simp add: ipv4_num_def)
  have "unat w * 16 + unat x div 16 = 2753 \<longleftrightarrow> unat w = 172 \<and> 16 \<le> unat x \<and> unat x \<le> 31"
  proof -
    have "unat x div 16 < 16" using byte_bounds [of x] by simp
    then have "unat w * 16 + unat x div 16 = 2753 \<longleftrightarrow> unat w = 172 \<and> unat x div 16 = 1"
      using two_digits [of "unat x div 16" 16 1 "unat w" 172] by simp
    moreover have "unat x div 16 = 1 \<longleftrightarrow> 16 \<le> unat x \<and> unat x \<le> 31" by arith
    ultimately show ?thesis by simp
  qed
  moreover have "unat w * 256 + unat x = 49320 \<longleftrightarrow> unat w = 192 \<and> unat x = 168"
    using two_digits [OF byte_bounds [of x], of 168 "unat w" 192] by simp
  ultimately show ?thesis
    by (simp add: private_blocks_def in_cidr_def num block_nums t del: distrib_right_numeral)
qed

lemma To4_mapped [simp]: "length b = 4 \<Longrightarrow> To4 (v4_prefix @ b) = Some b"
  by (simp add: To4_def v4_prefix_def)

section \<open>Properties\<close>

text \<open>
  The byte by byte range test decides membership in the documented blocks: an IPv4 address,
  plain or mapped into IPv6, is private exactly when it lies in 10.0.0.0/8, 172.16.0.0/12,
  192.168.0.0/16 or 127.0.0.0/8.
\<close>

theorem isPrivateIP_blocks:
  assumes "length b = 4"
  shows "isPrivateIP (Some (v4_prefix @ b)) = list_ex (\<lambda>block. in_cidr block b) private_blocks
       \<and> isPrivateIP (Some b) = list_ex (\<lambda>block. in_cidr block b) private_blocks"
proof -
  from four_bytes [OF assms] obtain w x y z where "b = [w, x, y, z]" by blast
  then show ?thesis using private_v4 [of w x y z] blocks_v4 [of w x y z]
    by (simp add: isPrivateIP_def) (simp add: To4_def)
qed

lemma isPrivateIP_blocks_witness:
  "length [172, 31, 255, 1 :: 8 word] = 4 \<and> isPrivateIP (ParseIP ''172.31.255.1'')
   \<and> list_ex (\<lambda>block. in_cidr block [172, 31, 255, 1]) private_blocks"
proof -
  have p: "ParseIP ''172.31.255.1'' = Some (v4_prefix @ [172, 31, 255, 1])" by code_simp
  have l: "length [172, 31, 255, 1 :: 8 word] = 4" by simp
  have "list_ex (\<lambda>block. in_cidr block [172, 31, 255, 1]) private_blocks"
    by (simp add: blocks_v4)
  with l p isPrivateIP_blocks [OF l] show ?thesis by simp
qed

text \<open>
  C38: A client that connects from a public address cannot choose the address it is counted under:
  whatever headers it sends, \<open>GetClientAddr\<close> is the address of its connection.
\<close>

theorem public_peer_not_spoofable:
  assumes "SplitHostPort (RemoteAddr req) = Some (host, port)"
    and "\<not> isPrivateIP (ParseIP host)"
  shows "GetClientAddr (req\<lparr>header := headers\<rparr>) = ParseIP host"
  using assms by (simp add: GetClientAddr_def GetClientAddrTrusted_def Let_def)

abbreviation sample_request :: "string \<Rightarrow> request" where
  "sample_request addr \<equiv> \<lparr>header = (\<lambda>_. []), req_Host = ''paste.example.org'', has_TLS = False,
     url_Scheme = [], RemoteAddr = addr\<rparr>"

lemma public_peer_not_spoofable_witness:
  "GetClientAddr ((sample_request ''8.8.4.4:5000'')\<lparr>header := (\<lambda>_. ''10.0.0.1'')\<rparr>) =
     Some (v4_prefix @ [8, 8, 4, 4])"
proof -
  have s: "SplitHostPort (RemoteAddr (sample_request ''8.8.4.4:5000'')) = Some (''8.8.4.4'', ''5000'')"
    by code_simp
  have p: "ParseIP ''8.8.4.4'' = Some (v4_prefix @ [8, 8, 4, 4])" by code_simp
  have n: "\<not> isPrivateIP (ParseIP ''8.8.4.4'')" by code_simp
  show ?thesis using public_peer_not_spoofable [OF s n, of "\<lambda>_. ''10.0.0.1''"] p by simp
qed

text \<open>
  A client that connects from a private address chooses the address it is counted under, although
  \<open>GetClientAddr\<close> is documented to use the direct connection only: any address it writes into
  \<open>X-Real-IP\<close> is taken, so the rate limits do not bind it.
\<close>

theorem private_peer_spoofs:
  assumes "SplitHostPort (RemoteAddr req) = Some (host, port)"
    and "isPrivateIP (ParseIP host)"
    and "ParseIP (trim_space s) = Some i"
  shows "GetClientAddr (req\<lparr>header := (\<lambda>n. if n = ''X-Real-IP'' then s else [])\<rparr>) = Some i"
proof -
  have "s \<noteq> []"
  proof
    assume "s = []"
    moreover have "ParseIP (trim_space []) = None" by code_simp
    ultimately show False using assms(3) by simp
  qed
  with assms show ?thesis
    by (simp add: GetClientAddr_def GetClientAddrTrusted_def Let_def header_ip_def)
qed

lemma private_peer_spoofs_witness:
  "GetClientAddr ((sample_request ''192.168.1.5:5000'')\<lparr>header :=
      (\<lambda>n. if n = ''X-Real-IP'' then ''8.8.8.8'' else [])\<rparr>) = Some (v4_prefix @ [8, 8, 8, 8])"
proof -
  have s: "SplitHostPort (RemoteAddr (sample_request ''192.168.1.5:5000'')) = Some (''192.168.1.5'', ''5000'')"
    by code_simp
  have p: "isPrivateIP (ParseIP ''192.168.1.5'')" by code_simp
  have i: "ParseIP (trim_space ''8.8.8.8'') = Some (v4_prefix @ [8, 8, 8, 8])" by code_simp
  show ?thesis by (rule private_peer_spoofs [OF s p i])
qed

text \<open>
  The URL of a paste drops a port exactly when it is the standard one of its protocol, and keeps
  any other.
\<close>

theorem BuildPasteURL_port:
  assumes "GetHost req = host @ '':'' @ port" and "CHR '':'' \<notin> set host" and "CHR '':'' \<notin> set port"
  shows "BuildPasteURL req pasteID = GetProtocol req @ ''://'' @
      (if (GetProtocol req, port) \<in> {(''http'', ''80''), (''https'', ''443'')} then host
       else host @ '':'' @ port) @ ''/'' @ pasteID"
proof -
  have "split_char (CHR '':'') (host @ '':'' @ port) = [host, port]"
    using assms(2,3) by (simp add: split_char_append split_char_absent)
  moreover have "contains_str (host @ '':'' @ port) '':''" by (simp add: contains_char_iff)
  ultimately show ?thesis by (simp add: BuildPasteURL_def Let_def assms(1))
qed

lemma BuildPasteURL_port_witness:
  "BuildPasteURL ((sample_request ''1.2.3.4:5'')\<lparr>req_Host := ''paste.example.org:80''\<rparr>) ''abc'' =
     ''http://paste.example.org/abc''"
proof -
  let ?r = "(sample_request ''1.2.3.4:5'')\<lparr>req_Host := ''paste.example.org:80''\<rparr>"
  have "GetHost ?r = ''paste.example.org'' @ '':'' @ ''80''" by (simp add: GetHost_def)
  from BuildPasteURL_port [OF this, of "''abc''"] show ?thesis
    by (simp add: GetProtocol_def IsTruthy_def ParseBool_def)
qed

end
