(* ===== verification/Go_Base64.thy ===== *)
theory Go_Base64
  imports Go_Conv
begin

text \<open>
  \<open>base64.StdEncoding\<close> of the Go standard library on byte strings: encoding with padding, and
  decoding, which skips carriage returns and newlines, requires the padding and ignores the
  unused bits of the last digit.
\<close>

definition b64_digit :: "nat \<Rightarrow> char" where
  "b64_digit d =
     (if d < 26 then char_of (65 + d)
      else if d < 52 then char_of (71 + d)
      else if d < 62 then char_of (d - 4)
      else if d = 62 then CHR ''+'' else CHR ''/'')"

definition b64_value :: "char \<Rightarrow> nat option" where
  "b64_value c =
     (let b = byte c in
      if 65 \<le> b \<and> b \<le> 90 then Some (b - 65)
      else if 97 \<le> b \<and> b \<le> 122 then Some (b - 71)
      else if 48 \<le> b \<and> b \<le> 57 then Some (b + 4)
      else if c = CHR ''+'' then Some 62
      else if c = CHR ''/'' then Some 63
      else None)"

fun b64_encode :: "string \<Rightarrow> string" where
  "b64_encode [] = []"
| "b64_encode [a] = [b64_digit (byte a div 4), b64_digit (byte a mod 4 * 16), CHR ''='', CHR ''='']"
| "b64_encode [a, b] =
     [b64_digit (byte a div 4), b64_digit (byte a mod 4 * 16 + byte b div 16),
      b64_digit (byte b mod 16 * 4), CHR ''='']"
| "b64_encode (a # b # c # s) =
     b64_digit (byte a div 4) # b64_digit (byte a mod 4 * 16 + byte b div 16)
     # b64_digit (byte b mod 16 * 4 + byte c div 64) # b64_digit (byte c mod 64) # b64_encode s"

definition byte1 :: "nat \<Rightarrow> nat \<Rightarrow> char" where
  "byte1 w x = char_of (w * 4 + x div 16)"

definition byte2 :: "nat \<Rightarrow> nat \<Rightarrow> char" where
  "byte2 x y = char_of (x mod 16 * 16 + y div 4)"

definition byte3 :: "nat \<Rightarrow> nat \<Rightarrow> char" where
  "byte3 y z = char_of (y mod 4 * 64 + z)"

fun b64_groups :: "string \<Rightarrow> string option" where
  "b64_groups [] = Some []"
| "b64_groups (a # b # c # d # s) =
     (case (b64_value a, b64_value b) of
        (Some w, Some x) \<Rightarrow>
          (if c = CHR ''='' \<and> d = CHR ''='' \<and> s = [] then Some [byte1 w x]
           else case b64_value c of
               None \<Rightarrow> None
             | Some y \<Rightarrow>
                 if d = CHR ''='' \<and> s = [] then Some [byte1 w x, byte2 x y]
                 else (case (b64_value d, b64_groups s) of
                     (Some z, Some r) \<Rightarrow> Some (byte1 w x # byte2 x y # byte3 y z # r)
                   | _ \<Rightarrow> None))
      | _ \<Rightarrow> None)"
| "b64_groups _ = None"

definition b64_decode :: "string \<Rightarrow> string option" where
  "b64_decode s = b64_groups (filter (\<lambda>c. c \<noteq> CHR 0x0A \<and> c \<noteq> CHR 0x0D) s)"

section \<open>Round trip\<close>

lemma byte_b64_digit: "d < 64 \<Longrightarrow> byte (b64_digit d) =
    (if d < 26 then 65 + d else if d < 52 then 71 + d else if d < 62 then d - 4
     else if d = 62 then 43 else 47)"
  by (simp add: b64_digit_def)

lemma b64_value_digit [simp]: "d < 64 \<Longrightarrow> b64_value (b64_digit d) = Some d"
  by (auto simp: b64_value_def b64_digit_def Let_def)

lemma b64_digit_not_special:
  assumes "d < 64"
  shows "b64_digit d \<noteq> CHR ''=''" "b64_digit d \<noteq> CHR 0x0A" "b64_digit d \<noteq> CHR 0x0D"
proof -
  have "byte (b64_digit d) \<noteq> 61" "byte (b64_digit d) \<noteq> 10" "byte (b64_digit d) \<noteq> 13"
    using assms by (auto simp: byte_b64_digit split: if_splits)
  then show "b64_digit d \<noteq> CHR ''=''" "b64_digit d \<noteq> CHR 0x0A" "b64_digit d \<noteq> CHR 0x0D"
    by (auto simp del: of_char_eq_iff)
qed

lemma six_bits:
  "byte a div 4 < 64" "byte a mod 4 * 16 + byte b div 16 < 64" "byte a mod 4 * 16 < 64"
  "byte b mod 16 * 4 + byte c div 64 < 64" "byte b mod 16 * 4 < 64" "byte c mod 64 < 64"
  using byte_less_256 [of a] byte_less_256 [of b] byte_less_256 [of c] by linarith+

lemma bytes_back:
  "byte1 (byte a div 4) (byte a mod 4 * 16) = a"
  "byte1 (byte a div 4) (byte a mod 4 * 16 + byte b div 16) = a"
  "byte2 (byte a mod 4 * 16 + byte b div 16) (byte b mod 16 * 4) = b"
  "byte2 (byte a mod 4 * 16 + byte b div 16) (byte b mod 16 * 4 + byte c div 64) = b"
  "byte3 (byte b mod 16 * 4 + byte c div 64) (byte c mod 64) = c"
proof -
  have b: "byte b div 16 < 16" "byte c div 64 < 4"
    using byte_less_256 [of b] byte_less_256 [of c] by linarith+
  have "byte a div 4 * 4 + (byte a mod 4 * 16 + byte b div 16) div 16 = byte a"
    "byte a div 4 * 4 + byte a mod 4 * 16 div 16 = byte a"
    "(byte a mod 4 * 16 + byte b div 16) mod 16 * 16 + byte b mod 16 * 4 div 4 = byte b"
    "(byte a mod 4 * 16 + byte b div 16) mod 16 * 16 + (byte b mod 16 * 4 + byte c div 64) div 4 = byte b"
    "(byte b mod 16 * 4 + byte c div 64) mod 4 * 64 + byte c mod 64 = byte c"
    using b by simp_all
  then show "byte1 (byte a div 4) (byte a mod 4 * 16) = a"
    "byte1 (byte a div 4) (byte a mod 4 * 16 + byte b div 16) = a"
    "byte2 (byte a mod 4 * 16 + byte b div 16) (byte b mod 16 * 4) = b"
    "byte2 (byte a mod 4 * 16 + byte b div 16) (byte b mod 16 * 4 + byte c div 64) = b"
    "byte3 (byte b mod 16 * 4 + byte c div 64) (byte c mod 64) = c"
    by (simp_all only: byte1_def byte2_def byte3_def char_of_char)
qed

lemma b64_encode_chars: "x \<in> set (b64_encode s) \<Longrightarrow> x \<noteq> CHR 0x0A \<and> x \<noteq> CHR 0x0D"
  by (induction s rule: b64_encode.induct) (auto simp: b64_digit_not_special six_bits)

lemma b64_groups_encode: "b64_groups (b64_encode s) = Some s"
  by (induction s rule: b64_encode.induct)
    (simp_all add: six_bits bytes_back b64_digit_not_special)

lemma b64_decode_encode [simp]: "b64_decode (b64_encode s) = Some s"
proof -
  have "filter (\<lambda>c. c \<noteq> CHR 0x0A \<and> c \<noteq> CHR 0x0D) (b64_encode s) = b64_encode s"
    using b64_encode_chars by (simp add: filter_id_conv)
  then show ?thesis by (simp add: b64_decode_def b64_groups_encode)
qed

end
