(* ===== verification/Paste_Form.thy ===== *)
theory Paste_Form
  imports Hosts Rate_Limit Line_End Go_Base64 Store_Laws
begin

text \<open>
  \<open>PasteAddFromForm\<close> and \<open>sanitizeFilename\<close> (\<open>src/src/netshare/paste.go\<close>), the one way a paste is
  created from a submitted form: rate limit, fields, file upload, limits, line ends, syntax,
  expiration, one-use flag, URL checks and the insertion. The request body arrives decoded by the
  Go library: a JSON document as the anonymous struct of the code, a form as the function
  \<open>PostForm.Get\<close>; each decoding may have failed.
\<close>

section \<open>File names\<close>

abbreviation replacement_rune :: string where
  "replacement_rune \<equiv> [CHR 0xEF, CHR 0xBF, CHR 0xBD]"

definition dropped_char :: "char \<Rightarrow> bool" where
  "dropped_char c \<longleftrightarrow> byte c < 0x20 \<or> byte c = 0x7F \<or> c = CHR ''/'' \<or> c = CHR 0x5C"

text \<open>
  \<open>range\<close> over a string yields its runes; an invalid byte is the replacement rune, which
  \<open>WriteRune\<close> writes in three bytes.
\<close>

function kept_runes :: "string \<Rightarrow> string" where
  "kept_runes s =
     (if s = [] then []
      else let w = rune_width (map of_char s)
           in (if w = 1 then
                 (if byte (hd s) \<ge> 128 then replacement_rune
                  else if dropped_char (hd s) then [] else [hd s])
               else take w s) @ kept_runes (drop w s))"
  by pat_completeness auto
termination
proof (relation "measure length")
  fix s :: string and w
  assume "s \<noteq> []" "w = rune_width (map of_char s)"
  with rune_width_pos [of "map of_char s"] show "(drop w s, s) \<in> measure length"
    by (cases s) auto
qed simp

declare kept_runes.simps [simp del]

definition sanitizeFilename :: "string \<Rightarrow> string" where
  "sanitizeFilename name =
     (let s = kept_runes name in if length s > 255 then take 255 s else s)"

section \<open>The request\<close>

record json_paste =
  j_title :: string
  j_body :: string
  j_syntax :: string
  j_expiration :: int
  j_oneUse :: bool
  j_author :: string
  j_authorEmail :: string
  j_authorURL :: string
  j_editable :: bool
  j_private :: bool
  j_isURL :: bool
  j_originalURL :: string
  j_lineEnd :: string

type_synonym form = "string \<Rightarrow> string"

definition json_form :: "json_paste \<Rightarrow> form" where
  "json_form j =
     (let v = (\<lambda>_. []) (''title'' := j_title j, ''body'' := j_body j, ''syntax'' := j_syntax j,
                ''author'' := j_author j, ''authorEmail'' := j_authorEmail j,
                ''authorURL'' := j_authorURL j, ''originalURL'' := j_originalURL j,
                ''lineEnd'' := j_lineEnd j);
          v = (if j_expiration j > 0 then v(''expiration'' := show_int (j_expiration j)) else v);
          v = (if j_oneUse j then v(''oneUse'' := ''true'') else v);
          v = (if j_editable j then v(''editable'' := ''true'') else v);
          v = (if j_private j then v(''private'' := ''true'') else v)
      in if j_isURL j then v(''url'' := ''true'') else v)"

text \<open>An uploaded file: its name, its \<open>Content-Type\<close> and its contents, \<open>None\<close> if reading fails.\<close>

record upload =
  up_Filename :: string
  up_ContentType :: string
  up_data :: "string option"

datatype body_input =
    Json_body "json_paste option"
  | Form_body "(form \<times> upload option) option"

datatype form_error = Net net_error | Parse_error | Read_error | Db_error db_error

record form_config =
  titleMaxLen :: int
  bodyMaxLen :: int
  maxLifeTime :: int
  lexerNames :: "string list"

section \<open>The checks\<close>

definition decode_body :: "body_input \<Rightarrow> form_error + form \<times> upload option" where
  "decode_body b =
     (case b of
        Json_body None \<Rightarrow> Inl (Net ErrBadRequest)
      | Json_body (Some j) \<Rightarrow> Inr (json_form j, None)
      | Form_body None \<Rightarrow> Inl Parse_error
      | Form_body (Some f) \<Rightarrow> Inr f)"

definition form_paste :: "form \<Rightarrow> paste" where
  "form_paste f =
     \<lparr>p_id = [], p_title = f ''title'', p_body = f ''body'', p_create_time = 0, p_delete_time = 0,
      p_one_use = False, p_syntax = f ''syntax'', p_author = f ''author'',
      p_author_email = f ''authorEmail'', p_author_url = f ''authorURL'', p_is_file = False,
      p_file_name = [], p_mime_type = [], p_is_editable = IsTruthy (f ''editable''),
      p_is_private = IsTruthy (f ''private''), p_is_url = IsTruthy (f ''url''),
      p_original_url = f ''originalURL''\<rparr>"

definition add_file :: "upload option \<Rightarrow> paste \<Rightarrow> form_error + paste" where
  "add_file u p =
     (case u of
        None \<Rightarrow> Inr p
      | Some u \<Rightarrow>
          (case up_data u of
             None \<Rightarrow> Inl Read_error
           | Some d \<Rightarrow>
               Inr (p\<lparr>p_is_file := True, p_file_name := sanitizeFilename (up_Filename u),
                     p_mime_type := (if up_ContentType u = [] then ''application/octet-stream''
                                     else up_ContentType u),
                     p_body := b64_encode d,
                     p_syntax := (if p_syntax p = [] then ''plaintext'' else p_syntax p)\<rparr>)))"

definition clean_title :: "string \<Rightarrow> string" where
  "clean_title t = replace_all (replace_all (replace_all t [CHR 0x0A] []) [CHR 0x0D] []) [CHR 0x09] '' ''"

definition check_sizes :: "form_config \<Rightarrow> paste \<Rightarrow> form_error + paste" where
  "check_sizes cfg p =
     (let p = p\<lparr>p_title := clean_title (p_title p)\<rparr>
      in if int (rune_count (p_title p)) > titleMaxLen cfg \<and> titleMaxLen cfg \<ge> 0
           then Inl (Net ErrPayloadTooLarge)
         else if p_body p = [] \<and> \<not> p_is_url p then Inl (Net ErrBadRequest)
         else if p_is_url p \<and> p_original_url p = [] then Inl (Net ErrBadRequest)
         else if int (rune_count (p_body p)) > bodyMaxLen cfg \<and> bodyMaxLen cfg > 0
           then Inl (Net ErrPayloadTooLarge)
         else Inr p)"

definition set_line_end :: "string \<Rightarrow> paste \<Rightarrow> form_error + paste" where
  "set_line_end e p =
     (if p_is_file p then Inr p
      else if e \<in> {'''', ''LF'', ''lf''} then Inr (p\<lparr>p_body := UnknownToUnix (p_body p)\<rparr>)
      else if e \<in> {''CRLF'', ''crlf''} then Inr (p\<lparr>p_body := UnknownToDos (p_body p)\<rparr>)
      else if e \<in> {''CR'', ''cr''} then Inr (p\<lparr>p_body := UnknownToOldMac (p_body p)\<rparr>)
      else Inl (Net ErrBadRequest))"

definition set_syntax :: "string list \<Rightarrow> paste \<Rightarrow> form_error + paste" where
  "set_syntax names p =
     (let p = (if p_syntax p = [] then p\<lparr>p_syntax := ''plaintext''\<rparr> else p)
      in if equal_fold (p_syntax p) ''autodetect'' then Inr (p\<lparr>p_syntax := ''autodetect''\<rparr>)
         else case find (\<lambda>name. equal_fold name (p_syntax p)) names of
             Some name \<Rightarrow> Inr (p\<lparr>p_syntax := name\<rparr>)
           | None \<Rightarrow> Inl (Net ErrBadRequest))"

definition set_expiration :: "int \<Rightarrow> int \<Rightarrow> string \<Rightarrow> paste \<Rightarrow> form_error + paste" where
  "set_expiration now maxLife expirStr p =
     (if expirStr = [] then Inr p
      else case parse_int expirStr of
          Inl _ \<Rightarrow> Inl (Net ErrBadRequest)
        | Inr expir \<Rightarrow>
            if maxLife > 0 \<and> (expir > maxLife \<or> expir \<le> 0) then Inl (Net ErrBadRequest)
            else if expir > 0 then Inr (p\<lparr>p_delete_time := int64 (now + expir)\<rparr>)
            else Inr p)"

definition one_use_value :: "string \<Rightarrow> bool" where
  "one_use_value v =
     (if IsTruthy v then True
      else if v \<noteq> [] \<and> v \<noteq> ''false'' then
        (case parse_int v of Inr viewCount \<Rightarrow> viewCount > 0 | Inl _ \<Rightarrow> False)
      else False)"

definition check_author :: "paste \<Rightarrow> form_error + paste" where
  "check_author p =
     (if rune_count (p_author p) > 100 then Inl (Net ErrPayloadTooLarge)
      else if rune_count (p_author_email p) > 100 then Inl (Net ErrPayloadTooLarge)
      else if rune_count (p_author_url p) > 100 then Inl (Net ErrPayloadTooLarge)
      else Inr p)"

definition url_scheme_ok :: "string \<Rightarrow> bool" where
  "url_scheme_ok u =
     (let urlLower = to_lower (trim_space u)
      in (has_prefix urlLower ''http://'' \<or> has_prefix urlLower ''https://'')
         \<and> \<not> (contains_str urlLower ''javascript:'' \<or> contains_str urlLower ''data:''
               \<or> contains_str urlLower ''vbscript:'' \<or> contains_str urlLower ''file:''))"

definition check_urls :: "paste \<Rightarrow> form_error + paste" where
  "check_urls p =
     (if p_author_url p \<noteq> [] \<and> \<not> url_scheme_ok (p_author_url p) then Inl (Net ErrBadRequest)
      else if p_is_url p \<and> p_original_url p \<noteq> [] \<and> \<not> url_scheme_ok (p_original_url p)
        then Inl (Net ErrBadRequest)
      else Inr p)"

section \<open>The handler\<close>

definition read_form :: "form_config \<Rightarrow> int \<Rightarrow> body_input \<Rightarrow> form_error + paste" where
  "read_form cfg now b =
     and_then (decode_body b) (\<lambda>(f, u).
     and_then (add_file u (form_paste f)) (\<lambda>p.
     and_then (check_sizes cfg p) (\<lambda>p.
     and_then (set_line_end (f ''lineEnd'') p) (\<lambda>p.
     and_then (set_syntax (lexerNames cfg) p) (\<lambda>p.
     and_then (set_expiration now (maxLifeTime cfg) (f ''expiration'') p) (\<lambda>p.
     and_then (check_author (p\<lparr>p_one_use := one_use_value (f ''oneUse'')\<rparr>)) check_urls))))))"

text \<open>
  \<open>client\<close> is the client's address; the clock is read by the rate limiter (\<open>t0\<close>), for the
  expiration (\<open>t1\<close>) and by the insertion (\<open>t2\<close>). \<open>rands\<close>, \<open>ok\<close> and \<open>okb\<close> go to \<open>PasteAdd\<close>.
\<close>

definition PasteAddFromForm ::
    "form_config \<Rightarrow> string \<Rightarrow> string \<Rightarrow> int \<times> int \<times> int \<Rightarrow> body_input \<Rightarrow>
     nat option list \<Rightarrow> bool \<Rightarrow> bool \<Rightarrow> rate_limit_system \<Rightarrow> db \<Rightarrow>
     (form_error + string \<times> int \<times> int) \<times> rate_limit_system \<times> db" where
  "PasteAddFromForm cfg meth client clocks b rands ok okb rateSys d =
     (case clocks of (t0, t1, t2) \<Rightarrow>
        if meth \<noteq> ''POST'' then (Inl (Net ErrMethodNotAllowed), rateSys, d)
        else (case CheckAndUseSystem rateSys client t0 of (retry, rateSys) \<Rightarrow>
          if retry \<noteq> 0 then (Inl (Net (RateLimitError retry)), rateSys, d)
          else (case read_form cfg t1 b of
              Inl e \<Rightarrow> (Inl e, rateSys, d)
            | Inr p \<Rightarrow>
                (case PasteAdd rands t2 ok okb p d of
                   (Inl e, d) \<Rightarrow> (Inl (Db_error e), rateSys, d)
                 | (Inr r, d) \<Rightarrow> (Inr r, rateSys, d)))))"

section \<open>File names: facts\<close>

lemma rune_width_high:
  "rune_width bs \<noteq> 1 \<Longrightarrow> list_all (\<lambda>b. 128 \<le> b) (take (rune_width bs) bs)"
  by (cases bs rule: rune_width.cases) (auto simp: cont_def split: if_splits)

lemma kept_runes_clean: "list_all (\<lambda>c. \<not> dropped_char c) (kept_runes s)"
proof (induction s rule: kept_runes.induct)
  case (1 s)
  show ?case
  proof (cases "s = []")
    case False
    let ?w = "rune_width (map of_char s)"
    have "list_all (\<lambda>c. \<not> dropped_char c) (take ?w s)" if "?w \<noteq> 1"
    proof -
      have "list_all (\<lambda>c. 128 \<le> byte c) (take ?w s)"
        using rune_width_high [OF that] by (simp add: take_map list.pred_map comp_def)
      then show ?thesis by (auto simp: list_all_iff dropped_char_def)
    qed
    moreover have "list_all (\<lambda>c. \<not> dropped_char c) replacement_rune" by (simp add: dropped_char_def)
    ultimately show ?thesis
      using 1 [OF False refl] False by (subst kept_runes.simps) (auto simp: Let_def)
  qed (simp add: kept_runes.simps)
qed

lemma kept_runes_ascii:
  "ascii_str s \<Longrightarrow> list_all (\<lambda>c. \<not> dropped_char c) s \<Longrightarrow> kept_runes s = s"
proof (induction s)
  case (Cons c s)
  then have "rune_width (map of_char (c # s)) = 1" by (simp add: rune_width_ascii)
  with Cons show ?case by (subst kept_runes.simps) (auto simp: Let_def)
qed (simp add: kept_runes.simps)

section \<open>Reading the form: facts\<close>

lemma drop_one_not_Nil:
  "LF \<in> set s \<Longrightarrow> DosToUnix s \<noteq> []" "CR \<in> set s \<Longrightarrow> DosToOldMac s \<noteq> []"
  by (auto simp: DosToUnix_def DosToOldMac_def replace_char_empty filter_empty_conv)

lemma map_one_not_Nil:
  assumes "s \<noteq> []"
  shows "OldMacToDos s \<noteq> []" "OldMacToUnix s \<noteq> []" "UnixToDos s \<noteq> []" "UnixToOldMac s \<noteq> []"
  using assms by (cases s; simp add: convert_defs replace_all_char)+

lemma GetLineEnd_crlf: "GetLineEnd s = [CR, LF] \<Longrightarrow> LF \<in> set s \<and> CR \<in> set s"
proof -
  assume a: "GetLineEnd s = [CR, LF]"
  have "count_str s [CR, LF] \<noteq> 0"
    using a by (auto simp: GetLineEnd_def Let_def split: if_splits)
  then have "count_list s LF \<noteq> 0" "count_list s CR \<noteq> 0"
    using count_crlf_le_lf [of s] count_crlf_le_cr [of s] by simp_all
  then show ?thesis by (simp add: count_list_0_iff)
qed

lemma line_end_not_Nil:
  assumes "s \<noteq> []"
  shows "UnknownToUnix s \<noteq> []" "UnknownToDos s \<noteq> []" "UnknownToOldMac s \<noteq> []"
  using assms map_one_not_Nil [OF assms] GetLineEnd_crlf [of s] drop_one_not_Nil [of s]
  by (simp_all add: unknown_defs)

lemma unknown_empty: "UnknownToUnix [] = []" "UnknownToDos [] = []" "UnknownToOldMac [] = []"
  by (simp_all add: unknown_defs GetLineEnd_def)

lemma clean_title_chars:
  "CHR 0x0A \<notin> set (clean_title t) \<and> CHR 0x0D \<notin> set (clean_title t) \<and> CHR 0x09 \<notin> set (clean_title t)"
  by (auto simp: clean_title_def replace_char_empty replace_char_char)

lemma check_author_Inr: "check_author p = Inr q \<longleftrightarrow> q = p \<and> rune_count (p_author p) \<le> 100
    \<and> rune_count (p_author_email p) \<le> 100 \<and> rune_count (p_author_url p) \<le> 100"
  by (auto simp: check_author_def)

lemma check_urls_Inr: "check_urls p = Inr q \<longleftrightarrow> q = p
    \<and> (p_author_url p \<noteq> [] \<longrightarrow> url_scheme_ok (p_author_url p))
    \<and> (p_is_url p \<and> p_original_url p \<noteq> [] \<longrightarrow> url_scheme_ok (p_original_url p))"
  by (auto simp: check_urls_def)

text \<open>What every accepted form went through.\<close>

lemma read_form_Inr:
  assumes "read_form cfg now b = Inr p"
  shows "\<exists>f u p1 p2 p3 p4 p5. decode_body b = Inr (f, u) \<and> add_file u (form_paste f) = Inr p1
      \<and> check_sizes cfg p1 = Inr p2 \<and> set_line_end (f ''lineEnd'') p2 = Inr p3
      \<and> set_syntax (lexerNames cfg) p3 = Inr p4
      \<and> set_expiration now (maxLifeTime cfg) (f ''expiration'') p4 = Inr p5
      \<and> p = p5\<lparr>p_one_use := one_use_value (f ''oneUse'')\<rparr>
      \<and> check_author p = Inr p \<and> check_urls p = Inr p"
proof -
  obtain f u where d: "decode_body b = Inr (f, u)"
    using assms unfolding read_form_def by (cases "decode_body b") auto
  from assms d obtain p1 p2 p3 p4 p5 where steps: "add_file u (form_paste f) = Inr p1"
    "check_sizes cfg p1 = Inr p2" "set_line_end (f ''lineEnd'') p2 = Inr p3"
    "set_syntax (lexerNames cfg) p3 = Inr p4"
    "set_expiration now (maxLifeTime cfg) (f ''expiration'') p4 = Inr p5"
    and last: "and_then (check_author (p5\<lparr>p_one_use := one_use_value (f ''oneUse'')\<rparr>)) check_urls = Inr p"
    unfolding read_form_def by (simp only: and_then_Inr_iff and_then_simps prod.case) blast
  from last have "p = p5\<lparr>p_one_use := one_use_value (f ''oneUse'')\<rparr>"
    "check_author p = Inr p" "check_urls p = Inr p"
    by (auto simp: and_then_Inr_iff check_author_Inr check_urls_Inr)
  with d steps show ?thesis by blast
qed

lemma add_file_form:
  "add_file u (form_paste f) = Inr p \<Longrightarrow> p_delete_time p = 0 \<and> p_is_url p = IsTruthy (f ''url'')
     \<and> p_original_url p = f ''originalURL'' \<and> p_title p = f ''title''
     \<and> (case u of None \<Rightarrow> \<not> p_is_file p \<and> p_body p = f ''body''
         | Some u \<Rightarrow> p_is_file p \<and> (\<exists>d. up_data u = Some d \<and> p_body p = b64_encode d)
              \<and> p_file_name p = sanitizeFilename (up_Filename u))"
  by (auto simp: add_file_def form_paste_def split: option.splits)

lemma check_sizes_Inr:
  "check_sizes cfg p = Inr q \<longleftrightarrow> q = p\<lparr>p_title := clean_title (p_title p)\<rparr>
     \<and> (titleMaxLen cfg \<ge> 0 \<longrightarrow> int (rune_count (clean_title (p_title p))) \<le> titleMaxLen cfg)
     \<and> (p_body p \<noteq> [] \<or> p_is_url p) \<and> (p_is_url p \<longrightarrow> p_original_url p \<noteq> [])
     \<and> (bodyMaxLen cfg > 0 \<longrightarrow> int (rune_count (p_body p)) \<le> bodyMaxLen cfg)"
  by (auto simp: check_sizes_def Let_def)

lemma three_ways:
  "(if P then Inr a else if Q then Inr b else if R then Inr c else Inl e) = Inr q \<Longrightarrow>
     q = a \<or> q = b \<or> q = c"
  by (auto split: if_splits)

lemma set_line_end_Inr:
  assumes "set_line_end e p = Inr q"
  shows "\<exists>x. q = p\<lparr>p_body := x\<rparr> \<and> (x = [] \<longleftrightarrow> p_body p = [])
     \<and> (p_is_file p \<longrightarrow> x = p_body p)
     \<and> (\<not> p_is_file p \<longrightarrow> x \<in> {UnknownToUnix (p_body p), UnknownToDos (p_body p), UnknownToOldMac (p_body p)})"
proof (cases "p_is_file p")
  case True
  with assms show ?thesis by (intro exI [of _ "p_body p"]) (simp add: set_line_end_def)
next
  case False
  with assms have "q = p\<lparr>p_body := UnknownToUnix (p_body p)\<rparr>
      \<or> q = p\<lparr>p_body := UnknownToDos (p_body p)\<rparr> \<or> q = p\<lparr>p_body := UnknownToOldMac (p_body p)\<rparr>"
    unfolding set_line_end_def by (intro three_ways) (simp only: if_False)
  then obtain conv where c: "conv \<in> {UnknownToUnix, UnknownToDos, UnknownToOldMac}"
    "q = p\<lparr>p_body := conv (p_body p)\<rparr>" by blast
  from c(1) have "conv (p_body p) = [] \<longleftrightarrow> p_body p = []"
    using line_end_not_Nil [of "p_body p"] unknown_empty by (cases "p_body p") auto
  with c False show ?thesis by (intro exI [of _ "conv (p_body p)"]) auto
qed

lemma set_syntax_Inr:
  "set_syntax names p = Inr q \<Longrightarrow> q = p\<lparr>p_syntax := p_syntax q\<rparr>
     \<and> (p_syntax q = ''autodetect'' \<or> p_syntax q \<in> set names)"
  by (auto simp: set_syntax_def Let_def split: if_splits option.splits dest: find_Some_props)

lemma set_expiration_Inr:
  "set_expiration now m e p = Inr q \<Longrightarrow> q = p\<lparr>p_delete_time := p_delete_time q\<rparr>"
  by (auto simp: set_expiration_def split: if_splits sum.splits)

section \<open>The handler: facts\<close>

lemma PasteAddFromForm_Inr:
  assumes "PasteAddFromForm cfg meth client (t0, t1, t2) b rands ok okb rl d = (Inr r, rl', d')"
  shows "meth = ''POST'' \<and> fst (CheckAndUseSystem rl client t0) = 0
      \<and> rl' = snd (CheckAndUseSystem rl client t0)
      \<and> (\<exists>p. read_form cfg t1 b = Inr p \<and> PasteAdd rands t2 ok okb p d = (Inr r, d'))"
proof -
  have m: "meth = ''POST''"
    using assms unfolding PasteAddFromForm_def by (cases "meth = ''POST''") simp_all
  obtain retry rl1 where c: "CheckAndUseSystem rl client t0 = (retry, rl1)" by fastforce
  from assms m c have z: "retry = 0"
    unfolding PasteAddFromForm_def by (cases "retry = 0") simp_all
  from assms m c z obtain p where r: "read_form cfg t1 b = Inr p"
    unfolding PasteAddFromForm_def by (cases "read_form cfg t1 b") simp_all
  obtain x d1 where a: "PasteAdd rands t2 ok okb p d = (x, d1)" by fastforce
  from assms m c z r a show ?thesis
    unfolding PasteAddFromForm_def by (cases x) simp_all
qed

lemma PasteAdd_Inl: "fst (PasteAdd rs now ok okb p d) = Inl e \<Longrightarrow> snd (PasteAdd rs now ok okb p d) = d"
  by (auto simp: PasteAdd_eq split: option.splits if_splits)

section \<open>Properties\<close>

text \<open>
  C27: Every form that is accepted yields a well-formed paste: a one-line title and author fields
  within their limits (in runes), a body unless it is a redirect, a syntax of the server's list (or
  \<open>autodetect\<close>), and only \<open>http\<close> or \<open>https\<close> URLs for the author and for the redirect.
\<close>

theorem accepted_paste_valid:
  assumes "read_form cfg now b = Inr p"
  shows "CHR 0x0A \<notin> set (p_title p) \<and> CHR 0x0D \<notin> set (p_title p) \<and> CHR 0x09 \<notin> set (p_title p)
       \<and> (0 \<le> titleMaxLen cfg \<longrightarrow> int (rune_count (p_title p)) \<le> titleMaxLen cfg)
       \<and> (p_body p \<noteq> [] \<or> p_is_url p)
       \<and> (p_syntax p = ''autodetect'' \<or> p_syntax p \<in> set (lexerNames cfg))
       \<and> rune_count (p_author p) \<le> 100 \<and> rune_count (p_author_email p) \<le> 100
       \<and> rune_count (p_author_url p) \<le> 100
       \<and> (p_author_url p \<noteq> [] \<longrightarrow> url_scheme_ok (p_author_url p))
       \<and> (p_is_url p \<longrightarrow> url_scheme_ok (p_original_url p))"
proof -
  from read_form_Inr [OF assms] obtain f u p1 p2 p3 p4 p5 where
    steps: "check_sizes cfg p1 = Inr p2" "set_line_end (f ''lineEnd'') p2 = Inr p3"
    "set_syntax (lexerNames cfg) p3 = Inr p4"
    "set_expiration now (maxLifeTime cfg) (f ''expiration'') p4 = Inr p5"
    and p: "p = p5\<lparr>p_one_use := one_use_value (f ''oneUse'')\<rparr>"
    and last: "check_author p = Inr p" "check_urls p = Inr p" by blast
  from set_line_end_Inr [OF steps(2)] obtain x where
    p3: "p3 = p2\<lparr>p_body := x\<rparr>" "x = [] \<longleftrightarrow> p_body p2 = []" by blast
  have p5: "p5 = p4\<lparr>p_delete_time := p_delete_time p5\<rparr>" by (rule set_expiration_Inr [OF steps(4)])
  have p4: "p4 = p3\<lparr>p_syntax := p_syntax p4\<rparr>"
    and syn: "p_syntax p4 = ''autodetect'' \<or> p_syntax p4 \<in> set (lexerNames cfg)"
    using set_syntax_Inr [OF steps(3)] by blast+
  have t: "p_title p = p_title p2" "p_body p = x" "p_is_url p = p_is_url p2"
    "p_original_url p = p_original_url p2" "p_syntax p = p_syntax p4"
    unfolding p by (subst p5, simp, subst p4, simp add: p3)+ (subst p5, simp)
  show ?thesis
    using last steps(1) syn p3(2) clean_title_chars [of "p_title p1"] unfolding t
    by (auto simp: check_author_Inr check_urls_Inr check_sizes_Inr t)
qed

definition sample_form :: form where
  "sample_form = (\<lambda>_. []) (''title'' := ''a title'', ''body'' := ''text'', ''syntax'' := ''Go'')"

definition sample_config :: form_config where
  "sample_config = \<lparr>titleMaxLen = 100, bodyMaxLen = 1000, maxLifeTime = 3600,
     lexerNames = [''plaintext'', ''go'']\<rparr>"

lemma accepted_paste_valid_witness:
  "\<exists>p. read_form sample_config 1000 (Form_body (Some (sample_form, None))) = Inr p
     \<and> p_syntax p = ''go'' \<and> (p_body p \<noteq> [] \<or> p_is_url p)"
proof -
  have "case read_form sample_config 1000 (Form_body (Some (sample_form, None))) of
      Inl _ \<Rightarrow> False | Inr p \<Rightarrow> p_syntax p = ''go''" by code_simp
  then obtain p where p: "read_form sample_config 1000 (Form_body (Some (sample_form, None))) = Inr p"
    "p_syntax p = ''go''" by (auto split: sum.splits)
  with accepted_paste_valid [OF p(1)] show ?thesis by blast
qed

text \<open>
  The configured maximal lifetime binds exactly the forms that name an expiration: these expire
  at most that long after the request, while a form without one is stored for ever.
\<close>

theorem form_lifetime_limit:
  assumes "read_form cfg now b = Inr p" and "decode_body b = Inr (f, u)"
    and "0 < maxLifeTime cfg" and "0 \<le> now" and "now + maxLifeTime cfg \<le> int64_max"
  shows "(f ''expiration'' = [] \<and> p_delete_time p = 0)
       \<or> (f ''expiration'' \<noteq> [] \<and> now < p_delete_time p \<and> p_delete_time p \<le> now + maxLifeTime cfg)"
proof -
  from read_form_Inr [OF assms(1)] assms(2) obtain p1 p2 p3 p4 p5 where
    steps: "add_file u (form_paste f) = Inr p1" "check_sizes cfg p1 = Inr p2"
    "set_line_end (f ''lineEnd'') p2 = Inr p3" "set_syntax (lexerNames cfg) p3 = Inr p4"
    "set_expiration now (maxLifeTime cfg) (f ''expiration'') p4 = Inr p5"
    and p: "p = p5\<lparr>p_one_use := one_use_value (f ''oneUse'')\<rparr>" by auto
  have "p_delete_time p1 = 0" using add_file_form [OF steps(1)] by blast
  moreover have "p_delete_time p2 = p_delete_time p1" using steps(2) by (simp add: check_sizes_Inr)
  moreover have "p_delete_time p3 = p_delete_time p2" using set_line_end_Inr [OF steps(3)] by auto
  moreover have "p_delete_time p4 = p_delete_time p3"
    using set_syntax_Inr [OF steps(4)] by (metis paste.select_convs(5) paste.surjective
        paste.update_convs(7))
  ultimately have z: "p_delete_time p4 = 0" by simp
  have pd: "p_delete_time p = p_delete_time p5" by (simp add: p)
  show ?thesis
  proof (cases "f ''expiration'' = []")
    case True
    with steps(5) z pd show ?thesis by (simp add: set_expiration_def)
  next
    case False
    with steps(5) obtain e where e: "parse_int (f ''expiration'') = Inr e"
      unfolding set_expiration_def by (cases "parse_int (f ''expiration'')") auto
    with steps(5) False assms(3) have r: "0 < e \<and> e \<le> maxLifeTime cfg"
      "p5 = p4\<lparr>p_delete_time := int64 (now + e)\<rparr>"
      by (auto simp: set_expiration_def split: if_splits)
    have "in_int64 (now + e)" using r(1) assms(4,5) by (simp add: int64_defs)
    then have "int64 (now + e) = now + e" by (rule int64_id)
    with False r pd show ?thesis by simp
  qed
qed

lemma form_lifetime_limit_witness:
  "\<exists>p. read_form sample_config 1000 (Form_body (Some (sample_form, None))) = Inr p
     \<and> p_delete_time p = 0"
proof -
  have "case read_form sample_config 1000 (Form_body (Some (sample_form, None))) of
      Inl _ \<Rightarrow> False | Inr p \<Rightarrow> True" by code_simp
  then obtain p where p: "read_form sample_config 1000 (Form_body (Some (sample_form, None))) = Inr p"
    by (auto split: sum.splits)
  have d: "decode_body (Form_body (Some (sample_form, None))) = Inr (sample_form, None)"
    by (simp add: decode_body_def)
  have b: "0 < maxLifeTime sample_config" "(0 :: int) \<le> 1000" "1000 + maxLifeTime sample_config \<le> int64_max"
    by (simp_all add: sample_config_def int64_max_def)
  from form_lifetime_limit [OF p d b] p show ?thesis by (auto simp: sample_form_def)
qed

text \<open>
  Without a configured limit a requested expiration that reaches beyond the 64-bit range makes
  the paste eternal: the sum of the clock and the expiration wraps to a negative number, which the
  insertion turns into zero, for never.
\<close>

theorem form_expiration_overflow:
  assumes "PasteAddFromForm cfg meth client (t0, t1, t2) b rands ok okb rl d = (Inr (i, c, x), rl', d')"
    and "decode_body b = Inr (f, u)" and "f ''expiration'' = show_int e"
    and "maxLifeTime cfg \<le> 0" and "0 < e" and "in_int64 e" and "0 \<le> t1" and "in_int64 t1"
  shows "x = (if t1 + e \<le> int64_max then t1 + e else 0)"
proof -
  from PasteAddFromForm_Inr [OF assms(1)] obtain p where
    p: "read_form cfg t1 b = Inr p" "PasteAdd rands t2 ok okb p d = (Inr (i, c, x), d')" by blast
  from read_form_Inr [OF p(1)] assms(2) obtain p4 p5 where
    e: "set_expiration t1 (maxLifeTime cfg) (f ''expiration'') p4 = Inr p5"
    and pp: "p = p5\<lparr>p_one_use := one_use_value (f ''oneUse'')\<rparr>" by auto
  have "p5 = p4\<lparr>p_delete_time := int64 (t1 + e)\<rparr>"
    using e assms(3-6) by (simp add: set_expiration_def parse_int_show_int)
  then have del: "p_delete_time p = int64 (t1 + e)" by (simp add: pp)
  have "x = p_delete_time (added i t2 p)" using view_PasteAdd [OF p(2)] by blast
  then have x: "x = (if int64 (t1 + e) < 0 then 0 else int64 (t1 + e))"
    by (simp add: added_def del)
  show ?thesis
  proof (cases "t1 + e \<le> int64_max")
    case True
    then have "int64 (t1 + e) = t1 + e" using assms(5,7) by (intro int64_id) (simp add: int64_defs)
    with True x assms(5,7) show ?thesis by simp
  next
    case False
    then have "int64 (t1 + e) = t1 + e - 18446744073709551616"
      using assms(6,8) by (intro int64_wrap) (simp_all add: in_int64_def)
    with False x assms(5-8) show ?thesis by (simp add: int64_defs)
  qed
qed

abbreviation sample_expiring :: form where
  "sample_expiring \<equiv> sample_form (''expiration'' := show_int 9223372036854775000)"

lemma sample_expiring_read:
  "\<exists>p. read_form (sample_config\<lparr>maxLifeTime := 0\<rparr>) 1000 (Form_body (Some (sample_expiring, None))) = Inr p"
proof -
  let ?cfg = "sample_config\<lparr>maxLifeTime := 0\<rparr>"
  let ?p = "(form_paste sample_form)\<lparr>p_syntax := ''go''\<rparr>"
  have 1: "check_sizes ?cfg (form_paste sample_form) = Inr (form_paste sample_form)" by code_simp
  have 2: "set_line_end [] (form_paste sample_form) = Inr (form_paste sample_form)" by code_simp
  have 3: "set_syntax (lexerNames sample_config) (form_paste sample_form) = Inr ?p" by code_simp
  have pe: "parse_int (show_int 9223372036854775000) = Inr 9223372036854775000"
    by (rule parse_int_show_int) (simp add: int64_defs)
  have f: "form_paste sample_expiring = form_paste sample_form" by (simp add: form_paste_def)
  have l: "sample_expiring ''lineEnd'' = []" by (simp add: sample_form_def)
  have 4: "set_expiration 1000 0 (sample_expiring ''expiration'') ?p =
      Inr (?p\<lparr>p_delete_time := int64 (1000 + 9223372036854775000)\<rparr>)"
    by (simp add: set_expiration_def pe)
  have 5: "check_author (?p\<lparr>p_delete_time := d, p_one_use := o'\<rparr>) =
      Inr (?p\<lparr>p_delete_time := d, p_one_use := o'\<rparr>)" for d o'
    by (simp add: check_author_def form_paste_def sample_form_def)
  have 6: "check_urls (?p\<lparr>p_delete_time := d, p_one_use := o'\<rparr>) =
      Inr (?p\<lparr>p_delete_time := d, p_one_use := o'\<rparr>)" for d o'
    by (simp add: check_urls_def form_paste_def sample_form_def)
  show ?thesis
    by (simp add: read_form_def decode_body_def add_file_def f l 1 2 3 4 5 6 del: fun_upd_apply)
qed

lemma form_expiration_overflow_witness:
  "\<exists>rl' d'. PasteAddFromForm (sample_config\<lparr>maxLifeTime := 0\<rparr>) ''POST'' ''c'' (1000, 1000, 1000)
      (Form_body (Some (sample_expiring, None)))
      sample_rands True True (NewRateLimitSystem 5 5 5) \<lparr>pool = [], backup_pool = None\<rparr> =
        (Inr (sample_id, 1000, 0), rl', d')"
proof -
  let ?b = "Form_body (Some (sample_expiring, None))"
  let ?r = "PasteAddFromForm (sample_config\<lparr>maxLifeTime := 0\<rparr>) ''POST'' ''c'' (1000, 1000, 1000) ?b
      sample_rands True True (NewRateLimitSystem 5 5 5) \<lparr>pool = [], backup_pool = None\<rparr>"
  obtain p where p: "read_form (sample_config\<lparr>maxLifeTime := 0\<rparr>) 1000 ?b = Inr p"
    using sample_expiring_read by blast
  have c: "fst (CheckAndUseSystem (NewRateLimitSystem 5 5 5) ''c'' 1000) = 0" by code_simp
  have v: "view \<lparr>pool = [], backup_pool = None\<rparr> i = None" for i
    by (simp add: view_def tbl_find_def)
  obtain x rl' d' where r: "?r = (Inr (sample_id, 1000, x), rl', d')"
    using c by (simp add: PasteAddFromForm_def p PasteAdd_eq v case_prod_beta del: replicate.simps)
  have d: "decode_body ?b = Inr (sample_expiring, None)" by (simp add: decode_body_def)
  have "x = 0"
    by (rule form_expiration_overflow [OF r d fun_upd_same, simplified int64_defs, simplified])
  with r show ?thesis by blast
qed

text \<open>
  A refused request changes nothing but the counters of the rate limiter, and an accepted one was a
  POST that the limiter granted and whose form was valid.
\<close>

theorem refused_form_stores_nothing:
  "case PasteAddFromForm cfg meth client (t0, t1, t2) b rands ok okb rl d of
      (Inl e, rl', d') \<Rightarrow> d' = d \<and> (rl' = rl \<or> rl' = snd (CheckAndUseSystem rl client t0))
    | (Inr r, rl', d') \<Rightarrow> meth = ''POST'' \<and> fst (CheckAndUseSystem rl client t0) = 0
        \<and> (\<exists>p. read_form cfg t1 b = Inr p \<and> view d' = (view d)(fst r \<mapsto> added (fst r) t2 p))"
proof -
  obtain x rl' d' where r: "PasteAddFromForm cfg meth client (t0, t1, t2) b rands ok okb rl d = (x, rl', d')"
    by (metis prod_cases3)
  show ?thesis
  proof (cases x)
    case (Inl e)
    from r Inl have "d' = d \<and> (rl' = rl \<or> rl' = snd (CheckAndUseSystem rl client t0))"
      by (auto simp: PasteAddFromForm_def case_prod_beta split: if_splits sum.splits prod.splits
          dest: PasteAdd_Inl)
    with r Inl show ?thesis by simp
  next
    case (Inr y)
    obtain i c z where y: "y = (i, c, z)" by (cases y)
    from PasteAddFromForm_Inr [OF r [unfolded Inr y]] obtain p where
      p: "read_form cfg t1 b = Inr p" "PasteAdd rands t2 ok okb p d = (Inr (i, c, z), d')"
      and g: "meth = ''POST'' \<and> fst (CheckAndUseSystem rl client t0) = 0" by blast
    from view_PasteAdd [OF p(2)] p(1) g r Inr y show ?thesis by auto
  qed
qed

lemma read_form_file:
  assumes "read_form cfg now (Form_body (Some (f, Some u))) = Inr p"
  shows "p_is_file p \<and> (\<exists>d. up_data u = Some d \<and> p_body p = b64_encode d)
       \<and> p_file_name p = sanitizeFilename (up_Filename u)"
proof -
  from read_form_Inr [OF assms] obtain p1 p2 p3 p4 p5 where
    steps: "add_file (Some u) (form_paste f) = Inr p1" "check_sizes cfg p1 = Inr p2"
    "set_line_end (f ''lineEnd'') p2 = Inr p3" "set_syntax (lexerNames cfg) p3 = Inr p4"
    "set_expiration now (maxLifeTime cfg) (f ''expiration'') p4 = Inr p5"
    and p: "p = p5\<lparr>p_one_use := one_use_value (f ''oneUse'')\<rparr>" by (auto simp: decode_body_def)
  have p1: "p_is_file p1" "\<exists>d. up_data u = Some d \<and> p_body p1 = b64_encode d"
    "p_file_name p1 = sanitizeFilename (up_Filename u)" using add_file_form [OF steps(1)] by auto
  have p2: "p2 = p1\<lparr>p_title := p_title p2\<rparr>" using steps(2) by (simp add: check_sizes_Inr)
  have "p_is_file p2" using p1(1) by (subst p2) simp
  then have p3: "p3 = p2" using steps(3) by (simp add: set_line_end_def)
  have p4: "p4 = p3\<lparr>p_syntax := p_syntax p4\<rparr>" using set_syntax_Inr [OF steps(4)] by blast
  have p5: "p5 = p4\<lparr>p_delete_time := p_delete_time p5\<rparr>" by (rule set_expiration_Inr [OF steps(5)])
  have "p_is_file p = p_is_file p1" "p_body p = p_body p1" "p_file_name p = p_file_name p1"
    unfolding p by (subst p5, simp, subst p4, simp add: p3, subst p2, simp)+
  with p1 show ?thesis by simp
qed

lemma sanitize_clean: "list_all (\<lambda>c. \<not> dropped_char c) (sanitizeFilename name)"
  using kept_runes_clean [of name]
  by (auto simp: sanitizeFilename_def Let_def list_all_iff dest: in_set_takeD)

text \<open>
  An uploaded file is stored losslessly: when a form with a file is accepted, the new paste is a
  file whose body decodes to exactly the uploaded bytes, under a file name without control
  characters and path separators.
\<close>

theorem upload_stored:
  assumes "PasteAddFromForm cfg meth client (t0, t1, t2) (Form_body (Some (f, Some u))) rands ok okb rl d
             = (Inr (i, c, x), rl', d')"
  shows "\<exists>p. view d' i = Some p \<and> p_is_file p \<and> b64_decode (p_body p) = up_data u
           \<and> list_all (\<lambda>c. \<not> dropped_char c) (p_file_name p) \<and> length (p_file_name p) \<le> 255"
proof -
  from PasteAddFromForm_Inr [OF assms] obtain p where
    p: "read_form cfg t1 (Form_body (Some (f, Some u))) = Inr p"
       "PasteAdd rands t2 ok okb p d = (Inr (i, c, x), d')" by blast
  have "view d' i = Some (added i t2 p)" using view_PasteAdd [OF p(2)] by simp
  moreover have "length (sanitizeFilename (up_Filename u)) \<le> 255"
    by (simp add: sanitizeFilename_def Let_def)
  ultimately show ?thesis
    using read_form_file [OF p(1)] sanitize_clean [of "up_Filename u"] by (auto simp: added_def)
qed

definition sample_upload :: upload where
  "sample_upload = \<lparr>up_Filename = ''a.bin'', up_ContentType = [], up_data = Some [CHR 0x00, CHR 0xFF]\<rparr>"

lemma upload_stored_witness:
  "\<exists>i d' p. view d' i = Some p \<and> b64_decode (p_body p) = Some [CHR 0x00, CHR 0xFF]"
proof -
  let ?b = "Form_body (Some (sample_form, Some sample_upload))"
  have "case read_form sample_config 1000 ?b of Inl _ \<Rightarrow> False | Inr _ \<Rightarrow> True" by code_simp
  then obtain p where p: "read_form sample_config 1000 ?b = Inr p" by (auto split: sum.splits)
  have c: "fst (CheckAndUseSystem (NewRateLimitSystem 5 5 5) ''c'' 1000) = 0" by code_simp
  have v: "view \<lparr>pool = [], backup_pool = None\<rparr> i = None" for i
    by (simp add: view_def tbl_find_def)
  obtain x rl' d' where r: "PasteAddFromForm sample_config ''POST'' ''c'' (1000, 1000, 1000) ?b
      sample_rands True True (NewRateLimitSystem 5 5 5) \<lparr>pool = [], backup_pool = None\<rparr> =
      (Inr (sample_id, 1000, x), rl', d')"
    using c by (simp add: PasteAddFromForm_def p PasteAdd_eq v case_prod_beta)
  show ?thesis using upload_stored [OF r] by (auto simp: sample_upload_def)
qed

text \<open>
  \<open>sanitizeFilename\<close> returns at most 255 bytes without control characters and path separators,
  and leaves an ASCII name of that kind as it is.
\<close>

theorem sanitizeFilename_safe:
  "list_all (\<lambda>c. \<not> dropped_char c) (sanitizeFilename name) \<and> length (sanitizeFilename name) \<le> 255
   \<and> (ascii_str name \<and> list_all (\<lambda>c. \<not> dropped_char c) name \<and> length name \<le> 255
        \<longrightarrow> sanitizeFilename name = name)"
  using sanitize_clean [of name] kept_runes_ascii [of name]
  by (auto simp: sanitizeFilename_def Let_def)

lemma sanitizeFilename_safe_witness:
  "sanitizeFilename ''report.txt'' = ''report.txt''
   \<and> list_all (\<lambda>c. \<not> dropped_char c) (sanitizeFilename [CHR ''/'', CHR 0x5C, CHR 0x1B, CHR ''x''])"
  using sanitizeFilename_safe [of "''report.txt''"]
    sanitizeFilename_safe [of "[CHR ''/'', CHR 0x5C, CHR 0x1B, CHR ''x'']"]
  by (simp add: dropped_char_def)

text \<open>
  The limit on the body is checked before the line ends are converted, so the stored body can
  exceed it: with a limit of 3 runes, the three runes \<open>a\<close>, LF, \<open>b\<close> are stored as four.
\<close>

theorem body_limit_exceeded:
  "case read_form (sample_config\<lparr>bodyMaxLen := 3\<rparr>) 1000
      (Form_body (Some (sample_form (''body'' := [CHR ''a'', LF, CHR ''b''], ''lineEnd'' := ''CRLF''), None))) of
     Inl _ \<Rightarrow> False | Inr p \<Rightarrow> p_body p = [CHR ''a'', CR, LF, CHR ''b''] \<and> rune_count (p_body p) = 4"
  by code_simp

end
