(* ===== verification/Readers.thy ===== *)
theory Readers
  imports Paste_Form
begin

text \<open>
  The handlers that read, edit and delete one paste: the API (\<open>apiv1/get.go\<close>), the raw view
  (\<open>raw/handler.go\<close>), the download (\<open>web/dl.go\<close>), the page (\<open>web/get.go\<close>), the redirect
  (\<open>web/url.go\<close>), the edit form (\<open>web/edit.go\<close>), the GraphQL resolver and the compatibility
  handlers of other paste services. Each handler is the whole sequence of its checks and database
  calls; what is rendered afterwards is the value returned. The clock, the outcome of each
  statement and what the Go library parsed are arguments.
\<close>

datatype read_error = Read_net net_error | Read_db db_error

text \<open>
  \<open>db_env\<close> gathers what the world decides during one request: the client's address, the clock of
  the rate limiter and of \<open>PasteGet\<close>, and the outcomes of the statements it may issue.
\<close>

record db_env =
  env_client :: string
  env_limit_time :: int
  env_now :: int
  env_query :: bool
  env_expire :: bool
  env_write :: outcome
  env_backup :: bool

type_synonym 'a handled = "(read_error + 'a) \<times> rate_limit_system \<times> db"

text \<open>\<open>RateLimitGet.CheckAndUse\<close> at the top of a handler.\<close>

definition limited ::
    "db_env \<Rightarrow> rate_limit_system \<Rightarrow> db \<Rightarrow> (rate_limit_system \<Rightarrow> 'a handled) \<Rightarrow> 'a handled" where
  "limited e rl d k =
     (case CheckAndUseSystem rl (env_client e) (env_limit_time e) of
        (retry, rl) \<Rightarrow>
          if retry \<noteq> 0 then (Inl (Read_net (RateLimitError retry)), rl, d) else k rl)"

definition get_paste ::
    "db_env \<Rightarrow> string \<Rightarrow> rate_limit_system \<Rightarrow> db \<Rightarrow> (paste \<Rightarrow> db \<Rightarrow> 'a handled) \<Rightarrow> 'a handled" where
  "get_paste e i rl d k =
     (case PasteGet (env_now e) (env_query e) (env_expire e) i d of
        (Inl x, d) \<Rightarrow> (Inl (Read_db x), rl, d)
      | (Inr p, d) \<Rightarrow> k p d)"

text \<open>Deleting a one-use paste before it is sent, with the error reported.\<close>

definition burn_checked ::
    "db_env \<Rightarrow> string \<Rightarrow> paste \<Rightarrow> rate_limit_system \<Rightarrow> db \<Rightarrow> (db \<Rightarrow> 'a handled) \<Rightarrow> 'a handled" where
  "burn_checked e i p rl d k =
     (if p_one_use p then
        (case PasteDelete (env_write e) (env_backup e) i d of
           (Inl x, d) \<Rightarrow> (Inl (Read_db x), rl, d)
         | (Inr _, d) \<Rightarrow> k d)
      else k d)"

section \<open>API, raw view and download\<close>

definition getPaste :: "db_env \<Rightarrow> string \<Rightarrow> rate_limit_system \<Rightarrow> db \<Rightarrow> paste handled" where
  "getPaste e pasteID rl d =
     limited e rl d (\<lambda>rl.
       if pasteID = [] then (Inl (Read_net ErrBadRequest), rl, d)
       else get_paste e pasteID rl d (\<lambda>p d.
         burn_checked e pasteID p rl d (\<lambda>d. (Inr p, rl, d))))"

record response =
  resp_type :: string
  resp_file :: "string option"
  resp_body :: string

definition file_bytes :: "paste \<Rightarrow> string" where
  "file_bytes p = (case b64_decode (p_body p) of None \<Rightarrow> p_body p | Some b \<Rightarrow> b)"

definition octet_stream :: string where
  "octet_stream = ''application/octet-stream''"

definition raw_response :: "paste \<Rightarrow> response" where
  "raw_response p =
     (if p_is_file p then
        \<lparr>resp_type = (if p_mime_type p = [] then octet_stream else p_mime_type p),
         resp_file = None, resp_body = file_bytes p\<rparr>
      else \<lparr>resp_type = ''text/plain; charset=utf-8'', resp_file = None, resp_body = p_body p\<rparr>)"

definition rawHand :: "db_env \<Rightarrow> string \<Rightarrow> rate_limit_system \<Rightarrow> db \<Rightarrow> response handled" where
  "rawHand e path rl d =
     limited e rl d (\<lambda>rl.
       let pasteID = drop_runes 5 path
       in get_paste e pasteID rl d (\<lambda>p d.
         burn_checked e pasteID p rl d (\<lambda>d. (Inr (raw_response p), rl, d))))"

text \<open>
  \<open>lexer_pattern\<close> is the first file name pattern of the syntax highlighter's lexer of a syntax
  (such as \<open>*.go\<close>), if it has one.
\<close>

definition download_response :: "(string \<Rightarrow> string option) \<Rightarrow> paste \<Rightarrow> response" where
  "download_response lexer_pattern p =
     (if p_is_file p then
        \<lparr>resp_type = (if p_mime_type p = [] then octet_stream else p_mime_type p),
         resp_file = Some (if p_file_name p = [] then p_id p else p_file_name p),
         resp_body = file_bytes p\<rparr>
      else
        let fileName = (if p_title p \<noteq> [] then p_title p else p_id p);
            fileExt = (case lexer_pattern (p_syntax p) of Some pat \<Rightarrow> drop 1 pat | None \<Rightarrow> ''.txt'')
        in \<lparr>resp_type = octet_stream,
            resp_file = Some (if has_suffix fileName fileExt then fileName else fileName @ fileExt),
            resp_body = p_body p\<rparr>)"

definition handleDownload ::
    "(string \<Rightarrow> string option) \<Rightarrow> db_env \<Rightarrow> string \<Rightarrow> rate_limit_system \<Rightarrow> db \<Rightarrow> response handled" where
  "handleDownload lexer_pattern e path rl d =
     limited e rl d (\<lambda>rl.
       let pasteID = drop_runes 4 path
       in get_paste e pasteID rl d (\<lambda>p d.
         burn_checked e pasteID p rl d (\<lambda>d. (Inr (download_response lexer_pattern p), rl, d))))"

section \<open>The page and the redirect\<close>

datatype page = Paste_continue string | Paste_page paste

definition handleGetPaste ::
    "db_env \<Rightarrow> string \<Rightarrow> string \<Rightarrow> rate_limit_system \<Rightarrow> db \<Rightarrow> page handled" where
  "handleGetPaste e oneUseContinue path rl d =
     limited e rl d (\<lambda>rl.
       let pasteID = drop_runes 1 path
       in get_paste e pasteID rl d (\<lambda>p d.
         if p_one_use p then
           (if oneUseContinue \<noteq> ''true'' then (Inr (Paste_continue (p_id p)), rl, d)
            else (case PasteDeleteIfOneUse (env_write e) (env_backup e) pasteID d of
                (Inl x, d) \<Rightarrow> (Inl (Read_db x), rl, d)
              | (Inr deleted, d) \<Rightarrow>
                  if \<not> deleted then (Inl (Read_db ErrNotFoundID), rl, d)
                  else (Inr (Paste_page p), rl, d)))
         else (Inr (Paste_page p), rl, d)))"

definition handleURLRedirect ::
    "db_env \<Rightarrow> string \<Rightarrow> string \<Rightarrow> rate_limit_system \<Rightarrow> db \<Rightarrow> string handled" where
  "handleURLRedirect e meth path rl d =
     (if meth \<noteq> ''GET'' then (Inl (Read_net ErrMethodNotAllowed), rl, d)
      else
        let i = drop 3 path
        in limited e rl d (\<lambda>rl.
          get_paste e i rl d (\<lambda>p d.
            if \<not> p_is_url p \<or> p_original_url p = [] then (Inl (Read_net ErrNotFound), rl, d)
            else (Inr (p_original_url p), rl, d))))"

section \<open>Editing\<close>

text \<open>The answer is the path of the redirect.\<close>

definition handleEditPaste ::
    "db_env \<Rightarrow> string \<Rightarrow> string \<Rightarrow> form \<Rightarrow> rate_limit_system \<Rightarrow> db \<Rightarrow> string handled" where
  "handleEditPaste e meth path f rl d =
     (if meth \<noteq> ''POST'' then (Inl (Read_net ErrMethodNotAllowed), rl, d)
      else
        let i = drop 6 path
        in limited e rl d (\<lambda>rl.
          get_paste e i rl d (\<lambda>p d.
            if \<not> p_is_editable p then (Inl (Read_net ErrUnauthorized), rl, d)
            else
              let p = (if f ''body'' \<noteq> [] then p\<lparr>p_body := f ''body''\<rparr> else p);
                  p = (if f ''title'' \<noteq> [] then p\<lparr>p_title := f ''title''\<rparr> else p)
              in (case PasteUpdate (env_write e) (env_backup e) p d of
                   (Inl x, d) \<Rightarrow> (Inl (Read_db x), rl, d)
                 | (Inr _, d) \<Rightarrow> (Inr (''/'' @ i), rl, d)))))"

section \<open>GraphQL and the compatibility handlers\<close>

definition ResolvePaste :: "db_env \<Rightarrow> string \<Rightarrow> db option \<Rightarrow> paste option \<times> db option" where
  "ResolvePaste e i db =
     (case db of
        None \<Rightarrow> (None, None)
      | Some d \<Rightarrow>
          (case PasteGet (env_now e) (env_query e) (env_expire e) i d of
             (Inl _, d) \<Rightarrow> (None, Some d)
           | (Inr p, d) \<Rightarrow> (Some p, Some d)))"

text \<open>
  Answers of the compatibility handlers: an error status, Stikked's message with status 200,
  Lenpaste's stub without the body, the paste, or no content.
\<close>

datatype answer = Status nat | Message string | Stub string | Sent paste | No_content

definition compat_get :: "db_env \<Rightarrow> string \<Rightarrow> answer \<Rightarrow> (paste \<Rightarrow> db \<Rightarrow> answer \<times> db) \<Rightarrow> db \<Rightarrow> answer \<times> db" where
  "compat_get e i not_found k d =
     (case PasteGet (env_now e) (env_query e) (env_expire e) i d of
        (Inl ErrNotFoundID, d) \<Rightarrow> (not_found, d)
      | (Inl _, d) \<Rightarrow> (Status 500, d)
      | (Inr p, d) \<Rightarrow> k p d)"

definition stikkedGetPaste :: "db_env \<Rightarrow> string \<Rightarrow> form option \<Rightarrow> db \<Rightarrow> answer \<times> db" where
  "stikkedGetPaste e meth f d =
     (if meth \<noteq> ''GET'' then (Status 405, d)
      else (case f of
          None \<Rightarrow> (Status 400, d)
        | Some f \<Rightarrow>
            if f ''id'' = [] then (Status 400, d)
            else compat_get e (f ''id'') (Message ''Not found'') (\<lambda>p d. (Sent p, d)) d))"

definition compat_hastebinGet :: "db_env \<Rightarrow> string \<Rightarrow> string \<Rightarrow> db \<Rightarrow> answer \<times> db" where
  "compat_hastebinGet e meth path d =
     (if meth \<noteq> ''GET'' then (Status 405, d)
      else let key = trim_prefix path ''/documents/''
           in if key = [] then (Status 400, d)
              else compat_get e key (Status 404) (\<lambda>p d. (Sent p, d)) d)"

definition pastebinRaw :: "db_env \<Rightarrow> string \<Rightarrow> form option \<Rightarrow> db \<Rightarrow> answer \<times> db" where
  "pastebinRaw e meth f d =
     (if meth \<noteq> ''GET'' then (Status 405, d)
      else (case f of
          None \<Rightarrow> (Status 400, d)
        | Some f \<Rightarrow>
            if f ''i'' = [] then (Status 400, d)
            else compat_get e (f ''i'') (Status 404) (\<lambda>p d. (Sent p, d)) d))"

definition lenpasteGet :: "db_env \<Rightarrow> string \<Rightarrow> form option \<Rightarrow> db \<Rightarrow> answer \<times> db" where
  "lenpasteGet e meth f d =
     (if meth \<noteq> ''GET'' then (Status 405, d)
      else (case f of
          None \<Rightarrow> (Status 400, d)
        | Some f \<Rightarrow>
            if f ''id'' = [] then (Status 400, d)
            else compat_get e (f ''id'') (Status 404) (\<lambda>p d.
              if p_one_use p then
                (if f ''openOneUse'' = ''true''
                 then (Sent p, snd (PasteDelete (env_write e) (env_backup e) (f ''id'') d))
                 else (Stub (p_id p), d))
              else (Sent p, d)) d))"

text \<open>The Hastebin route of the native API, which ignores the result of the deletion.\<close>

definition hastebinGet :: "db_env \<Rightarrow> string \<Rightarrow> rate_limit_system \<Rightarrow> db \<Rightarrow> paste handled" where
  "hastebinGet e path rl d =
     limited e rl d (\<lambda>rl.
       let key = trim_suffix (trim_prefix path ''/documents/'') ''/''
       in if key = [] then (Inl (Read_net ErrBadRequest), rl, d)
          else get_paste e key rl d (\<lambda>p d.
            (Inr p, rl,
             if p_one_use p then snd (PasteDelete (env_write e) (env_backup e) key d) else d)))"

definition microbinAPI :: "db_env \<Rightarrow> string \<Rightarrow> string \<Rightarrow> form \<Rightarrow> db \<Rightarrow> answer \<times> db" where
  "microbinAPI e meth path f d =
     (let i = trim_prefix path ''/api/''
      in if i = [] then (Status 400, d)
         else if meth = ''GET'' then compat_get e i (Status 404) (\<lambda>p d. (Sent p, d)) d
         else if meth = ''POST'' then
           compat_get e i (Status 404) (\<lambda>p d.
             let p = (if f ''content'' \<noteq> [] then p\<lparr>p_body := f ''content''\<rparr> else p);
                 p = (if f ''title'' \<noteq> [] then p\<lparr>p_title := f ''title''\<rparr> else p);
                 p = (if f ''syntax_highlight'' \<noteq> [] then p\<lparr>p_syntax := f ''syntax_highlight''\<rparr> else p)
             in (case PasteUpdate (env_write e) (env_backup e) p d of
                  (Inl x, d) \<Rightarrow> (Status 500, d)
                | (Inr _, d) \<Rightarrow> (Sent p, d))) d
         else if meth = ''DELETE'' then
           (case PasteDelete (env_write e) (env_backup e) i d of
              (Inl ErrNotFoundID, d) \<Rightarrow> (Status 404, d)
            | (Inl _, d) \<Rightarrow> (Status 500, d)
            | (Inr _, d) \<Rightarrow> (No_content, d))
         else (Status 405, d))"

end
