(* ===== verification/Burn.thy ===== *)
theory Burn
  imports Readers
begin

text \<open>
  Burn after reading: concurrent requests for a one-use paste. The handlers split into fetching the
  paste and finishing the request; between the two steps anything else may happen to the table.
  The contract of the two deletions the handlers use is a locale; from it, and from an invariant of
  the interleaved system, follows that a one-use paste is delivered at most once by the guarded
  routes. The routes without the guard are shown to deliver it again and again.
\<close>

section \<open>Taking a row out of a table\<close>

fun run_takes :: "('a \<Rightarrow> 'k \<Rightarrow> 's \<Rightarrow> bool \<times> 's) \<Rightarrow> 'k \<Rightarrow> 'a list \<Rightarrow> 's \<Rightarrow> bool list" where
  "run_takes tk k [] s = []"
| "run_takes tk k (a # as) s = fst (tk a k s) # run_takes tk k as (snd (tk a k s))"

locale taking =
  fixes look :: "'s \<Rightarrow> 'k \<Rightarrow> 'v option"
    and tk :: "'a \<Rightarrow> 'k \<Rightarrow> 's \<Rightarrow> bool \<times> 's"
    and ok :: "'s \<Rightarrow> bool"
  assumes ok_take: "ok s \<Longrightarrow> ok (snd (tk a k s))"
    and take_present: "ok s \<Longrightarrow> fst (tk a k s) \<Longrightarrow> look s k \<noteq> None"
    and take_gone: "ok s \<Longrightarrow> fst (tk a k s) \<Longrightarrow> look (snd (tk a k s)) k = None"
    and take_frame: "ok s \<Longrightarrow> j \<noteq> k \<Longrightarrow> look (snd (tk a k s)) j = look s j"
    and take_never_adds: "ok s \<Longrightarrow> look s k = None \<Longrightarrow> look (snd (tk a k s)) k = None"
begin

lemma absent_never_taken: "ok s \<Longrightarrow> look s k = None \<Longrightarrow> filter (\<lambda>b. b) (run_takes tk k as s) = []"
proof (induction as arbitrary: s)
  case (Cons a as)
  then have "\<not> fst (tk a k s)" using take_present by blast
  with Cons show ?case by (simp add: ok_take take_never_adds)
qed simp

lemma taken_at_most_once: "ok s \<Longrightarrow> length (filter (\<lambda>b. b) (run_takes tk k as s)) \<le> 1"
proof (induction as arbitrary: s)
  case (Cons a as)
  show ?case
  proof (cases "fst (tk a k s)")
    case True
    then have "filter (\<lambda>b. b) (run_takes tk k as (snd (tk a k s))) = []"
      by (intro absent_never_taken ok_take take_gone Cons.prems)
    with True show ?thesis by simp
  next
    case False
    with Cons.IH [OF ok_take [OF Cons.prems]] show ?thesis by simp
  qed
qed simp

lemma look_None_kept: "ok s \<Longrightarrow> look s j = None \<Longrightarrow> look (snd (tk a k s)) j = None"
  using take_frame take_never_adds by metis

end

text \<open>The two ways the handlers delete a one-use paste.\<close>

definition take_any :: "db_env \<Rightarrow> string \<Rightarrow> db \<Rightarrow> bool \<times> db" where
  "take_any e i d =
     (case PasteDelete (env_write e) (env_backup e) i d of (r, d') \<Rightarrow> (r = Inr (), d'))"

definition take_one_use :: "db_env \<Rightarrow> string \<Rightarrow> db \<Rightarrow> bool \<times> db" where
  "take_one_use e i d =
     (case PasteDeleteIfOneUse (env_write e) (env_backup e) i d of (r, d') \<Rightarrow> (r = Inr True, d'))"

lemma take_any_eq:
  "take_any e i d = (fst (PasteDelete (env_write e) (env_backup e) i d) = Inr (),
     snd (PasteDelete (env_write e) (env_backup e) i d))"
  by (simp add: take_any_def case_prod_beta)

lemma take_one_use_eq:
  "take_one_use e i d = (fst (PasteDeleteIfOneUse (env_write e) (env_backup e) i d) = Inr True,
     snd (PasteDeleteIfOneUse (env_write e) (env_backup e) i d))"
  by (simp add: take_one_use_def case_prod_beta)

interpretation any: taking view take_any db_ok
  by unfold_locales
    (auto simp: take_any_eq db_ok_ops PasteDelete_fst view_PasteDelete)

interpretation one: taking view take_one_use db_ok
proof
  fix d :: db and e i
  assume d: "db_ok d"
  show "db_ok (snd (take_one_use e i d))" by (simp add: take_one_use_eq db_ok_ops d)
  show "fst (take_one_use e i d) \<Longrightarrow> view d i \<noteq> None"
    by (auto simp: take_one_use_eq PasteDeleteIfOneUse_fst [OF d] split: if_splits option.splits)
  show "fst (take_one_use e i d) \<Longrightarrow> view (snd (take_one_use e i d)) i = None"
    by (auto simp: take_one_use_eq PasteDeleteIfOneUse_fst [OF d] view_PasteDeleteIfOneUse [OF d]
        split: if_splits option.splits)
  show "j \<noteq> i \<Longrightarrow> view (snd (take_one_use e i d)) j = view d j" for j
    by (simp add: take_one_use_eq view_PasteDeleteIfOneUse [OF d])
  show "view d i = None \<Longrightarrow> view (snd (take_one_use e i d)) i = None"
    by (simp add: take_one_use_eq view_PasteDeleteIfOneUse [OF d])
qed

section \<open>Requests in two steps\<close>

datatype route = Api | Raw | Dl | Page

text \<open>What a handler does with a fetched paste: whether it delivers it, and the table.\<close>

definition finish :: "route \<Rightarrow> db_env \<Rightarrow> string \<Rightarrow> paste \<Rightarrow> db \<Rightarrow> bool \<times> db" where
  "finish rt e i p d =
     (if p_one_use p then (if rt = Page then take_one_use e i d else take_any e i d)
      else (True, d))"

definition is_Inr :: "'e + 'a \<Rightarrow> bool" where
  "is_Inr x = (case x of Inl _ \<Rightarrow> False | Inr _ \<Rightarrow> True)"

lemma is_Inr_simps [simp]: "is_Inr (Inr x)" "\<not> is_Inr (Inl e)"
  by (simp_all add: is_Inr_def)

lemma is_Inr_unit: "is_Inr r \<longleftrightarrow> r = Inr ()"
  by (cases r) auto

lemma burn_checked_finish:
  assumes "rt \<noteq> Page" and "\<And>d'. is_Inr (fst (k d')) \<and> snd (snd (k d')) = d'"
  shows "is_Inr (fst (burn_checked e i p rl d k)) = fst (finish rt e i p d)
       \<and> snd (snd (burn_checked e i p rl d k)) = snd (finish rt e i p d)"
proof -
  obtain r d1 where r: "PasteDelete (env_write e) (env_backup e) i d = (r, d1)" by fastforce
  show ?thesis
    using assms by (cases r) (auto simp: burn_checked_def finish_def take_any_def r)
qed

lemma burn_checked_answer:
  "rt \<noteq> Page \<Longrightarrow>
     (is_Inr (fst (burn_checked e i p rl d (\<lambda>d. (Inr x, rl, d)))),
      snd (snd (burn_checked e i p rl d (\<lambda>d. (Inr x, rl, d))))) = finish rt e i p d"
  using burn_checked_finish [of rt "\<lambda>d. (Inr x, rl, d)" e i p rl d] by (simp add: prod_eq_iff)

section \<open>The interleaved system\<close>

datatype phase = Idle | Holding route string paste | Delivered string paste | Done

record sys =
  store :: db
  phase :: "nat \<Rightarrow> phase"
  born :: "string set"

fun adds :: "db_op \<Rightarrow> bool" where
  "adds (Op_add _ _ _ _ _) = True"
| "adds _ = False"

text \<open>
  A request fetches and finishes; other requests update, delete, sweep and add pastes. An id that
  was used once is not drawn again.
\<close>

inductive sys_step :: "sys \<Rightarrow> sys \<Rightarrow> bool" where
  fetch: "phase s r = Idle \<Longrightarrow>
     PasteGet (env_now (e :: db_env)) (env_query e) (env_expire e) i (store s) = (x, d) \<Longrightarrow>
     sys_step s (s\<lparr>store := d,
       phase := (phase s)(r := (case x of Inl _ \<Rightarrow> Done | Inr p \<Rightarrow> Holding rt i p))\<rparr>)"
| finish_request: "phase s r = Holding rt i p \<Longrightarrow> finish rt e i p (store s) = (b, d) \<Longrightarrow>
     sys_step s (s\<lparr>store := d, phase := (phase s)(r := (if b then Delivered i p else Done))\<rparr>)"
| add: "PasteAdd rs now ok okb p (store s) = (Inr (i, c, x), d) \<Longrightarrow> i \<notin> born s \<Longrightarrow>
     sys_step s (s\<lparr>store := d, born := insert i (born s)\<rparr>)"
| other: "\<not> adds a \<Longrightarrow> sys_step s (s\<lparr>store := run_op a (store s)\<rparr>)"

definition sys_init :: "db \<Rightarrow> sys" where
  "sys_init d = \<lparr>store = d, phase = (\<lambda>_. Idle), born = {i. view d i \<noteq> None}\<rparr>"

definition sys_inv :: "sys \<Rightarrow> bool" where
  "sys_inv s \<longleftrightarrow> db_ok (store s)
     \<and> (\<forall>i. view (store s) i \<noteq> None \<longrightarrow> i \<in> born s)
     \<and> (\<forall>r rt i p. phase s r = Holding rt i p \<longrightarrow> i \<in> born s)
     \<and> (\<forall>r i p. phase s r = Delivered i p \<and> p_one_use p \<longrightarrow> view (store s) i = None \<and> i \<in> born s)
     \<and> (\<forall>r r' i p q. phase s r = Delivered i p \<and> phase s r' = Delivered i q
           \<and> p_one_use p \<and> p_one_use q \<longrightarrow> r = r')"

lemma run_op_keeps_absent:
  assumes "db_ok d" and "\<not> adds a" and "view d i = None"
  shows "view (run_op a d) i = None"
  using assms by (cases a) (auto simp: view_ops)

lemma sys_invD:
  assumes "sys_inv s"
  shows inv_db_ok: "db_ok (store s)"
    and inv_born: "view (store s) i = Some v \<Longrightarrow> i \<in> born s"
    and inv_holding: "phase s r = Holding rt i p \<Longrightarrow> i \<in> born s"
    and inv_gone: "phase s r = Delivered i p \<Longrightarrow> p_one_use p \<Longrightarrow> view (store s) i = None"
    and inv_delivered: "phase s r = Delivered i p \<Longrightarrow> p_one_use p \<Longrightarrow> i \<in> born s"
    and inv_unique: "phase s r = Delivered i p \<Longrightarrow> phase s r' = Delivered i q \<Longrightarrow>
      p_one_use p \<Longrightarrow> p_one_use q \<Longrightarrow> r = r'"
  using assms unfolding sys_inv_def by blast+

lemma sys_invI:
  assumes "db_ok (store s)" and "\<And>i v. view (store s) i = Some v \<Longrightarrow> i \<in> born s"
    and "\<And>r rt i p. phase s r = Holding rt i p \<Longrightarrow> i \<in> born s"
    and "\<And>r i p. phase s r = Delivered i p \<Longrightarrow> p_one_use p \<Longrightarrow> view (store s) i = None \<and> i \<in> born s"
    and "\<And>r r' i p q. phase s r = Delivered i p \<Longrightarrow> phase s r' = Delivered i q \<Longrightarrow>
      p_one_use p \<Longrightarrow> p_one_use q \<Longrightarrow> r = r'"
  shows "sys_inv s"
proof -
  have "\<forall>i. view (store s) i \<noteq> None \<longrightarrow> i \<in> born s" using assms(2) by auto
  moreover have "\<forall>r rt i p. phase s r = Holding rt i p \<longrightarrow> i \<in> born s" using assms(3) by blast
  moreover have "\<forall>r i p. phase s r = Delivered i p \<and> p_one_use p \<longrightarrow> view (store s) i = None \<and> i \<in> born s"
    using assms(4) by blast
  moreover have "\<forall>r r' i p q. phase s r = Delivered i p \<and> phase s r' = Delivered i q
      \<and> p_one_use p \<and> p_one_use q \<longrightarrow> r = r'" using assms(5) by blast
  ultimately show ?thesis using assms(1) unfolding sys_inv_def by blast
qed

lemma sys_inv_same:
  assumes inv: "sys_inv s" and "db_ok d" and "\<And>i. view (store s) i = None \<Longrightarrow> view d i = None"
  shows "sys_inv (s\<lparr>store := d\<rparr>)"
proof (rule sys_invI)
  fix i v assume "view (store (s\<lparr>store := d\<rparr>)) i = Some v"
  then have "view (store s) i \<noteq> None" using assms(3) [of i] by auto
  then show "i \<in> born (s\<lparr>store := d\<rparr>)" using inv_born [OF inv] by auto
qed (use assms inv_holding [OF inv] inv_gone [OF inv] inv_delivered [OF inv] inv_unique [OF inv]
      in \<open>simp; blast\<close>)+

lemma sys_inv_quiet:
  assumes inv: "sys_inv s" and "\<And>rt i p. ph = Holding rt i p \<Longrightarrow> i \<in> born s"
    and "\<And>i p. ph = Delivered i p \<Longrightarrow> \<not> p_one_use p"
  shows "sys_inv (s\<lparr>phase := (phase s)(r := ph)\<rparr>)"
  by (rule sys_invI)
    (use assms inv_db_ok [OF inv] inv_born [OF inv] inv_holding [OF inv] inv_gone [OF inv]
      inv_delivered [OF inv] inv_unique [OF inv] in \<open>auto split: if_splits\<close>)

lemma take_store:
  assumes "sys_inv s" and "tk = take_any \<or> tk = take_one_use"
  shows "sys_inv (s\<lparr>store := snd (tk e i (store s))\<rparr>)"
    and "fst (tk e i (store s)) \<Longrightarrow> view (snd (tk e i (store s))) i = None \<and> view (store s) i \<noteq> None"
proof -
  have d: "db_ok (store s)" by (rule inv_db_ok [OF assms(1)])
  show "sys_inv (s\<lparr>store := snd (tk e i (store s))\<rparr>)"
    using assms(2) by (intro sys_inv_same [OF assms(1)])
      (auto simp: any.ok_take one.ok_take any.look_None_kept one.look_None_kept d)
  assume "fst (tk e i (store s))"
  then show "view (snd (tk e i (store s))) i = None \<and> view (store s) i \<noteq> None"
    using assms(2) any.take_gone [OF d] any.take_present [OF d] one.take_gone [OF d]
      one.take_present [OF d] by metis
qed

text \<open>A delivery of a one-use paste: nobody had it before, and it is gone.\<close>

lemma sys_inv_deliver:
  assumes inv: "sys_inv s" and hold: "phase s r = Holding rt i p"
    and tk: "tk = take_any \<or> tk = take_one_use" and hit: "fst (tk e i (store s))"
  shows "sys_inv (s\<lparr>store := snd (tk e i (store s)), phase := (phase s)(r := Delivered i p)\<rparr>)"
proof -
  let ?d = "snd (tk e i (store s))"
  have inv': "sys_inv (s\<lparr>store := ?d\<rparr>)" by (rule take_store(1) [OF inv tk])
  have gone: "view ?d i = None" and here: "view (store s) i \<noteq> None"
    using take_store(2) [OF inv tk hit] by simp_all
  have nobody: "\<not> p_one_use q" if "phase s r' = Delivered i q" for r' q
    using inv_gone [OF inv that] here by blast
  show ?thesis
    by (rule sys_invI)
      (use gone nobody inv_holding [OF inv hold] inv_db_ok [OF inv'] inv_born [OF inv']
        inv_holding [OF inv'] inv_gone [OF inv'] inv_delivered [OF inv'] inv_unique [OF inv']
        in \<open>auto split: if_splits\<close>)
qed

lemma sys_inv_step: "sys_step s s' \<Longrightarrow> sys_inv s \<Longrightarrow> sys_inv s'"
proof (induction rule: sys_step.induct)
  case (fetch s r e i x d rt)
  have d: "db_ok (store s)" using fetch(3) by (simp add: sys_inv_def)
  have d': "d = snd (PasteGet (env_now e) (env_query e) (env_expire e) i (store s))"
    using fetch(2) by simp
  have inv: "sys_inv (s\<lparr>store := d\<rparr>)"
    by (rule sys_inv_same [OF fetch(3)]) (auto simp: d' db_ok_ops d view_PasteGet)
  have "i \<in> born s" if "x = Inr p" for p
  proof -
    have "view (store s) i = Some p"
      using fetch(2) that PasteGet_Inr [of "env_now e" "env_query e" "env_expire e" i "store s" p] by simp
    then show ?thesis by (rule inv_born [OF fetch(3)])
  qed
  with sys_inv_quiet [OF inv, of "case x of Inl _ \<Rightarrow> Done | Inr p \<Rightarrow> Holding rt i p" r]
  show ?case by (cases x) simp_all
next
  case (finish_request s r rt i p e b d)
  show ?case
  proof (cases "p_one_use p")
    case True
    define tk where "tk = (if rt = Page then take_one_use else take_any)"
    have tk: "tk = take_any \<or> tk = take_one_use" by (simp add: tk_def)
    have bd: "b = fst (tk e i (store s))" "d = snd (tk e i (store s))"
      using finish_request(2) True by (auto simp: finish_def tk_def split: if_splits)
    show ?thesis
    proof (cases b)
      case True
      with sys_inv_deliver [OF finish_request(3,1) tk, of e] bd show ?thesis by simp
    next
      case False
      with sys_inv_quiet [OF take_store(1) [OF finish_request(3) tk], of Done e i r] bd
      show ?thesis by simp
    qed
  next
    case False
    with finish_request(2) have "b" "d = store s" by (auto simp: finish_def)
    with sys_inv_quiet [OF finish_request(3), of "Delivered i p" r] False show ?thesis by simp
  qed
next
  case (add rs now ok okb p s i c x d)
  have v: "view (store s) i = None" "view d = (view (store s))(i \<mapsto> added i now p)"
    using view_PasteAdd [OF add(1)] by auto
  have d: "d = snd (PasteAdd rs now ok okb p (store s))" using add(1) by simp
  have ok: "db_ok d" unfolding d by (rule db_ok_PasteAdd [OF inv_db_ok [OF add(3)]])
  show ?case
    by (rule sys_invI)
      (use add(2) v(2) ok inv_born [OF add(3)] inv_holding [OF add(3)] inv_gone [OF add(3)]
        inv_delivered [OF add(3)] inv_unique [OF add(3)] in \<open>auto split: if_splits\<close>)
next
  case (other a s)
  have d: "db_ok (store s)" using other(2) by (simp add: sys_inv_def)
  show ?case
    by (rule sys_inv_same [OF other(2) db_ok_run_op [OF d]])
      (rule run_op_keeps_absent [OF d other(1)])
qed

lemma sys_inv_init: "db_ok d \<Longrightarrow> sys_inv (sys_init d)"
  by (simp add: sys_inv_def sys_init_def)

lemma sys_inv_reachable: "sys_step\<^sup>*\<^sup>* s s' \<Longrightarrow> sys_inv s \<Longrightarrow> sys_inv s'"
  by (induction rule: rtranclp_induct) (simp_all add: sys_inv_step)

section \<open>Properties\<close>

definition one_use_paste :: paste where
  "one_use_paste = sample_paste\<lparr>p_id := ''a'', p_delete_time := 0\<rparr>"

definition one_use_db :: db where
  "one_use_db = \<lparr>pool = [one_use_paste], backup_pool = None\<rparr>"

definition good_env :: db_env where
  "good_env = \<lparr>env_client = ''c'', env_limit_time = 0, env_now = 0, env_query = True, env_expire = True,
     env_write = Written, env_backup = True\<rparr>"

lemma one_use_db_ok: "db_ok one_use_db"
  by (simp add: db_ok_def tbl_ok_def one_use_db_def)

lemma one_use_db_get:
  "PasteGet 0 True True ''a'' one_use_db = (Inr one_use_paste, one_use_db)"
  by (simp add: PasteGet_def one_use_db_def one_use_paste_def sample_paste_def tbl_find_def
      expired_at_def)

text \<open>
  C1: Burn after reading, under concurrency: however the requests of the API, the raw view, the
  download and the page interleave with each other and with edits, deletions, cleanings and new
  pastes, a one-use paste is delivered to at most one of them, and once it has been delivered it is
  no longer in the database.
\<close>

theorem one_use_delivered_once:
  assumes "db_ok d" and "sys_step\<^sup>*\<^sup>* (sys_init d) s"
    and "phase s r = Delivered i p" and "p_one_use p"
  shows "view (store s) i = None
       \<and> (\<forall>r' q. phase s r' = Delivered i q \<and> p_one_use q \<longrightarrow> r' = r)"
proof -
  have inv: "sys_inv s" by (rule sys_inv_reachable [OF assms(2) sys_inv_init [OF assms(1)]])
  show ?thesis using inv_gone [OF inv assms(3,4)] inv_unique [OF inv _ assms(3) _ assms(4)] by blast
qed

text \<open>Two requests fetch the paste; the first to finish gets it.\<close>

lemma one_use_delivered_once_witness:
  "\<exists>s. sys_step\<^sup>*\<^sup>* (sys_init one_use_db) s \<and> phase s 0 = Delivered ''a'' one_use_paste
     \<and> phase s 1 = Holding Page ''a'' one_use_paste \<and> view (store s) ''a'' = None"
proof -
  let ?s0 = "sys_init one_use_db"
  let ?s1 = "?s0\<lparr>store := one_use_db, phase := (phase ?s0)(0 := Holding Raw ''a'' one_use_paste)\<rparr>"
  let ?s2 = "?s1\<lparr>store := one_use_db, phase := (phase ?s1)(1 := Holding Page ''a'' one_use_paste)\<rparr>"
  let ?s3 = "?s2\<lparr>store := snd (finish Raw good_env ''a'' one_use_paste one_use_db),
    phase := (phase ?s2)(0 := Delivered ''a'' one_use_paste)\<rparr>"
  have g: "PasteGet (env_now good_env) (env_query good_env) (env_expire good_env) ''a'' one_use_db
      = (Inr one_use_paste, one_use_db)"
    by (simp add: good_env_def one_use_db_get)
  have st1: "sys_step ?s0 ?s1"
    using sys_step.fetch [of ?s0 0 good_env "''a''" "Inr one_use_paste" one_use_db Raw] g
    by (simp add: sys_init_def)
  have st2: "sys_step ?s1 ?s2"
    using sys_step.fetch [of ?s1 1 good_env "''a''" "Inr one_use_paste" one_use_db Page] g
    by (simp add: sys_init_def)
  have "fst (finish Raw good_env ''a'' one_use_paste one_use_db)"
    by (simp add: finish_def take_any_eq PasteDelete_fst good_env_def one_use_paste_def
        sample_paste_def one_use_db_def view_def tbl_find_def)
  then have "sys_step ?s2 ?s3"
    using sys_step.finish_request [of ?s2 0 Raw "''a''" one_use_paste good_env True
        "snd (finish Raw good_env ''a'' one_use_paste one_use_db)"]
    by (simp add: prod_eq_iff)
  with st1 st2 have reach: "sys_step\<^sup>*\<^sup>* ?s0 ?s3" by (meson rtranclp.rtrancl_into_rtrancl rtranclp.rtrancl_refl)
  have ph: "phase ?s3 0 = Delivered ''a'' one_use_paste" by simp
  have one: "p_one_use one_use_paste" by (simp add: one_use_paste_def sample_paste_def)
  from one_use_delivered_once [OF one_use_db_ok reach ph one] reach ph show ?thesis
    by (intro exI [of _ ?s3]) simp
qed

text \<open>
  The steps of that system are the code: when the limiter grants a request and the paste is
  found, each of the four handlers answers with the paste exactly when \<open>finish\<close> of its route
  succeeds, and leaves the database \<open>finish\<close> leaves.
\<close>

theorem handlers_are_two_steps:
  assumes "fst (CheckAndUseSystem rl (env_client e) (env_limit_time e)) = 0"
    and "PasteGet (env_now e) (env_query e) (env_expire e) i d = (Inr p, d1)"
    and "i \<noteq> []" and "ascii_str i"
  shows "(is_Inr (fst (getPaste e i rl d)), snd (snd (getPaste e i rl d))) = finish Api e i p d1
       \<and> (is_Inr (fst (rawHand e (''/raw/'' @ i) rl d)), snd (snd (rawHand e (''/raw/'' @ i) rl d)))
           = finish Raw e i p d1
       \<and> (is_Inr (fst (handleDownload lp e (''/dl/'' @ i) rl d)),
           snd (snd (handleDownload lp e (''/dl/'' @ i) rl d))) = finish Dl e i p d1
       \<and> (is_Inr (fst (handleGetPaste e ''true'' (''/'' @ i) rl d)),
           snd (snd (handleGetPaste e ''true'' (''/'' @ i) rl d))) = finish Page e i p d1"
proof -
  obtain rl1 where c: "CheckAndUseSystem rl (env_client e) (env_limit_time e) = (0, rl1)"
    using assms(1) by (metis prod.collapse)
  have ids: "drop_runes 5 (''/raw/'' @ i) = i" "drop_runes 4 (''/dl/'' @ i) = i"
    "drop_runes 1 (''/'' @ i) = i"
    using assms(4) by (simp_all add: drop_runes_ascii)
  obtain q d2 where q: "PasteDeleteIfOneUse (env_write e) (env_backup e) i d1 = (q, d2)" by fastforce
  have "(is_Inr (fst (handleGetPaste e ''true'' (''/'' @ i) rl d)),
      snd (snd (handleGetPaste e ''true'' (''/'' @ i) rl d))) = finish Page e i p d1"
    unfolding handleGetPaste_def Let_def limited_def c get_paste_def ids assms(2) finish_def take_one_use_def q
    by (cases q) (simp_all add: ids assms(2) q)
  then show ?thesis
    unfolding getPaste_def rawHand_def handleDownload_def Let_def limited_def c get_paste_def ids
    using assms(3) by (simp add: assms(2) ids burn_checked_answer)
qed

lemma handlers_are_two_steps_witness:
  "fst (finish Raw good_env ''a'' one_use_paste one_use_db)
   \<and> is_Inr (fst (rawHand good_env ''/raw/a'' (NewRateLimitSystem 5 5 5) one_use_db))"
proof -
  have c: "fst (CheckAndUseSystem (NewRateLimitSystem 5 5 5) (env_client good_env) (env_limit_time good_env)) = 0"
    by code_simp
  have g: "PasteGet (env_now good_env) (env_query good_env) (env_expire good_env) ''a'' one_use_db
      = (Inr one_use_paste, one_use_db)"
    by (simp add: good_env_def one_use_db_get)
  have "fst (finish Raw good_env ''a'' one_use_paste one_use_db)"
    by (simp add: finish_def take_any_eq PasteDelete_fst good_env_def one_use_paste_def
        sample_paste_def one_use_db_def view_def tbl_find_def)
  moreover have "(is_Inr (fst (rawHand good_env (''/raw/'' @ ''a'') (NewRateLimitSystem 5 5 5) one_use_db)),
      snd (snd (rawHand good_env (''/raw/'' @ ''a'') (NewRateLimitSystem 5 5 5) one_use_db)))
      = finish Raw good_env ''a'' one_use_paste one_use_db"
    using handlers_are_two_steps [OF c g, of "\<lambda>_. None"] by simp
  ultimately show ?thesis by (simp add: prod_eq_iff)
qed

text \<open>
  Any number of calls of \<open>PasteDelete\<close>, or of \<open>PasteDeleteIfOneUse\<close>, for one id, with any of their
  statements failing, reports success at most once.
\<close>

theorem deletes_succeed_once:
  assumes "db_ok d"
  shows "length (filter (\<lambda>b. b) (run_takes take_any i es d)) \<le> 1
       \<and> length (filter (\<lambda>b. b) (run_takes take_one_use i es d)) \<le> 1"
  using any.taken_at_most_once [OF assms] one.taken_at_most_once [OF assms] by blast

lemma deletes_succeed_once_witness:
  "db_ok one_use_db \<and> run_takes take_any ''a'' [good_env\<lparr>env_write := Failed\<rparr>, good_env, good_env] one_use_db
     = [False, True, False]
   \<and> length (filter (\<lambda>b. b) (run_takes take_any ''a'' [good_env, good_env] one_use_db)) \<le> 1"
proof -
  have "run_takes take_any ''a'' [good_env\<lparr>env_write := Failed\<rparr>, good_env, good_env] one_use_db
     = [False, True, False]" by code_simp
  with deletes_succeed_once [OF one_use_db_ok] one_use_db_ok show ?thesis by blast
qed

text \<open>
  The reading routes without the guard never burn: the Stikked, Hastebin, Pastebin and Microbin
  routes of the compatibility server and the GraphQL query send a one-use paste and leave the
  database as it is, so it can be read again any number of times.
\<close>

theorem unguarded_routes_never_burn:
  assumes "PasteGet (env_now e) (env_query e) (env_expire e) i d = (Inr p, d)" and "i \<noteq> []"
  shows "stikkedGetPaste e ''GET'' (Some ((\<lambda>_. [])(''id'' := i))) d = (Sent p, d)
       \<and> compat_hastebinGet e ''GET'' (''/documents/'' @ i) d = (Sent p, d)
       \<and> pastebinRaw e ''GET'' (Some ((\<lambda>_. [])(''i'' := i))) d = (Sent p, d)
       \<and> microbinAPI e ''GET'' (''/api/'' @ i) f d = (Sent p, d)
       \<and> ResolvePaste e i (Some d) = (Some p, Some d)"
proof -
  have get: "compat_get e i nf k d = k p d" for nf k by (simp add: compat_get_def assms(1))
  have ids: "trim_prefix (''/documents/'' @ i) ''/documents/'' = i" "trim_prefix (''/api/'' @ i) ''/api/'' = i"
    by (simp_all add: trim_prefix_def)
  have "stikkedGetPaste e ''GET'' (Some ((\<lambda>_. [])(''id'' := i))) d = (Sent p, d)"
    by (simp add: stikkedGetPaste_def get assms(2))
  moreover have "compat_hastebinGet e ''GET'' (''/documents/'' @ i) d = (Sent p, d)"
    unfolding compat_hastebinGet_def ids by (simp add: get assms(2))
  moreover have "pastebinRaw e ''GET'' (Some ((\<lambda>_. [])(''i'' := i))) d = (Sent p, d)"
    by (simp add: pastebinRaw_def get assms(2))
  moreover have "microbinAPI e ''GET'' (''/api/'' @ i) f d = (Sent p, d)"
    unfolding microbinAPI_def ids by (simp add: get assms(2))
  moreover have "ResolvePaste e i (Some d) = (Some p, Some d)"
    by (simp add: ResolvePaste_def assms(1))
  ultimately show ?thesis by blast
qed

lemma unguarded_routes_never_burn_witness:
  "p_one_use one_use_paste
   \<and> stikkedGetPaste good_env ''GET'' (Some ((\<lambda>_. [])(''id'' := ''a''))) one_use_db = (Sent one_use_paste, one_use_db)"
proof -
  have g: "PasteGet (env_now good_env) (env_query good_env) (env_expire good_env) ''a'' one_use_db
      = (Inr one_use_paste, one_use_db)"
    by (simp add: good_env_def one_use_db_get)
  have "p_one_use one_use_paste" by (simp add: one_use_paste_def sample_paste_def)
  with unguarded_routes_never_burn [OF g] show ?thesis by simp
qed

text \<open>
  Two routes delete a one-use paste but send it whether or not the deletion succeeded: the
  Hastebin route of the API and the Lenpaste route. A request that has fetched the paste is answered
  with it even when another one took it first or the statement fails.
\<close>

theorem ignored_deletion_still_sends:
  assumes "PasteGet (env_now e) (env_query e) (env_expire e) i d = (Inr p, d)"
    and "fst (CheckAndUseSystem rl (env_client e) (env_limit_time e)) = 0"
    and "i \<noteq> []" and "CHR ''/'' \<notin> set i" and "p_one_use p" and "env_write e = Failed"
  shows "fst (hastebinGet e (''/documents/'' @ i) rl d) = Inr p
       \<and> snd (snd (hastebinGet e (''/documents/'' @ i) rl d)) = d
       \<and> lenpasteGet e ''GET'' (Some ((\<lambda>_. [])(''id'' := i, ''openOneUse'' := ''true''))) d = (Sent p, d)"
proof -
  obtain rl1 where c: "CheckAndUseSystem rl (env_client e) (env_limit_time e) = (0, rl1)"
    using assms(2) by (metis prod.collapse)
  have "\<not> has_suffix i ''/''" using assms(4) by (auto simp: has_suffix_iff)
  then have key: "trim_suffix (trim_prefix (''/documents/'' @ i) ''/documents/'') ''/'' = i"
    by (simp add: trim_prefix_def trim_suffix_def)
  have "snd (PasteDelete (env_write e) (env_backup e) i d) = d"
    by (simp add: PasteDelete_def assms(6) Let_def)
  then show ?thesis
    unfolding hastebinGet_def Let_def key limited_def c get_paste_def
    by (simp add: assms lenpasteGet_def compat_get_def)
qed

lemma ignored_deletion_still_sends_witness:
  "fst (hastebinGet (good_env\<lparr>env_write := Failed\<rparr>) ''/documents/a'' (NewRateLimitSystem 5 5 5) one_use_db)
     = Inr one_use_paste"
proof -
  let ?e = "good_env\<lparr>env_write := Failed\<rparr>"
  have g: "PasteGet (env_now ?e) (env_query ?e) (env_expire ?e) ''a'' one_use_db = (Inr one_use_paste, one_use_db)"
    by (simp add: good_env_def one_use_db_get)
  have c: "fst (CheckAndUseSystem (NewRateLimitSystem 5 5 5) (env_client ?e) (env_limit_time ?e)) = 0"
    by code_simp
  have o: "p_one_use one_use_paste" by (simp add: one_use_paste_def sample_paste_def)
  show ?thesis using ignored_deletion_still_sends [OF g c _ _ o] by simp
qed

end
