(* ===== verification/Reader_Laws.thy ===== *)
theory Reader_Laws
  imports Burn
begin

text \<open>
  What readers and editors may rely on: an uploaded file comes back byte for byte, redirects only
  lead to \<open>http\<close> and \<open>https\<close> addresses, and the edit form changes editable pastes only, which
  the Microbin route does not respect.
\<close>

section \<open>Following a handler that succeeds\<close>

lemma limited_Inr:
  "fst (limited e rl d k) = Inr x \<Longrightarrow>
     limited e rl d k = k (snd (CheckAndUseSystem rl (env_client e) (env_limit_time e)))"
  by (auto simp: limited_def case_prod_beta split: if_splits)

lemma get_paste_cases:
  assumes "PasteGet (env_now e) (env_query e) (env_expire e) i d = (Inr p, d1)"
  shows "get_paste e i rl d k = k p d"
  using assms PasteGet_same [of "env_now e" "env_query e" "env_expire e" i d p]
  by (simp add: get_paste_def)

section \<open>Redirect targets\<close>

definition urls_ok :: "db \<Rightarrow> bool" where
  "urls_ok d \<longleftrightarrow> (\<forall>i p. view d i = Some p \<and> p_is_url p \<longrightarrow> url_scheme_ok (p_original_url p))"

lemma urls_ok_shrink: "urls_ok d \<Longrightarrow> (\<And>i p. view d' i = Some p \<Longrightarrow> view d i = Some p) \<Longrightarrow> urls_ok d'"
  unfolding urls_ok_def by blast

lemma urls_ok_get: "urls_ok d \<Longrightarrow> urls_ok (snd (PasteGet now okq okd i d))"
  by (erule urls_ok_shrink) (auto simp: view_PasteGet split: if_splits option.splits)

lemma urls_ok_delete: "urls_ok d \<Longrightarrow> urls_ok (snd (PasteDelete w okb i d))"
  by (erule urls_ok_shrink) (auto simp: view_PasteDelete split: if_splits)

lemma urls_ok_update:
  assumes "urls_ok d" and "p_is_url p \<Longrightarrow> url_scheme_ok (p_original_url p)"
  shows "urls_ok (snd (PasteUpdate w okb p d))"
  using assms unfolding urls_ok_def view_PasteUpdate
  by (auto split: if_splits)

lemma urls_ok_edit:
  "urls_ok d \<Longrightarrow> view d i = Some p \<Longrightarrow> p_is_url q = p_is_url p \<Longrightarrow>
     p_original_url q = p_original_url p \<Longrightarrow> urls_ok (snd (PasteUpdate w okb q d))"
  by (rule urls_ok_update) (auto simp: urls_ok_def)

lemma urls_ok_limited:
  "urls_ok d \<Longrightarrow> (\<And>rl. urls_ok (snd (snd (k rl)))) \<Longrightarrow> urls_ok (snd (snd (limited e rl d k)))"
  by (simp add: limited_def case_prod_beta)

lemma urls_ok_get_paste:
  assumes "urls_ok d" and "\<And>p. view d i = Some p \<Longrightarrow> urls_ok (snd (snd (k p d)))"
  shows "urls_ok (snd (snd (get_paste e i rl d k)))"
proof -
  obtain r d1 where g: "PasteGet (env_now e) (env_query e) (env_expire e) i d = (r, d1)" by fastforce
  show ?thesis
  proof (cases r)
    case (Inl x)
    with g urls_ok_get [OF assms(1), of "env_now e" "env_query e" "env_expire e" i] show ?thesis
      by (simp add: get_paste_def)
  next
    case (Inr p)
    then have "view d i = Some p"
      using g PasteGet_Inr [of "env_now e" "env_query e" "env_expire e" i d p] by simp
    with assms(2) get_paste_cases [OF g [unfolded Inr], of rl k] show ?thesis by simp
  qed
qed

lemma urls_ok_compat_get:
  assumes "urls_ok d" and "\<And>p. view d i = Some p \<Longrightarrow> urls_ok (snd (k p d))"
  shows "urls_ok (snd (compat_get e i nf k d))"
proof -
  obtain r d1 where g: "PasteGet (env_now e) (env_query e) (env_expire e) i d = (r, d1)" by fastforce
  show ?thesis
  proof (cases r)
    case (Inl x)
    with g urls_ok_get [OF assms(1), of "env_now e" "env_query e" "env_expire e" i] show ?thesis
      by (cases x) (simp_all add: compat_get_def)
  next
    case (Inr p)
    then have p: "fst (PasteGet (env_now e) (env_query e) (env_expire e) i d) = Inr p" using g by simp
    then have "view d i = Some p" by (simp add: PasteGet_Inr)
    with assms(2) g Inr PasteGet_same [OF p] show ?thesis by (simp add: compat_get_def)
  qed
qed

lemma snd_case_update:
  "snd (snd (case x of (Inl e, d) \<Rightarrow> (f e, rl, d) | (Inr u, d) \<Rightarrow> (g u, rl, d))) = snd x"
  by (simp add: case_prod_beta split: sum.split)

lemma urls_ok_handleEditPaste: "urls_ok d \<Longrightarrow> urls_ok (snd (snd (handleEditPaste e meth path f rl d)))"
  unfolding handleEditPaste_def Let_def
  by (auto simp: snd_case_update intro!: urls_ok_limited urls_ok_get_paste)
    (erule (1) urls_ok_edit; simp)+

lemma snd_case_answer:
  "snd (case x of (Inl e, d) \<Rightarrow> (f e, d) | (Inr u, d) \<Rightarrow> (g u, d)) = snd x"
  by (simp add: case_prod_beta split: sum.split)

lemma urls_ok_microbinAPI: "urls_ok d \<Longrightarrow> urls_ok (snd (microbinAPI e meth path f d))"
proof -
  assume d: "urls_ok d"
  let ?i = "trim_prefix path ''/api/''"
  have get: "urls_ok (snd (compat_get e ?i (Status 404) (\<lambda>p d. (Sent p, d)) d))"
    by (rule urls_ok_compat_get) (simp_all add: d)
  have post: "urls_ok (snd (compat_get e ?i (Status 404) (\<lambda>p d.
      let p = (if f ''content'' \<noteq> [] then p\<lparr>p_body := f ''content''\<rparr> else p);
          p = (if f ''title'' \<noteq> [] then p\<lparr>p_title := f ''title''\<rparr> else p);
          p = (if f ''syntax_highlight'' \<noteq> [] then p\<lparr>p_syntax := f ''syntax_highlight''\<rparr> else p)
      in (case PasteUpdate (env_write e) (env_backup e) p d of
            (Inl x, d) \<Rightarrow> (Status 500, d)
          | (Inr _, d) \<Rightarrow> (Sent p, d))) d))"
    by (rule urls_ok_compat_get [OF d]) (simp add: Let_def snd_case_answer urls_ok_edit [OF d])
  have "urls_ok (snd (case PasteDelete (env_write e) (env_backup e) ?i d of
      (Inl ErrNotFoundID, d) \<Rightarrow> (Status 404, d) | (Inl _, d) \<Rightarrow> (Status 500, d)
    | (Inr _, d) \<Rightarrow> (No_content, d)))"
    using urls_ok_delete [OF d, of "env_write e" "env_backup e" ?i]
    by (simp add: case_prod_beta split: sum.split db_error.split)
  with get post d show ?thesis
    unfolding microbinAPI_def Let_def [of "trim_prefix path ''/api/''"] by simp
qed

lemma form_url_ok: "read_form cfg now b = Inr p \<Longrightarrow> p_is_url p \<Longrightarrow> url_scheme_ok (p_original_url p)"
proof -
  assume r: "read_form cfg now b = Inr p" and u: "p_is_url p"
  from read_form_Inr [OF r] obtain f p1 p2 p3 p4 p5 where
    steps: "check_sizes cfg p1 = Inr p2" "set_line_end (f ''lineEnd'') p2 = Inr p3"
    "set_syntax (lexerNames cfg) p3 = Inr p4"
    "set_expiration now (maxLifeTime cfg) (f ''expiration'') p4 = Inr p5"
    and p: "p = p5\<lparr>p_one_use := one_use_value (f ''oneUse'')\<rparr>"
    and last: "check_urls p = Inr p" by blast
  obtain x where p3: "p3 = p2\<lparr>p_body := x\<rparr>" using set_line_end_Inr [OF steps(2)] by blast
  have p5: "p5 = p4\<lparr>p_delete_time := p_delete_time p5\<rparr>" by (rule set_expiration_Inr [OF steps(4)])
  have p4: "p4 = p3\<lparr>p_syntax := p_syntax p4\<rparr>" using set_syntax_Inr [OF steps(3)] by blast
  have "p_is_url p = p_is_url p2" "p_original_url p = p_original_url p2"
    unfolding p by (subst p5, simp, subst p4, simp add: p3)+
  with steps(1) u last show ?thesis by (simp add: check_sizes_Inr check_urls_Inr)
qed

section \<open>Properties\<close>



text \<open>
  Redirects stay on the web: the target of a redirect has an \<open>http\<close> or \<open>https\<close> scheme and none
  of the script schemes, provided the stored redirects have; and the forms that create and edit
  pastes keep it that way, the Microbin edit included.
\<close>

theorem redirects_stay_http:
  assumes "urls_ok d"
  shows "(case fst (handleURLRedirect e meth path rl d) of Inl _ \<Rightarrow> True | Inr target \<Rightarrow> url_scheme_ok target)
       \<and> urls_ok (snd (snd (PasteAddFromForm cfg meth client clocks b rands ok okb rl d)))
       \<and> urls_ok (snd (snd (handleEditPaste e meth path f rl d)))
       \<and> urls_ok (snd (microbinAPI e meth path f d))"
proof (intro conjI)
  show "case fst (handleURLRedirect e meth path rl d) of Inl _ \<Rightarrow> True | Inr target \<Rightarrow> url_scheme_ok target"
  proof -
    have "url_scheme_ok (p_original_url p)"
      if "PasteGet (env_now e) (env_query e) (env_expire e) i d = (Inr p, d1)" "p_is_url p" for i p d1
    proof -
      have "fst (PasteGet (env_now e) (env_query e) (env_expire e) i d) = Inr p" using that(1) by simp
      then have "view d i = Some p" by (simp add: PasteGet_Inr)
      with that(2) assms show ?thesis by (auto simp: urls_ok_def)
    qed
    then show ?thesis
      by (auto simp: handleURLRedirect_def Let_def limited_def get_paste_def
          split: prod.split sum.split if_split)
  qed
  show "urls_ok (snd (snd (PasteAddFromForm cfg meth client clocks b rands ok okb rl d)))"
  proof -
    obtain t0 t1 t2 where t: "clocks = (t0, t1, t2)" by (metis prod_cases3)
    obtain r rl' d' where eq: "PasteAddFromForm cfg meth client (t0, t1, t2) b rands ok okb rl d = (r, rl', d')"
      by (metis prod_cases3)
    show ?thesis
    proof (cases r)
      case (Inl x)
      then have "d' = d"
        using eq by (auto simp: PasteAddFromForm_def case_prod_beta split: if_splits sum.splits
            dest: PasteAdd_Inl)
      with assms eq t show ?thesis by simp
    next
      case (Inr y)
      obtain i c x where y: "y = (i, c, x)" by (metis prod_cases3)
      from PasteAddFromForm_Inr [OF eq [unfolded Inr y]] obtain p where
        p: "read_form cfg t1 b = Inr p" "PasteAdd rands t2 ok okb p d = (Inr (i, c, x), d')" by blast
      have "view d' = (view d)(i \<mapsto> added i t2 p)" using view_PasteAdd [OF p(2)] by blast
      with assms form_url_ok [OF p(1)] have "urls_ok d'"
        by (auto simp: urls_ok_def added_def split: if_splits)
      with eq t show ?thesis by simp
    qed
  qed
  show "urls_ok (snd (snd (handleEditPaste e meth path f rl d)))"
    by (rule urls_ok_handleEditPaste [OF assms])
  show "urls_ok (snd (microbinAPI e meth path f d))"
    by (rule urls_ok_microbinAPI [OF assms])
qed

definition url_paste :: paste where
  "url_paste = one_use_paste\<lparr>p_is_url := True, p_original_url := ''HTTPS://example.org/x''\<rparr>"

lemma redirects_stay_http_witness:
  "fst (handleURLRedirect good_env ''GET'' ''/u/a'' (NewRateLimitSystem 5 5 5)
          \<lparr>pool = [url_paste], backup_pool = None\<rparr>) = Inr ''HTTPS://example.org/x''
   \<and> url_scheme_ok ''HTTPS://example.org/x''"
proof -
  let ?d = "\<lparr>pool = [url_paste], backup_pool = None\<rparr>"
  have r: "fst (handleURLRedirect good_env ''GET'' ''/u/a'' (NewRateLimitSystem 5 5 5) ?d) =
      Inr ''HTTPS://example.org/x''" by code_simp
  have "url_scheme_ok ''HTTPS://example.org/x''" by code_simp
  then have "urls_ok ?d"
    by (auto simp: urls_ok_def view_def tbl_find_def url_paste_def one_use_paste_def sample_paste_def)
  from redirects_stay_http [OF this, of good_env "''GET''" "''/u/a''" "NewRateLimitSystem 5 5 5"] r
  show ?thesis by simp
qed

text \<open>
  The edit form leaves a paste that is not marked editable as it is, whatever is submitted, and
  of an editable one it changes at most the title and the body; it never changes another paste.
\<close>

theorem edit_needs_editable:
  assumes "view d j = Some p" and "\<not> expired_at (env_now e) p"
  shows "\<exists>q. view (snd (snd (handleEditPaste e meth path f rl d))) j = Some q
    \<and> (q = p \<or> p_is_editable p \<and> j = drop 6 path
        \<and> q = p\<lparr>p_title := p_title q, p_body := p_body q\<rparr>)"
proof -
  let ?i = "drop 6 path"
  obtain retry rl1 where c: "CheckAndUseSystem rl (env_client e) (env_limit_time e) = (retry, rl1)"
    by fastforce
  obtain r d1 where g: "PasteGet (env_now e) (env_query e) (env_expire e) ?i d = (r, d1)" by fastforce
  have same: "view d1 j = Some p"
    using view_PasteGet [of "env_now e" "env_query e" "env_expire e" ?i d j] g assms by auto
  show ?thesis
  proof (cases "meth = ''POST'' \<and> retry = 0 \<and> (\<exists>q. r = Inr q \<and> p_is_editable q)")
    case False
    then have "view (snd (snd (handleEditPaste e meth path f rl d))) j = Some p"
      using same assms(1) g
      by (cases r) (auto simp: handleEditPaste_def Let_def limited_def c get_paste_def)
    then show ?thesis by blast
  next
    case True
    then obtain q where q: "r = Inr q" "p_is_editable q" by blast
    have fg: "fst (PasteGet (env_now e) (env_query e) (env_expire e) ?i d) = Inr q" using g q by simp
    then have vq: "view d ?i = Some q" by (simp add: PasteGet_Inr)
    then have id: "p_id q = ?i" by (auto simp: view_def dest: tbl_find_Some)
    have d1: "d1 = d" using PasteGet_same [OF fg] g by simp
    define Q where "Q = (let q = (if f ''body'' \<noteq> [] then q\<lparr>p_body := f ''body''\<rparr> else q)
      in if f ''title'' \<noteq> [] then q\<lparr>p_title := f ''title''\<rparr> else q)"
    have Q: "p_id Q = ?i" "Q\<lparr>p_create_time := p_create_time q\<rparr> =
        q\<lparr>p_title := p_title Q, p_body := p_body Q\<rparr>"
      by (simp_all add: Q_def Let_def id)
    have edit: "view (snd (snd (handleEditPaste e meth path f rl d))) j =
        view (snd (PasteUpdate (env_write e) (env_backup e) Q d)) j"
      using True q
      by (simp add: handleEditPaste_def limited_def c get_paste_def g d1 Let_def snd_case_update Q_def)
    show ?thesis
    proof (cases "env_write e \<noteq> Failed \<and> j = ?i")
      case True
      then have "q = p" using vq assms(1) by simp
      moreover have "view (snd (PasteUpdate (env_write e) (env_backup e) Q d)) j =
          Some (q\<lparr>p_title := p_title Q, p_body := p_body Q\<rparr>)"
        using True vq by (simp add: view_PasteUpdate Q)
      ultimately show ?thesis using edit True q(2) by simp
    next
      case False
      then have "view (snd (PasteUpdate (env_write e) (env_backup e) Q d)) j = Some p"
        using assms(1) by (auto simp: view_PasteUpdate Q)
      with edit show ?thesis by simp
    qed
  qed
qed

lemma edit_needs_editable_witness:
  "\<not> p_is_editable one_use_paste
   \<and> view (snd (snd (handleEditPaste good_env ''POST'' ''/edit/a'' ((\<lambda>_. [])(''body'' := ''new''))
        (NewRateLimitSystem 5 5 5) one_use_db))) ''a'' = Some one_use_paste"
proof -
  have v: "view one_use_db ''a'' = Some one_use_paste"
    by (simp add: view_def tbl_find_def one_use_db_def one_use_paste_def sample_paste_def)
  have n: "\<not> expired_at (env_now good_env) one_use_paste"
    by (simp add: expired_at_def one_use_paste_def sample_paste_def)
  have "\<not> p_is_editable one_use_paste" by (simp add: one_use_paste_def sample_paste_def)
  with edit_needs_editable [OF v n] show ?thesis by blast
qed

text \<open>
  The Microbin route has no such guard: anybody who knows the id of a paste that was not marked
  editable can replace its body and can delete it.
\<close>

theorem microbin_edits_any:
  assumes "view d i = Some p" and "\<not> expired_at (env_now e) p" and "env_query e"
    and "env_write e = Written" and "i \<noteq> []" and "body \<noteq> []"
  shows "view (snd (microbinAPI e ''POST'' (''/api/'' @ i) ((\<lambda>_. [])(''content'' := body)) d)) i
           = Some (p\<lparr>p_body := body\<rparr>)
       \<and> microbinAPI e ''DELETE'' (''/api/'' @ i) f d
           = (No_content, snd (PasteDelete Written (env_backup e) i d))
       \<and> view (snd (microbinAPI e ''DELETE'' (''/api/'' @ i) f d)) i = None"
proof -
  have key: "trim_prefix (''/api/'' @ i) ''/api/'' = i" by (simp add: trim_prefix_def)
  have id: "p_id p = i" using assms(1) by (auto simp: view_def dest: tbl_find_Some)
  have g: "fst (PasteGet (env_now e) (env_query e) (env_expire e) i d) = Inr p"
    using assms by (simp add: PasteGet_Inr)
  with PasteGet_same [OF g] have get: "PasteGet (env_now e) (env_query e) (env_expire e) i d = (Inr p, d)"
    by (metis prod.collapse)
  have post: "snd (microbinAPI e ''POST'' (''/api/'' @ i) ((\<lambda>_. [])(''content'' := body)) d) =
      snd (PasteUpdate (env_write e) (env_backup e) (p\<lparr>p_body := body\<rparr>) d)"
    using assms(5,6) unfolding microbinAPI_def Let_def key
    by (simp add: compat_get_def get snd_case_answer)
  have up: "view (snd (PasteUpdate (env_write e) (env_backup e) (p\<lparr>p_body := body\<rparr>) d)) i =
      Some (p\<lparr>p_body := body\<rparr>)"
    by (simp add: view_PasteUpdate assms(1,4) id)
  have "fst (PasteDelete Written (env_backup e) i d) = Inr ()"
    by (simp add: PasteDelete_fst assms(1))
  then obtain d2 where d2: "PasteDelete Written (env_backup e) i d = (Inr (), d2)"
    by (metis prod.collapse)
  have del: "microbinAPI e ''DELETE'' (''/api/'' @ i) f d =
      (No_content, snd (PasteDelete Written (env_backup e) i d))"
    using assms(5) unfolding microbinAPI_def Let_def key assms(4)
    by (simp add: d2)
  show ?thesis using post up del by (simp add: view_PasteDelete)
qed

lemma microbin_edits_any_witness:
  "\<not> p_is_editable one_use_paste
   \<and> view (snd (microbinAPI good_env ''POST'' (''/api/'' @ ''a'') ((\<lambda>_. [])(''content'' := ''new'')) one_use_db)) ''a''
       = Some (one_use_paste\<lparr>p_body := ''new''\<rparr>)"
proof -
  have v: "view one_use_db ''a'' = Some one_use_paste"
    by (simp add: view_def tbl_find_def one_use_db_def one_use_paste_def sample_paste_def)
  have n: "\<not> expired_at (env_now good_env) one_use_paste"
    by (simp add: expired_at_def one_use_paste_def sample_paste_def)
  have "\<not> p_is_editable one_use_paste" by (simp add: one_use_paste_def sample_paste_def)
  moreover have "env_query good_env" "env_write good_env = Written" by (simp_all add: good_env_def)
  ultimately show ?thesis using microbin_edits_any [OF v n, of "''new''"] by simp
qed

end
