(* ===== verification/Cron.thy ===== *)
theory Cron
  imports Go_Conv
begin

text \<open>
  \<open>src/src/scheduler/cron.go\<close>: cron expressions. A field is parsed to the list of its values; the
  loop over a step may not end, so parsing returns an option (\<open>None\<close> for not returning) of an error
  or a value, and an index out of range is the error \<open>Index_panic\<close>. A time is a number of
  nanoseconds since the zero time of Go; its fields in the scheduler's time zone are given by an
  argument \<open>cal\<close>, and \<open>time.ParseDuration\<close> by an argument \<open>dur\<close>.
\<close>

section \<open>Fields\<close>

datatype cron_error =
    Bad_duration string | Wrong_fields nat
  | Bad_step string | Bad_step_value string | Bad_value string | Out_of_bounds int int int
  | Empty_field | Bad_range string | Bad_range_start string | Bad_range_end string
  | Range_order int int | Range_bounds int int | Index_panic

definition ints_between :: "int \<Rightarrow> int \<Rightarrow> int list" where
  "ints_between a b = [a..b]"

definition parseRange :: "string \<Rightarrow> int \<Rightarrow> int \<Rightarrow> cron_error + int list" where
  "parseRange r mn mx =
     (case split_char (CHR ''-'') r of
        [a, b] \<Rightarrow>
          (case parse_int a of
             Inl _ \<Rightarrow> Inl (Bad_range_start a)
           | Inr start \<Rightarrow>
               (case parse_int b of
                  Inl _ \<Rightarrow> Inl (Bad_range_end b)
                | Inr end' \<Rightarrow>
                    if start > end' then Inl (Range_order start end')
                    else if start < mn \<or> end' > mx then Inl (Range_bounds mn mx)
                    else Inr (ints_between start end')))
      | _ \<Rightarrow> Inl (Bad_range r))"

text \<open>\<open>for i := 0; i < len(rangeVals); i += step\<close>, appending to \<open>acc\<close>.\<close>

partial_function (option) step_loop ::
    "int list \<Rightarrow> int \<Rightarrow> int \<Rightarrow> int list \<Rightarrow> (cron_error + int list) option" where
  "step_loop vals step i acc =
     (if i \<ge> int (length vals) then Some (Inr acc)
      else if i < 0 then Some (Inl Index_panic)
      else step_loop vals step (int64 (i + step)) (acc @ [vals ! nat i]))"

definition parse_part :: "string \<Rightarrow> int \<Rightarrow> int \<Rightarrow> int list \<Rightarrow> (cron_error + int list) option" where
  "parse_part part mn mx acc =
     (if contains_str part ''/'' then
        (case split_char (CHR ''/'') part of
           [base, st] \<Rightarrow>
             (case parse_int st of
                Inl _ \<Rightarrow> Some (Inl (Bad_step_value st))
              | Inr step \<Rightarrow>
                  (if base = ''*'' then step_loop (ints_between mn mx) step 0 acc
                   else (case parseRange base mn mx of
                       Inl e \<Rightarrow> Some (Inl e)
                     | Inr vals \<Rightarrow> step_loop vals step 0 acc)))
         | _ \<Rightarrow> Some (Inl (Bad_step part)))
      else if contains_str part ''-'' then
        (case parseRange part mn mx of
           Inl e \<Rightarrow> Some (Inl e)
         | Inr vals \<Rightarrow> Some (Inr (acc @ vals)))
      else
        (case parse_int part of
           Inl _ \<Rightarrow> Some (Inl (Bad_value part))
         | Inr val \<Rightarrow>
             if val < mn \<or> val > mx then Some (Inl (Out_of_bounds val mn mx))
             else Some (Inr (acc @ [val]))))"

fun parse_parts :: "string list \<Rightarrow> int \<Rightarrow> int \<Rightarrow> int list \<Rightarrow> (cron_error + int list) option" where
  "parse_parts [] mn mx acc = Some (Inr acc)"
| "parse_parts (p # ps) mn mx acc =
     (case parse_part p mn mx acc of
        None \<Rightarrow> None
      | Some (Inl e) \<Rightarrow> Some (Inl e)
      | Some (Inr acc) \<Rightarrow> parse_parts ps mn mx acc)"

definition parseField :: "string \<Rightarrow> int \<Rightarrow> int \<Rightarrow> (cron_error + int list) option" where
  "parseField field mn mx =
     (if field = ''*'' then Some (Inr (ints_between mn mx))
      else (case parse_parts (split_char (CHR '','') field) mn mx [] of
          Some (Inr result) \<Rightarrow>
            if result = [] then Some (Inl Empty_field) else Some (Inr result)
        | r \<Rightarrow> r))"

section \<open>Expressions\<close>

datatype field_error = In_minute cron_error | In_hour cron_error | In_day cron_error
  | In_month cron_error | In_weekday cron_error | In_expression cron_error

record CronExpr =
  c_minute :: "int list"
  c_hour :: "int list"
  c_day :: "int list"
  c_month :: "int list"
  c_weekday :: "int list"
  isEvery :: bool
  every :: int

definition expand_predefined :: "string \<Rightarrow> string" where
  "expand_predefined expr =
     (if expr = ''@yearly'' \<or> expr = ''@annually'' then ''0 0 1 1 *''
      else if expr = ''@monthly'' then ''0 0 1 * *''
      else if expr = ''@weekly'' then ''0 0 * * 0''
      else if expr = ''@daily'' \<or> expr = ''@midnight'' then ''0 0 * * *''
      else if expr = ''@hourly'' then ''0 * * * *''
      else expr)"

definition bind_field ::
    "(cron_error \<Rightarrow> field_error) \<Rightarrow> (cron_error + int list) option \<Rightarrow>
     (int list \<Rightarrow> (field_error + 'a) option) \<Rightarrow> (field_error + 'a) option" where
  "bind_field w r k =
     (case r of None \<Rightarrow> None | Some (Inl e) \<Rightarrow> Some (Inl (w e)) | Some (Inr vs) \<Rightarrow> k vs)"

definition ParseCron :: "(string \<Rightarrow> int option) \<Rightarrow> string \<Rightarrow> (field_error + CronExpr) option" where
  "ParseCron dur expr =
     (let expr = trim_space expr
      in if has_prefix expr ''@every '' then
           (let durStr = trim_prefix expr ''@every ''
            in case dur durStr of
                 None \<Rightarrow> Some (Inl (In_expression (Bad_duration durStr)))
               | Some d \<Rightarrow> Some (Inr \<lparr>c_minute = [], c_hour = [], c_day = [], c_month = [],
                                       c_weekday = [], isEvery = True, every = d\<rparr>))
         else
           (let parts = Fields (expand_predefined expr)
            in if length parts \<noteq> 5 then Some (Inl (In_expression (Wrong_fields (length parts))))
               else
                 bind_field In_minute (parseField (parts ! 0) 0 59) (\<lambda>mi.
                 bind_field In_hour (parseField (parts ! 1) 0 23) (\<lambda>ho.
                 bind_field In_day (parseField (parts ! 2) 1 31) (\<lambda>da.
                 bind_field In_month (parseField (parts ! 3) 1 12) (\<lambda>mo.
                 bind_field In_weekday (parseField (parts ! 4) 0 6) (\<lambda>we.
                 Some (Inr \<lparr>c_minute = mi, c_hour = ho, c_day = da, c_month = mo,
                            c_weekday = we, isEvery = False, every = 0\<rparr>))))))))"

section \<open>The next time\<close>

record civil =
  civ_minute :: int
  civ_hour :: int
  civ_day :: int
  civ_month :: int
  civ_weekday :: int

definition minute_ns :: int where "minute_ns = 60000000000"

definition matches :: "(int \<Rightarrow> civil) \<Rightarrow> CronExpr \<Rightarrow> int \<Rightarrow> bool" where
  "matches cal c t \<longleftrightarrow> civ_minute (cal t) \<in> set (c_minute c) \<and> civ_hour (cal t) \<in> set (c_hour c)
     \<and> civ_day (cal t) \<in> set (c_day c) \<and> civ_month (cal t) \<in> set (c_month c)
     \<and> civ_weekday (cal t) \<in> set (c_weekday c)"

definition maxIterations :: nat where "maxIterations = 366 * 4 * 24 * 60"

fun next_loop :: "nat \<Rightarrow> (int \<Rightarrow> bool) \<Rightarrow> int \<Rightarrow> int" where
  "next_loop 0 m t = 0"
| "next_loop (Suc n) m t = (if m t then t else next_loop n m (t + minute_ns))"

definition Next :: "(int \<Rightarrow> civil) \<Rightarrow> CronExpr \<Rightarrow> int \<Rightarrow> int" where
  "Next cal c after =
     (if isEvery c then after + every c
      else next_loop maxIterations (matches cal c) (after - after mod minute_ns + minute_ns))"

section \<open>Loops over steps\<close>

lemma step_loop_panic: "0 < length vals \<Longrightarrow> int64_min \<le> step \<Longrightarrow> step < 0 \<Longrightarrow>
    step_loop vals step 0 acc = Some (Inl Index_panic)"
proof -
  assume "0 < length vals" "int64_min \<le> step" "step < 0"
  moreover have "int64 step = step" if "int64_min \<le> step" "step < 0"
    by (rule int64_id) (use that in \<open>simp add: int64_defs\<close>)
  ultimately show ?thesis by (subst step_loop.simps, subst step_loop.simps) simp
qed

lemma step_loop_zero: "0 < length vals \<Longrightarrow> step_loop vals 0 0 acc = None"
proof -
  have "0 < length v \<longrightarrow> \<not> (s = 0 \<and> i = 0)" if "step_loop v s i a = Some r" for v s i a r
  proof (rule step_loop.raw_induct
      [where P = "\<lambda>v s i a r. 0 < length v \<longrightarrow> \<not> (s = 0 \<and> i = 0)", OF _ that])
    fix f :: "int list \<Rightarrow> int \<Rightarrow> int \<Rightarrow> int list \<Rightarrow> (cron_error + int list) option" and v s i a r
    assume ih: "\<And>v s i a r. f v s i a = Some r \<Longrightarrow> 0 < length v \<longrightarrow> \<not> (s = 0 \<and> i = 0)"
      and eq: "(if i \<ge> int (length v) then Some (Inr a) else if i < 0 then Some (Inl Index_panic)
        else f v s (int64 (i + s)) (a @ [v ! nat i])) = Some r"
    show "0 < length v \<longrightarrow> \<not> (s = 0 \<and> i = 0)"
    proof (intro impI notI)
      assume v: "0 < length v" and z: "s = 0 \<and> i = 0"
      with eq have "f v 0 (int64 0) (a @ [v ! 0]) = Some r" by simp
      moreover have "int64 0 = 0" by (simp add: int64_small)
      ultimately show False using ih [of v 0 0] v by auto
    qed
  qed
  then show "0 < length vals \<Longrightarrow> step_loop vals 0 0 acc = None" by (metis option.exhaust)
qed

fun every_nth :: "nat \<Rightarrow> 'a list \<Rightarrow> 'a list" where
  "every_nth n [] = []"
| "every_nth n (x # xs) = x # every_nth n (drop (n - 1) xs)"

lemma every_nth_drop:
  "i < length xs \<Longrightarrow> 0 < n \<Longrightarrow> every_nth n (drop i xs) = xs ! i # every_nth n (drop (i + n) xs)"
  by (simp add: Cons_nth_drop_Suc [symmetric] add.commute)

lemma every_nth_subset: "set (every_nth n xs) \<subseteq> set xs"
  by (induction n xs rule: every_nth.induct) (auto dest: in_set_dropD)

lemma step_loop_positive:
  assumes "0 < step" and "step \<le> int64_max" and "length vals \<le> 1000"
  shows "i = 0 \<or> nat step \<le> i \<Longrightarrow> i \<le> length vals \<Longrightarrow>
     step_loop vals step (int i) acc = Some (Inr (acc @ every_nth (nat step) (drop i vals)))"
proof (induction "length vals - i" arbitrary: i acc rule: less_induct)
  case less
  show ?case
  proof (cases "i = length vals")
    case True
    then show ?thesis by (subst step_loop.simps) simp
  next
    case False
    then have i: "i < length vals" using less.prems by simp
    have "int i + step \<le> int64_max"
      using less.prems(1) assms i by (auto simp: int64_max_def)
    then have id: "int64 (int i + step) = int i + step"
      using assms(1) by (intro int64_id) (simp add: int64_defs)
    have next_i: "int i + step = int (i + nat step)" using assms(1) by simp
    have nth: "every_nth (nat step) (drop i vals) = vals ! i # every_nth (nat step) (drop (i + nat step) vals)"
      using i assms(1) by (intro every_nth_drop) simp_all
    have "step_loop vals step (int i) acc = step_loop vals step (int i + step) (acc @ [vals ! i])"
      using i by (subst step_loop.simps) (simp add: id)
    then have step: "step_loop vals step (int i) acc = step_loop vals step (int (i + nat step)) (acc @ [vals ! i])"
      unfolding next_i .
    show ?thesis
    proof (cases "i + nat step \<le> length vals")
      case True
      then have "step_loop vals step (int (i + nat step)) (acc @ [vals ! i]) =
          Some (Inr ((acc @ [vals ! i]) @ every_nth (nat step) (drop (i + nat step) vals)))"
        using assms(1) i by (intro less.hyps) auto
      then show ?thesis by (simp add: step nth)
    next
      case False
      then have "step_loop vals step (int (i + nat step)) (acc @ [vals ! i]) = Some (Inr (acc @ [vals ! i]))"
        using assms(1) by (subst step_loop.simps) auto
      with False show ?thesis by (simp add: step nth)
    qed
  qed
qed

lemma step_loop_cases:
  assumes "vals \<noteq> []" and "length vals \<le> 1000" and "in_int64 step"
  shows "step_loop vals step 0 acc =
    (if step = 0 then None
     else if step < 0 then Some (Inl Index_panic)
     else Some (Inr (acc @ every_nth (nat step) vals)))"
proof -
  consider "step = 0" | "step < 0" | "0 < step" by linarith
  then show ?thesis
  proof cases
    case 1
    with assms(1) show ?thesis by (simp add: step_loop_zero)
  next
    case 2
    with assms show ?thesis by (simp add: step_loop_panic in_int64_def)
  next
    case 3
    with assms step_loop_positive [of step vals 0 acc] show ?thesis by (simp add: in_int64_def)
  qed
qed

section \<open>Values of a field\<close>

lemma parseRange_Inr:
  "parseRange r mn mx = Inr vs \<Longrightarrow> vs \<noteq> [] \<and> set vs \<subseteq> {mn..mx} \<and> int (length vs) \<le> mx - mn + 1"
  by (auto simp: parseRange_def ints_between_def split: list.splits sum.splits if_splits)

lemma parse_part_Inr:
  assumes "parse_part p mn mx acc = Some (Inr vs)" and "mn \<le> mx" and "mx \<le> mn + 900"
    and "set acc \<subseteq> {mn..mx}"
  shows "set vs \<subseteq> {mn..mx} \<and> vs \<noteq> []"
proof -
  have loop: "set vs \<subseteq> {mn..mx} \<and> vs \<noteq> []"
    if "step_loop xs step 0 acc = Some (Inr vs)" "xs \<noteq> []" "set xs \<subseteq> {mn..mx}" "length xs \<le> 1000"
      "in_int64 step" for xs step
  proof -
    have "0 < step" "vs = acc @ every_nth (nat step) xs"
      using that(1) step_loop_cases [OF that(2,4,5), of acc] by (auto split: if_splits)
    moreover have "every_nth (nat step) xs \<noteq> []" using that(2) by (cases xs) simp_all
    ultimately show ?thesis using every_nth_subset [of "nat step" xs] that(3) assms(4) by auto
  qed
  have all: "ints_between mn mx \<noteq> []" "set (ints_between mn mx) \<subseteq> {mn..mx}" "length (ints_between mn mx) \<le> 1000"
    using assms(2,3) by (auto simp: ints_between_def)
  have range: "xs \<noteq> [] \<and> set xs \<subseteq> {mn..mx} \<and> length xs \<le> 1000" if "parseRange r mn mx = Inr xs" for r xs
    using parseRange_Inr [OF that] assms(3) by auto
  show ?thesis
  proof (cases "contains_str p ''/''")
    case True
    with assms(1) obtain base st step where p: "split_char (CHR ''/'') p = [base, st]" "parse_int st = Inr step"
      "(if base = ''*'' then step_loop (ints_between mn mx) step 0 acc
        else (case parseRange base mn mx of Inl e \<Rightarrow> Some (Inl e)
            | Inr vals \<Rightarrow> step_loop vals step 0 acc)) = Some (Inr vs)"
      unfolding parse_part_def by (auto split: list.splits sum.splits)
    have i: "in_int64 step" by (rule parse_int_in_int64 [OF p(2)])
    from p(3) consider "step_loop (ints_between mn mx) step 0 acc = Some (Inr vs)"
      | xs where "parseRange base mn mx = Inr xs" "step_loop xs step 0 acc = Some (Inr vs)"
      by (auto split: if_splits sum.splits)
    then show ?thesis
    proof cases
      case 1
      then show ?thesis by (rule loop [OF _ all i])
    next
      case (2 xs)
      with range [OF 2(1)] loop [OF 2(2)] i show ?thesis by blast
    qed
  next
    case False
    show ?thesis
    proof (cases "contains_str p ''-''")
      case True
      with False assms(1) obtain xs where "parseRange p mn mx = Inr xs" "vs = acc @ xs"
        unfolding parse_part_def by (auto split: sum.splits)
      with range [of p xs] assms(4) show ?thesis by simp
    next
      case dash: False
      with False assms(1) obtain v where "vs = acc @ [v]" "mn \<le> v" "v \<le> mx"
        unfolding parse_part_def by (auto split: sum.splits if_splits)
      with assms(4) show ?thesis by simp
    qed
  qed
qed

lemma parse_parts_Inr:
  "parse_parts ps mn mx acc = Some (Inr vs) \<Longrightarrow> mn \<le> mx \<Longrightarrow> mx \<le> mn + 900 \<Longrightarrow> set acc \<subseteq> {mn..mx} \<Longrightarrow>
     set vs \<subseteq> {mn..mx}"
proof (induction ps mn mx acc rule: parse_parts.induct)
  case (2 p ps mn mx acc)
  then obtain acc' where "parse_part p mn mx acc = Some (Inr acc')"
    "parse_parts ps mn mx acc' = Some (Inr vs)"
    by (auto split: option.splits sum.splits)
  with 2 parse_part_Inr show ?case by blast
qed simp

lemma parseField_Inr:
  assumes "parseField f mn mx = Some (Inr vs)" and "mn \<le> mx" and "mx \<le> mn + 900"
  shows "vs \<noteq> [] \<and> set vs \<subseteq> {mn..mx}"
proof (cases "f = ''*''")
  case True
  with assms show ?thesis by (auto simp: parseField_def ints_between_def)
next
  case False
  with assms(1) have "parse_parts (split_char (CHR '','') f) mn mx [] = Some (Inr vs)" "vs \<noteq> []"
    by (auto simp: parseField_def split: option.splits sum.splits if_splits)
  with parse_parts_Inr [OF _ assms(2,3), of "split_char (CHR '','') f" "[]" vs] show ?thesis by simp
qed

section \<open>Writing and reading a field\<close>

text \<open>The grammar of a field: values, ranges, and steps over everything or a range.\<close>

datatype cron_item = Value int | Range int int | Every int | Range_every int int int

fun item_ok :: "int \<Rightarrow> int \<Rightarrow> cron_item \<Rightarrow> bool" where
  "item_ok mn mx (Value v) \<longleftrightarrow> mn \<le> v \<and> v \<le> mx"
| "item_ok mn mx (Range a b) \<longleftrightarrow> mn \<le> a \<and> a \<le> b \<and> b \<le> mx"
| "item_ok mn mx (Every s) \<longleftrightarrow> 0 < s \<and> in_int64 s"
| "item_ok mn mx (Range_every a b s) \<longleftrightarrow> mn \<le> a \<and> a \<le> b \<and> b \<le> mx \<and> 0 < s \<and> in_int64 s"

fun show_item :: "cron_item \<Rightarrow> string" where
  "show_item (Value v) = show_int v"
| "show_item (Range a b) = show_int a @ ''-'' @ show_int b"
| "show_item (Every s) = ''*/'' @ show_int s"
| "show_item (Range_every a b s) = show_int a @ ''-'' @ show_int b @ ''/'' @ show_int s"

fun item_values :: "int \<Rightarrow> int \<Rightarrow> cron_item \<Rightarrow> int list" where
  "item_values mn mx (Value v) = [v]"
| "item_values mn mx (Range a b) = [a..b]"
| "item_values mn mx (Every s) = every_nth (nat s) [mn..mx]"
| "item_values mn mx (Range_every a b s) = every_nth (nat s) [a..b]"

lemma show_nonneg_digits: "0 \<le> z \<Longrightarrow> c \<in> set (show_int z) \<Longrightarrow> is_digit c"
  by (simp add: show_int_def show_nat_digits)

lemma show_nonneg_free:
  assumes "0 \<le> z"
  shows "CHR ''-'' \<notin> set (show_int z)" "CHR ''/'' \<notin> set (show_int z)" "CHR '','' \<notin> set (show_int z)"
    "CHR ''*'' \<notin> set (show_int z)"
  using show_nonneg_digits [OF assms, of "CHR ''-''"] show_nonneg_digits [OF assms, of "CHR ''/''"]
    show_nonneg_digits [OF assms, of "CHR '',''"] show_nonneg_digits [OF assms, of "CHR ''*''"]
  by (auto simp: is_digit_def)

lemma parseRange_show:
  assumes "0 \<le> mn" and "mn \<le> a" and "a \<le> b" and "b \<le> mx" and "mx \<le> 1000"
  shows "parseRange (show_int a @ ''-'' @ show_int b) mn mx = Inr [a..b]"
proof -
  have "split_char (CHR ''-'') (show_int a @ CHR ''-'' # show_int b) = [show_int a, show_int b]"
    using assms by (simp add: split_char_append split_char_absent show_nonneg_free)
  then show ?thesis
    using assms by (simp add: parseRange_def parse_int_show_int int64_defs ints_between_def)
qed

lemma parse_part_step:
  "contains_str p ''/'' \<Longrightarrow> split_char (CHR ''/'') p = [base, st] \<Longrightarrow> parse_int st = Inr step \<Longrightarrow>
     base \<noteq> ''*'' \<Longrightarrow> parseRange base mn mx = Inr vals \<Longrightarrow>
     parse_part p mn mx acc = step_loop vals step 0 acc"
  by (simp add: parse_part_def)

lemma parse_part_show:
  assumes "item_ok mn mx it" and "0 \<le> mn" and "mn \<le> mx" and "mx \<le> 900"
  shows "parse_part (show_item it) mn mx acc = Some (Inr (acc @ item_values mn mx it))"
proof (cases it)
  case (Value v)
  with assms have "\<not> contains_str (show_int v) ''/''" "\<not> contains_str (show_int v) ''-''"
    by (simp_all add: contains_char_iff show_nonneg_free)
  with Value assms show ?thesis by (simp add: parse_part_def parse_int_show_int int64_defs)
next
  case (Range a b)
  with assms have "\<not> contains_str (show_item it) ''/''" "contains_str (show_item it) ''-''"
    by (simp_all add: contains_char_iff show_nonneg_free)
  with Range assms parseRange_show [of mn a b mx] show ?thesis by (simp add: parse_part_def)
next
  case (Every s)
  with assms have s: "0 < s" "in_int64 s" by simp_all
  have "split_char (CHR ''/'') (''*'' @ CHR ''/'' # show_int s) = [''*'', show_int s]"
    using s by (subst split_char_append) (simp_all add: split_char_absent show_nonneg_free)
  moreover have "contains_str (show_item it) ''/''" using Every by (simp add: contains_char_iff)
  moreover have "step_loop [mn..mx] s 0 acc = Some (Inr (acc @ every_nth (nat s) [mn..mx]))"
    using assms s step_loop_cases [of "[mn..mx]" s acc] by simp
  ultimately show ?thesis
    using Every s by (simp add: parse_part_def parse_int_show_int ints_between_def)
next
  case (Range_every a b s)
  with assms have s: "0 < s" "in_int64 s" "mn \<le> a" "a \<le> b" "b \<le> mx" by simp_all
  let ?r = "show_int a @ ''-'' @ show_int b"
  have free: "CHR ''/'' \<notin> set ?r" using assms s by (simp add: show_nonneg_free)
  have shown: "show_item it = ?r @ CHR ''/'' # show_int s" using Range_every by simp
  have sp: "split_char (CHR ''/'') (show_item it) = [?r, show_int s]"
    unfolding shown using s by (subst split_char_append [OF free]) (simp add: split_char_absent show_nonneg_free)
  have "contains_str (show_item it) ''/''" unfolding shown by (simp add: contains_char_iff)
  moreover have "parse_int (show_int s) = Inr s" by (rule parse_int_show_int [OF s(2)])
  moreover have "?r \<noteq> ''*''"
  proof
    assume "?r = ''*''"
    then have "CHR ''-'' \<in> set ''*''" by (metis in_set_conv_decomp append.left_neutral append_Cons)
    then show False by simp
  qed
  moreover have "parseRange ?r mn mx = Inr [a..b]"
    using assms s by (intro parseRange_show) simp_all
  ultimately have "parse_part (show_item it) mn mx acc = step_loop [a..b] s 0 acc"
    using parse_part_step [OF _ sp] by blast
  then show ?thesis
    using assms s step_loop_cases [of "[a..b]" s acc] Range_every by simp
qed

lemma parse_parts_show:
  assumes "0 \<le> mn" and "mn \<le> mx" and "mx \<le> 900"
  shows "list_all (item_ok mn mx) its \<Longrightarrow>
     parse_parts (map show_item its) mn mx acc = Some (Inr (acc @ concat (map (item_values mn mx) its)))"
  by (induction its arbitrary: acc) (simp_all add: parse_part_show assms)

lemma show_item_free:
  assumes "item_ok mn mx it" and "0 \<le> mn"
  shows "CHR '','' \<notin> set (show_item it)" and "show_item it \<noteq> ''*''"
proof -
  show "CHR '','' \<notin> set (show_item it)"
    using assms by (cases it) (simp_all add: show_nonneg_free)
  have "length (show_item it) \<noteq> 1 \<or> CHR ''*'' \<notin> set (show_item it)"
    using assms by (cases it) (auto simp: show_nonneg_free)
  then show "show_item it \<noteq> ''*''" by auto
qed

lemma item_values_not_Nil: "item_ok mn mx it \<Longrightarrow> mn \<le> mx \<Longrightarrow> item_values mn mx it \<noteq> []"
proof (cases it)
  case (Every s)
  assume "mn \<le> mx"
  with Every show ?thesis by (simp add: upto_rec1)
next
  case (Range_every a b s)
  assume "item_ok mn mx it"
  with Range_every show ?thesis by (simp add: upto_rec1)
qed simp_all

section \<open>The next time: facts\<close>

lemma next_loop_find:
  "next_loop n m t = (case find (\<lambda>k. m (t + int k * minute_ns)) [0..<n] of
     None \<Rightarrow> 0 | Some k \<Rightarrow> t + int k * minute_ns)"
proof (induction n arbitrary: t)
  case (Suc n)
  have shift: "t + minute_ns + int k * minute_ns = t + int (Suc k) * minute_ns" for k
    by (simp add: algebra_simps)
  have list: "[0..<Suc n] = 0 # map Suc [0..<n]" by (simp add: upt_conv_Cons map_Suc_upt del: upt_Suc)
  have "find P (map Suc ks) = map_option Suc (find (\<lambda>k. P (Suc k)) ks)" for P ks
    by (induction ks) auto
  then show ?case
    using Suc.IH [of "t + minute_ns"] unfolding list shift
    by (simp split: option.split)
qed simp

lemma next_loop_None:
  "find (\<lambda>k. m (t + int k * minute_ns)) [0..<n] = None \<longleftrightarrow> (\<forall>k < n. \<not> m (t + int k * minute_ns))"
  by (auto simp: find_None_iff)

lemma next_loop_Some:
  "find (\<lambda>k. m (t + int k * minute_ns)) [0..<n] = Some k \<Longrightarrow>
     k < n \<and> m (t + int k * minute_ns) \<and> (\<forall>j < k. \<not> m (t + int j * minute_ns))"
  by (auto simp: find_Some_iff)

lemma first_minute:
  assumes "0 \<le> after"
  shows "after < after - after mod minute_ns + minute_ns"
    and "(after - after mod minute_ns + minute_ns) mod minute_ns = 0"
    and "after < t \<Longrightarrow> t mod minute_ns = 0 \<Longrightarrow>
      \<exists>k. t = after - after mod minute_ns + minute_ns + int k * minute_ns"
proof -
  have q: "after - after mod minute_ns = after div minute_ns * minute_ns"
    by (simp add: minus_mod_eq_div_mult)
  have "after mod minute_ns < minute_ns" by (simp add: minute_ns_def)
  then show "after < after - after mod minute_ns + minute_ns" by linarith
  show "(after - after mod minute_ns + minute_ns) mod minute_ns = 0" by (simp add: q)
  assume t: "after < t" "t mod minute_ns = 0"
  then have t': "t = t div minute_ns * minute_ns" by (metis add.right_neutral div_mult_mod_eq)
  have "after div minute_ns < t div minute_ns"
  proof (rule ccontr)
    assume "\<not> after div minute_ns < t div minute_ns"
    then have "t div minute_ns * minute_ns \<le> after div minute_ns * minute_ns"
      by (simp add: minute_ns_def)
    also have "\<dots> \<le> after" by (simp add: minute_ns_def)
    finally show False using t t' by simp
  qed
  then have "t = after - after mod minute_ns + minute_ns + int (nat (t div minute_ns - after div minute_ns - 1)) * minute_ns"
    by (subst t') (simp add: q algebra_simps)
  then show "\<exists>k. t = after - after mod minute_ns + minute_ns + int k * minute_ns" by blast
qed

section \<open>Properties\<close>

text \<open>
  Every cron expression that parses has only values in the range of their field and at least one
  value per field, so each of its conditions can be met; an \<open>@every\<close> expression has none.
\<close>

theorem ParseCron_in_range:
  assumes "ParseCron dur expr = Some (Inr c)"
  shows "isEvery c \<and> c_minute c = [] \<or>
     \<not> isEvery c \<and> c_minute c \<noteq> [] \<and> set (c_minute c) \<subseteq> {0..59} \<and> c_hour c \<noteq> [] \<and> set (c_hour c) \<subseteq> {0..23}
     \<and> c_day c \<noteq> [] \<and> set (c_day c) \<subseteq> {1..31} \<and> c_month c \<noteq> [] \<and> set (c_month c) \<subseteq> {1..12}
     \<and> c_weekday c \<noteq> [] \<and> set (c_weekday c) \<subseteq> {0..6}"
proof (cases "has_prefix (trim_space expr) ''@every ''")
  case True
  with assms show ?thesis by (auto simp: ParseCron_def Let_def split: option.splits)
next
  case False
  let ?ps = "Fields (expand_predefined (trim_space expr))"
  from False assms obtain mi ho da mo we where
    f: "parseField (?ps ! 0) 0 59 = Some (Inr mi)" "parseField (?ps ! 1) 0 23 = Some (Inr ho)"
    "parseField (?ps ! 2) 1 31 = Some (Inr da)" "parseField (?ps ! 3) 1 12 = Some (Inr mo)"
    "parseField (?ps ! 4) 0 6 = Some (Inr we)"
    and c: "c = \<lparr>c_minute = mi, c_hour = ho, c_day = da, c_month = mo, c_weekday = we,
      isEvery = False, every = 0\<rparr>"
    by (auto simp: ParseCron_def Let_def bind_field_def split: option.splits sum.splits if_splits)
  show ?thesis
    using parseField_Inr [OF f(1)] parseField_Inr [OF f(2)] parseField_Inr [OF f(3)]
      parseField_Inr [OF f(4)] parseField_Inr [OF f(5)] by (simp add: c)
qed

lemma ParseCron_in_range_witness:
  "\<exists>c. ParseCron (\<lambda>_. None) ''@daily'' = Some (Inr c) \<and> c_minute c = [0] \<and> c_month c \<noteq> []"
proof -
  have "case ParseCron (\<lambda>_. None) ''@daily'' of None \<Rightarrow> False | Some (Inl _) \<Rightarrow> False
     | Some (Inr c) \<Rightarrow> \<not> isEvery c \<and> c_minute c = [0]" by code_simp
  then obtain c where c: "ParseCron (\<lambda>_. None) ''@daily'' = Some (Inr c)" "\<not> isEvery c" "c_minute c = [0]"
    by (auto split: option.splits sum.splits)
  with ParseCron_in_range [OF c(1)] show ?thesis by blast
qed

text \<open>
  A field written as a comma separated list of values, ranges and stepped ranges is read as the
  concatenation of what its items denote.
\<close>

theorem parseField_show:
  assumes "list_all (item_ok mn mx) its" and "its \<noteq> []" and "0 \<le> mn" and "mn \<le> mx" and "mx \<le> 900"
  shows "parseField (join '','' (map show_item its)) mn mx =
           Some (Inr (concat (map (item_values mn mx) its)))"
proof -
  let ?f = "join '','' (map show_item its)"
  have items: "\<forall>x \<in> set (map show_item its). CHR '','' \<notin> set x"
    using assms(1,3) show_item_free(1) by (auto simp: list_all_iff)
  have split: "split_char (CHR '','') ?f = map show_item its"
    by (rule split_char_join) (use assms(2) items in auto)
  have "?f \<noteq> ''*''"
  proof
    assume "?f = ''*''"
    then have "map show_item its = [''*'']" using split by simp
    with assms(1,3) show False using show_item_free(2) by (auto simp: list_all_iff)
  qed
  moreover have "concat (map (item_values mn mx) its) \<noteq> []"
    using assms(1,2,4) item_values_not_Nil by (cases its) auto
  ultimately show ?thesis
    using parse_parts_show [OF assms(3-5,1), of "[]"] by (simp add: parseField_def split)
qed

lemma parseField_show_witness:
  "parseField (join '','' (map show_item [Value 5, Range_every 10 20 4, Every 30])) 0 59 =
     Some (Inr [5, 10, 14, 18, 0, 30])"
proof -
  have ok: "list_all (item_ok 0 59) [Value 5, Range_every 10 20 4, Every 30]"
    by (simp add: int64_defs)
  have "item_values 0 59 (Every 30) = [0, 30]" "item_values 0 59 (Range_every 10 20 4) = [10, 14, 18]"
    by code_simp+
  with parseField_show [OF ok] show ?thesis by simp
qed



lemma Next_field:
  assumes "\<not> isEvery c" and "0 \<le> after" and "Next cal c after \<noteq> 0"
  shows "after < Next cal c after \<and> Next cal c after mod minute_ns = 0 \<and> matches cal c (Next cal c after)"
proof -
  let ?t = "after - after mod minute_ns + minute_ns"
  obtain k where k: "find (\<lambda>k. matches cal c (?t + int k * minute_ns)) [0..<maxIterations] = Some k"
    "Next cal c after = ?t + int k * minute_ns"
    using assms(1,3) by (auto simp: Next_def next_loop_find split: option.splits)
  have "0 \<le> int k * minute_ns" by (simp add: minute_ns_def)
  with first_minute(1) [OF assms(2)] have "after < ?t + int k * minute_ns" by linarith
  with first_minute(2) [OF assms(2)] next_loop_Some [OF k(1)] k(2) show ?thesis by simp
qed

text \<open>
  C39: \<open>Next\<close> of a field expression is the first matching minute after the given time: a whole minute
  later than it that matches, with no matching minute in between; and it is the zero time exactly
  when no minute of the following four years matches.
\<close>

theorem Next_is_first:
  assumes "\<not> isEvery c" and "0 \<le> after" and "n = Next cal c after"
  shows "(n \<noteq> 0 \<longrightarrow> after < n \<and> n mod minute_ns = 0 \<and> matches cal c n
            \<and> (\<forall>t. after < t \<and> t < n \<and> t mod minute_ns = 0 \<longrightarrow> \<not> matches cal c t))
       \<and> (n = 0 \<longleftrightarrow> (\<forall>k < maxIterations. \<not> matches cal c
            (after - after mod minute_ns + minute_ns + int k * minute_ns)))"
proof -
  let ?t = "after - after mod minute_ns + minute_ns"
  let ?f = "find (\<lambda>k. matches cal c (?t + int k * minute_ns)) [0..<maxIterations]"
  have n: "n = (case ?f of None \<Rightarrow> 0 | Some k \<Rightarrow> ?t + int k * minute_ns)"
    by (simp add: assms(1,3) Next_def next_loop_find)
  note first = first_minute [OF assms(2)]
  have pos: "0 < ?t + int k * minute_ns" for k
  proof -
    have "0 \<le> int k * minute_ns" by (simp add: minute_ns_def)
    with first(1) assms(2) show ?thesis by linarith
  qed
  show ?thesis
  proof (cases ?f)
    case None
    with n show ?thesis by (simp add: next_loop_None)
  next
    case (Some k)
    note k = next_loop_Some [OF Some]
    have nk: "n = ?t + int k * minute_ns" using n Some by simp
    have "after < n" using first(1) by (simp add: nk minute_ns_def)
    moreover have "n mod minute_ns = 0" using first(2) by (simp add: nk)
    moreover have "\<not> matches cal c t" if t: "after < t" "t < n" "t mod minute_ns = 0" for t
    proof -
      from first(3) [OF t(1,3)] obtain j where j: "t = ?t + int j * minute_ns" by blast
      with t(2) nk have "int j * minute_ns < int k * minute_ns" by simp
      then have "j < k" by (simp add: minute_ns_def)
      with k j show ?thesis by simp
    qed
    ultimately show ?thesis using k pos [of k] nk by auto
  qed
qed

text \<open>The calendar of UTC, for concrete inputs: only the minute and the hour matter here.\<close>

definition utc_hours :: "int \<Rightarrow> civil" where
  "utc_hours t = \<lparr>civ_minute = t div minute_ns mod 60, civ_hour = t div minute_ns div 60 mod 24,
     civ_day = 1, civ_month = 1, civ_weekday = 0\<rparr>"

lemma hourly_next:
  obtains c where "ParseCron (\<lambda>_. None) ''@hourly'' = Some (Inr c)" "\<not> isEvery c"
    "matches utc_hours c (60 * minute_ns)" "Next utc_hours c (59 * minute_ns + 7) = 60 * minute_ns"
proof -
  have "case ParseCron (\<lambda>_. None) ''@hourly'' of None \<Rightarrow> False | Some (Inl _) \<Rightarrow> False
     | Some (Inr c) \<Rightarrow> \<not> isEvery c \<and> matches utc_hours c (60 * minute_ns)" by code_simp
  then obtain c where c: "ParseCron (\<lambda>_. None) ''@hourly'' = Some (Inr c)" "\<not> isEvery c"
    "matches utc_hours c (60 * minute_ns)" by (auto split: option.splits sum.splits)
  have "Next utc_hours c (59 * minute_ns + 7) = next_loop (Suc (maxIterations - 1)) (matches utc_hours c) (60 * minute_ns)"
    using c(2) by (simp add: Next_def minute_ns_def maxIterations_def)
  also have "\<dots> = 60 * minute_ns" using c(3) by simp
  finally show ?thesis using c that by blast
qed

lemma Next_is_first_witness:
  "\<exists>c n. ParseCron (\<lambda>_. None) ''@hourly'' = Some (Inr c) \<and> n = Next utc_hours c (59 * minute_ns + 7)
     \<and> n = 60 * minute_ns \<and> matches utc_hours c n"
proof -
  obtain c where c: "ParseCron (\<lambda>_. None) ''@hourly'' = Some (Inr c)" "\<not> isEvery c"
    "Next utc_hours c (59 * minute_ns + 7) = 60 * minute_ns" by (rule hourly_next)
  have "0 \<le> 59 * minute_ns + 7" by (simp add: minute_ns_def)
  from Next_is_first [OF c(2) this c(3) [symmetric]] c show ?thesis by (auto simp: minute_ns_def)
qed

end
