(* ===== verification/Scheduler.thy ===== *)
theory Scheduler
  imports Cron
begin

text \<open>
  The task scheduler (\<open>scheduler/scheduler.go\<close>). Tasks are structs behind pointers with their own
  mutex, and the map of the scheduler holds pointers, so the model has a heap of tasks. A time is
  a number of nanoseconds and 0 is the zero time, as in \<open>Cron\<close>; the calendar of the configured zone
  is the parameter \<open>cal\<close>, the duration parser of the library the parameter \<open>dur\<close>, and the order in
  which Go visits a map is an argument \<open>ord\<close>. The sections that hold a task's mutex are atomic steps;
  between them the handler runs, an arbitrary function with its result an argument.
\<close>

section \<open>Tasks and the scheduler\<close>

text \<open>\<open>StatusZero\<close> is the empty string of a task that was never run.\<close>

datatype TaskStatus =
  StatusZero | StatusPending | StatusRunning | StatusComplete | StatusFailed | StatusSkipped

record Task =
  t_ID :: string
  t_Schedule :: string
  t_Enabled :: bool
  t_Skippable :: bool
  t_Handler :: bool
  t_LastRun :: int
  t_NextRun :: int
  t_LastStatus :: TaskStatus
  t_LastError :: string
  t_RunCount :: int
  t_FailCount :: int
  t_cronExpr :: "CronExpr option"

datatype ctx = Live | Cancelled

record Scheduler =
  CatchUpWindow :: int
  tasks :: "string \<rightharpoonup> nat"
  running :: bool
  sched_ctx :: "ctx option"
  heap :: "nat \<Rightarrow> Task"

definition DefaultConfig :: int where
  "DefaultConfig = 3600000000000"

definition New :: "int option \<Rightarrow> (nat \<Rightarrow> Task) \<Rightarrow> Scheduler" where
  "New cfg h =
     \<lparr>CatchUpWindow = (case cfg of None \<Rightarrow> DefaultConfig | Some w \<Rightarrow> w), tasks = Map.empty,
      running = False, sched_ctx = None, heap = h\<rparr>"

definition set_task :: "nat \<Rightarrow> (Task \<Rightarrow> Task) \<Rightarrow> Scheduler \<Rightarrow> Scheduler" where
  "set_task a f s = s\<lparr>heap := (heap s)(a := f (heap s a))\<rparr>"

datatype sched_error = No_ID | No_handler | Bad_schedule field_error
  | Task_not_found | Already_running | Not_running

text \<open>
  \<open>AddTask\<close> reads the clock (\<open>now\<close>) for the first run. \<open>None\<close> stands for a schedule whose parsing
  does not end; a panic of the parser is one of its errors here.
\<close>

definition AddTask ::
    "(string \<Rightarrow> int option) \<Rightarrow> (int \<Rightarrow> civil) \<Rightarrow> int \<Rightarrow> nat \<Rightarrow> Scheduler \<Rightarrow>
     ((sched_error + unit) \<times> Scheduler) option" where
  "AddTask dur cal now a s =
     (let task = heap s a
      in if t_ID task = [] then Some (Inl No_ID, s)
         else if \<not> t_Handler task then Some (Inl No_handler, s)
         else if t_Schedule task \<noteq> [] then
           (case ParseCron dur (t_Schedule task) of
              None \<Rightarrow> None
            | Some (Inl e) \<Rightarrow> Some (Inl (Bad_schedule e), s)
            | Some (Inr c) \<Rightarrow>
                let s = set_task a (\<lambda>t. t\<lparr>t_cronExpr := Some c, t_NextRun := Next cal c now\<rparr>) s
                in Some (Inr (), s\<lparr>tasks := (tasks s)(t_ID task \<mapsto> a)\<rparr>))
         else Some (Inr (), s\<lparr>tasks := (tasks s)(t_ID task \<mapsto> a)\<rparr>))"

definition RemoveTask :: "string \<Rightarrow> Scheduler \<Rightarrow> (sched_error + unit) \<times> Scheduler" where
  "RemoveTask i s =
     (case tasks s i of
        None \<Rightarrow> (Inl Task_not_found, s)
      | Some _ \<Rightarrow> (Inr (), s\<lparr>tasks := (tasks s)(i := None)\<rparr>))"

definition GetTask :: "string \<Rightarrow> Scheduler \<Rightarrow> nat option" where
  "GetTask i s = tasks s i"

definition ListTasks :: "string list \<Rightarrow> Scheduler \<Rightarrow> nat list" where
  "ListTasks ord s = List.map_filter (tasks s) ord"

section \<open>Running a task\<close>

text \<open>
  The two critical sections of \<open>runTask\<close>. The result of the first says whether the handler is
  called; the second reads the clock twice.
\<close>

definition runTask_begin :: "nat \<Rightarrow> Scheduler \<Rightarrow> bool \<times> Scheduler" where
  "runTask_begin a s =
     (if t_LastStatus (heap s a) = StatusRunning then (False, s)
      else (True, set_task a (\<lambda>t. t\<lparr>t_LastStatus := StatusRunning\<rparr>) s))"

definition finish_task ::
    "(int \<Rightarrow> civil) \<Rightarrow> string option \<Rightarrow> int \<Rightarrow> int \<Rightarrow> Task \<Rightarrow> Task" where
  "finish_task cal err now1 now2 t =
     (let t = t\<lparr>t_LastRun := now1, t_RunCount := int64 (t_RunCount t + 1)\<rparr>;
          t = (case err of
                 Some e \<Rightarrow> t\<lparr>t_LastStatus := StatusFailed, t_LastError := e,
                            t_FailCount := int64 (t_FailCount t + 1)\<rparr>
               | None \<Rightarrow> t\<lparr>t_LastStatus := StatusComplete, t_LastError := []\<rparr>)
      in (case t_cronExpr t of
            Some c \<Rightarrow> t\<lparr>t_NextRun := Next cal c now2\<rparr>
          | None \<Rightarrow> t\<lparr>t_NextRun := 0\<rparr>))"

definition runTask_finish ::
    "(int \<Rightarrow> civil) \<Rightarrow> string option \<Rightarrow> int \<Rightarrow> int \<Rightarrow> nat \<Rightarrow> Scheduler \<Rightarrow> Scheduler" where
  "runTask_finish cal err now1 now2 a = set_task a (finish_task cal err now1 now2)"

text \<open>
  One call of \<open>runTask\<close> without interference, \<open>None\<close> if it panics: \<open>context.WithTimeout\<close> does so on
  the nil context of a scheduler that was never started. \<open>env\<close> gives the handler's error and the two
  clock readings.
\<close>

definition runTask ::
    "(int \<Rightarrow> civil) \<Rightarrow> (nat \<Rightarrow> string option \<times> int \<times> int) \<Rightarrow> nat \<Rightarrow> Scheduler \<Rightarrow> Scheduler option" where
  "runTask cal env a s =
     (case runTask_begin a s of
        (False, s) \<Rightarrow> Some s
      | (True, s) \<Rightarrow>
          if sched_ctx s = None then None
          else (case env a of (err, now1, now2) \<Rightarrow> Some (runTask_finish cal err now1 now2 a s)))"

fun run_all ::
    "(int \<Rightarrow> civil) \<Rightarrow> (nat \<Rightarrow> string option \<times> int \<times> int) \<Rightarrow> nat list \<Rightarrow> Scheduler \<Rightarrow> Scheduler option" where
  "run_all cal env [] s = Some s"
| "run_all cal env (a # as) s =
     (case runTask cal env a s of None \<Rightarrow> None | Some s \<Rightarrow> run_all cal env as s)"

definition due :: "int \<Rightarrow> Task \<Rightarrow> bool" where
  "due now t \<longleftrightarrow> t_Enabled t \<and> t_NextRun t \<noteq> 0 \<and> t_NextRun t < now"

definition due_tasks :: "string list \<Rightarrow> int \<Rightarrow> Scheduler \<Rightarrow> nat list" where
  "due_tasks ord now s = filter (\<lambda>a. due now (heap s a)) (ListTasks ord s)"

definition checkAndRunTasks ::
    "(int \<Rightarrow> civil) \<Rightarrow> (nat \<Rightarrow> string option \<times> int \<times> int) \<Rightarrow> string list \<Rightarrow> int \<Rightarrow> Scheduler \<Rightarrow>
     Scheduler option" where
  "checkAndRunTasks cal env ord now s = run_all cal env (due_tasks ord now s) s"

definition missed :: "int \<Rightarrow> Task \<Rightarrow> bool" where
  "missed cutoff t \<longleftrightarrow> t_Enabled t \<and> t_LastRun t \<noteq> 0 \<and> t_LastRun t < cutoff \<and> \<not> t_Skippable t"

definition missed_tasks :: "string list \<Rightarrow> int \<Rightarrow> Scheduler \<Rightarrow> nat list" where
  "missed_tasks ord now s =
     filter (\<lambda>a. missed (now + - CatchUpWindow s) (heap s a)) (ListTasks ord s)"

definition runCatchUp ::
    "(int \<Rightarrow> civil) \<Rightarrow> (nat \<Rightarrow> string option \<times> int \<times> int) \<Rightarrow> string list \<Rightarrow> int \<Rightarrow> Scheduler \<Rightarrow>
     Scheduler option" where
  "runCatchUp cal env ord now s = run_all cal env (missed_tasks ord now s) s"

section \<open>Starting and stopping\<close>

text \<open>The locked part of \<open>Start\<close>, and \<open>Start\<close> up to the point where it starts the loop.\<close>

definition Start_flag :: "Scheduler \<Rightarrow> (sched_error + unit) \<times> Scheduler" where
  "Start_flag s =
     (if running s then (Inl Already_running, s)
      else (Inr (), s\<lparr>running := True, sched_ctx := Some Live\<rparr>))"

definition Start ::
    "(int \<Rightarrow> civil) \<Rightarrow> (nat \<Rightarrow> string option \<times> int \<times> int) \<Rightarrow> string list \<Rightarrow> int \<Rightarrow> Scheduler \<Rightarrow>
     ((sched_error + unit) \<times> Scheduler) option" where
  "Start cal env ord now s =
     (case Start_flag s of
        (Inl e, s) \<Rightarrow> Some (Inl e, s)
      | (Inr _, s) \<Rightarrow> map_option (Pair (Inr ())) (runCatchUp cal env ord now s))"

definition Stop :: "Scheduler \<Rightarrow> (sched_error + unit) \<times> Scheduler" where
  "Stop s =
     (if \<not> running s then (Inl Not_running, s)
      else (Inr (), s\<lparr>running := False, sched_ctx := Some Cancelled\<rparr>))"

text \<open>\<open>RunNow\<close> answers at once; the pointer it returns here is the task its goroutine runs.\<close>

definition RunNow :: "string \<Rightarrow> Scheduler \<Rightarrow> sched_error + nat" where
  "RunNow i s = (case GetTask i s of None \<Rightarrow> Inl Task_not_found | Some a \<Rightarrow> Inr a)"

section \<open>A round of the loop\<close>

lemma set_task_simps [simp]:
  "heap (set_task a f s) b = (if b = a then f (heap s a) else heap s b)"
  "tasks (set_task a f s) = tasks s" "running (set_task a f s) = running s"
  "sched_ctx (set_task a f s) = sched_ctx s" "CatchUpWindow (set_task a f s) = CatchUpWindow s"
  by (simp_all add: set_task_def)

lemma finish_task_simps [simp]:
  "t_LastStatus (finish_task cal err n1 n2 t) = (if err = None then StatusComplete else StatusFailed)"
  "t_LastRun (finish_task cal err n1 n2 t) = n1"
  "t_RunCount (finish_task cal err n1 n2 t) = int64 (t_RunCount t + 1)"
  "t_cronExpr (finish_task cal err n1 n2 t) = t_cronExpr t"
  "t_Enabled (finish_task cal err n1 n2 t) = t_Enabled t"
  "t_NextRun (finish_task cal err n1 n2 t) =
     (case t_cronExpr t of Some c \<Rightarrow> Next cal c n2 | None \<Rightarrow> 0)"
  "finish_task cal err n1 n2 (t\<lparr>t_LastStatus := st\<rparr>) = finish_task cal err n1 n2 t"
  by (auto simp: finish_task_def Let_def split: option.splits)

definition ran_task ::
    "(int \<Rightarrow> civil) \<Rightarrow> (nat \<Rightarrow> string option \<times> int \<times> int) \<Rightarrow> nat \<Rightarrow> Task \<Rightarrow> Task" where
  "ran_task cal env a t =
     (if t_LastStatus t = StatusRunning then t
      else (case env a of (err, n1, n2) \<Rightarrow> finish_task cal err n1 n2 t))"

lemma runTask_heap:
  assumes "sched_ctx s \<noteq> None"
  shows "\<exists>s'. runTask cal env a s = Some s' \<and> sched_ctx s' = sched_ctx s \<and> tasks s' = tasks s
     \<and> heap s' = (heap s)(a := ran_task cal env a (heap s a))"
proof (cases "t_LastStatus (heap s a) = StatusRunning")
  case True
  then show ?thesis by (simp add: runTask_def runTask_begin_def ran_task_def)
next
  case False
  obtain err n1 n2 where env: "env a = (err, n1, n2)" by (cases "env a") auto
  have "heap (runTask_finish cal err n1 n2 a (set_task a (\<lambda>t. t\<lparr>t_LastStatus := StatusRunning\<rparr>) s))
      = (heap s)(a := finish_task cal err n1 n2 (heap s a))"
    by (rule ext) (simp add: runTask_finish_def)
  with False assms show ?thesis
    by (simp add: runTask_def runTask_begin_def ran_task_def env runTask_finish_def)
qed

lemma run_all_heap:
  "distinct as \<Longrightarrow> sched_ctx s \<noteq> None \<Longrightarrow>
     \<exists>s'. run_all cal env as s = Some s' \<and> tasks s' = tasks s
       \<and> (\<forall>a. heap s' a = (if a \<in> set as then ran_task cal env a (heap s a) else heap s a))"
proof (induction as arbitrary: s)
  case (Cons a as)
  obtain s1 where s1: "runTask cal env a s = Some s1" "sched_ctx s1 = sched_ctx s" "tasks s1 = tasks s"
    "heap s1 = (heap s)(a := ran_task cal env a (heap s a))"
    using runTask_heap [OF Cons.prems(2)] by blast
  have "distinct as" "sched_ctx s1 \<noteq> None" using Cons.prems s1(2) by simp_all
  from Cons.IH [OF this] obtain s' where s': "run_all cal env as s1 = Some s'" "tasks s' = tasks s1"
    "\<forall>b. heap s' b = (if b \<in> set as then ran_task cal env b (heap s1 b) else heap s1 b)" by blast
  have "heap s' b = (if b \<in> set (a # as) then ran_task cal env b (heap s b) else heap s b)" for b
    using Cons.prems(1) s'(3) s1(4) by (cases "b = a") auto
  with s1(1,3) s'(1,2) show ?case by auto
qed simp

text \<open>A schedule that always names a later time: a field expression, or a positive period.\<close>

definition forward :: "CronExpr option \<Rightarrow> bool" where
  "forward oc = (case oc of None \<Rightarrow> True | Some c \<Rightarrow> isEvery c \<longrightarrow> 0 < every c)"

lemma finish_not_due:
  assumes "forward (t_cronExpr t)" and "0 \<le> now" and "now \<le> n2"
  shows "\<not> due now (finish_task cal err n1 n2 t)"
proof (cases "t_cronExpr t")
  case (Some c)
  have "Next cal c n2 = 0 \<or> now < Next cal c n2"
  proof (cases "isEvery c")
    case True
    with assms Some show ?thesis by (auto simp: Next_def forward_def)
  next
    case False
    have "0 \<le> n2" using assms(2,3) by simp
    from Next_field [OF False this, of cal] assms(3) show ?thesis by force
  qed
  then show ?thesis by (auto simp: due_def Some)
qed (simp add: due_def)

text \<open>
  A round of the scheduler's loop runs every due task of the map exactly once and touches no
  other task, and leaves none due: afterwards no task that was not already running is due at the
  time of the round.
\<close>

theorem round_runs_due_tasks:
  assumes "sched_ctx s \<noteq> None" and "distinct (ListTasks ord s)" and "0 \<le> now"
    and "\<And>a. now \<le> snd (snd (env a))"
  shows "\<exists>s'. checkAndRunTasks cal env ord now s = Some s'
     \<and> (\<forall>a. heap s' a =
          (if a \<in> set (ListTasks ord s) \<and> due now (heap s a) \<and> t_LastStatus (heap s a) \<noteq> StatusRunning
           then finish_task cal (fst (env a)) (fst (snd (env a))) (snd (snd (env a))) (heap s a)
           else heap s a))
     \<and> (\<forall>a \<in> set (ListTasks ord s'). forward (t_cronExpr (heap s a)) \<longrightarrow>
          t_LastStatus (heap s a) \<noteq> StatusRunning \<longrightarrow> \<not> due now (heap s' a))"
proof -
  have "distinct (due_tasks ord now s)" using assms(2) by (simp add: due_tasks_def)
  from run_all_heap [OF this assms(1)] obtain s' where s': "checkAndRunTasks cal env ord now s = Some s'"
    "tasks s' = tasks s" and heap: "\<And>a. heap s' a =
      (if a \<in> set (due_tasks ord now s) then ran_task cal env a (heap s a) else heap s a)"
    unfolding checkAndRunTasks_def by blast
  have h: "heap s' a =
      (if a \<in> set (ListTasks ord s) \<and> due now (heap s a) \<and> t_LastStatus (heap s a) \<noteq> StatusRunning
       then finish_task cal (fst (env a)) (fst (snd (env a))) (snd (snd (env a))) (heap s a)
       else heap s a)" for a
    by (simp add: heap due_tasks_def ran_task_def case_prod_beta)
  moreover have "\<not> due now (heap s' a)"
    if "a \<in> set (ListTasks ord s')" "forward (t_cronExpr (heap s a))"
      "t_LastStatus (heap s a) \<noteq> StatusRunning" for a
    using that h [of a] finish_not_due [OF that(2) assms(3,4)] s'(2)
    by (auto simp: ListTasks_def split: if_splits)
  ultimately show ?thesis using s'(1) by blast
qed

section \<open>Concurrent runs\<close>

text \<open>
  The loop, \<open>Start\<close> and the goroutines of \<open>RunNow\<close> are threads that work through a queue of tasks.
  A thread is at the head of its queue (\<open>Queue\<close>), inside a handler, or has panicked. The loop selects
  with the time of its tick, which may lie in the past. Clock readings never decrease.
\<close>

datatype thread = Queue "nat list" | Inside nat "nat list" | Panicked nat

record sched_sys =
  sys_sched :: Scheduler
  sys_thread :: "nat \<Rightarrow> thread"
  sys_clock :: int

inductive sched_step ::
    "(string \<Rightarrow> int option) \<Rightarrow> (int \<Rightarrow> civil) \<Rightarrow> sched_sys \<Rightarrow> sched_sys \<Rightarrow> bool"
  for dur cal where
  time: "sys_clock s \<le> t \<Longrightarrow> sched_step dur cal s (s\<lparr>sys_clock := t\<rparr>)"
| add_task: "AddTask dur cal (sys_clock s) a (sys_sched s) = Some (r, s') \<Longrightarrow>
     sched_step dur cal s (s\<lparr>sys_sched := s'\<rparr>)"
| remove_task: "RemoveTask i (sys_sched s) = (r, s') \<Longrightarrow>
     sched_step dur cal s (s\<lparr>sys_sched := s'\<rparr>)"
| start: "sys_thread s k = Queue [] \<Longrightarrow> Start_flag (sys_sched s) = (Inr u, s') \<Longrightarrow>
     sched_step dur cal s (s\<lparr>sys_sched := s',
       sys_thread := (sys_thread s)(k := Queue (missed_tasks ord (sys_clock s) s'))\<rparr>)"
| stop: "Stop (sys_sched s) = (r, s') \<Longrightarrow> sched_step dur cal s (s\<lparr>sys_sched := s'\<rparr>)"
| tick: "sys_thread s k = Queue [] \<Longrightarrow> now \<le> sys_clock s \<Longrightarrow>
     sched_step dur cal s (s\<lparr>sys_thread := (sys_thread s)(k := Queue (due_tasks ord now (sys_sched s)))\<rparr>)"
| run_now: "sys_thread s k = Queue [] \<Longrightarrow> RunNow i (sys_sched s) = Inr a \<Longrightarrow>
     sched_step dur cal s (s\<lparr>sys_thread := (sys_thread s)(k := Queue [a])\<rparr>)"
| skip: "sys_thread s k = Queue (a # as) \<Longrightarrow> runTask_begin a (sys_sched s) = (False, s') \<Longrightarrow>
     sched_step dur cal s (s\<lparr>sys_sched := s', sys_thread := (sys_thread s)(k := Queue as)\<rparr>)"
| enter: "sys_thread s k = Queue (a # as) \<Longrightarrow> runTask_begin a (sys_sched s) = (True, s') \<Longrightarrow>
     sched_step dur cal s (s\<lparr>sys_sched := s', sys_thread := (sys_thread s)(k :=
       if sched_ctx s' = None then Panicked a else Inside a as)\<rparr>)"
| finish: "sys_thread s k = Inside a as \<Longrightarrow> sys_clock s \<le> now1 \<Longrightarrow> now1 \<le> now2 \<Longrightarrow>
     sched_step dur cal s (s\<lparr>sys_sched := runTask_finish cal err now1 now2 a (sys_sched s),
       sys_thread := (sys_thread s)(k := Queue as), sys_clock := now2\<rparr>)"

inductive sched_reach ::
    "(string \<Rightarrow> int option) \<Rightarrow> (int \<Rightarrow> civil) \<Rightarrow> sched_sys \<Rightarrow> sched_sys \<Rightarrow> bool"
  for dur cal s0 where
  reach_init: "sched_reach dur cal s0 s0"
| reach_step: "sched_reach dur cal s0 s \<Longrightarrow> sched_step dur cal s s' \<Longrightarrow> sched_reach dur cal s0 s'"

text \<open>A fresh scheduler and tasks that were never run, at some time.\<close>

definition fresh_task :: "Task \<Rightarrow> bool" where
  "fresh_task t \<longleftrightarrow> t_LastStatus t \<noteq> StatusRunning \<and> t_LastRun t = 0 \<and> t_NextRun t = 0
     \<and> t_cronExpr t = None"

definition sched_init :: "sched_sys \<Rightarrow> bool" where
  "sched_init s \<longleftrightarrow> (\<exists>cfg h. sys_sched s = New cfg h \<and> (\<forall>a. fresh_task (h a)))
     \<and> sys_thread s = (\<lambda>_. Queue []) \<and> 0 \<le> sys_clock s"

text \<open>A thread is occupied with a task when it is in its handler, or panicked before.\<close>

fun busy_with :: "thread \<Rightarrow> nat \<Rightarrow> bool" where
  "busy_with (Queue as) b = False"
| "busy_with (Inside a as) b = (a = b)"
| "busy_with (Panicked a) b = (a = b)"

text \<open>The next run is a matching minute after the last run.\<close>

definition task_ok :: "(int \<Rightarrow> civil) \<Rightarrow> int \<Rightarrow> Task \<Rightarrow> bool" where
  "task_ok cal clock t \<longleftrightarrow> t_LastRun t \<le> clock
     \<and> (t_cronExpr t = None \<longrightarrow> t_NextRun t = 0)
     \<and> (\<forall>c. t_cronExpr t = Some c \<and> \<not> isEvery c \<and> t_NextRun t \<noteq> 0 \<longrightarrow>
          t_LastRun t < t_NextRun t \<and> t_NextRun t mod minute_ns = 0 \<and> matches cal c (t_NextRun t))"

definition runs_ok :: "(nat \<Rightarrow> Task) \<Rightarrow> (nat \<Rightarrow> thread) \<Rightarrow> bool" where
  "runs_ok h th \<longleftrightarrow> (\<forall>a. t_LastStatus (h a) = StatusRunning \<longleftrightarrow> (\<exists>k. busy_with (th k) a))
     \<and> (\<forall>a j k. busy_with (th j) a \<and> busy_with (th k) a \<longrightarrow> j = k)"

definition sched_inv :: "(int \<Rightarrow> civil) \<Rightarrow> sched_sys \<Rightarrow> bool" where
  "sched_inv cal s \<longleftrightarrow> 0 \<le> sys_clock s \<and> runs_ok (heap (sys_sched s)) (sys_thread s)
     \<and> (\<forall>a. task_ok cal (sys_clock s) (heap (sys_sched s) a))"

lemma sched_inv_init: "sched_init s \<Longrightarrow> sched_inv cal s"
  by (auto simp: sched_init_def sched_inv_def runs_ok_def task_ok_def New_def fresh_task_def)

text \<open>What the operations of the clients do to the heap: at most \<open>AddTask\<close> writes, and no status.\<close>

lemma AddTask_heap:
  assumes "AddTask dur cal now a s = Some (r, s')"
  obtains "heap s' = heap s"
  | c where "heap s' = (heap s)(a := (heap s a)\<lparr>t_cronExpr := Some c, t_NextRun := Next cal c now\<rparr>)"
  using assms that
  by (force simp: AddTask_def Let_def set_task_def split: if_splits option.splits sum.splits)

lemma client_heap:
  "RemoveTask i s = (r1, s') \<Longrightarrow> heap s' = heap s"
  "Start_flag s = (r, s') \<Longrightarrow> heap s' = heap s"
  "Stop s = (r, s') \<Longrightarrow> heap s' = heap s"
  by (auto simp: RemoveTask_def Start_flag_def Stop_def split: option.splits if_splits)

lemma task_ok_later: "task_ok cal t x \<Longrightarrow> t \<le> t' \<Longrightarrow> task_ok cal t' x"
  by (auto simp: task_ok_def)

lemma task_ok_status [simp]: "task_ok cal t (x\<lparr>t_LastStatus := st\<rparr>) = task_ok cal t x"
  by (simp add: task_ok_def)

lemma task_ok_next:
  assumes "t_LastRun x \<le> now" and "0 \<le> now"
  shows "task_ok cal now (x\<lparr>t_cronExpr := Some c, t_NextRun := Next cal c now\<rparr>)"
proof -
  have "t_LastRun x < Next cal c now \<and> Next cal c now mod minute_ns = 0 \<and> matches cal c (Next cal c now)"
    if "\<not> isEvery c" "Next cal c now \<noteq> 0"
    using Next_field [OF that(1) assms(2) that(2)] assms(1) by simp
  with assms(1) show ?thesis by (simp add: task_ok_def)
qed

lemma task_ok_finish:
  assumes "n1 \<le> n2" and "0 \<le> n2"
  shows "task_ok cal n2 (finish_task cal err n1 n2 x)"
proof -
  have "n1 < Next cal c n2 \<and> Next cal c n2 mod minute_ns = 0 \<and> matches cal c (Next cal c n2)"
    if "\<not> isEvery c" "Next cal c n2 \<noteq> 0" for c
    using Next_field [OF that(1) assms(2) that(2)] assms(1) by simp
  with assms(1) show ?thesis by (auto simp: task_ok_def split: option.splits)
qed

text \<open>Handing a queue to an idle thread, entering a handler and leaving it.\<close>

lemma runs_ok_queue:
  "runs_ok h th \<Longrightarrow> th k = Queue as \<Longrightarrow> runs_ok h (th(k := Queue bs))"
  unfolding runs_ok_def by (metis busy_with.simps(1) fun_upd_apply)

lemma runs_ok_status:
  assumes "\<And>a. t_LastStatus (h' a) = t_LastStatus (h a)"
  shows "runs_ok h' th = runs_ok h th"
  by (simp add: runs_ok_def assms)

lemma runs_ok_upd:
  assumes ok: "runs_ok h th"
    and same: "\<And>b. b \<noteq> a \<Longrightarrow> busy_with w b = busy_with (th k) b \<and> t_LastStatus (h' b) = t_LastStatus (h b)"
    and free: "\<And>j. j \<noteq> k \<Longrightarrow> \<not> busy_with (th j) a"
    and status: "t_LastStatus (h' a) = StatusRunning \<longleftrightarrow> busy_with w a"
  shows "runs_ok h' (th(k := w))"
proof -
  have other: "busy_with ((th(k := w)) j) b = busy_with (th j) b" if "b \<noteq> a" for j b
    using same [OF that] by simp
  have only: "busy_with ((th(k := w)) j) a \<longleftrightarrow> j = k \<and> busy_with w a" for j
    using free [of j] by simp
  have "t_LastStatus (h' b) = StatusRunning \<longleftrightarrow> (\<exists>j. busy_with ((th(k := w)) j) b)" for b
  proof (cases "b = a")
    case True
    then show ?thesis using status by (auto simp: only simp del: fun_upd_apply)
  next
    case False
    with ok same [OF False] show ?thesis by (simp only: other) (auto simp: runs_ok_def)
  qed
  moreover have "i = j" if "busy_with ((th(k := w)) i) b" "busy_with ((th(k := w)) j) b" for b i j
    using that ok by (cases "b = a") (auto simp: only other runs_ok_def simp del: fun_upd_apply)
  ultimately show ?thesis unfolding runs_ok_def by blast
qed

lemma runs_ok_enter:
  assumes "runs_ok h th" and "th k = Queue (a # as)" and "t_LastStatus (h a) \<noteq> StatusRunning"
    and "\<And>b. busy_with w b \<longleftrightarrow> b = a"
  shows "runs_ok (h(a := (h a)\<lparr>t_LastStatus := StatusRunning\<rparr>)) (th(k := w))"
  by (rule runs_ok_upd [OF assms(1)]) (use assms in \<open>auto simp: runs_ok_def\<close>)

lemma runs_ok_finish:
  assumes "runs_ok h th" and "th k = Inside a as" and "t_LastStatus x \<noteq> StatusRunning"
  shows "runs_ok (h(a := x)) (th(k := Queue as))"
proof (rule runs_ok_upd [OF assms(1)])
  show "\<not> busy_with (th j) a" if "j \<noteq> k" for j
    using assms(1,2) that unfolding runs_ok_def by (metis busy_with.simps(2))
qed (use assms(2,3) in auto)

lemma sched_inv_step: "sched_step dur cal s s' \<Longrightarrow> sched_inv cal s \<Longrightarrow> sched_inv cal s'"
proof (induction rule: sched_step.induct)
  case (time s t)
  then show ?case by (auto simp: sched_inv_def intro: task_ok_later)
next
  case (add_task s a r s')
  from add_task.hyps show ?case
  proof (cases rule: AddTask_heap)
    case 1
    with add_task.prems show ?thesis by (simp add: sched_inv_def)
  next
    case (2 c)
    let ?h = "heap (sys_sched s)"
    let ?x = "(?h a)\<lparr>t_cronExpr := Some c, t_NextRun := Next cal c (sys_clock s)\<rparr>"
    have "runs_ok (?h(a := ?x)) (sys_thread s) = runs_ok ?h (sys_thread s)"
      by (rule runs_ok_status) simp
    moreover have "task_ok cal (sys_clock s) ?x"
      using add_task.prems by (intro task_ok_next) (auto simp: sched_inv_def task_ok_def)
    ultimately show ?thesis using 2 add_task.prems by (auto simp: sched_inv_def)
  qed
next
  case (remove_task i s r s')
  with client_heap(1) [OF remove_task.hyps] show ?case by (simp add: sched_inv_def)
next
  case (start s k u s' ord)
  with client_heap(2) [OF start.hyps(2)] show ?case by (simp add: sched_inv_def runs_ok_queue)
next
  case (stop s r s')
  with client_heap(3) [OF stop.hyps] show ?case by (simp add: sched_inv_def)
next
  case (tick s k now ord)
  then show ?case by (simp add: sched_inv_def runs_ok_queue)
next
  case (run_now s k i a)
  then show ?case by (simp add: sched_inv_def runs_ok_queue)
next
  case (skip s k a as s')
  then show ?case by (auto simp: sched_inv_def runs_ok_queue runTask_begin_def split: if_splits)
next
  case (enter s k a as s')
  then have "t_LastStatus (heap (sys_sched s) a) \<noteq> StatusRunning"
    and s': "heap s' = (heap (sys_sched s))(a := (heap (sys_sched s) a)\<lparr>t_LastStatus := StatusRunning\<rparr>)"
    by (auto simp: runTask_begin_def set_task_def split: if_splits)
  then show ?case using enter.prems enter.hyps(1)
    by (auto simp: sched_inv_def intro: runs_ok_enter)
next
  case (finish s k a as now1 now2 err)
  then have "runs_ok ((heap (sys_sched s))(a := finish_task cal err now1 now2 (heap (sys_sched s) a)))
      ((sys_thread s)(k := Queue as))"
    by (intro runs_ok_finish) (auto simp: sched_inv_def)
  moreover have "heap (runTask_finish cal err now1 now2 a (sys_sched s))
      = (heap (sys_sched s))(a := finish_task cal err now1 now2 (heap (sys_sched s) a))"
    by (simp add: runTask_finish_def set_task_def)
  moreover have "task_ok cal now2 (heap (sys_sched s) b)" for b
    using finish by (auto simp: sched_inv_def intro: task_ok_later)
  moreover have "task_ok cal now2 (finish_task cal err now1 now2 (heap (sys_sched s) a))"
    using finish by (intro task_ok_finish) (auto simp: sched_inv_def)
  ultimately show ?case using finish.hyps finish.prems by (simp add: sched_inv_def)
qed

lemma sched_inv_reach: "sched_reach dur cal s0 s \<Longrightarrow> sched_init s0 \<Longrightarrow> sched_inv cal s"
  by (induction rule: sched_reach.induct) (auto intro: sched_inv_init sched_inv_step)

text \<open>
  C36: However the loop, the catch-up of \<open>Start\<close> and any number of \<open>RunNow\<close> goroutines interleave with
  each other and with adding and removing tasks, at most one of them is inside the handler of a task,
  and a task is shown as running exactly when one of them is (or panicked on the way in).
\<close>

theorem task_runs_exclusively:
  assumes "sched_reach dur cal s0 s" and "sched_init s0"
  shows "(busy_with (sys_thread s j) a \<and> busy_with (sys_thread s k) a \<longrightarrow> j = k)
     \<and> (t_LastStatus (heap (sys_sched s) a) = StatusRunning \<longleftrightarrow> (\<exists>k. busy_with (sys_thread s k) a))"
  using sched_inv_reach [OF assms] unfolding sched_inv_def runs_ok_def by blast

text \<open>
  The loop runs a task on its schedule: whenever a reachable scheduler selects a task with a
  field schedule at a tick, a whole minute that matches the schedule lies after the task's last run
  and before the tick, so a task never runs twice for one matching minute; and a task without a
  schedule is never selected.
\<close>

theorem due_after_matching_minute:
  assumes "sched_reach dur cal s0 s" and "sched_init s0" and "due now (heap (sys_sched s) a)"
  shows "\<exists>c. t_cronExpr (heap (sys_sched s) a) = Some c \<and> (\<not> isEvery c \<longrightarrow>
     (\<exists>m. t_LastRun (heap (sys_sched s) a) < m \<and> m < now \<and> m mod minute_ns = 0 \<and> matches cal c m))"
proof -
  have "task_ok cal (sys_clock s) (heap (sys_sched s) a)"
    using sched_inv_reach [OF assms(1,2)] unfolding sched_inv_def by blast
  with assms(3) show ?thesis
    by (cases "t_cronExpr (heap (sys_sched s) a)") (auto simp: task_ok_def due_def)
qed

section \<open>Catching up\<close>

fun add_tasks ::
    "(string \<Rightarrow> int option) \<Rightarrow> (int \<Rightarrow> civil) \<Rightarrow> (int \<times> nat) list \<Rightarrow> Scheduler \<Rightarrow> Scheduler option" where
  "add_tasks dur cal [] s = Some s"
| "add_tasks dur cal ((now, a) # as) s =
     (case AddTask dur cal now a s of None \<Rightarrow> None | Some (_, s) \<Rightarrow> add_tasks dur cal as s)"

lemma add_tasks_LastRun:
  "add_tasks dur cal as s = Some s' \<Longrightarrow> t_LastRun (heap s' a) = t_LastRun (heap s a) \<and> running s' = running s"
proof (induction as arbitrary: s)
  case (Cons x as)
  then obtain now b r s1 where x: "x = (now, b)" "AddTask dur cal now b s = Some (r, s1)"
    "add_tasks dur cal as s1 = Some s'" by (cases x) (auto split: option.splits prod.splits)
  have "running s1 = running s"
    using x(2) by (auto simp: AddTask_def Let_def set_task_def split: if_splits option.splits sum.splits)
  moreover have "t_LastRun (heap s1 a) = t_LastRun (heap s a)"
    using x(2) by (cases rule: AddTask_heap) simp_all
  ultimately show ?case using Cons.IH [OF x(3)] by simp
qed simp

text \<open>
  \<open>Start\<close> is documented to run the tasks that were missed while the scheduler was stopped, but it
  goes by the last run, which is kept in memory only: after a restart of the program, whatever tasks
  are added and whenever it starts, the catch-up runs nothing.
\<close>

theorem restart_catches_nothing_up:
  assumes "\<And>a. fresh_task (h a)" and "add_tasks dur cal as (New cfg h) = Some s"
  shows "Start cal env ord now s = Some (Inr (), s\<lparr>running := True, sched_ctx := Some Live\<rparr>)"
proof -
  have "t_LastRun (heap s a) = 0 \<and> \<not> running s" for a
    using add_tasks_LastRun [OF assms(2), of a] assms(1) [of a] by (simp add: New_def fresh_task_def)
  then show ?thesis
    by (simp add: Start_def Start_flag_def runCatchUp_def missed_tasks_def missed_def)
qed

section \<open>A concrete schedule\<close>

definition sample_task :: "string \<Rightarrow> Task" where
  "sample_task sched = \<lparr>t_ID = ''cleanup'', t_Schedule = sched, t_Enabled = True, t_Skippable = False,
     t_Handler = True, t_LastRun = 0, t_NextRun = 0, t_LastStatus = StatusZero, t_LastError = [],
     t_RunCount = 0, t_FailCount = 0, t_cronExpr = None\<rparr>"

definition sample_sys :: sched_sys where
  "sample_sys = \<lparr>sys_sched = New None (\<lambda>_. sample_task ''@hourly''), sys_thread = (\<lambda>_. Queue []),
     sys_clock = 59 * minute_ns + 7\<rparr>"

lemma sample_init: "sched_init sample_sys" "fresh_task (sample_task sched)"
proof -
  show fresh: "fresh_task (sample_task sched)" for sched by (simp add: fresh_task_def sample_task_def)
  then show "sched_init sample_sys"
    unfolding sched_init_def sample_sys_def by (auto simp: minute_ns_def)
qed

text \<open>The task has been added and an hour has begun.\<close>

lemma sample_added:
  obtains c s s' where "AddTask (\<lambda>_. None) utc_hours (59 * minute_ns + 7) 0 (sys_sched sample_sys) = Some (Inr (), s)"
    "heap s 0 = (sample_task ''@hourly'')\<lparr>t_cronExpr := Some c, t_NextRun := 60 * minute_ns\<rparr>"
    "\<not> isEvery c" "sched_reach (\<lambda>_. None) utc_hours sample_sys s'"
    "s' = sample_sys\<lparr>sys_sched := s, sys_clock := 60 * minute_ns + 1\<rparr>" "tasks s ''cleanup'' = Some 0"
    "sched_ctx s = None"
proof -
  obtain c where c: "ParseCron (\<lambda>_. None) ''@hourly'' = Some (Inr c)" "\<not> isEvery c"
    "Next utc_hours c (59 * minute_ns + 7) = 60 * minute_ns" by (rule hourly_next)
  define s where "s = (set_task 0 (\<lambda>t. t\<lparr>t_cronExpr := Some c, t_NextRun := 60 * minute_ns\<rparr>)
    (sys_sched sample_sys))\<lparr>tasks := [''cleanup'' \<mapsto> 0]\<rparr>"
  have add: "AddTask (\<lambda>_. None) utc_hours (59 * minute_ns + 7) 0 (sys_sched sample_sys) = Some (Inr (), s)"
    using c by (simp add: AddTask_def s_def sample_sys_def sample_task_def New_def set_task_def)
  let ?s1 = "sample_sys\<lparr>sys_sched := s\<rparr>"
  have "sched_step (\<lambda>_. None) utc_hours sample_sys ?s1"
    by (rule sched_step.add_task) (use add in \<open>simp add: sample_sys_def\<close>)
  moreover have "sched_step (\<lambda>_. None) utc_hours ?s1 (?s1\<lparr>sys_clock := 60 * minute_ns + 1\<rparr>)"
    by (rule sched_step.time) (simp add: sample_sys_def minute_ns_def)
  ultimately have "sched_reach (\<lambda>_. None) utc_hours sample_sys (?s1\<lparr>sys_clock := 60 * minute_ns + 1\<rparr>)"
    by (blast intro: reach_init reach_step)
  moreover have "heap s 0 = (sample_task ''@hourly'')\<lparr>t_cronExpr := Some c, t_NextRun := 60 * minute_ns\<rparr>"
    by (simp add: s_def sample_sys_def New_def set_task_def)
  ultimately show ?thesis using that add c(2) by (auto simp: s_def sample_sys_def New_def)
qed

lemma due_after_matching_minute_witness:
  "\<exists>s m. sched_reach (\<lambda>_. None) utc_hours sample_sys s \<and> due (60 * minute_ns + 1) (heap (sys_sched s) 0)
     \<and> 0 < m \<and> m < 60 * minute_ns + 1 \<and> m mod minute_ns = 0"
proof -
  obtain c s s' where s: "heap s 0 = (sample_task ''@hourly'')\<lparr>t_cronExpr := Some c, t_NextRun := 60 * minute_ns\<rparr>"
    "\<not> isEvery c" "sched_reach (\<lambda>_. None) utc_hours sample_sys s'"
    "s' = sample_sys\<lparr>sys_sched := s, sys_clock := 60 * minute_ns + 1\<rparr>" by (rule sample_added)
  have due: "due (60 * minute_ns + 1) (heap (sys_sched s') 0)"
    using s(1,4) by (simp add: due_def sample_task_def minute_ns_def)
  have run: "t_LastRun (heap (sys_sched s') 0) = 0" "t_cronExpr (heap (sys_sched s') 0) = Some c"
    using s(1,4) by (simp_all add: sample_task_def)
  from due_after_matching_minute [OF s(3) sample_init(1) due]
  obtain m where "0 < m" "m < 60 * minute_ns + 1" "m mod minute_ns = 0"
    using s(2) by (auto simp: run)
  with s(3) due show ?thesis by (intro exI [of _ s'] exI [of _ m]) simp
qed

lemma task_runs_exclusively_witness:
  "\<exists>s. sched_reach (\<lambda>_. None) utc_hours sample_sys s
     \<and> (t_LastStatus (heap (sys_sched s) 0) = StatusRunning \<longleftrightarrow> (\<exists>k. busy_with (sys_thread s k) 0))
     \<and> sys_thread s 3 = Panicked 0"
proof -
  obtain c s s1 where s: "heap s 0 = (sample_task ''@hourly'')\<lparr>t_cronExpr := Some c, t_NextRun := 60 * minute_ns\<rparr>"
    "sched_reach (\<lambda>_. None) utc_hours sample_sys s1" "tasks s ''cleanup'' = Some 0"
    "s1 = sample_sys\<lparr>sys_sched := s, sys_clock := 60 * minute_ns + 1\<rparr>" "sched_ctx s = None"
    by (rule sample_added)
  let ?s2 = "s1\<lparr>sys_thread := (sys_thread s1)(3 := Queue [0])\<rparr>"
  have step2: "sched_step (\<lambda>_. None) utc_hours s1 ?s2"
    by (rule sched_step.run_now [of _ _ "''cleanup''"])
      (use s in \<open>simp_all add: sample_sys_def RunNow_def GetTask_def\<close>)
  let ?t = "set_task 0 (\<lambda>t. t\<lparr>t_LastStatus := StatusRunning\<rparr>) s"
  let ?s3 = "?s2\<lparr>sys_sched := ?t, sys_thread := (sys_thread ?s2)(3 := Panicked 0)\<rparr>"
  have got: "runTask_begin 0 (sys_sched ?s2) = (True, ?t)"
    using s(1,4) by (simp add: runTask_begin_def sample_task_def)
  have "sched_step (\<lambda>_. None) utc_hours ?s2 (?s2\<lparr>sys_sched := ?t, sys_thread := (sys_thread ?s2)(3 :=
      if sched_ctx ?t = None then Panicked 0 else Inside 0 [])\<rparr>)"
    by (rule sched_step.enter [OF _ got]) simp
  then have "sched_step (\<lambda>_. None) utc_hours ?s2 ?s3" using s(5) by simp
  with step2 s(2) have reach: "sched_reach (\<lambda>_. None) utc_hours sample_sys ?s3"
    by (blast intro: reach_step)
  have "t_LastStatus (heap (sys_sched ?s3) 0) = StatusRunning \<longleftrightarrow> (\<exists>k. busy_with (sys_thread ?s3 k) 0)"
    using task_runs_exclusively [OF reach sample_init(1)] by blast
  moreover have "sys_thread ?s3 3 = Panicked 0" by simp
  ultimately show ?thesis using reach by blast
qed

definition due_sched :: Scheduler where
  "due_sched = \<lparr>CatchUpWindow = DefaultConfig, tasks = [''cleanup'' \<mapsto> 3], running = True,
     sched_ctx = Some Live, heap = (\<lambda>_. (sample_task [])\<lparr>t_NextRun := 5\<rparr>)\<rparr>"

lemma round_runs_due_tasks_witness:
  "\<exists>s'. checkAndRunTasks utc_hours (\<lambda>_. (None, 20, 30)) [''cleanup''] 10 due_sched = Some s'
     \<and> t_RunCount (heap s' 3) = 1 \<and> t_NextRun (heap s' 3) = 0 \<and> t_RunCount (heap s' 4) = 0"
proof -
  have facts: "ListTasks [''cleanup''] due_sched = [3]" "sched_ctx due_sched \<noteq> None"
    "due 10 (heap due_sched 3)" "t_LastStatus (heap due_sched 3) \<noteq> StatusRunning"
    "t_RunCount (heap due_sched a) = 0" "t_cronExpr (heap due_sched a) = None" for a
    by (simp_all add: ListTasks_def due_sched_def due_def sample_task_def)
  with round_runs_due_tasks [of due_sched "[''cleanup'']" 10 "\<lambda>_. (None, 20, 30)" utc_hours]
  obtain s' where s': "checkAndRunTasks utc_hours (\<lambda>_. (None, 20, 30)) [''cleanup''] 10 due_sched = Some s'"
    "\<And>a. heap s' a = (if a = 3 then finish_task utc_hours None 20 30 (heap due_sched 3) else heap due_sched a)"
    by auto
  have "int64 1 = 1" by code_simp
  with s' facts(5,6) show ?thesis by (intro exI [of _ s']) simp
qed

lemma restart_catches_nothing_up_witness:
  "\<exists>s. add_tasks (\<lambda>_. None) utc_hours [(59 * minute_ns + 7, 0)] (New None (\<lambda>_. sample_task ''@hourly'')) = Some s
     \<and> Start utc_hours (\<lambda>_. (None, 0, 0)) [''cleanup''] (99 * minute_ns) s
         = Some (Inr (), s\<lparr>running := True, sched_ctx := Some Live\<rparr>)"
proof -
  obtain c s where s: "AddTask (\<lambda>_. None) utc_hours (59 * minute_ns + 7) 0 (sys_sched sample_sys) = Some (Inr (), s)"
    by (rule sample_added)
  then have add: "add_tasks (\<lambda>_. None) utc_hours [(59 * minute_ns + 7, 0)]
      (New None (\<lambda>_. sample_task ''@hourly'')) = Some s" by (simp add: sample_sys_def)
  from restart_catches_nothing_up [OF sample_init(2) add] add show ?thesis by blast
qed

end
