(* ===== verification/Passwd.thy ===== *)
theory Passwd
  imports Go_Base64
begin

text \<open>
  The password file (\<open>caspasswd/caspasswd.go\<close>): parsing and writing it, Argon2id hashes and their
  verification, the migration of bcrypt hashes, and the generated administrator account. The two hash
  functions of \<open>golang.org/x/crypto\<close> are parameters: \<open>argon password salt time memory threads keyLen\<close>
  is \<open>argon2.IDKey\<close>, of which only the documented length of its result is used, and \<open>bcr hash password\<close>
  says whether \<open>bcrypt.CompareHashAndPassword\<close> returns nil. Random bytes are arguments, \<open>None\<close> for a
  failing read; the contents of a file are an argument, \<open>None\<close> if it cannot be read.
\<close>

section \<open>Library functions\<close>

text \<open>\<open>base64.RawStdEncoding\<close>: no padding.\<close>

fun raw64_encode :: "string \<Rightarrow> string" where
  "raw64_encode [] = []"
| "raw64_encode [a] = [b64_digit (byte a div 4), b64_digit (byte a mod 4 * 16)]"
| "raw64_encode [a, b] =
     [b64_digit (byte a div 4), b64_digit (byte a mod 4 * 16 + byte b div 16),
      b64_digit (byte b mod 16 * 4)]"
| "raw64_encode (a # b # c # s) =
     b64_digit (byte a div 4) # b64_digit (byte a mod 4 * 16 + byte b div 16)
     # b64_digit (byte b mod 16 * 4 + byte c div 64) # b64_digit (byte c mod 64) # raw64_encode s"

fun raw64_groups :: "string \<Rightarrow> string option" where
  "raw64_groups [] = Some []"
| "raw64_groups [a] = None"
| "raw64_groups [a, b] =
     (case (b64_value a, b64_value b) of (Some w, Some x) \<Rightarrow> Some [byte1 w x] | _ \<Rightarrow> None)"
| "raw64_groups [a, b, c] =
     (case (b64_value a, b64_value b, b64_value c) of
        (Some w, Some x, Some y) \<Rightarrow> Some [byte1 w x, byte2 x y] | _ \<Rightarrow> None)"
| "raw64_groups (a # b # c # d # s) =
     (case (b64_value a, b64_value b, b64_value c, b64_value d, raw64_groups s) of
        (Some w, Some x, Some y, Some z, Some r) \<Rightarrow> Some (byte1 w x # byte2 x y # byte3 y z # r)
      | _ \<Rightarrow> None)"

definition raw64_decode :: "string \<Rightarrow> string option" where
  "raw64_decode s = raw64_groups (filter (\<lambda>c. c \<noteq> CHR 0x0A \<and> c \<noteq> CHR 0x0D) s)"

text \<open>
  \<open>fmt.Sscanf\<close> with literal text and \<open>%d\<close>: spaces before a number are skipped, but not a newline;
  what follows the last verb is not looked at.
\<close>

definition scan_lit :: "string \<Rightarrow> string \<Rightarrow> string option" where
  "scan_lit lit s = (if has_prefix s lit then Some (drop (length lit) s) else None)"

definition scan_space :: "string \<Rightarrow> string option" where
  "scan_space s =
     (let r = trim_left s
      in if CHR 0x0A \<in> set (take (length s - length r) s) then None else Some r)"

definition scan_digits :: "nat \<Rightarrow> string \<Rightarrow> (nat \<times> string) option" where
  "scan_digits limit s =
     (case parse_nat (takeWhile is_digit s) of
        None \<Rightarrow> None
      | Some n \<Rightarrow> if n < limit then Some (n, dropWhile is_digit s) else None)"

definition scan_uint :: "nat \<Rightarrow> string \<Rightarrow> (nat \<times> string) option" where
  "scan_uint bits s = Option.bind (scan_space s) (scan_digits (2 ^ bits))"

definition scan_int :: "string \<Rightarrow> (int \<times> string) option" where
  "scan_int s = Option.bind (scan_space s) (\<lambda>s.
     if has_prefix s ''-'' then map_option (\<lambda>(n, r). (- int n, r)) (scan_digits (2 ^ 63 + 1) (drop 1 s))
     else map_option (\<lambda>(n, r). (int n, r))
       (scan_digits (2 ^ 63) (if has_prefix s ''+'' then drop 1 s else s)))"

section \<open>Hashing\<close>

definition ArgonTime :: nat where "ArgonTime = 3"
definition ArgonMemory :: nat where "ArgonMemory = 64 * 1024"
definition ArgonThreads :: nat where "ArgonThreads = 4"
definition ArgonKeyLen :: nat where "ArgonKeyLen = 32"
definition ArgonSaltLen :: nat where "ArgonSaltLen = 16"

type_synonym argon2 = "string \<Rightarrow> string \<Rightarrow> nat \<Rightarrow> nat \<Rightarrow> nat \<Rightarrow> nat \<Rightarrow> string"

definition HashPassword :: "argon2 \<Rightarrow> string option \<Rightarrow> string \<Rightarrow> string option" where
  "HashPassword argon salt password =
     (case salt of
        None \<Rightarrow> None
      | Some salt \<Rightarrow>
          let hash = argon password salt ArgonTime ArgonMemory ArgonThreads ArgonKeyLen
          in Some (''$argon2id$v='' @ show_nat 19 @ ''$m='' @ show_nat ArgonMemory @ '',t=''
               @ show_nat ArgonTime @ '',p='' @ show_nat ArgonThreads @ ''$'' @ raw64_encode salt
               @ ''$'' @ raw64_encode hash))"

definition scan_params :: "string \<Rightarrow> (nat \<times> nat \<times> nat) option" where
  "scan_params s =
     Option.bind (scan_lit ''m='' s) (\<lambda>s. Option.bind (scan_uint 32 s) (\<lambda>(memory, s).
     Option.bind (scan_lit '',t='' s) (\<lambda>s. Option.bind (scan_uint 32 s) (\<lambda>(time, s).
     Option.bind (scan_lit '',p='' s) (\<lambda>s. Option.bind (scan_uint 8 s) (\<lambda>(threads, s).
     Some (memory, time, threads)))))))"

text \<open>\<open>argon2.IDKey\<close> panics without rounds or threads: the result is \<open>None\<close> then.\<close>

definition verifyArgon2Hash :: "argon2 \<Rightarrow> string \<Rightarrow> string \<Rightarrow> bool option" where
  "verifyArgon2Hash argon encodedHash password =
     (let parts = split_char (CHR ''$'') encodedHash
      in if length parts \<noteq> 6 then Some False
         else (case Option.bind (scan_lit ''v='' (parts ! 2)) scan_int of
             None \<Rightarrow> Some False
           | Some _ \<Rightarrow>
               (case (scan_params (parts ! 3), raw64_decode (parts ! 4), raw64_decode (parts ! 5)) of
                  (Some (memory, time, threads), Some salt, Some expected) \<Rightarrow>
                    if time < 1 \<or> threads < 1 then None
                    else Some (argon password salt time memory threads (length expected) = expected)
                | _ \<Rightarrow> Some False)))"

section \<open>The file\<close>

type_synonym data = "(string \<times> string) list"

datatype passwd_error = Cannot_read | Error_in_line nat | Overriding string nat
  | Hash_failed | Write_failed | Generate_failed

fun load_lines :: "nat \<Rightarrow> string list \<Rightarrow> data \<Rightarrow> passwd_error + data" where
  "load_lines i [] data = Inr data"
| "load_lines i (line # lines) data =
     (if line = [] then load_lines (Suc i) lines data
      else (case split_char (CHR '':'') line of
          [user, pass] \<Rightarrow>
            if map_of data user \<noteq> None then Inl (Overriding user i)
            else load_lines (Suc i) lines (data @ [(user, pass)])
        | _ \<Rightarrow> Inl (Error_in_line i)))"

definition LoadFile :: "string option \<Rightarrow> passwd_error + data" where
  "LoadFile file =
     (case file of
        None \<Rightarrow> Inl Cannot_read
      | Some fileTxt \<Rightarrow> load_lines 0 (split_char (CHR 0x0A) fileTxt) [])"

definition is_argon :: "string \<Rightarrow> bool" where
  "is_argon h = has_prefix h ''$argon2id$''"

definition is_bcrypt :: "string \<Rightarrow> bool" where
  "is_bcrypt h \<longleftrightarrow> has_prefix h ''$2a$'' \<or> has_prefix h ''$2b$'' \<or> has_prefix h ''$2y$''"

text \<open>
  The verification against the dummy hash for an unknown user is for its running time only, and its
  result is not used; the dummy hash has rounds and threads, so it does not panic.
\<close>

definition Check :: "argon2 \<Rightarrow> (string \<Rightarrow> string \<Rightarrow> bool) \<Rightarrow> data \<Rightarrow> string \<Rightarrow> string \<Rightarrow> bool option" where
  "Check argon bcr data user pass =
     (case map_of data user of
        None \<Rightarrow> Some False
      | Some storedPass \<Rightarrow>
          if is_argon storedPass then verifyArgon2Hash argon storedPass pass
          else if is_bcrypt storedPass then Some (bcr storedPass pass)
          else Some False)"

definition NeedsRehash :: "data \<Rightarrow> string \<Rightarrow> bool" where
  "NeedsRehash data user =
     (case map_of data user of
        None \<Rightarrow> False
      | Some storedPass \<Rightarrow> if is_argon storedPass then False else is_bcrypt storedPass)"

definition LoadAndCheck ::
    "argon2 \<Rightarrow> (string \<Rightarrow> string \<Rightarrow> bool) \<Rightarrow> string option \<Rightarrow> string \<Rightarrow> string \<Rightarrow>
     (passwd_error + bool) option" where
  "LoadAndCheck argon bcr file user pass =
     (case LoadFile file of
        Inl e \<Rightarrow> Some (Inl e)
      | Inr data \<Rightarrow> map_option Inr (Check argon bcr data user pass))"

definition LoadAndCheckWithRehash ::
    "argon2 \<Rightarrow> (string \<Rightarrow> string \<Rightarrow> bool) \<Rightarrow> string option \<Rightarrow> string \<Rightarrow> string \<Rightarrow>
     (passwd_error + bool \<times> bool) option" where
  "LoadAndCheckWithRehash argon bcr file user pass =
     (case LoadFile file of
        Inl e \<Rightarrow> Some (Inl e)
      | Inr data \<Rightarrow>
          (case Check argon bcr data user pass of
             None \<Rightarrow> None
           | Some isValid \<Rightarrow>
               if \<not> isValid then Some (Inr (False, False))
               else Some (Inr (True, NeedsRehash data user))))"

text \<open>The lines are written in the order in which Go visits the map: the argument is that list.\<close>

definition writePasswordFile :: "data \<Rightarrow> string" where
  "writePasswordFile data = concat (map (\<lambda>(user, pass). user @ '':'' @ pass @ [CHR 0x0A]) data)"

definition set_user :: "string \<Rightarrow> string \<Rightarrow> data \<Rightarrow> data" where
  "set_user user hash data =
     (if map_of data user = None then data @ [(user, hash)]
      else map (\<lambda>(u, p). (u, if u = user then hash else p)) data)"

text \<open>
  \<open>visit\<close> is the order of the map iteration and \<open>ok\<close> the outcome of the write; the result is the new
  contents of the file.
\<close>

definition RehashPassword ::
    "argon2 \<Rightarrow> string option \<Rightarrow> (data \<Rightarrow> data) \<Rightarrow> bool \<Rightarrow> string option \<Rightarrow> string \<Rightarrow> string \<Rightarrow>
     passwd_error + string" where
  "RehashPassword argon salt visit ok file user password =
     (case LoadFile file of
        Inl e \<Rightarrow> Inl e
      | Inr data \<Rightarrow>
          (case HashPassword argon salt password of
             None \<Rightarrow> Inl Hash_failed
           | Some newHash \<Rightarrow>
               if ok then Inr (writePasswordFile (visit (set_user user newHash data)))
               else Inl Write_failed))"

definition charset :: string where
  "charset = ''abcdefghijklmnopqrstuvwxyzABCDEFGHIJKLMNOPQRSTUVWXYZ0123456789!@#$%^&*''"

definition GenerateRandomPassword :: "string option \<Rightarrow> string option" where
  "GenerateRandomPassword b = map_option (map (\<lambda>c. charset ! (byte c mod length charset))) b"

definition GenerateCredentialsFile ::
    "argon2 \<Rightarrow> string option \<Rightarrow> string option \<Rightarrow> bool \<Rightarrow> passwd_error + string \<times> string \<times> string" where
  "GenerateCredentialsFile argon b salt ok =
     (case GenerateRandomPassword b of
        None \<Rightarrow> Inl Generate_failed
      | Some password \<Rightarrow>
          (case HashPassword argon salt password of
             None \<Rightarrow> Inl Hash_failed
           | Some hash \<Rightarrow>
               if ok then Inr (''admin'', password, ''admin'' @ '':'' @ hash @ [CHR 0x0A])
               else Inl Write_failed))"

definition FileExistsAndHasUsers :: "string \<Rightarrow> string option \<Rightarrow> bool" where
  "FileExistsAndHasUsers path file =
     (if path = [] then False
      else (case LoadFile file of Inl _ \<Rightarrow> False | Inr data \<Rightarrow> length data > 0))"

section \<open>Hashes verify\<close>

lemma raw64_groups_encode: "raw64_groups (raw64_encode s) = Some s"
  by (induction s rule: raw64_encode.induct) (simp_all add: six_bits bytes_back)

lemma b64_digit_not_delimiter:
  assumes "d < 64"
  shows "b64_digit d \<noteq> CHR ''$''" "b64_digit d \<noteq> CHR '':''"
proof -
  have "byte (b64_digit d) \<noteq> 36" "byte (b64_digit d) \<noteq> 58"
    using assms by (auto simp: byte_b64_digit split: if_splits)
  then show "b64_digit d \<noteq> CHR ''$''" "b64_digit d \<noteq> CHR '':''"
    by (auto simp del: of_char_eq_iff)
qed

lemma raw64_chars:
  "x \<in> set (raw64_encode s) \<Longrightarrow> x \<noteq> CHR 0x0A \<and> x \<noteq> CHR 0x0D \<and> x \<noteq> CHR ''$'' \<and> x \<noteq> CHR '':''"
  by (induction s rule: raw64_encode.induct)
    (auto simp: b64_digit_not_special b64_digit_not_delimiter six_bits)

lemma raw64_decode_encode [simp]: "raw64_decode (raw64_encode s) = Some s"
proof -
  have "filter (\<lambda>c. c \<noteq> CHR 0x0A \<and> c \<noteq> CHR 0x0D) (raw64_encode s) = raw64_encode s"
    using raw64_chars by (simp add: filter_id_conv)
  then show ?thesis by (simp add: raw64_decode_def raw64_groups_encode)
qed

definition hash_header :: string where
  "hash_header = ''$argon2id$v=19$m=65536,t=3,p=4$''"

lemma HashPassword_eq:
  "HashPassword argon (Some salt) pw = Some (hash_header @ raw64_encode salt @ ''$''
     @ raw64_encode (argon pw salt ArgonTime ArgonMemory ArgonThreads ArgonKeyLen))"
proof -
  have dig: "digit_char 1 = CHR ''1''" "digit_char 3 = CHR ''3''" "digit_char 4 = CHR ''4''"
    "digit_char 5 = CHR ''5''" "digit_char 6 = CHR ''6''" "digit_char 9 = CHR ''9''" by code_simp+
  have one: "show_nat 1 = ''1''" "show_nat 3 = ''3''" "show_nat 4 = ''4''" "show_nat 6 = ''6''"
    using dig by (simp_all add: show_nat.simps [of "Suc 0"] show_nat.simps [of 3] show_nat.simps [of 4] show_nat.simps [of 6])
  have "show_nat 65 = ''65''" by (simp add: show_nat.simps [of 65] one dig)
  then have "show_nat 655 = ''655''" by (simp add: show_nat.simps [of 655] dig)
  then have "show_nat 6553 = ''6553''" by (simp add: show_nat.simps [of 6553] dig)
  then have "show_nat 65536 = ''65536''" by (simp add: show_nat.simps [of 65536] dig)
  moreover have "show_nat 19 = ''19''" using one(1) by (simp add: show_nat.simps [of 19] dig)
  ultimately have "show_nat 19 = ''19''" "show_nat ArgonMemory = ''65536''" "show_nat ArgonTime = ''3''"
    "show_nat ArgonThreads = ''4''"
    using one by (simp_all add: ArgonMemory_def ArgonTime_def ArgonThreads_def)
  then show ?thesis by (simp add: HashPassword_def hash_header_def Let_def)
qed

lemma scan_header:
  "Option.bind (scan_lit ''v='' ''v=19'') scan_int = Some (19, [])"
  "scan_params ''m=65536,t=3,p=4'' = Some (65536, 3, 4)"
proof -
  have space: "scan_space (c # s) = Some (c # s)" if "graphic c" for c s
    using that by (simp add: scan_space_def trim_left_graphic)
  have digit: "graphic (CHR ''1'')" "graphic (CHR ''6'')" "graphic (CHR ''3'')" "graphic (CHR ''4'')"
    by (simp_all add: graphic_def)
  show "Option.bind (scan_lit ''v='' ''v=19'') scan_int = Some (19, [])"
    by (simp add: scan_lit_def scan_int_def space digit scan_digits_def parse_nat_def is_digit_def digit_val_def)
  show "scan_params ''m=65536,t=3,p=4'' = Some (65536, 3, 4)"
    by (simp add: scan_params_def scan_lit_def scan_uint_def space digit scan_digits_def parse_nat_def
        is_digit_def digit_val_def)
qed

lemma verify_HashPassword:
  assumes "\<And>p s t m th k. length (argon p s t m th k) = k"
    and "HashPassword argon salt pw = Some h"
  shows "verifyArgon2Hash argon h pw = Some True" "is_argon h"
    and "CHR '':'' \<notin> set h" "CHR 0x0A \<notin> set h"
proof -
  obtain sa where "salt = Some sa" using assms(2) by (cases salt) (simp_all add: HashPassword_def)
  define hash where "hash = argon pw sa 3 65536 4 32"
  have h: "h = hash_header @ raw64_encode sa @ ''$'' @ raw64_encode hash"
    using assms(2) by (simp add: \<open>salt = _\<close> HashPassword_eq hash_def ArgonTime_def ArgonMemory_def
        ArgonThreads_def ArgonKeyLen_def)
  have no: "CHR ''$'' \<notin> set (raw64_encode x)" for x using raw64_chars by blast
  have split: "split_char (CHR ''$'') h =
      [[], ''argon2id'', ''v=19'', ''m=65536,t=3,p=4'', raw64_encode sa, raw64_encode hash]"
    using no by (simp add: h hash_header_def split_char_append split_char_absent)
  show "verifyArgon2Hash argon h pw = Some True"
    using assms(1) by (simp add: verifyArgon2Hash_def split scan_header hash_def numeral_2_eq_2 numeral_3_eq_3
        nth_Cons_numeral)
  show "is_argon h" by (simp add: is_argon_def h hash_header_def)
  show "CHR '':'' \<notin> set h" "CHR 0x0A \<notin> set h"
    using raw64_chars by (auto simp: h hash_header_def)
qed

section \<open>Files read back\<close>

definition plain :: "string \<Rightarrow> bool" where
  "plain s \<longleftrightarrow> CHR '':'' \<notin> set s \<and> CHR 0x0A \<notin> set s"

definition plain_data :: "data \<Rightarrow> bool" where
  "plain_data data \<longleftrightarrow> (\<forall>(u, p) \<in> set data. plain u \<and> plain p) \<and> distinct (map fst data)"

lemma load_lines_Cons:
  assumes "load_lines i (line # lines) data = Inr d" and "line \<noteq> []"
  obtains user pass where "split_char (CHR '':'') line = [user, pass]" "map_of data user = None"
    "load_lines (Suc i) lines (data @ [(user, pass)]) = Inr d"
  using assms by (auto split: list.splits if_splits)

lemma load_lines_plain:
  "load_lines i lines data = Inr d \<Longrightarrow> plain_data data \<Longrightarrow> (\<forall>l \<in> set lines. CHR 0x0A \<notin> set l) \<Longrightarrow>
     plain_data d"
proof (induction lines arbitrary: i data)
  case (Cons line lines)
  show ?case
  proof (cases "line = []")
    case True
    with Cons show ?thesis by auto
  next
    case False
    obtain user pass where split: "split_char (CHR '':'') line = [user, pass]"
      and new: "map_of data user = None" and load: "load_lines (Suc i) lines (data @ [(user, pass)]) = Inr d"
      by (rule load_lines_Cons [OF Cons.prems(1) False])
    have "CHR '':'' \<notin> set user" "CHR '':'' \<notin> set pass"
      using split_char_no_sep [of _ "CHR '':''" line] by (auto simp: split)
    moreover have "line = user @ CHR '':'' # pass"
      using join_split_char [of "CHR '':''" line] by (simp add: split)
    ultimately have "plain user" "plain pass" using Cons.prems(3) by (auto simp: plain_def)
    with Cons.prems(2) new have "plain_data (data @ [(user, pass)])"
      by (auto simp: plain_data_def map_of_eq_None_iff)
    with Cons.IH [OF load] Cons.prems(3) show ?thesis by simp
  qed
qed simp

lemma LoadFile_plain: "LoadFile file = Inr d \<Longrightarrow> plain_data d"
proof -
  assume load: "LoadFile file = Inr d"
  then obtain body where "load_lines 0 (split_char (CHR 0x0A) body) [] = Inr d"
    by (auto simp: LoadFile_def split: option.splits)
  then show "plain_data d"
    by (rule load_lines_plain) (auto simp: plain_data_def dest: split_char_no_sep)
qed

lemma split_lines: "\<forall>x \<in> set xs. d \<notin> set x \<Longrightarrow>
    split_char d (concat (map (\<lambda>x. x @ [d]) xs)) = xs @ [[]]"
  by (induction xs) (simp_all add: split_char_append)

lemma load_lines_write:
  "plain_data (prev @ data) \<Longrightarrow>
     load_lines i (map (\<lambda>(u, p). u @ '':'' @ p) data @ [[]]) prev = Inr (prev @ data)"
proof (induction data arbitrary: i prev)
  case (Cons x data)
  obtain u p where x: "x = (u, p)" by (cases x)
  from Cons.prems have "plain u" "plain p" "map_of prev u = None"
    by (auto simp: plain_data_def x map_of_eq_None_iff)
  moreover from this have "split_char (CHR '':'') (u @ '':'' @ p) = [u, p]"
    by (simp add: plain_def split_char_append split_char_absent)
  ultimately show ?case using Cons.IH [of "prev @ [x]"] Cons.prems by (simp add: x)
qed simp

lemma LoadFile_write:
  assumes "plain_data data"
  shows "LoadFile (Some (writePasswordFile data)) = Inr data"
proof -
  let ?lines = "map (\<lambda>(u, p). u @ '':'' @ p) data"
  have "writePasswordFile data = concat (map (\<lambda>x. x @ [CHR 0x0A]) ?lines)"
    by (simp add: writePasswordFile_def comp_def split_def)
  moreover have "\<forall>x \<in> set ?lines. CHR 0x0A \<notin> set x"
    using assms by (auto simp: plain_data_def plain_def)
  ultimately have "split_char (CHR 0x0A) (writePasswordFile data) = ?lines @ [[]]"
    by (simp only: split_lines)
  with load_lines_write [of "[]" data 0] assms show ?thesis by (simp add: LoadFile_def)
qed

lemma map_of_set_user: "map_of (set_user user h data) = (map_of data)(user \<mapsto> h)"
proof -
  have "map_of (map (\<lambda>(u, p). (u, if u = user then h else p)) d) u
      = (if u = user then map_option (\<lambda>_. h) (map_of d user) else map_of d u)" for d u
    by (induction d) auto
  then show ?thesis by (cases "map_of data user") (auto simp: set_user_def map_add_def intro!: ext split: option.splits)
qed

lemma plain_set_user:
  assumes "plain_data data" and "plain user" and "plain h"
  shows "plain_data (set_user user h data)"
proof -
  have "map fst (map (\<lambda>(u, p). (u, if u = user then h else p)) data) = map fst data" by auto
  with assms show ?thesis
    by (auto simp: set_user_def plain_data_def map_of_eq_None_iff simp del: map_map)
qed

lemma plain_visit:
  assumes "plain_data data" and "set v = set data" and "distinct (map fst v)"
  shows "plain_data v" "map_of v = map_of data"
  using assms map_of_inject_set [of v data] by (auto simp: plain_data_def)

lemma login_cong:
  assumes "LoadFile f = Inr d" and "LoadFile f' = Inr d'" and "map_of d u = map_of d' u"
  shows "LoadAndCheckWithRehash argon bcr f u p = LoadAndCheckWithRehash argon bcr f' u p"
proof -
  have "Check argon bcr d u p = Check argon bcr d' u p" by (simp add: Check_def assms(3))
  moreover have "NeedsRehash d u = NeedsRehash d' u" by (simp add: NeedsRehash_def assms(3))
  ultimately show ?thesis by (simp add: LoadAndCheckWithRehash_def assms(1,2) split: option.split)
qed

text \<open>
  Migrating a password loses no account: after a successful rehash of a user of the file, the user
  logs in with the same password and needs no further rehash, and every other user's logins are
  answered as before, whatever order the map is written in.
\<close>

theorem rehash_keeps_logins:
  assumes "\<And>p s t m th k. length (argon p s t m th k) = k"
    and "\<And>d. distinct (map fst d) \<Longrightarrow> set (visit d) = set d \<and> distinct (map fst (visit d))"
    and "LoadFile file = Inr data" and "map_of data user \<noteq> None"
    and "RehashPassword argon salt visit ok file user pw = Inr new"
  shows "LoadAndCheckWithRehash argon bcr (Some new) user pw = Some (Inr (True, False))
     \<and> (\<forall>u p. u \<noteq> user \<longrightarrow> LoadAndCheckWithRehash argon bcr (Some new) u p
                              = LoadAndCheckWithRehash argon bcr file u p)"
proof -
  obtain h where h: "HashPassword argon salt pw = Some h"
    and new: "new = writePasswordFile (visit (set_user user h data))"
    using assms(3,5) by (auto simp: RehashPassword_def split: option.splits if_splits)
  note v = verify_HashPassword [OF assms(1) h]
  have data: "plain_data data" by (rule LoadFile_plain [OF assms(3)])
  moreover have "plain user" using assms(4) data by (auto simp: plain_data_def dest!: map_of_SomeD)
  moreover have "plain h" using v(3,4) by (simp add: plain_def)
  ultimately have pl: "plain_data (set_user user h data)" by (intro plain_set_user)
  then have "distinct (map fst (set_user user h data))" by (simp add: plain_data_def)
  with assms(2) have vs: "set (visit (set_user user h data)) = set (set_user user h data)"
    "distinct (map fst (visit (set_user user h data)))" by blast+
  have "LoadFile (Some new) = Inr (visit (set_user user h data))"
    unfolding new by (rule LoadFile_write [OF plain_visit(1) [OF pl vs]])
  moreover have "map_of (visit (set_user user h data)) = (map_of data)(user \<mapsto> h)"
    using plain_visit(2) [OF pl vs] by (simp add: map_of_set_user)
  ultimately have reads: "LoadFile (Some new) = Inr (visit (set_user user h data))"
    and map: "map_of (visit (set_user user h data)) = (map_of data)(user \<mapsto> h)" by simp_all
  have "LoadAndCheckWithRehash argon bcr (Some new) user pw = Some (Inr (True, False))"
    using v(1,2) by (simp add: LoadAndCheckWithRehash_def reads Check_def NeedsRehash_def map)
  moreover have "LoadAndCheckWithRehash argon bcr (Some new) u p = LoadAndCheckWithRehash argon bcr file u p"
    if "u \<noteq> user" for u p
    by (rule login_cong [OF reads assms(3)]) (use that in \<open>simp add: map\<close>)
  ultimately show ?thesis by blast
qed

text \<open>
  The generated account works: the user name and password shown to the operator log in with the
  generated file, which has a user, so it is not generated again.
\<close>

theorem generated_account_logs_in:
  assumes "\<And>p s t m th k. length (argon p s t m th k) = k"
    and "GenerateCredentialsFile argon b salt ok = Inr (user, pw, new)" and "path \<noteq> []"
  shows "LoadAndCheck argon bcr (Some new) user pw = Some (Inr True) \<and> FileExistsAndHasUsers path (Some new)
     \<and> set pw \<subseteq> set charset"
proof -
  obtain h where h: "HashPassword argon salt pw = Some h" and pw: "GenerateRandomPassword b = Some pw"
    and new: "new = writePasswordFile [(''admin'', h)]" and user: "user = ''admin''"
    using assms(2) by (auto simp: GenerateCredentialsFile_def writePasswordFile_def split: option.splits if_splits)
  note v = verify_HashPassword [OF assms(1) h]
  have "plain_data [(''admin'', h)]" using v(3,4) by (simp add: plain_data_def plain_def)
  then have "LoadFile (Some new) = Inr [(''admin'', h)]" unfolding new by (rule LoadFile_write)
  moreover have "charset ! (k mod length charset) \<in> set charset" for k
    by (rule nth_mem) (simp add: charset_def)
  then have "set pw \<subseteq> set charset" using pw by (auto simp: GenerateRandomPassword_def)
  ultimately show ?thesis using assms(3) v(1,2) user
    by (simp add: LoadAndCheck_def Check_def FileExistsAndHasUsers_def)
qed

text \<open>A hash function of the right length, for concrete inputs.\<close>

definition sample_argon :: argon2 where
  "sample_argon p s t m th k = take k (p @ s @ replicate k (CHR ''x''))"

lemma sample_argon_length: "length (sample_argon p s t m th k) = k"
  by (simp add: sample_argon_def)

lemma generated_account_logs_in_witness:
  "\<exists>new. GenerateCredentialsFile sample_argon (Some ''abcdabcdabcdabcd'') (Some ''0123456789abcdef'') True
       = Inr (''admin'', ''BCDEBCDEBCDEBCDE'', new)
     \<and> LoadAndCheck sample_argon (\<lambda>_ _. False) (Some new) ''admin'' ''BCDEBCDEBCDEBCDE'' = Some (Inr True)"
proof -
  have "GenerateRandomPassword (Some ''abcdabcdabcdabcd'') = Some ''BCDEBCDEBCDEBCDE''" by code_simp
  then obtain new where g: "GenerateCredentialsFile sample_argon (Some ''abcdabcdabcdabcd'') (Some ''0123456789abcdef'') True
       = Inr (''admin'', ''BCDEBCDEBCDEBCDE'', new)"
    by (simp add: GenerateCredentialsFile_def HashPassword_eq)
  from generated_account_logs_in [OF sample_argon_length g, of "''caspasswd''"] g show ?thesis by blast
qed

lemma rehash_keeps_logins_witness:
  "\<exists>new. RehashPassword sample_argon (Some ''0123456789abcdef'') rev True
       (Some (''bob:$2a$10$old'' @ [CHR 0x0A] @ ''eve:secret'')) ''bob'' ''pw'' = Inr new
     \<and> LoadAndCheckWithRehash sample_argon (\<lambda>_ _. True) (Some new) ''bob'' ''pw'' = Some (Inr (True, False))"
proof -
  let ?file = "Some (''bob:$2a$10$old'' @ [CHR 0x0A] @ ''eve:secret'')"
  have load: "LoadFile ?file = Inr [(''bob'', ''$2a$10$old''), (''eve'', ''secret'')]" by code_simp
  then obtain new where r: "RehashPassword sample_argon (Some ''0123456789abcdef'') rev True ?file ''bob'' ''pw'' = Inr new"
    by (simp add: RehashPassword_def HashPassword_eq)
  have rev: "set (rev d) = set d \<and> distinct (map fst (rev d))" if "distinct (map fst d)" for d :: data
    using that by (simp add: rev_map [symmetric])
  have "map_of [(''bob'', ''$2a$10$old''), (''eve'', ''secret'')] ''bob'' \<noteq> None" by simp
  from rehash_keeps_logins [OF sample_argon_length rev load this r] r show ?thesis by blast
qed

end
