(* ===== verification/Brute_Force.thy ===== *)
theory Brute_Force
  imports Passwd
begin

text \<open>
  The protection against guessing passwords (\<open>caspasswd/bruteforce.go\<close>) and the three places that
  check one: the login form (\<open>web/auth.go\<close>), the creation of pastes on a private server
  (\<open>apiv1/new.go\<close>) and the settings page (\<open>web/settings.go\<close>). A time is a number of nanoseconds since
  Go's zero time, so 0 is the zero time; the key of an address is its canonical text, and \<open>None\<close> is the
  nil address. Every operation holds the mutex of the protection; each clock reading is an argument.
\<close>

section \<open>The protection\<close>

record loginAttempts =
  la_count :: int
  lockedUntil :: int

record BruteForce =
  attempts :: "string \<rightharpoonup> loginAttempts"
  maxAttempts :: int
  lockoutTime :: int
  cleanupPeriod :: int
  lastCleanup :: int

definition NewBruteForceProtection :: "int \<Rightarrow> int \<Rightarrow> int \<Rightarrow> BruteForce" where
  "NewBruteForceProtection mx lockout now =
     \<lparr>attempts = Map.empty, maxAttempts = mx, lockoutTime = lockout,
      cleanupPeriod = 600000000000, lastCleanup = now\<rparr>"

definition CheckBlocked :: "BruteForce \<Rightarrow> string option \<Rightarrow> int \<Rightarrow> bool" where
  "CheckBlocked bfp ip now =
     (case ip of
        None \<Rightarrow> False
      | Some key \<Rightarrow>
          (case attempts bfp key of
             None \<Rightarrow> False
           | Some attempt \<Rightarrow> if now < lockedUntil attempt then True else False))"

definition RecordFailure :: "BruteForce \<Rightarrow> string option \<Rightarrow> int \<Rightarrow> int \<Rightarrow> BruteForce" where
  "RecordFailure bfp ip now1 now2 =
     (case ip of
        None \<Rightarrow> bfp
      | Some key \<Rightarrow>
          let attempt = (case attempts bfp key of
                 None \<Rightarrow> \<lparr>la_count = 0, lockedUntil = 0\<rparr> | Some a \<Rightarrow> a);
              bfp = bfp\<lparr>attempts := (attempts bfp)(key \<mapsto> attempt)\<rparr>
          in if now1 < lockedUntil attempt then bfp
             else
               let attempt = attempt\<lparr>la_count := int64 (la_count attempt + 1)\<rparr>;
                   attempt = (if la_count attempt \<ge> maxAttempts bfp
                              then attempt\<lparr>lockedUntil := now2 + lockoutTime bfp\<rparr> else attempt)
               in bfp\<lparr>attempts := (attempts bfp)(key \<mapsto> attempt)\<rparr>)"

definition RecordSuccess :: "BruteForce \<Rightarrow> string option \<Rightarrow> BruteForce" where
  "RecordSuccess bfp ip =
     (case ip of None \<Rightarrow> bfp | Some key \<Rightarrow> bfp\<lparr>attempts := (attempts bfp)(key := None)\<rparr>)"

definition GetRemainingLockout :: "BruteForce \<Rightarrow> string option \<Rightarrow> int \<Rightarrow> int \<Rightarrow> int" where
  "GetRemainingLockout bfp ip now1 now2 =
     (case ip of
        None \<Rightarrow> 0
      | Some key \<Rightarrow>
          (case attempts bfp key of
             None \<Rightarrow> 0
           | Some attempt \<Rightarrow>
               if now1 < lockedUntil attempt then lockedUntil attempt - now2 else 0))"

definition cleanup :: "BruteForce \<Rightarrow> int \<Rightarrow> BruteForce" where
  "cleanup bfp now =
     bfp\<lparr>attempts := (\<lambda>key. case attempts bfp key of
          None \<Rightarrow> None
        | Some attempt \<Rightarrow>
            if lockedUntil attempt < now \<and> la_count attempt < maxAttempts bfp then None
            else if lockedUntil attempt + cleanupPeriod bfp < now then None
            else Some attempt),
        lastCleanup := now\<rparr>"

section \<open>Where passwords are checked\<close>

text \<open>
  What the handlers need of the server: the path of the password file, whether it exists, its
  contents, and the hash functions; \<open>bf\<close> is \<open>None\<close> where the protection is a nil pointer.
\<close>

record auth_env =
  env_argon :: argon2
  env_bcrypt :: "string \<Rightarrow> string \<Rightarrow> bool"
  CasPasswdFile :: string
  passwd_stat :: bool
  passwd_file :: "string option"

datatype login_result =
    Login_error string "int option"   \<comment> \<open>the form again, with its redirect and Retry-After\<close>
  | Logged_in string bool             \<comment> \<open>the redirect, and whether a rehash is started\<close>
  | Login_panic

definition on_failure :: "BruteForce option \<Rightarrow> string option \<Rightarrow> int \<Rightarrow> int \<Rightarrow> BruteForce option" where
  "on_failure bf ip now1 now2 = map_option (\<lambda>b. RecordFailure b ip now1 now2) bf"

definition blocked :: "BruteForce option \<Rightarrow> string option \<Rightarrow> int \<Rightarrow> bool" where
  "blocked bf ip now = (case bf of None \<Rightarrow> False | Some b \<Rightarrow> CheckBlocked b ip now)"

text \<open>
  The form is \<open>None\<close> when it cannot be parsed. The clock is read by the check (\<open>t\<close>), by the remaining
  time (\<open>t1\<close>, \<open>t2\<close>) or by the record of a failure (\<open>t1\<close>, \<open>t2\<close>). The seconds of \<open>Retry-After\<close> are cut
  towards zero.
\<close>

definition handleLoginSubmit ::
    "auth_env \<Rightarrow> (string \<Rightarrow> string) option \<Rightarrow> string option \<Rightarrow> int \<times> int \<times> int \<Rightarrow> BruteForce option \<Rightarrow>
     login_result \<times> BruteForce option" where
  "handleLoginSubmit e form clientIP clocks bf =
     (case clocks of (t, t1, t2) \<Rightarrow>
      case form of
        None \<Rightarrow> (Login_error ''/'' None, bf)
      | Some f \<Rightarrow>
          let username = f ''username''; password = f ''password'';
              redirect = (if f ''redirect'' = [] then ''/'' else f ''redirect'')
          in if blocked bf clientIP t then
               (Login_error redirect
                  (map_option (\<lambda>b. go_div (GetRemainingLockout b clientIP t1 t2) 1000000000) bf), bf)
             else if CasPasswdFile e = [] then
               (Login_error redirect None, on_failure bf clientIP t1 t2)
             else if \<not> passwd_stat e then
               (Login_error redirect None, on_failure bf clientIP t1 t2)
             else (case LoadAndCheckWithRehash (env_argon e) (env_bcrypt e) (passwd_file e) username password of
                 None \<Rightarrow> (Login_panic, bf)
               | Some (Inl _) \<Rightarrow> (Login_error redirect None, on_failure bf clientIP t1 t2)
               | Some (Inr (isValid, needsRehash)) \<Rightarrow>
                   if \<not> isValid then (Login_error redirect None, on_failure bf clientIP t1 t2)
                   else (Logged_in redirect needsRehash, map_option (\<lambda>b. RecordSuccess b clientIP) bf)))"

text \<open>The check at the head of \<open>createPaste\<close>; \<open>basic\<close> is the user and password of the request.\<close>

datatype api_auth = Auth_ok | Auth_too_many int | Auth_unauthorized | Auth_file_error passwd_error
  | Auth_panic

definition createPaste_auth ::
    "auth_env \<Rightarrow> bool \<Rightarrow> (string \<times> string) option \<Rightarrow> string option \<Rightarrow> int \<times> int \<times> int \<Rightarrow>
     BruteForce option \<Rightarrow> api_auth \<times> BruteForce option" where
  "createPaste_auth e public basic clientIP clocks bf =
     (case clocks of (t, t1, t2) \<Rightarrow>
      if \<not> (\<not> public \<and> CasPasswdFile e \<noteq> []) then (Auth_ok, bf)
      else if blocked bf clientIP t then
        (Auth_too_many (case bf of None \<Rightarrow> 0 | Some b \<Rightarrow>
           go_div (GetRemainingLockout b clientIP t1 t2) 1000000000), bf)
      else
        let checked = (case basic of
              None \<Rightarrow> Some (Inr False)
            | Some (user, pass) \<Rightarrow> LoadAndCheck (env_argon e) (env_bcrypt e) (passwd_file e) user pass)
        in (case checked of
              None \<Rightarrow> (Auth_panic, bf)
            | Some (Inl err) \<Rightarrow> (Auth_file_error err, bf)
            | Some (Inr isAuthenticated) \<Rightarrow>
                if \<not> isAuthenticated then (Auth_unauthorized, on_failure bf clientIP t1 t2)
                else (Auth_ok, map_option (\<lambda>b. RecordSuccess b clientIP) bf)))"

text \<open>The check of the settings page, whose result the page shows as \<open>AuthOk\<close>.\<close>

definition handleSettings_auth ::
    "auth_env \<Rightarrow> (string \<times> string) option \<Rightarrow> (passwd_error + bool) option" where
  "handleSettings_auth e basic =
     (if CasPasswdFile e = [] then Some (Inr True)
      else (case basic of
          None \<Rightarrow> Some (Inr False)
        | Some (user, pass) \<Rightarrow> LoadAndCheck (env_argon e) (env_bcrypt e) (passwd_file e) user pass))"

section \<open>Runs of guesses\<close>

text \<open>
  One guess from an address with its check and its record, and a round of the cleaning loop. \<open>ok\<close>
  says whether the password is right.
\<close>

datatype bf_event = Guess string int int int bool | Clean int

fun bf_step :: "bf_event \<Rightarrow> BruteForce \<Rightarrow> bool \<times> BruteForce" where
  "bf_step (Guess k t t1 t2 ok) b =
     (if CheckBlocked b (Some k) t then (False, b)
      else (True, if ok then RecordSuccess b (Some k) else RecordFailure b (Some k) t1 t2))"
| "bf_step (Clean now) b = (False, cleanup b now)"

fun guesses_of :: "string \<Rightarrow> bf_event list \<Rightarrow> BruteForce \<Rightarrow> nat" where
  "guesses_of k [] b = 0"
| "guesses_of k (e # es) b =
     (case e of
        Guess k' _ _ _ _ \<Rightarrow> if k' = k \<and> fst (bf_step e b) then 1 else 0
      | Clean _ \<Rightarrow> 0) + guesses_of k es (snd (bf_step e b))"

fun bf_run :: "bf_event list \<Rightarrow> BruteForce \<Rightarrow> BruteForce" where
  "bf_run [] b = b"
| "bf_run (e # es) b = bf_run es (snd (bf_step e b))"

fun cleans :: "bf_event list \<Rightarrow> nat" where
  "cleans [] = 0"
| "cleans (Clean _ # es) = Suc (cleans es)"
| "cleans (_ # es) = cleans es"

fun event_times :: "bf_event \<Rightarrow> int list" where
  "event_times (Guess k t t1 t2 ok) = [t, t1, t2]"
| "event_times (Clean t) = [t]"

text \<open>The entry of an address, as \<open>RecordFailure\<close> reads it.\<close>

definition entry_of :: "BruteForce \<Rightarrow> string \<Rightarrow> loginAttempts" where
  "entry_of b k = (case attempts b k of None \<Rightarrow> \<lparr>la_count = 0, lockedUntil = 0\<rparr> | Some a \<Rightarrow> a)"

lemma params [simp]:
  "maxAttempts (snd (bf_step e b)) = maxAttempts b" "lockoutTime (snd (bf_step e b)) = lockoutTime b"
  "cleanupPeriod (snd (bf_step e b)) = cleanupPeriod b"
  by (cases e; simp add: RecordFailure_def RecordSuccess_def cleanup_def Let_def)+

lemma CheckBlocked_entry: "0 \<le> t \<Longrightarrow> CheckBlocked b (Some k) t \<longleftrightarrow> t < lockedUntil (entry_of b k)"
  by (auto simp: CheckBlocked_def entry_of_def split: option.splits)

lemma entry_RecordFailure:
  "entry_of (RecordFailure b (Some k) t1 t2) j =
     (let a = entry_of b k; n = int64 (la_count a + 1)
      in if j \<noteq> k then entry_of b j
         else if t1 < lockedUntil a then a
         else if n \<ge> maxAttempts b then a\<lparr>la_count := n, lockedUntil := t2 + lockoutTime b\<rparr>
         else a\<lparr>la_count := n\<rparr>)"
  by (simp add: RecordFailure_def entry_of_def Let_def split: option.splits)

lemma entry_RecordSuccess:
  "entry_of (RecordSuccess b (Some k)) j =
     (if j = k then \<lparr>la_count = 0, lockedUntil = 0\<rparr> else entry_of b j)"
  by (simp add: RecordSuccess_def entry_of_def)

lemma entry_cleanup:
  "entry_of (cleanup b now) j =
     (let a = entry_of b j
      in if attempts b j \<noteq> None \<and> (lockedUntil a < now \<and> la_count a < maxAttempts b
              \<or> lockedUntil a + cleanupPeriod b < now)
         then \<lparr>la_count = 0, lockedUntil = 0\<rparr> else a)"
  by (auto simp: cleanup_def entry_of_def Let_def split: option.splits)

section \<open>How many guesses\<close>

text \<open>Counters stay non-negative and do not overflow in the next \<open>n\<close> events.\<close>

definition bf_small :: "int \<Rightarrow> BruteForce \<Rightarrow> bool" where
  "bf_small n b \<longleftrightarrow> (\<forall>k. 0 \<le> la_count (entry_of b k) \<and> la_count (entry_of b k) + n \<le> int64_max)"

lemma bf_small_step:
  assumes "bf_small (n + 1) b" and "0 \<le> n"
  shows "bf_small n (snd (bf_step e b))"
proof -
  have c: "0 \<le> la_count (entry_of b k)" "la_count (entry_of b k) + (n + 1) \<le> int64_max" for k
    using assms(1) by (auto simp: bf_small_def)
  have n: "int64 (la_count (entry_of b k) + 1) = la_count (entry_of b k) + 1" for k
    using c [of k] assms(2) by (intro int64_id) (simp add: in_int64_def int64_min_def)
  have z: "n \<le> int64_max" using c [of "[]"] assms(2) by linarith
  show ?thesis
  proof (cases e)
    case (Guess k t t1 t2 ok)
    have "0 \<le> la_count (entry_of (snd (bf_step e b)) j) \<and> la_count (entry_of (snd (bf_step e b)) j) + n \<le> int64_max" for j
      using c [of j] c [of k] z assms(2)
      by (auto simp: Guess entry_RecordFailure entry_RecordSuccess Let_def n)
    then show ?thesis by (simp add: bf_small_def)
  next
    case (Clean now)
    have "0 \<le> la_count (entry_of (snd (bf_step e b)) j) \<and> la_count (entry_of (snd (bf_step e b)) j) + n \<le> int64_max" for j
      using c [of j] z by (auto simp: Clean entry_cleanup Let_def)
    then show ?thesis by (simp add: bf_small_def)
  qed
qed

lemma bf_small_mono: "bf_small n b \<Longrightarrow> m \<le> n \<Longrightarrow> bf_small m b"
  unfolding bf_small_def by (meson add_left_mono order_trans)

text \<open>The guesses an address has left before it is locked beyond \<open>W\<close>.\<close>

definition budget :: "int \<Rightarrow> string \<Rightarrow> BruteForce \<Rightarrow> int" where
  "budget W k b =
     (let a = entry_of b k
      in if W \<le> lockedUntil a then 0
         else if la_count a < maxAttempts b then maxAttempts b - la_count a else 1)"

lemma budget_nonneg: "0 \<le> budget W k b"
  by (simp add: budget_def Let_def)

lemma budget_le: "bf_small n b \<Longrightarrow> 1 \<le> maxAttempts b \<Longrightarrow> budget W k b \<le> maxAttempts b"
  by (auto simp: budget_def Let_def bf_small_def)

lemma budget_other: "entry_of b' k = entry_of b k \<Longrightarrow> maxAttempts b' = maxAttempts b \<Longrightarrow> budget W k b' = budget W k b"
  by (simp add: budget_def Let_def)

lemma budget_guess:
  assumes "bf_small 1 b" and "1 \<le> maxAttempts b" and "0 \<le> t" "t < W" "t \<le> t1" "W \<le> t2 + lockoutTime b"
  shows "(if fst (bf_step (Guess k t t1 t2 False) b) then 1 else 0) + budget W k (snd (bf_step (Guess k t t1 t2 False) b))
     \<le> budget W k b"
proof (cases "t < lockedUntil (entry_of b k)")
  case True
  with assms(3) show ?thesis by (simp add: CheckBlocked_entry)
next
  case False
  have n: "int64 (la_count (entry_of b k) + 1) = la_count (entry_of b k) + 1"
    using assms(1) by (intro int64_id) (simp add: bf_small_def in_int64_def int64_min_def)
  have "entry_of (RecordFailure b (Some k) t1 t2) k =
     (if la_count (entry_of b k) + 1 \<ge> maxAttempts b
      then (entry_of b k)\<lparr>la_count := la_count (entry_of b k) + 1, lockedUntil := t2 + lockoutTime b\<rparr>
      else (entry_of b k)\<lparr>la_count := la_count (entry_of b k) + 1\<rparr>)"
    using False assms(5) by (simp add: entry_RecordFailure Let_def n)
  moreover have "maxAttempts (RecordFailure b (Some k) t1 t2) = maxAttempts b"
    by (simp add: RecordFailure_def Let_def)
  ultimately show ?thesis using False assms(3,4,6)
    by (simp add: CheckBlocked_entry budget_def Let_def)
qed

lemma budget_clean:
  assumes "bf_small 0 b" and "1 \<le> maxAttempts b" and "now < W" and "0 \<le> cleanupPeriod b" and "0 < W"
  shows "budget W k (cleanup b now) \<le> budget W k b + (maxAttempts b - 1)"
proof -
  have "maxAttempts (cleanup b now) = maxAttempts b" by (simp add: cleanup_def)
  moreover have "0 \<le> la_count (entry_of b k)" using assms(1) by (simp add: bf_small_def)
  ultimately show ?thesis using assms(2-5) by (auto simp: budget_def entry_cleanup Let_def)
qed

definition in_window :: "int \<Rightarrow> int \<Rightarrow> bf_event \<Rightarrow> bool" where
  "in_window w W e \<longleftrightarrow> (\<forall>t \<in> set (event_times e). w \<le> t \<and> t < W) \<and> sorted (event_times e)"

fun wrong_guess :: "string \<Rightarrow> bf_event \<Rightarrow> bool" where
  "wrong_guess k (Guess k' t t1 t2 ok) \<longleftrightarrow> (k' = k \<longrightarrow> \<not> ok)"
| "wrong_guess k (Clean t) \<longleftrightarrow> True"

lemma guesses_budget:
  assumes "1 \<le> maxAttempts b" and "0 \<le> cleanupPeriod b" and "bf_small (int (length es)) b" and "0 \<le> w"
    and "W \<le> w + lockoutTime b" and "list_all (in_window w W) es" and "list_all (wrong_guess k) es"
  shows "int (guesses_of k es b) \<le> budget W k b + int (cleans es) * (maxAttempts b - 1)"
  using assms
proof (induction es arbitrary: b)
  case Nil
  then show ?case by (simp add: budget_nonneg)
next
  case (Cons e es)
  let ?b = "snd (bf_step e b)"
  have small: "bf_small (int (length es)) ?b"
    by (rule bf_small_step) (use Cons.prems(3) in \<open>simp_all add: add.commute\<close>)
  have IH: "int (guesses_of k es ?b) \<le> budget W k ?b + int (cleans es) * (maxAttempts b - 1)"
    using Cons.IH [of ?b] Cons.prems small by simp
  have now: "bf_small 1 b" "bf_small 0 b" using Cons.prems(3) by (auto elim: bf_small_mono)
  show ?case
  proof (cases e)
    case (Guess k' t t1 t2 ok)
    have times: "w \<le> t" "t < W" "t \<le> t1" "w \<le> t2" using Cons.prems(6) by (auto simp: Guess in_window_def)
    show ?thesis
    proof (cases "k' = k")
      case True
      with Cons.prems(7) Guess have e: "e = Guess k t t1 t2 False" by simp
      have "(if fst (bf_step e b) then 1 else 0) + budget W k ?b \<le> budget W k b"
        unfolding e by (rule budget_guess) (use Cons.prems now times in auto)
      with IH show ?thesis by (simp add: e split: if_splits del: bf_step.simps)
    next
      case False
      then have "entry_of ?b k = entry_of b k"
        by (simp add: Guess entry_RecordFailure entry_RecordSuccess Let_def)
      then have "budget W k ?b = budget W k b" by (rule budget_other) simp
      with IH False show ?thesis by (simp add: Guess del: bf_step.simps)
    qed
  next
    case (Clean t)
    have t: "w \<le> t" "t < W" using Cons.prems(6) by (auto simp: Clean in_window_def)
    then have "budget W k ?b \<le> budget W k b + (maxAttempts b - 1)"
      unfolding Clean using budget_clean [OF now(2) Cons.prems(1) t(2) Cons.prems(2)] Cons.prems(4) by simp
    with IH show ?thesis by (simp add: Clean algebra_simps)
  qed
qed


text \<open>
  A lock holds: from the failure that locks an address until its lockout time has passed, the
  address stays blocked, whatever guesses anybody makes and whenever the cleaning loop runs.
\<close>

theorem lock_holds:
  assumes "L = lockedUntil (entry_of b k)" and "0 \<le> cleanupPeriod b"
    and "list_all (in_window 0 L) es" and "0 \<le> t" and "t < L"
  shows "CheckBlocked (bf_run es b) (Some k) t"
  using assms
proof (induction es arbitrary: b)
  case Nil
  then show ?case by (simp add: CheckBlocked_entry)
next
  case (Cons e es)
  have "entry_of (snd (bf_step e b)) k = entry_of b k"
  proof (cases e)
    case (Guess k' u u1 u2 ok)
    have u: "0 \<le> u" "u < L" using Cons.prems(3) by (auto simp: Guess in_window_def)
    show ?thesis
    proof (cases "k' = k")
      case True
      then have "CheckBlocked b (Some k') u" using u Cons.prems(1) by (simp add: CheckBlocked_entry)
      then show ?thesis by (simp add: Guess)
    next
      case False
      then show ?thesis by (simp add: Guess entry_RecordFailure entry_RecordSuccess Let_def)
    qed
  next
    case (Clean now)
    have "now < L" using Cons.prems(3) by (simp add: Clean in_window_def)
    with Cons.prems(1,2) show ?thesis by (simp add: Clean entry_cleanup Let_def)
  qed
  with Cons.IH [of "snd (bf_step e b)"] Cons.prems show ?case by simp
qed

text \<open>
  The login form and the creation of pastes are such guesses: with a password file in place, each
  changes the protection as one guess does, and lets the client in exactly when the guess was not
  blocked and the password is right.
\<close>

theorem handlers_are_guesses:
  assumes "CasPasswdFile e \<noteq> []" and "passwd_stat e"
    and "LoadAndCheckWithRehash (env_argon e) (env_bcrypt e) (passwd_file e) (f ''username'') (f ''password'')
       = Some (Inr (ok, rehash))"
    and "LoadAndCheck (env_argon e) (env_bcrypt e) (passwd_file e) u p = Some (Inr ok')"
  shows "(case handleLoginSubmit e (Some f) (Some k) (t, t1, t2) (Some b) of (r, bf) \<Rightarrow>
       bf = Some (snd (bf_step (Guess k t t1 t2 ok) b))
       \<and> ((\<exists>url n. r = Logged_in url n) \<longleftrightarrow> fst (bf_step (Guess k t t1 t2 ok) b) \<and> ok))
     \<and> (case createPaste_auth e False (Some (u, p)) (Some k) (t, t1, t2) (Some b) of (r, bf) \<Rightarrow>
       bf = Some (snd (bf_step (Guess k t t1 t2 ok') b))
       \<and> (r = Auth_ok \<longleftrightarrow> fst (bf_step (Guess k t t1 t2 ok') b) \<and> ok'))"
  using assms
  by (cases "CheckBlocked b (Some k) t"; cases ok; cases ok')
    (simp_all add: handleLoginSubmit_def createPaste_auth_def blocked_def on_failure_def Let_def)

text \<open>
  The settings page has no such protection: while the login form refuses a locked address without
  looking at its password, the settings page goes on answering whether a user and a password are
  right, as often as it is asked.
\<close>

theorem settings_ignores_lock:
  assumes "blocked bf ip t" and "CasPasswdFile e \<noteq> []"
  shows "(\<exists>ra. handleLoginSubmit e (Some f) ip (t, t1, t2) bf
       = (Login_error (if f ''redirect'' = [] then ''/'' else f ''redirect'') ra, bf))
     \<and> handleSettings_auth e (Some (u, p))
       = LoadAndCheck (env_argon e) (env_bcrypt e) (passwd_file e) u p"
  using assms by (auto simp: handleLoginSubmit_def handleSettings_auth_def Let_def)

section \<open>Concrete runs\<close>

definition sample_env :: auth_env where
  "sample_env = \<lparr>env_argon = sample_argon, env_bcrypt = (\<lambda>h p. p = ''pw''), CasPasswdFile = ''passwd'',
     passwd_stat = True, passwd_file = Some ''bob:$2a$10$old''\<rparr>"

definition fresh_bf :: BruteForce where
  "fresh_bf = NewBruteForceProtection 2 1000 0"

definition sample_guesses :: "bf_event list" where
  "sample_guesses = [Guess ''a'' 10 11 12 False, Clean 20, Guess ''a'' 30 31 32 False,
     Guess ''a'' 40 41 42 False, Guess ''a'' 50 51 52 False]"


lemma lock_holds_witness:
  "CheckBlocked (bf_run [Clean 500, Guess ''a'' 600 600 600 True]
     (bf_run sample_guesses fresh_bf)) (Some ''a'') 1041"
proof -
  have "lockedUntil (entry_of (bf_run sample_guesses fresh_bf) ''a'') = 1042"
    "list_all (in_window 0 1042) [Clean 500, Guess ''a'' 600 600 600 True]"
    "0 \<le> cleanupPeriod (bf_run sample_guesses fresh_bf)" by code_simp+
  then show ?thesis by (intro lock_holds [of 1042]) simp_all
qed

lemma handlers_are_guesses_witness:
  "fst (handleLoginSubmit sample_env (Some (\<lambda>n. if n = ''username'' then ''bob'' else if n = ''password'' then ''pw'' else []))
     (Some ''a'') (5, 6, 7) (Some fresh_bf)) = Logged_in ''/'' True
   \<and> snd (createPaste_auth sample_env False (Some (''bob'', ''no'')) (Some ''a'') (5, 6, 7) (Some fresh_bf))
     = Some (snd (bf_step (Guess ''a'' 5 6 7 False) fresh_bf))"
proof -
  let ?f = "\<lambda>n. if n = ''username'' then ''bob'' else if n = ''password'' then ''pw'' else []"
  have "LoadAndCheckWithRehash (env_argon sample_env) (env_bcrypt sample_env) (passwd_file sample_env)
      (?f ''username'') (?f ''password'') = Some (Inr (True, True))"
    "LoadAndCheck (env_argon sample_env) (env_bcrypt sample_env) (passwd_file sample_env) ''bob'' ''no''
      = Some (Inr False)" by code_simp+
  note h = handlers_are_guesses [of sample_env ?f True True "''bob''" "''no''" False "''a''" 5 6 7 fresh_bf, OF _ _ this]
  have "CasPasswdFile sample_env \<noteq> []" "passwd_stat sample_env" by (simp_all add: sample_env_def)
  from h [OF this] have "snd (createPaste_auth sample_env False (Some (''bob'', ''no'')) (Some ''a'') (5, 6, 7) (Some fresh_bf))
     = Some (snd (bf_step (Guess ''a'' 5 6 7 False) fresh_bf))" by (simp add: case_prod_beta)
  moreover have "fst (handleLoginSubmit sample_env (Some ?f) (Some ''a'') (5, 6, 7) (Some fresh_bf)) = Logged_in ''/'' True"
    by code_simp
  ultimately show ?thesis by blast
qed

lemma settings_ignores_lock_witness:
  "blocked (Some (bf_run sample_guesses fresh_bf)) (Some ''a'') 1000
   \<and> handleSettings_auth sample_env (Some (''bob'', ''pw'')) = Some (Inr True)"
proof -
  have "blocked (Some (bf_run sample_guesses fresh_bf)) (Some ''a'') 1000" "CasPasswdFile sample_env \<noteq> []"
    "LoadAndCheck (env_argon sample_env) (env_bcrypt sample_env) (passwd_file sample_env) ''bob'' ''pw''
      = Some (Inr True)" by code_simp+
  with settings_ignores_lock [of "Some (bf_run sample_guesses fresh_bf)" "Some ''a''" 1000 sample_env]
  show ?thesis by metis
qed

end
