(* ===== verification/Sessions.thy ===== *)
theory Sessions
  imports Tables Go_Conv
begin

text \<open>
  User sessions (\<open>session/session.go\<close>) on the table \<open>user_sessions\<close>, whose token hash is unique. A
  session is known by its token; only the hash of a token is stored. \<open>H\<close> is the hash function of the
  standard library (SHA-256 in hexadecimal); where a property relies on two tokens having different
  hashes, it says so. Clock readings are in nanoseconds; each statement takes effect or fails, which
  is an argument.
\<close>

section \<open>The table\<close>

record Session =
  ses_ID :: int
  ses_UserID :: int
  ses_TokenHash :: string
  ses_Device :: string
  ses_IPAddress :: string
  ses_UserAgent :: string
  ses_ExpiresAt :: int
  ses_CreatedAt :: int

text \<open>The identifiers are handed out by the database in increasing order.\<close>

record session_db =
  ses_rows :: "Session list"
  ses_next :: int

datatype session_error = ErrSessionNotFound | ErrSessionExpired | ErrInvalidSession
  | Session_sql | Session_rand

definition second :: int where "second = 1000000000"

definition DefaultSessionDuration :: int where
  "DefaultSessionDuration = 30 * 24 * 3600 * second"

definition unix :: "int \<Rightarrow> int" where
  "unix ns = ns div second"

section \<open>Operations\<close>

text \<open>\<open>bytes\<close> are the 32 random bytes of a token, \<open>None\<close> if they cannot be read.\<close>

definition generateToken :: "string option \<Rightarrow> string option" where
  "generateToken bytes = map_option hex_encode bytes"

definition Create ::
    "(string \<Rightarrow> string) \<Rightarrow> int \<Rightarrow> string option \<Rightarrow> int \<Rightarrow> int \<Rightarrow> bool \<Rightarrow> int \<Rightarrow> string \<Rightarrow> string \<Rightarrow> string \<Rightarrow>
     session_db \<Rightarrow> (session_error + string) \<times> session_db" where
  "Create H duration bytes now1 now2 ok userID device ipAddress userAgent d =
     (case generateToken bytes of
        None \<Rightarrow> (Inl Session_rand, d)
      | Some token \<Rightarrow>
          let r = \<lparr>ses_ID = ses_next d, ses_UserID = userID, ses_TokenHash = H token, ses_Device = device,
                   ses_IPAddress = ipAddress, ses_UserAgent = userAgent,
                   ses_ExpiresAt = unix (now2 + duration), ses_CreatedAt = unix now1\<rparr>
          in if \<not> ok then (Inl Session_sql, d)
             else (case tbl_insert ses_TokenHash r (ses_rows d) of
                 None \<Rightarrow> (Inl Session_sql, d)
               | Some rows \<Rightarrow> (Inr token, d\<lparr>ses_rows := rows, ses_next := ses_next d + 1\<rparr>)))"

definition delete_where :: "bool \<Rightarrow> (Session \<Rightarrow> bool) \<Rightarrow> session_db \<Rightarrow> (session_error + unit) \<times> session_db" where
  "delete_where ok P d =
     (if ok then (Inr (), d\<lparr>ses_rows := tbl_delete P (ses_rows d)\<rparr>) else (Inl Session_sql, d))"

definition Delete :: "(string \<Rightarrow> string) \<Rightarrow> bool \<Rightarrow> string \<Rightarrow> session_db \<Rightarrow> (session_error + unit) \<times> session_db" where
  "Delete H ok token = delete_where ok (\<lambda>r. ses_TokenHash r = H token)"

definition DeleteByID :: "bool \<Rightarrow> int \<Rightarrow> session_db \<Rightarrow> (session_error + unit) \<times> session_db" where
  "DeleteByID ok sessionID = delete_where ok (\<lambda>r. ses_ID r = sessionID)"

definition DeleteAllForUser :: "bool \<Rightarrow> int \<Rightarrow> session_db \<Rightarrow> (session_error + unit) \<times> session_db" where
  "DeleteAllForUser ok userID = delete_where ok (\<lambda>r. ses_UserID r = userID)"

definition DeleteAllExcept ::
    "(string \<Rightarrow> string) \<Rightarrow> bool \<Rightarrow> int \<Rightarrow> string \<Rightarrow> session_db \<Rightarrow> (session_error + unit) \<times> session_db" where
  "DeleteAllExcept H ok userID currentToken =
     delete_where ok (\<lambda>r. ses_UserID r = userID \<and> ses_TokenHash r \<noteq> H currentToken)"

text \<open>An expired session is deleted, and the error of that is ignored (\<open>okd\<close>).\<close>

definition Validate ::
    "(string \<Rightarrow> string) \<Rightarrow> bool \<Rightarrow> bool \<Rightarrow> int \<Rightarrow> string \<Rightarrow> session_db \<Rightarrow>
     (session_error + Session) \<times> session_db" where
  "Validate H ok okd now token d =
     (if token = [] then (Inl ErrInvalidSession, d)
      else if \<not> ok then (Inl Session_sql, d)
      else (case tbl_find ses_TokenHash (H token) (ses_rows d) of
          None \<Rightarrow> (Inl ErrSessionNotFound, d)
        | Some session \<Rightarrow>
            if ses_ExpiresAt session < unix now
            then (Inl ErrSessionExpired, snd (Delete H okd token d))
            else (Inr session, d)))"

definition GetUserID ::
    "(string \<Rightarrow> string) \<Rightarrow> bool \<Rightarrow> bool \<Rightarrow> int \<Rightarrow> string \<Rightarrow> session_db \<Rightarrow>
     (session_error + int) \<times> session_db" where
  "GetUserID H ok okd now token d =
     (case Validate H ok okd now token d of
        (Inl e, d) \<Rightarrow> (Inl e, d)
      | (Inr session, d) \<Rightarrow> (Inr (ses_UserID session), d))"

text \<open>The newest first; the order of equal times is the table's here. The hash is not read.\<close>

definition ListForUser :: "bool \<Rightarrow> int \<Rightarrow> session_db \<Rightarrow> session_error + Session list" where
  "ListForUser ok userID d =
     (if \<not> ok then Inl Session_sql
      else Inr (map (\<lambda>r. r\<lparr>ses_TokenHash := []\<rparr>)
        (sort_key (\<lambda>r. - ses_CreatedAt r) (filter (\<lambda>r. ses_UserID r = userID) (ses_rows d)))))"

definition CleanupExpired :: "bool \<Rightarrow> int \<Rightarrow> session_db \<Rightarrow> (session_error + nat) \<times> session_db" where
  "CleanupExpired ok now d =
     (if \<not> ok then (Inl Session_sql, d)
      else (Inr (tbl_count (\<lambda>r. ses_ExpiresAt r < unix now) (ses_rows d)),
            d\<lparr>ses_rows := tbl_delete (\<lambda>r. ses_ExpiresAt r < unix now) (ses_rows d)\<rparr>))"

definition Extend ::
    "(string \<Rightarrow> string) \<Rightarrow> int \<Rightarrow> bool \<Rightarrow> int \<Rightarrow> string \<Rightarrow> session_db \<Rightarrow> (session_error + unit) \<times> session_db" where
  "Extend H duration ok now token d =
     (if \<not> ok then (Inl Session_sql, d)
      else (Inr (), d\<lparr>ses_rows := tbl_update (\<lambda>r. ses_TokenHash r = H token)
                        (\<lambda>r. r\<lparr>ses_ExpiresAt := unix (now + duration)\<rparr>) (ses_rows d)\<rparr>))"

definition IsExpired :: "int \<Rightarrow> Session \<Rightarrow> bool" where
  "IsExpired now session \<longleftrightarrow> ses_ExpiresAt session < unix now"

definition TimeUntilExpiry :: "int \<Rightarrow> Session \<Rightarrow> int" where
  "TimeUntilExpiry now session = ses_ExpiresAt session * second - now"

section \<open>Runs\<close>

datatype ses_op =
    Op_create int "string option" int int bool int string string string
  | Op_validate bool bool int string
  | Op_delete bool string
  | Op_delete_id bool int
  | Op_delete_user bool int
  | Op_delete_except bool int string
  | Op_cleanup bool int
  | Op_extend int bool int string

fun ses_step :: "(string \<Rightarrow> string) \<Rightarrow> ses_op \<Rightarrow> session_db \<Rightarrow> session_db" where
  "ses_step H (Op_create dur b n1 n2 ok u dev ip ua) d = snd (Create H dur b n1 n2 ok u dev ip ua d)"
| "ses_step H (Op_validate ok okd now t) d = snd (Validate H ok okd now t d)"
| "ses_step H (Op_delete ok t) d = snd (Delete H ok t d)"
| "ses_step H (Op_delete_id ok i) d = snd (DeleteByID ok i d)"
| "ses_step H (Op_delete_user ok u) d = snd (DeleteAllForUser ok u d)"
| "ses_step H (Op_delete_except ok u t) d = snd (DeleteAllExcept H ok u t d)"
| "ses_step H (Op_cleanup ok now) d = snd (CleanupExpired ok now d)"
| "ses_step H (Op_extend dur ok now t) d = snd (Extend H dur ok now t d)"

definition ses_run :: "(string \<Rightarrow> string) \<Rightarrow> ses_op list \<Rightarrow> session_db \<Rightarrow> session_db" where
  "ses_run H ops d = fold (ses_step H) ops d"

definition session_of :: "session_db \<Rightarrow> string \<Rightarrow> Session option" where
  "session_of d h = tbl_find ses_TokenHash h (ses_rows d)"

definition sessions_ok :: "session_db \<Rightarrow> bool" where
  "sessions_ok d \<longleftrightarrow> tbl_ok ses_TokenHash (ses_rows d)"

section \<open>Sessions as a map\<close>

text \<open>
  The specification: sessions are a finite map from token hashes, and the operations add, drop and
  extend entries of it.
\<close>

definition keep :: "('a \<Rightarrow> bool) \<Rightarrow> ('k \<rightharpoonup> 'a) \<Rightarrow> 'k \<rightharpoonup> 'a" where
  "keep P m = (\<lambda>k. case m k of None \<Rightarrow> None | Some r \<Rightarrow> if P r then Some r else None)"

fun ses_spec :: "(string \<Rightarrow> string) \<Rightarrow> ses_op \<Rightarrow> int \<Rightarrow> (string \<rightharpoonup> Session) \<Rightarrow> string \<rightharpoonup> Session" where
  "ses_spec H (Op_create dur b n1 n2 ok u dev ip ua) n m =
     (case b of
        None \<Rightarrow> m
      | Some bytes \<Rightarrow>
          let h = H (hex_encode bytes)
          in if ok \<and> m h = None then m(h \<mapsto> \<lparr>ses_ID = n, ses_UserID = u, ses_TokenHash = h,
               ses_Device = dev, ses_IPAddress = ip, ses_UserAgent = ua,
               ses_ExpiresAt = unix (n2 + dur), ses_CreatedAt = unix n1\<rparr>) else m)"
| "ses_spec H (Op_validate ok okd now t) n m =
     (case m (H t) of
        Some s \<Rightarrow> if t \<noteq> [] \<and> ok \<and> okd \<and> ses_ExpiresAt s < unix now then m(H t := None) else m
      | None \<Rightarrow> m)"
| "ses_spec H (Op_delete ok t) n m = (if ok then m(H t := None) else m)"
| "ses_spec H (Op_delete_id ok i) n m = (if ok then keep (\<lambda>r. ses_ID r \<noteq> i) m else m)"
| "ses_spec H (Op_delete_user ok u) n m = (if ok then keep (\<lambda>r. ses_UserID r \<noteq> u) m else m)"
| "ses_spec H (Op_delete_except ok u t) n m =
     (if ok then keep (\<lambda>r. ses_UserID r = u \<longrightarrow> ses_TokenHash r = H t) m else m)"
| "ses_spec H (Op_cleanup ok now) n m = (if ok then keep (\<lambda>r. unix now \<le> ses_ExpiresAt r) m else m)"
| "ses_spec H (Op_extend dur ok now t) n m =
     (if ok then m(H t := map_option (\<lambda>r. r\<lparr>ses_ExpiresAt := unix (now + dur)\<rparr>) (m (H t))) else m)"

lemma sessions_ok_step: "sessions_ok d \<Longrightarrow> sessions_ok (ses_step H a d)"
  by (cases a)
    (auto simp: sessions_ok_def Create_def Validate_def Delete_def DeleteByID_def DeleteAllForUser_def
      DeleteAllExcept_def delete_where_def CleanupExpired_def Extend_def Let_def
      intro: tbl_ok_insert tbl_ok_delete tbl_ok_update split: option.splits if_splits)

lemma session_of_hash: "session_of d h = Some s \<Longrightarrow> ses_TokenHash s = h"
  unfolding session_of_def by (auto dest: tbl_find_Some)

lemma session_of_delete:
  assumes "sessions_ok d"
  shows "session_of (d\<lparr>ses_rows := tbl_delete P (ses_rows d)\<rparr>) = keep (\<lambda>r. \<not> P r) (session_of d)"
  using assms by (intro ext) (simp add: session_of_def keep_def sessions_ok_def tbl_find_delete
      split: option.splits)

lemma keep_hash: "keep (\<lambda>r. ses_TokenHash r \<noteq> h) (session_of d) = (session_of d)(h := None)"
  by (rule ext) (auto simp: keep_def dest: session_of_hash split: option.splits)

lemma session_of_Delete:
  "sessions_ok d \<Longrightarrow> session_of (snd (Delete H ok t d)) = (if ok then (session_of d)(H t := None) else session_of d)"
  by (simp add: Delete_def delete_where_def session_of_delete keep_hash)

lemma session_of_Create:
  "session_of (snd (Create H dur b n1 n2 ok u dev ip ua d)) =
     ses_spec H (Op_create dur b n1 n2 ok u dev ip ua) (ses_next d) (session_of d)"
proof (cases b)
  case (Some bytes)
  let ?h = "H (hex_encode bytes)"
  let ?r = "\<lparr>ses_ID = ses_next d, ses_UserID = u, ses_TokenHash = ?h, ses_Device = dev, ses_IPAddress = ip,
    ses_UserAgent = ua, ses_ExpiresAt = unix (n2 + dur), ses_CreatedAt = unix n1\<rparr>"
  show ?thesis
  proof (cases "tbl_insert ses_TokenHash ?r (ses_rows d)")
    case None
    then have "session_of d ?h \<noteq> None"
      by (auto simp: session_of_def tbl_find_None tbl_insert_def split: if_splits)
    then obtain y where "session_of d ?h = Some y" by blast
    with None Some show ?thesis by (simp add: Create_def generateToken_def Let_def)
  next
    case ins: (Some rows)
    then have "session_of d ?h = None"
      by (auto simp: session_of_def tbl_find_None tbl_insert_def split: if_splits)
    moreover have "session_of (d\<lparr>ses_rows := rows, ses_next := ses_next d + 1\<rparr>) = (session_of d)(?h \<mapsto> ?r)"
      by (rule ext) (simp add: session_of_def tbl_find_insert [OF ins])
    ultimately show ?thesis using ins Some by (simp add: Create_def generateToken_def Let_def)
  qed
qed (simp add: Create_def generateToken_def)

lemma session_of_Extend:
  "session_of (snd (Extend H dur ok now t d)) =
     ses_spec H (Op_extend dur ok now t) n (session_of d)"
proof (rule ext)
  fix h
  show "session_of (snd (Extend H dur ok now t d)) h = ses_spec H (Op_extend dur ok now t) n (session_of d) h"
  proof (cases "session_of d h")
    case None
    then show ?thesis by (auto simp: Extend_def session_of_def tbl_find_update)
  next
    case (Some s)
    with session_of_hash [OF Some] show ?thesis
      by (auto simp: Extend_def session_of_def tbl_find_update)
  qed
qed

lemma session_of_step:
  assumes "sessions_ok d"
  shows "session_of (ses_step H a d) = ses_spec H a (ses_next d) (session_of d)"
proof (cases a)
  case (Op_create dur b n1 n2 ok u dev ip ua)
  then show ?thesis by (simp only: ses_step.simps session_of_Create)
next
  case (Op_validate ok okd now t)
  then show ?thesis using session_of_Delete [OF assms]
    by (auto simp: Validate_def session_of_def split: option.splits)
next
  case (Op_delete ok t)
  then show ?thesis by (simp add: session_of_Delete [OF assms])
next
  case (Op_delete_id ok i)
  then show ?thesis by (simp add: DeleteByID_def delete_where_def session_of_delete [OF assms])
next
  case (Op_delete_user ok u)
  then show ?thesis by (simp add: DeleteAllForUser_def delete_where_def session_of_delete [OF assms])
next
  case (Op_delete_except ok u t)
  then show ?thesis
    by (simp add: DeleteAllExcept_def delete_where_def session_of_delete [OF assms])
next
  case (Op_cleanup ok now)
  then show ?thesis by (simp add: CleanupExpired_def session_of_delete [OF assms] not_less)
next
  case (Op_extend dur ok now t)
  then show ?thesis by (simp only: ses_step.simps session_of_Extend)
qed

text \<open>
  C32: The session service implements that map: each operation changes the sessions known by their hash
  exactly as the specification says, whichever statements fail.
\<close>

theorem sessions_refine_map:
  assumes "sessions_ok d"
  shows "session_of (ses_step H a d) = ses_spec H a (ses_next d) (session_of d) \<and> sessions_ok (ses_step H a d)"
  using session_of_step [OF assms] sessions_ok_step [OF assms] by blast

section \<open>The life of a session\<close>

text \<open>The operations that create a session under a hash.\<close>

fun ses_issues :: "(string \<Rightarrow> string) \<Rightarrow> ses_op \<Rightarrow> string \<Rightarrow> bool" where
  "ses_issues H (Op_create dur (Some bytes) n1 n2 ok u dev ip ua) h \<longleftrightarrow> H (hex_encode bytes) = h"
| "ses_issues H a h \<longleftrightarrow> False"

interpretation sess: revocable "ses_step H" session_of sessions_ok "ses_issues H" for H
proof
  show "session_of (ses_step H a d) h = None"
    if "sessions_ok d" "\<not> ses_issues H a h" "session_of d h = None" for a d h
    using that by (cases a) (auto simp: session_of_step keep_def Let_def simp del: ses_step.simps split: option.splits)
qed (rule sessions_ok_step)

text \<open>
  The operations that end or change the session \<open>s\<close> of token \<open>t\<close>: revoking it in one of four ways,
  extending it, and validating or cleaning after its expiry.
\<close>

fun ses_touches :: "string \<Rightarrow> Session \<Rightarrow> ses_op \<Rightarrow> bool" where
  "ses_touches t s (Op_create dur b n1 n2 ok u dev ip ua) = False"
| "ses_touches t s (Op_validate ok okd now t') \<longleftrightarrow> t' = t \<and> ses_ExpiresAt s < unix now"
| "ses_touches t s (Op_delete ok t') \<longleftrightarrow> t' = t"
| "ses_touches t s (Op_delete_id ok i) \<longleftrightarrow> i = ses_ID s"
| "ses_touches t s (Op_delete_user ok u) \<longleftrightarrow> u = ses_UserID s"
| "ses_touches t s (Op_delete_except ok u t') \<longleftrightarrow> u = ses_UserID s \<and> t' \<noteq> t"
| "ses_touches t s (Op_cleanup ok now) \<longleftrightarrow> ses_ExpiresAt s < unix now"
| "ses_touches t s (Op_extend dur ok now t') \<longleftrightarrow> t' = t"

fun ses_tokens :: "ses_op \<Rightarrow> string list" where
  "ses_tokens (Op_validate ok okd now t) = [t]"
| "ses_tokens (Op_delete ok t) = [t]"
| "ses_tokens (Op_delete_except ok u t) = [t]"
| "ses_tokens (Op_extend dur ok now t) = [t]"
| "ses_tokens _ = []"

text \<open>No token of the run has the hash of \<open>t\<close> but \<open>t\<close>.\<close>

definition no_collision :: "(string \<Rightarrow> string) \<Rightarrow> string \<Rightarrow> ses_op list \<Rightarrow> bool" where
  "no_collision H t as \<longleftrightarrow> list_all (\<lambda>a. list_all (\<lambda>t'. H t' = H t \<longrightarrow> t' = t) (ses_tokens a)) as"

lemma untouched_step:
  assumes "sessions_ok d" and "session_of d (H t) = Some s" and "\<not> ses_touches t s a"
    and "no_collision H t [a]"
  shows "session_of (ses_step H a d) (H t) = Some s"
  using assms session_of_hash [OF assms(2)]
  by (cases a) (auto simp: session_of_step keep_def Let_def no_collision_def simp del: ses_step.simps
      split: option.splits)

lemma untouched_run:
  "sessions_ok d \<Longrightarrow> session_of d (H t) = Some s \<Longrightarrow> list_all (\<lambda>a. \<not> ses_touches t s a) as \<Longrightarrow>
     no_collision H t as \<Longrightarrow> session_of (ses_run H as d) (H t) = Some s"
proof (induction as arbitrary: d)
  case (Cons a as)
  then have "session_of (ses_step H a d) (H t) = Some s"
    by (intro untouched_step) (simp_all add: no_collision_def)
  with Cons sessions_ok_step [OF Cons.prems(1)] show ?case by (simp add: ses_run_def no_collision_def)
qed (simp add: ses_run_def)

text \<open>
  A session lives until it expires or is revoked: after any run of operations that neither
  revoke nor extend it, a token is validated to its session up to the second of its expiry and
  answered with the error for expired sessions afterwards.
\<close>

theorem session_lives_until_expiry:
  assumes "sessions_ok d" and "session_of d (H t) = Some s" and "t \<noteq> []"
    and "list_all (\<lambda>a. \<not> ses_touches t s a) as" and "no_collision H t as"
  shows "fst (Validate H True okd now t (ses_run H as d)) =
     (if ses_ExpiresAt s < unix now then Inl ErrSessionExpired else Inr s)"
  using untouched_run [OF assms(1,2,4,5)] assms(3) by (simp add: Validate_def session_of_def)

text \<open>The four ways to revoke the session \<open>s\<close> of token \<open>t\<close>.\<close>

fun ses_revokes :: "(string \<Rightarrow> string) \<Rightarrow> string \<Rightarrow> Session \<Rightarrow> ses_op \<Rightarrow> bool" where
  "ses_revokes H t s (Op_delete ok t') \<longleftrightarrow> ok \<and> H t' = H t"
| "ses_revokes H t s (Op_delete_id ok i) \<longleftrightarrow> ok \<and> i = ses_ID s"
| "ses_revokes H t s (Op_delete_user ok u) \<longleftrightarrow> ok \<and> u = ses_UserID s"
| "ses_revokes H t s (Op_delete_except ok u t') \<longleftrightarrow> ok \<and> u = ses_UserID s \<and> H t' \<noteq> H t"
| "ses_revokes H t s _ \<longleftrightarrow> False"

lemma revoked_absent:
  "sessions_ok d \<Longrightarrow> session_of d (H t) = Some s \<Longrightarrow> ses_revokes H t s r \<Longrightarrow>
     session_of (ses_step H r d) (H t) = None"
  using session_of_hash [of d "H t" s]
  by (cases r) (auto simp: session_of_step keep_def simp del: ses_step.simps)

text \<open>
  C30: Logging out is final: once a session is revoked, by its token, by its number, with all of its
  user's or as one of the user's other sessions, no run of operations makes its token valid again,
  extensions included, unless a new session draws a token with the same hash.
\<close>

theorem revoked_stays_revoked:
  assumes "sessions_ok d" and "session_of d (H t) = Some s" and "t \<noteq> []" and "ses_revokes H t s r"
    and "list_all (\<lambda>a. \<not> ses_issues H a (H t)) as"
  shows "fst (Validate H True okd now t (ses_run H (r # as) d)) = Inl ErrSessionNotFound"
proof -
  have "session_of (fold (ses_step H) as (ses_step H r d)) (H t) = None"
    by (rule sess.stays_revoked [OF sessions_ok_step [OF assms(1)] revoked_absent [OF assms(1,2,4)] assms(5)])
  with assms(3) show ?thesis by (simp add: Validate_def ses_run_def session_of_def)
qed

section \<open>A concrete session\<close>

definition sample_hash :: "string \<Rightarrow> string" where
  "sample_hash t = ''h:'' @ t"

definition sample_sessions :: session_db where
  "sample_sessions = ses_run sample_hash
     [Op_create (60 * second) (Some ''ab'') 0 0 True 7 ''phone'' ''::1'' ''ua'',
      Op_create (60 * second) (Some ''cd'') 0 0 True 7 ''desk'' ''::1'' ''ua''] \<lparr>ses_rows = [], ses_next = 1\<rparr>"

definition phone_session :: Session where
  "phone_session = \<lparr>ses_ID = 1, ses_UserID = 7, ses_TokenHash = ''h:6162'', ses_Device = ''phone'',
     ses_IPAddress = ''::1'', ses_UserAgent = ''ua'', ses_ExpiresAt = 60, ses_CreatedAt = 0\<rparr>"

lemma sample_sessions_facts:
  "sessions_ok sample_sessions"
  "session_of sample_sessions (sample_hash ''6162'') = Some phone_session"
proof -
  have "ses_rows sample_sessions = [phone_session, phone_session\<lparr>ses_ID := 2, ses_TokenHash := ''h:6364'',
      ses_Device := ''desk''\<rparr>]" by code_simp
  then show "sessions_ok sample_sessions" "session_of sample_sessions (sample_hash ''6162'') = Some phone_session"
    by (simp_all add: sessions_ok_def tbl_ok_def phone_session_def session_of_def tbl_find_def sample_hash_def)
qed

lemma sessions_refine_map_witness:
  "session_of (ses_step sample_hash (Op_delete_user True 7) sample_sessions) (sample_hash ''6162'') = None"
  using sessions_refine_map [OF sample_sessions_facts(1), of sample_hash "Op_delete_user True 7"]
  by (simp add: keep_def sample_sessions_facts(2) phone_session_def del: ses_step.simps)

lemma session_lives_until_expiry_witness:
  "fst (Validate sample_hash True True (60 * second) ''6162'' (ses_run sample_hash
     [Op_cleanup True (59 * second), Op_delete_except True 7 ''6162''] sample_sessions)) = Inr phone_session"
proof -
  have "list_all (\<lambda>a. \<not> ses_touches ''6162'' phone_session a)
      [Op_cleanup True (59 * second), Op_delete_except True 7 ''6162'']"
    "no_collision sample_hash ''6162'' [Op_cleanup True (59 * second), Op_delete_except True 7 ''6162'']"
    "\<not> ses_ExpiresAt phone_session < unix (60 * second)"
    by (simp_all add: phone_session_def unix_def second_def no_collision_def)
  with session_lives_until_expiry [where H = sample_hash and t = "''6162''", OF sample_sessions_facts]
  show ?thesis by simp
qed

lemma revoked_stays_revoked_witness:
  "fst (Validate sample_hash True True 5 ''6162'' (ses_run sample_hash
     (Op_delete_except True 7 ''6364'' # [Op_extend second True 4 ''6162'']) sample_sessions))
   = Inl ErrSessionNotFound"
  by (rule revoked_stays_revoked [where H = sample_hash and t = "''6162''", OF sample_sessions_facts])
    (simp_all add: phone_session_def sample_hash_def)

end
