(* ===== verification/Tokens.thy ===== *)
theory Tokens
  imports Tables Go_Conv
begin

text \<open>
  API tokens (\<open>token/token.go\<close>): user and organisation tokens in their tables, whose token hash is
  unique, and the token of an administrator in a column of \<open>admins\<close>. \<open>H\<close> is the hash function of the
  standard library; a clock reading is in seconds; the outcome of each statement is an argument.
\<close>

section \<open>Tables\<close>

record Token =
  tok_ID :: int
  tok_OwnerID :: int
  tok_OrgID :: int
  tok_CreatedBy :: int
  tok_Name :: string
  tok_TokenPrefix :: string
  tok_TokenHash :: string
  tok_Scopes :: string
  tok_LastUsedAt :: "int option"
  tok_ExpiresAt :: "int option"
  tok_CreatedAt :: int

definition zero_token :: Token where
  "zero_token = \<lparr>tok_ID = 0, tok_OwnerID = 0, tok_OrgID = 0, tok_CreatedBy = 0, tok_Name = [],
     tok_TokenPrefix = [], tok_TokenHash = [], tok_Scopes = [], tok_LastUsedAt = None,
     tok_ExpiresAt = None, tok_CreatedAt = 0\<rparr>"

record admin_row =
  adm_ID :: int
  adm_username :: string
  adm_role :: string
  adm_enabled :: int
  adm_lockedUntil :: "int option"
  adm_token_hash :: "string option"
  adm_updated_at :: int

record token_db =
  user_tokens :: "Token list"
  org_tokens :: "Token list"
  admins :: "admin_row list"
  user_next :: int
  org_next :: int

record TokenInfo =
  ti_Type :: string
  ti_OwnerID :: int
  ti_UserID :: int
  ti_Scopes :: "string list"
  ti_Token :: Token

datatype token_error = ErrTokenNotFound | ErrTokenExpired | ErrInvalidToken | ErrTokenRevoked
  | Token_sql | Token_rand

definition PrefixUser :: string where "PrefixUser = ''usr_''"
definition PrefixOrg :: string where "PrefixOrg = ''org_''"
definition PrefixAdm :: string where "PrefixAdm = ''adm_''"
definition ScopeGlobal :: string where "ScopeGlobal = ''global''"
definition ScopeReadWrite :: string where "ScopeReadWrite = ''read-write''"
definition ScopeRead :: string where "ScopeRead = ''read''"

section \<open>Creating\<close>

definition generateRawToken :: "string option \<Rightarrow> string option" where
  "generateRawToken bytes = map_option hex_encode bytes"

text \<open>
  \<open>id_ok\<close> says whether the driver reports the number of the new row; its error is ignored and the
  number is 0 then. \<open>expires\<close> is the pointer to the expiry, which may be nil.
\<close>

definition CreateUserToken ::
    "(string \<Rightarrow> string) \<Rightarrow> string option \<Rightarrow> int \<Rightarrow> bool \<Rightarrow> bool \<Rightarrow> int \<Rightarrow> string \<Rightarrow> string list \<Rightarrow> int option \<Rightarrow>
     token_db \<Rightarrow> (token_error + string \<times> Token) \<times> token_db" where
  "CreateUserToken H bytes now ok id_ok userID name scopes expires d =
     (case generateRawToken bytes of
        None \<Rightarrow> (Inl Token_rand, d)
      | Some raw \<Rightarrow>
          let fullToken = PrefixUser @ raw;
              tokenPrefix = take 12 fullToken @ ''...'';
              scopeStr = join '','' scopes;
              t = zero_token\<lparr>tok_ID := user_next d, tok_OwnerID := userID, tok_Name := name,
                    tok_TokenPrefix := tokenPrefix, tok_Scopes := scopeStr, tok_ExpiresAt := expires,
                    tok_CreatedAt := now\<rparr>
          in if \<not> ok then (Inl Token_sql, d)
             else (case tbl_insert tok_TokenHash (t\<lparr>tok_TokenHash := H fullToken\<rparr>) (user_tokens d) of
                 None \<Rightarrow> (Inl Token_sql, d)
               | Some rows \<Rightarrow>
                   (Inr (fullToken, t\<lparr>tok_ID := if id_ok then user_next d else 0\<rparr>),
                    d\<lparr>user_tokens := rows, user_next := user_next d + 1\<rparr>)))"

definition CreateOrgToken ::
    "(string \<Rightarrow> string) \<Rightarrow> string option \<Rightarrow> int \<Rightarrow> bool \<Rightarrow> bool \<Rightarrow> int \<Rightarrow> int \<Rightarrow> string \<Rightarrow> string list \<Rightarrow>
     int option \<Rightarrow> token_db \<Rightarrow> (token_error + string \<times> Token) \<times> token_db" where
  "CreateOrgToken H bytes now ok id_ok orgID createdBy name scopes expires d =
     (case generateRawToken bytes of
        None \<Rightarrow> (Inl Token_rand, d)
      | Some raw \<Rightarrow>
          let fullToken = PrefixOrg @ raw;
              tokenPrefix = take 12 fullToken @ ''...'';
              scopeStr = join '','' scopes;
              t = zero_token\<lparr>tok_ID := org_next d, tok_OrgID := orgID, tok_CreatedBy := createdBy,
                    tok_Name := name, tok_TokenPrefix := tokenPrefix, tok_Scopes := scopeStr,
                    tok_ExpiresAt := expires, tok_CreatedAt := now\<rparr>
          in if \<not> ok then (Inl Token_sql, d)
             else (case tbl_insert tok_TokenHash (t\<lparr>tok_TokenHash := H fullToken\<rparr>) (org_tokens d) of
                 None \<Rightarrow> (Inl Token_sql, d)
               | Some rows \<Rightarrow>
                   (Inr (fullToken, t\<lparr>tok_ID := if id_ok then org_next d else 0\<rparr>),
                    d\<lparr>org_tokens := rows, org_next := org_next d + 1\<rparr>)))"

text \<open>An \<open>UPDATE\<close> of \<open>admins\<close> by number, and the check of the number of rows, whose error counts as 0.\<close>

definition update_admin ::
    "outcome \<Rightarrow> int \<Rightarrow> (admin_row \<Rightarrow> admin_row) \<Rightarrow> token_db \<Rightarrow> (token_error + unit) \<times> token_db" where
  "update_admin w adminID f d =
     (let d' = d\<lparr>admins := tbl_update (\<lambda>r. adm_ID r = adminID) f (admins d)\<rparr>
      in case w of
          Failed \<Rightarrow> (Inl Token_sql, d)
        | Uncounted \<Rightarrow> (Inl ErrTokenNotFound, d')
        | Written \<Rightarrow>
            if tbl_count (\<lambda>r. adm_ID r = adminID) (admins d) = 0 then (Inl ErrTokenNotFound, d')
            else (Inr (), d'))"

definition CreateAdminToken ::
    "(string \<Rightarrow> string) \<Rightarrow> string option \<Rightarrow> int \<Rightarrow> outcome \<Rightarrow> int \<Rightarrow> token_db \<Rightarrow>
     (token_error + string) \<times> token_db" where
  "CreateAdminToken H bytes now w adminID d =
     (case generateRawToken bytes of
        None \<Rightarrow> (Inl Token_rand, d)
      | Some raw \<Rightarrow>
          let fullToken = PrefixAdm @ raw
          in (case update_admin w adminID
                  (\<lambda>r. r\<lparr>adm_token_hash := Some (H fullToken), adm_updated_at := now\<rparr>) d of
                (Inl e, d) \<Rightarrow> (Inl e, d)
              | (Inr _, d) \<Rightarrow> (Inr fullToken, d)))"

section \<open>Validating\<close>

text \<open>The table name is checked against a white list.\<close>

definition updateLastUsed :: "bool \<Rightarrow> int \<Rightarrow> string \<Rightarrow> int \<Rightarrow> token_db \<Rightarrow> token_db" where
  "updateLastUsed ok now table tokenID d =
     (let f = tbl_update (\<lambda>r. tok_ID r = tokenID) (\<lambda>r. r\<lparr>tok_LastUsedAt := Some now\<rparr>)
      in if \<not> ok then d
         else if table = ''user_tokens'' then d\<lparr>user_tokens := f (user_tokens d)\<rparr>
         else if table = ''org_tokens'' then d\<lparr>org_tokens := f (org_tokens d)\<rparr>
         else d)"

definition parse_scopes :: "string \<Rightarrow> string list" where
  "parse_scopes s = (if s = [] then [] else split_char (CHR '','') s)"

definition expired_token :: "int \<Rightarrow> Token \<Rightarrow> bool" where
  "expired_token now t = (case tok_ExpiresAt t of None \<Rightarrow> False | Some e \<Rightarrow> e < now)"

text \<open>The columns that are read; the expiry and the last use are scanned but not copied.\<close>

definition scanned :: "Token \<Rightarrow> Token" where
  "scanned t = t\<lparr>tok_TokenHash := [], tok_LastUsedAt := None, tok_ExpiresAt := None\<rparr>"

definition validateUserToken ::
    "bool \<Rightarrow> bool \<Rightarrow> int \<Rightarrow> string \<Rightarrow> token_db \<Rightarrow> (token_error + TokenInfo) \<times> token_db" where
  "validateUserToken ok ok_used now tokenHash d =
     (if \<not> ok then (Inl Token_sql, d)
      else (case tbl_find tok_TokenHash tokenHash (user_tokens d) of
          None \<Rightarrow> (Inl ErrTokenNotFound, d)
        | Some t \<Rightarrow>
            if expired_token now t then (Inl ErrTokenExpired, d)
            else (Inr \<lparr>ti_Type = ''user'', ti_OwnerID = tok_OwnerID t, ti_UserID = tok_OwnerID t,
                       ti_Scopes = parse_scopes (tok_Scopes t), ti_Token = scanned t\<rparr>,
                  updateLastUsed ok_used now ''user_tokens'' (tok_ID t) d)))"

definition validateOrgToken ::
    "bool \<Rightarrow> bool \<Rightarrow> int \<Rightarrow> string \<Rightarrow> token_db \<Rightarrow> (token_error + TokenInfo) \<times> token_db" where
  "validateOrgToken ok ok_used now tokenHash d =
     (if \<not> ok then (Inl Token_sql, d)
      else (case tbl_find tok_TokenHash tokenHash (org_tokens d) of
          None \<Rightarrow> (Inl ErrTokenNotFound, d)
        | Some t \<Rightarrow>
            if expired_token now t then (Inl ErrTokenExpired, d)
            else (Inr \<lparr>ti_Type = ''org'', ti_OwnerID = tok_OrgID t, ti_UserID = tok_CreatedBy t,
                       ti_Scopes = parse_scopes (tok_Scopes t), ti_Token = scanned t\<rparr>,
                  updateLastUsed ok_used now ''org_tokens'' (tok_ID t) d)))"

definition role_scopes :: "string \<Rightarrow> string list" where
  "role_scopes role =
     (if role = ''superadmin'' then [ScopeGlobal]
      else if role = ''admin'' then [ScopeGlobal]
      else if role = ''readonly'' then [ScopeRead]
      else [ScopeGlobal])"

definition validateAdminToken :: "bool \<Rightarrow> int \<Rightarrow> string \<Rightarrow> token_db \<Rightarrow> token_error + TokenInfo" where
  "validateAdminToken ok now tokenHash d =
     (if \<not> ok then Inl Token_sql
      else (case find (\<lambda>r. adm_token_hash r = Some tokenHash) (admins d) of
          None \<Rightarrow> Inl ErrTokenNotFound
        | Some a \<Rightarrow>
            if adm_enabled a \<noteq> 1 then Inl ErrTokenRevoked
            else if (case adm_lockedUntil a of None \<Rightarrow> False | Some l \<Rightarrow> l > now) then Inl ErrTokenRevoked
            else
              let scopes = role_scopes (adm_role a)
              in Inr \<lparr>ti_Type = ''admin'', ti_OwnerID = adm_ID a, ti_UserID = adm_ID a, ti_Scopes = scopes,
                   ti_Token = zero_token\<lparr>tok_ID := adm_ID a, tok_OwnerID := adm_ID a,
                     tok_Name := adm_username a, tok_Scopes := join '','' scopes\<rparr>\<rparr>))"

definition ValidateToken ::
    "(string \<Rightarrow> string) \<Rightarrow> bool \<Rightarrow> bool \<Rightarrow> int \<Rightarrow> string \<Rightarrow> token_db \<Rightarrow>
     (token_error + TokenInfo) \<times> token_db" where
  "ValidateToken H ok ok_used now token d =
     (if token = [] then (Inl ErrInvalidToken, d)
      else if has_prefix token PrefixUser then validateUserToken ok ok_used now (H token) d
      else if has_prefix token PrefixOrg then validateOrgToken ok ok_used now (H token) d
      else if has_prefix token PrefixAdm then (validateAdminToken ok now (H token) d, d)
      else (Inl ErrInvalidToken, d))"

definition HasScope :: "string \<Rightarrow> TokenInfo \<Rightarrow> bool" where
  "HasScope scope info = list_ex (\<lambda>s. s = ScopeGlobal \<or> s = scope) (ti_Scopes info)"

definition CanWrite :: "TokenInfo \<Rightarrow> bool" where
  "CanWrite info \<longleftrightarrow> HasScope ScopeGlobal info \<or> HasScope ScopeReadWrite info"

definition CanRead :: "TokenInfo \<Rightarrow> bool" where
  "CanRead info \<longleftrightarrow> HasScope ScopeGlobal info \<or> HasScope ScopeReadWrite info \<or> HasScope ScopeRead info"

section \<open>Revoking, listing and cleaning\<close>

definition RevokeAdminToken :: "int \<Rightarrow> outcome \<Rightarrow> int \<Rightarrow> token_db \<Rightarrow> (token_error + unit) \<times> token_db" where
  "RevokeAdminToken now w adminID =
     update_admin w adminID (\<lambda>r. r\<lparr>adm_token_hash := None, adm_updated_at := now\<rparr>)"

text \<open>\<open>DELETE\<close> and the check of the number of rows, whose error counts as 0.\<close>

definition revoke_rows ::
    "outcome \<Rightarrow> (Token \<Rightarrow> bool) \<Rightarrow> Token list \<Rightarrow> (token_error + unit) \<times> Token list" where
  "revoke_rows w P rows =
     (case w of
        Failed \<Rightarrow> (Inl Token_sql, rows)
      | Uncounted \<Rightarrow> (Inl ErrTokenNotFound, tbl_delete P rows)
      | Written \<Rightarrow>
          if tbl_count P rows = 0 then (Inl ErrTokenNotFound, tbl_delete P rows)
          else (Inr (), tbl_delete P rows))"

definition RevokeUserToken :: "outcome \<Rightarrow> int \<Rightarrow> int \<Rightarrow> token_db \<Rightarrow> (token_error + unit) \<times> token_db" where
  "RevokeUserToken w tokenID userID d =
     (case revoke_rows w (\<lambda>r. tok_ID r = tokenID \<and> tok_OwnerID r = userID) (user_tokens d) of
        (r, rows) \<Rightarrow> (r, d\<lparr>user_tokens := rows\<rparr>))"

definition RevokeOrgToken :: "outcome \<Rightarrow> int \<Rightarrow> int \<Rightarrow> token_db \<Rightarrow> (token_error + unit) \<times> token_db" where
  "RevokeOrgToken w tokenID orgID d =
     (case revoke_rows w (\<lambda>r. tok_ID r = tokenID \<and> tok_OrgID r = orgID) (org_tokens d) of
        (r, rows) \<Rightarrow> (r, d\<lparr>org_tokens := rows\<rparr>))"

definition listed_tokens :: "(Token \<Rightarrow> bool) \<Rightarrow> Token list \<Rightarrow> Token list" where
  "listed_tokens P rows =
     map (\<lambda>r. r\<lparr>tok_TokenHash := []\<rparr>) (sort_key (\<lambda>r. - tok_CreatedAt r) (filter P rows))"

definition ListUserTokens :: "bool \<Rightarrow> int \<Rightarrow> token_db \<Rightarrow> token_error + Token list" where
  "ListUserTokens ok userID d =
     (if ok then Inr (listed_tokens (\<lambda>r. tok_OwnerID r = userID) (user_tokens d)) else Inl Token_sql)"

definition ListOrgTokens :: "bool \<Rightarrow> int \<Rightarrow> token_db \<Rightarrow> token_error + Token list" where
  "ListOrgTokens ok orgID d =
     (if ok then Inr (listed_tokens (\<lambda>r. tok_OrgID r = orgID) (org_tokens d)) else Inl Token_sql)"

definition CountUserTokens :: "bool \<Rightarrow> int \<Rightarrow> token_db \<Rightarrow> token_error + nat" where
  "CountUserTokens ok userID d =
     (if ok then Inr (tbl_count (\<lambda>r. tok_OwnerID r = userID) (user_tokens d)) else Inl Token_sql)"

definition CountOrgTokens :: "bool \<Rightarrow> int \<Rightarrow> token_db \<Rightarrow> token_error + nat" where
  "CountOrgTokens ok orgID d =
     (if ok then Inr (tbl_count (\<lambda>r. tok_OrgID r = orgID) (org_tokens d)) else Inl Token_sql)"

definition CleanupTokens :: "bool \<Rightarrow> bool \<Rightarrow> int \<Rightarrow> token_db \<Rightarrow> (token_error + unit) \<times> token_db" where
  "CleanupTokens ok1 ok2 now d =
     (if \<not> ok1 then (Inl Token_sql, d)
      else
        let d = d\<lparr>user_tokens := tbl_delete (expired_token now) (user_tokens d)\<rparr>
        in if \<not> ok2 then (Inl Token_sql, d)
           else (Inr (), d\<lparr>org_tokens := tbl_delete (expired_token now) (org_tokens d)\<rparr>))"

section \<open>Runs\<close>

datatype tok_op =
    T_user "string option" int bool bool int string "string list" "int option"
  | T_org "string option" int bool bool int int string "string list" "int option"
  | T_admin "string option" int outcome int
  | T_validate bool bool int string
  | T_revoke_user outcome int int
  | T_revoke_org outcome int int
  | T_revoke_admin int outcome int
  | T_cleanup bool bool int

fun tok_step :: "(string \<Rightarrow> string) \<Rightarrow> tok_op \<Rightarrow> token_db \<Rightarrow> token_db" where
  "tok_step H (T_user b now ok iok u n sc e) d = snd (CreateUserToken H b now ok iok u n sc e d)"
| "tok_step H (T_org b now ok iok g u n sc e) d = snd (CreateOrgToken H b now ok iok g u n sc e d)"
| "tok_step H (T_admin b now w a) d = snd (CreateAdminToken H b now w a d)"
| "tok_step H (T_validate ok oku now t) d = snd (ValidateToken H ok oku now t d)"
| "tok_step H (T_revoke_user w i u) d = snd (RevokeUserToken w i u d)"
| "tok_step H (T_revoke_org w i g) d = snd (RevokeOrgToken w i g d)"
| "tok_step H (T_revoke_admin now w a) d = snd (RevokeAdminToken now w a d)"
| "tok_step H (T_cleanup ok1 ok2 now) d = snd (CleanupTokens ok1 ok2 now d)"

definition user_row :: "token_db \<Rightarrow> string \<Rightarrow> Token option" where
  "user_row d h = tbl_find tok_TokenHash h (user_tokens d)"

definition org_row :: "token_db \<Rightarrow> string \<Rightarrow> Token option" where
  "org_row d h = tbl_find tok_TokenHash h (org_tokens d)"

definition admin_of :: "token_db \<Rightarrow> string \<Rightarrow> admin_row option" where
  "admin_of d h = find (\<lambda>r. adm_token_hash r = Some h) (admins d)"

definition tokens_ok :: "token_db \<Rightarrow> bool" where
  "tokens_ok d \<longleftrightarrow> tbl_ok tok_TokenHash (user_tokens d) \<and> tbl_ok tok_TokenHash (org_tokens d)"

text \<open>The operations that issue a credential with a given hash, per table.\<close>

fun issues_user :: "(string \<Rightarrow> string) \<Rightarrow> tok_op \<Rightarrow> string \<Rightarrow> bool" where
  "issues_user H (T_user (Some b) now ok iok u n sc e) h \<longleftrightarrow> H (PrefixUser @ hex_encode b) = h"
| "issues_user H _ h \<longleftrightarrow> False"

fun issues_org :: "(string \<Rightarrow> string) \<Rightarrow> tok_op \<Rightarrow> string \<Rightarrow> bool" where
  "issues_org H (T_org (Some b) now ok iok g u n sc e) h \<longleftrightarrow> H (PrefixOrg @ hex_encode b) = h"
| "issues_org H _ h \<longleftrightarrow> False"

fun issues_admin :: "(string \<Rightarrow> string) \<Rightarrow> tok_op \<Rightarrow> string \<Rightarrow> bool" where
  "issues_admin H (T_admin (Some b) now w a) h \<longleftrightarrow> H (PrefixAdm @ hex_encode b) = h"
| "issues_admin H _ h \<longleftrightarrow> False"

section \<open>What each operation does to the tables\<close>

lemma update_admin_tables [simp]:
  "user_tokens (snd (update_admin w a f d)) = user_tokens d"
  "org_tokens (snd (update_admin w a f d)) = org_tokens d"
  "admins (snd (update_admin w a f d)) =
     (if w = Failed then admins d else tbl_update (\<lambda>r. adm_ID r = a) f (admins d))"
  by (cases w; simp add: update_admin_def Let_def)+

lemma CreateUserToken_rows:
  "user_tokens (snd (CreateUserToken H b now ok iok u n sc e d)) = user_tokens d
   \<or> (\<exists>bytes r. b = Some bytes \<and> tok_TokenHash r = H (PrefixUser @ hex_encode bytes)
        \<and> tbl_insert tok_TokenHash r (user_tokens d) = Some (user_tokens (snd (CreateUserToken H b now ok iok u n sc e d))))"
  "org_tokens (snd (CreateUserToken H b now ok iok u n sc e d)) = org_tokens d"
  "admins (snd (CreateUserToken H b now ok iok u n sc e d)) = admins d"
  by (auto simp: CreateUserToken_def generateRawToken_def Let_def split: option.split)

lemma CreateOrgToken_rows:
  "org_tokens (snd (CreateOrgToken H b now ok iok g u n sc e d)) = org_tokens d
   \<or> (\<exists>bytes r. b = Some bytes \<and> tok_TokenHash r = H (PrefixOrg @ hex_encode bytes)
        \<and> tbl_insert tok_TokenHash r (org_tokens d) = Some (org_tokens (snd (CreateOrgToken H b now ok iok g u n sc e d))))"
  "user_tokens (snd (CreateOrgToken H b now ok iok g u n sc e d)) = user_tokens d"
  "admins (snd (CreateOrgToken H b now ok iok g u n sc e d)) = admins d"
  by (auto simp: CreateOrgToken_def generateRawToken_def Let_def split: option.split)

lemma CreateAdminToken_rows:
  "user_tokens (snd (CreateAdminToken H b now w a d)) = user_tokens d"
  "org_tokens (snd (CreateAdminToken H b now w a d)) = org_tokens d"
  "admins (snd (CreateAdminToken H b now w a d)) =
     (case b of None \<Rightarrow> admins d | Some bytes \<Rightarrow>
        if w = Failed then admins d
        else tbl_update (\<lambda>r. adm_ID r = a)
          (\<lambda>r. r\<lparr>adm_token_hash := Some (H (PrefixAdm @ hex_encode bytes)), adm_updated_at := now\<rparr>) (admins d))"
proof -
  have "snd (CreateAdminToken H b now w a d) =
      (case b of None \<Rightarrow> d | Some bytes \<Rightarrow> snd (update_admin w a
         (\<lambda>r. r\<lparr>adm_token_hash := Some (H (PrefixAdm @ hex_encode bytes)), adm_updated_at := now\<rparr>) d))"
    by (auto simp: CreateAdminToken_def generateRawToken_def Let_def split: option.split prod.split sum.split)
  then show "user_tokens (snd (CreateAdminToken H b now w a d)) = user_tokens d"
    "org_tokens (snd (CreateAdminToken H b now w a d)) = org_tokens d"
    "admins (snd (CreateAdminToken H b now w a d)) =
     (case b of None \<Rightarrow> admins d | Some bytes \<Rightarrow>
        if w = Failed then admins d
        else tbl_update (\<lambda>r. adm_ID r = a)
          (\<lambda>r. r\<lparr>adm_token_hash := Some (H (PrefixAdm @ hex_encode bytes)), adm_updated_at := now\<rparr>) (admins d))"
    by (simp_all split: option.split)
qed

lemma updateLastUsed_rows:
  "user_tokens (updateLastUsed ok now tbl i d) = user_tokens d \<or>
   user_tokens (updateLastUsed ok now tbl i d)
     = tbl_update (\<lambda>r. tok_ID r = i) (\<lambda>r. r\<lparr>tok_LastUsedAt := Some now\<rparr>) (user_tokens d)"
  "org_tokens (updateLastUsed ok now tbl i d) = org_tokens d \<or>
   org_tokens (updateLastUsed ok now tbl i d)
     = tbl_update (\<lambda>r. tok_ID r = i) (\<lambda>r. r\<lparr>tok_LastUsedAt := Some now\<rparr>) (org_tokens d)"
  "admins (updateLastUsed ok now tbl i d) = admins d"
  by (auto simp: updateLastUsed_def Let_def)

lemma ValidateToken_rows:
  "snd (ValidateToken H ok oku now t d) = d \<or> (\<exists>tbl i. snd (ValidateToken H ok oku now t d) = updateLastUsed oku now tbl i d)"
  by (auto simp: ValidateToken_def validateUserToken_def validateOrgToken_def split: option.split)

lemma revoke_rows_rows:
  "snd (revoke_rows w P rows) = (if w = Failed then rows else tbl_delete P rows)"
  by (cases w) (simp_all add: revoke_rows_def)

lemma Revoke_tables:
  "user_tokens (snd (RevokeUserToken w i u d)) =
     (if w = Failed then user_tokens d else tbl_delete (\<lambda>r. tok_ID r = i \<and> tok_OwnerID r = u) (user_tokens d))"
  "org_tokens (snd (RevokeUserToken w i u d)) = org_tokens d"
  "admins (snd (RevokeUserToken w i u d)) = admins d"
  "org_tokens (snd (RevokeOrgToken w i g d)) =
     (if w = Failed then org_tokens d else tbl_delete (\<lambda>r. tok_ID r = i \<and> tok_OrgID r = g) (org_tokens d))"
  "user_tokens (snd (RevokeOrgToken w i g d)) = user_tokens d"
  "admins (snd (RevokeOrgToken w i g d)) = admins d"
  by (simp_all add: RevokeUserToken_def RevokeOrgToken_def case_prod_beta revoke_rows_rows)

lemma Cleanup_tables:
  "user_tokens (snd (CleanupTokens ok1 ok2 now d)) =
     (if ok1 then tbl_delete (expired_token now) (user_tokens d) else user_tokens d)"
  "org_tokens (snd (CleanupTokens ok1 ok2 now d)) =
     (if ok1 \<and> ok2 then tbl_delete (expired_token now) (org_tokens d) else org_tokens d)"
  "admins (snd (CleanupTokens ok1 ok2 now d)) = admins d"
  by (simp_all add: CleanupTokens_def Let_def)

lemmas step_tables =
  CreateUserToken_rows(2,3) CreateOrgToken_rows(2,3) CreateAdminToken_rows Revoke_tables Cleanup_tables
  RevokeAdminToken_def updateLastUsed_rows(3)

text \<open>Four things can happen to a table of tokens in one step.\<close>

inductive table_change :: "(string \<Rightarrow> bool) \<Rightarrow> Token list \<Rightarrow> Token list \<Rightarrow> bool" for issued where
  same: "table_change issued t t"
| ins: "tbl_insert tok_TokenHash r t = Some t' \<Longrightarrow> issued (tok_TokenHash r) \<Longrightarrow> table_change issued t t'"
| del: "table_change issued t (tbl_delete P t)"
| used: "table_change issued t (tbl_update (\<lambda>r. tok_ID r = i) (\<lambda>r. r\<lparr>tok_LastUsedAt := Some now\<rparr>) t)"

lemma table_change_ok: "table_change issued t t' \<Longrightarrow> tbl_ok tok_TokenHash t \<Longrightarrow> tbl_ok tok_TokenHash t'"
  by (induction rule: table_change.induct) (auto intro: tbl_ok_insert tbl_ok_delete tbl_ok_update)

lemma table_change_absent:
  "table_change issued t t' \<Longrightarrow> tbl_ok tok_TokenHash t \<Longrightarrow> \<not> issued h \<Longrightarrow> tbl_find tok_TokenHash h t = None \<Longrightarrow>
     tbl_find tok_TokenHash h t' = None"
  by (induction rule: table_change.induct) (auto simp: tbl_find_insert tbl_find_delete tbl_find_update)

lemma table_change_used:
  "table_change issued (user_tokens d) (user_tokens (updateLastUsed ok now tbl i d))"
  "table_change issued (org_tokens d) (org_tokens (updateLastUsed ok now tbl i d))"
  using updateLastUsed_rows(1,2) [of ok now tbl i d] by (auto intro: table_change.intros)

lemma user_tokens_step: "table_change (issues_user H a) (user_tokens d) (user_tokens (tok_step H a d))"
proof (cases a)
  case (T_user b now ok iok u n sc e)
  then show ?thesis using CreateUserToken_rows(1) [of H b now ok iok u n sc e d]
    by (auto intro: table_change.intros)
next
  case (T_validate ok oku now t)
  then show ?thesis using ValidateToken_rows [of H ok oku now t d] table_change_used(1)
    by (auto intro: table_change.intros)
qed (auto simp: step_tables intro: table_change.intros)

lemma org_tokens_step: "table_change (issues_org H a) (org_tokens d) (org_tokens (tok_step H a d))"
proof (cases a)
  case (T_org b now ok iok g u n sc e)
  then show ?thesis using CreateOrgToken_rows(1) [of H b now ok iok g u n sc e d]
    by (auto intro: table_change.intros)
next
  case (T_validate ok oku now t)
  then show ?thesis using ValidateToken_rows [of H ok oku now t d] table_change_used(2)
    by (auto intro: table_change.intros)
qed (auto simp: step_tables intro: table_change.intros)

lemma tokens_ok_step: "tokens_ok d \<Longrightarrow> tokens_ok (tok_step H a d)"
  using table_change_ok [OF user_tokens_step] table_change_ok [OF org_tokens_step]
  by (auto simp: tokens_ok_def)

lemma admins_step:
  "admin_of d h = None \<Longrightarrow> \<not> issues_admin H a h \<Longrightarrow> admin_of (tok_step H a d) h = None"
proof (cases a)
  case (T_validate ok oku now t)
  then show "admin_of d h = None \<Longrightarrow> admin_of (tok_step H a d) h = None"
    using ValidateToken_rows [of H ok oku now t d] by (auto simp: admin_of_def updateLastUsed_rows(3))
next
  case (T_admin b now w i)
  then show "admin_of d h = None \<Longrightarrow> \<not> issues_admin H a h \<Longrightarrow> admin_of (tok_step H a d) h = None"
    by (auto simp: admin_of_def step_tables tbl_update_def find_None_iff split: option.splits)
qed (auto simp: admin_of_def step_tables tbl_update_def find_None_iff)

text \<open>The three kinds of credentials are revocable.\<close>

interpretation utok: revocable "tok_step H" user_row tokens_ok "issues_user H" for H
proof
  show "user_row (tok_step H a d) h = None"
    if "tokens_ok d" "\<not> issues_user H a h" "user_row d h = None" for a d h
    using that table_change_absent [OF user_tokens_step] by (simp add: user_row_def tokens_ok_def)
qed (rule tokens_ok_step)

interpretation otok: revocable "tok_step H" org_row tokens_ok "issues_org H" for H
proof
  show "org_row (tok_step H a d) h = None"
    if "tokens_ok d" "\<not> issues_org H a h" "org_row d h = None" for a d h
    using that table_change_absent [OF org_tokens_step] by (simp add: org_row_def tokens_ok_def)
qed (rule tokens_ok_step)

interpretation atok: revocable "tok_step H" admin_of tokens_ok "issues_admin H" for H
  by unfold_locales (auto intro: tokens_ok_step admins_step)

section \<open>What a token gives\<close>

lemma parse_join_scopes:
  assumes "list_all (\<lambda>s. CHR '','' \<notin> set s) scopes" and "scopes \<noteq> [[]]"
  shows "parse_scopes (join '','' scopes) = scopes"
proof (cases scopes)
  case (Cons s ss)
  have "join '','' scopes \<noteq> []" using assms(2) by (cases ss) (auto simp: Cons)
  then show ?thesis using assms(1) split_char_join [of scopes "CHR '',''"] by (auto simp: parse_scopes_def Cons list_all_iff)
qed (simp add: parse_scopes_def)

text \<open>
  A new token works as it was made: until its expiry a user token is validated as a user token of
  its owner, and an organisation token as one of its organisation made by its creator, with exactly
  the scopes that were asked for, provided that no scope has a comma.
\<close>

theorem created_token_validates:
  assumes "CreateUserToken H b now ok iok u n scopes e d = (Inr (t, tok), d')"
    and "CreateOrgToken H b' now ok' iok' g c n scopes e d = (Inr (t', tok'), d'')"
    and "list_all (\<lambda>s. CHR '','' \<notin> set s) scopes" and "scopes \<noteq> [[]]"
    and "case e of None \<Rightarrow> True | Some x \<Rightarrow> later \<le> x"
  shows "(\<exists>info. fst (ValidateToken H True oku later t d') = Inr info \<and> ti_Type info = ''user''
       \<and> ti_OwnerID info = u \<and> ti_UserID info = u \<and> ti_Scopes info = scopes)
     \<and> (\<exists>info. fst (ValidateToken H True oku later t' d'') = Inr info \<and> ti_Type info = ''org''
       \<and> ti_OwnerID info = g \<and> ti_UserID info = c \<and> ti_Scopes info = scopes)"
proof -
  note scopes = parse_join_scopes [OF assms(3,4)]
  obtain r where "tbl_insert tok_TokenHash r (user_tokens d) = Some (user_tokens d')" "tok_TokenHash r = H t"
    "has_prefix t PrefixUser" "tok_OwnerID r = u" "tok_Scopes r = join '','' scopes" "tok_ExpiresAt r = e" "t \<noteq> []"
    using assms(1) by (auto simp: CreateUserToken_def Let_def PrefixUser_def split: option.splits if_splits)
  then have "\<exists>info. fst (ValidateToken H True oku later t d') = Inr info \<and> ti_Type info = ''user''
       \<and> ti_OwnerID info = u \<and> ti_UserID info = u \<and> ti_Scopes info = scopes"
    using assms(5) by (auto simp: ValidateToken_def validateUserToken_def tbl_find_insert expired_token_def
        scopes split: option.splits)
  moreover obtain r' where "tbl_insert tok_TokenHash r' (org_tokens d) = Some (org_tokens d'')"
    "tok_TokenHash r' = H t'" "has_prefix t' PrefixOrg" "\<not> has_prefix t' PrefixUser" "tok_OrgID r' = g"
    "tok_CreatedBy r' = c" "tok_Scopes r' = join '','' scopes" "tok_ExpiresAt r' = e" "t' \<noteq> []"
    using assms(2) by (auto simp: CreateOrgToken_def Let_def PrefixOrg_def PrefixUser_def split: option.splits if_splits)
  then have "\<exists>info. fst (ValidateToken H True oku later t' d'') = Inr info \<and> ti_Type info = ''org''
       \<and> ti_OwnerID info = g \<and> ti_UserID info = c \<and> ti_Scopes info = scopes"
    using assms(5) by (auto simp: ValidateToken_def validateOrgToken_def tbl_find_insert expired_token_def
        scopes split: option.splits)
  ultimately show ?thesis by blast
qed

text \<open>
  C34: A token that is accepted has a live row of its own kind: the prefix decides the table, the row
  holds the token's hash and has not expired, or the administrator is enabled and not locked; and
  an administrator may write unless the role is exactly \<open>readonly\<close>, so a misspelt role gives
  every permission.
\<close>

theorem accepted_token_is_live:
  assumes "fst (ValidateToken H ok oku now t d) = Inr info"
  shows "(has_prefix t PrefixUser \<and> ti_Type info = ''user'' \<and> (\<exists>r \<in> set (user_tokens d).
            tok_TokenHash r = H t \<and> \<not> expired_token now r \<and> ti_OwnerID info = tok_OwnerID r))
     \<or> (has_prefix t PrefixOrg \<and> ti_Type info = ''org'' \<and> (\<exists>r \<in> set (org_tokens d).
            tok_TokenHash r = H t \<and> \<not> expired_token now r \<and> ti_OwnerID info = tok_OrgID r))
     \<or> (has_prefix t PrefixAdm \<and> ti_Type info = ''admin'' \<and> (\<exists>a \<in> set (admins d).
            adm_token_hash a = Some (H t) \<and> adm_enabled a = 1 \<and> ti_OwnerID info = adm_ID a
            \<and> (\<forall>l. adm_lockedUntil a = Some l \<longrightarrow> l \<le> now)
            \<and> CanRead info \<and> (CanWrite info \<longleftrightarrow> adm_role a \<noteq> ''readonly'')))"
proof -
  have admin: ?thesis if "has_prefix t PrefixAdm" "validateAdminToken ok now (H t) d = Inr info"
  proof -
    from that(2) obtain a where a: "find (\<lambda>r. adm_token_hash r = Some (H t)) (admins d) = Some a"
      "adm_enabled a = 1" "\<not> (case adm_lockedUntil a of None \<Rightarrow> False | Some l \<Rightarrow> l > now)"
      "ti_Type info = ''admin''" "ti_OwnerID info = adm_ID a" "ti_Scopes info = role_scopes (adm_role a)"
      by (auto simp: validateAdminToken_def Let_def split: option.splits if_splits)
    have "a \<in> set (admins d)" "adm_token_hash a = Some (H t)" using find_Some_props [OF a(1)] by blast+
    moreover have "CanRead info" "CanWrite info \<longleftrightarrow> adm_role a \<noteq> ''readonly''"
      by (auto simp: CanRead_def CanWrite_def HasScope_def a(6) role_scopes_def ScopeGlobal_def ScopeRead_def
          ScopeReadWrite_def)
    ultimately show ?thesis using that(1) a(2-5) by (auto split: option.splits)
  qed
  show ?thesis
    using assms admin
    by (auto simp: ValidateToken_def validateUserToken_def validateOrgToken_def dest: tbl_find_Some
        split: if_splits option.splits)
qed

section \<open>Revoking is final\<close>

text \<open>The operations that revoke or replace the credential \<open>t\<close>, and those that issue it again.\<close>

fun tok_revokes :: "(string \<Rightarrow> string) \<Rightarrow> string \<Rightarrow> token_db \<Rightarrow> tok_op \<Rightarrow> bool" where
  "tok_revokes H t d (T_revoke_user w i u) \<longleftrightarrow> w \<noteq> Failed \<and> has_prefix t PrefixUser
     \<and> (case user_row d (H t) of None \<Rightarrow> True | Some r \<Rightarrow> tok_ID r = i \<and> tok_OwnerID r = u)"
| "tok_revokes H t d (T_revoke_org w i g) \<longleftrightarrow> w \<noteq> Failed \<and> has_prefix t PrefixOrg
     \<and> (case org_row d (H t) of None \<Rightarrow> True | Some r \<Rightarrow> tok_ID r = i \<and> tok_OrgID r = g)"
| "tok_revokes H t d (T_revoke_admin now w i) \<longleftrightarrow> w \<noteq> Failed \<and> has_prefix t PrefixAdm
     \<and> list_all (\<lambda>r. adm_token_hash r = Some (H t) \<longrightarrow> adm_ID r = i) (admins d)"
| "tok_revokes H t d (T_admin (Some b) now w i) \<longleftrightarrow> w \<noteq> Failed \<and> has_prefix t PrefixAdm
     \<and> H (PrefixAdm @ hex_encode b) \<noteq> H t
     \<and> list_all (\<lambda>r. adm_token_hash r = Some (H t) \<longrightarrow> adm_ID r = i) (admins d)"
| "tok_revokes H t d _ \<longleftrightarrow> False"

definition tok_reissues :: "(string \<Rightarrow> string) \<Rightarrow> string \<Rightarrow> tok_op \<Rightarrow> bool" where
  "tok_reissues H t a \<longleftrightarrow> issues_user H a (H t) \<or> issues_org H a (H t) \<or> issues_admin H a (H t)"

lemma prefixes_exclusive:
  "has_prefix t PrefixUser \<Longrightarrow> \<not> has_prefix t PrefixOrg \<and> \<not> has_prefix t PrefixAdm"
  "has_prefix t PrefixOrg \<Longrightarrow> \<not> has_prefix t PrefixUser \<and> \<not> has_prefix t PrefixAdm"
  "has_prefix t PrefixAdm \<Longrightarrow> \<not> has_prefix t PrefixUser \<and> \<not> has_prefix t PrefixOrg"
  by (auto simp: has_prefix_iff PrefixUser_def PrefixOrg_def PrefixAdm_def)

lemma revoked_user_row:
  "tokens_ok d \<Longrightarrow> tok_revokes H t d r \<Longrightarrow> has_prefix t PrefixUser \<Longrightarrow> user_row (tok_step H r d) (H t) = None"
  by (induction H t d r rule: tok_revokes.induct)
    (auto simp: user_row_def step_tables tbl_find_delete tokens_ok_def dest: prefixes_exclusive
      split: option.splits)

lemma revoked_org_row:
  "tokens_ok d \<Longrightarrow> tok_revokes H t d r \<Longrightarrow> has_prefix t PrefixOrg \<Longrightarrow> org_row (tok_step H r d) (H t) = None"
  by (induction H t d r rule: tok_revokes.induct)
    (auto simp: org_row_def step_tables tbl_find_delete tokens_ok_def dest: prefixes_exclusive
      split: option.splits)

lemma revoked_admin_row:
  "tok_revokes H t d r \<Longrightarrow> has_prefix t PrefixAdm \<Longrightarrow> admin_of (tok_step H r d) (H t) = None"
  by (induction H t d r rule: tok_revokes.induct)
    (auto simp: admin_of_def step_tables tbl_update_def find_None_iff list_all_iff dest: prefixes_exclusive)

text \<open>
  C33: Revoking a token is final: once a user or organisation token is deleted under its number and
  owner, or an administrator's token is revoked or replaced by a new one, the old token is answered
  as not found after every further run of operations, unless a new token draws the same hash. It
  makes no difference whether the driver reports the number of rows.
\<close>

theorem revoked_token_stays_invalid:
  assumes "tokens_ok d" and "tok_revokes H t d r" and "list_all (\<lambda>a. \<not> tok_reissues H t a) as"
  shows "fst (ValidateToken H True oku now t (fold (tok_step H) (r # as) d)) = Inl ErrTokenNotFound"
proof -
  let ?d = "tok_step H r d"
  have ok: "tokens_ok ?d" by (rule tokens_ok_step [OF assms(1)])
  have pre: "has_prefix t PrefixUser \<or> has_prefix t PrefixOrg \<or> has_prefix t PrefixAdm"
    using assms(2) by (induction H t d r rule: tok_revokes.induct) auto
  have "user_row (fold (tok_step H) as ?d) (H t) = None" if "has_prefix t PrefixUser"
    using assms(3) by (intro utok.stays_revoked ok revoked_user_row assms(1,2) that)
      (auto simp: list_all_iff tok_reissues_def)
  moreover have "org_row (fold (tok_step H) as ?d) (H t) = None" if "has_prefix t PrefixOrg"
    using assms(3) by (intro otok.stays_revoked ok revoked_org_row assms(1,2) that)
      (auto simp: list_all_iff tok_reissues_def)
  moreover have "admin_of (fold (tok_step H) as ?d) (H t) = None" if "has_prefix t PrefixAdm"
    using assms(3) by (intro atok.stays_revoked [OF ok] revoked_admin_row assms(2) that)
      (auto simp: list_all_iff tok_reissues_def)
  ultimately show ?thesis using pre
    by (auto simp: ValidateToken_def validateUserToken_def validateOrgToken_def validateAdminToken_def
        user_row_def org_row_def admin_of_def PrefixUser_def PrefixOrg_def PrefixAdm_def)
qed

text \<open>
  The cleanup of expired tokens is invisible: at any later time a token is accepted after it
  exactly when it would have been accepted without it, with the same answer, even when the cleanup
  stops between the two tables.
\<close>

theorem token_cleanup_invisible:
  assumes "tokens_ok d" and "now \<le> later"
  shows "fst (ValidateToken H ok oku later t (snd (CleanupTokens ok1 ok2 now d))) = Inr info
     \<longleftrightarrow> fst (ValidateToken H ok oku later t d) = Inr info"
proof -
  have late: "expired_token later r" if "expired_token now r" for r
    using that assms(2) by (auto simp: expired_token_def split: option.splits)
  show ?thesis
    using assms(1) by (auto simp: ValidateToken_def validateUserToken_def validateOrgToken_def
        validateAdminToken_def Cleanup_tables tokens_ok_def tbl_find_delete late split: option.split)
qed

section \<open>Concrete tokens\<close>

definition sample_tokens :: token_db where
  "sample_tokens = \<lparr>user_tokens = [], org_tokens = [],
     admins = [\<lparr>adm_ID = 1, adm_username = ''root'', adm_role = ''readnoly'', adm_enabled = 1,
                adm_lockedUntil = None, adm_token_hash = Some ''#adm_x'', adm_updated_at = 0\<rparr>],
     user_next = 1, org_next = 1\<rparr>"

theorem created_token_validates_witness:
  "\<exists>t d' t' d''. fst (ValidateToken ((@) ''#'') True True 9 t d') \<noteq> Inl ErrTokenExpired
     \<and> t = ''usr_6162'' \<and> t' = ''org_6364''
     \<and> (\<exists>info. fst (ValidateToken ((@) ''#'') True True 9 t' d'') = Inr info \<and> ti_OwnerID info = 3
          \<and> ti_Scopes info = [''read'', ''write''])"
proof -
  let ?u = "CreateUserToken ((@) ''#'') (Some ''ab'') 5 True True 7 ''ci'' [''read'', ''write''] (Some 9) sample_tokens"
  let ?o = "CreateOrgToken ((@) ''#'') (Some ''cd'') 5 True True 3 7 ''ci'' [''read'', ''write''] (Some 9) sample_tokens"
  have hex: "hex_digit (Suc 0) = CHR ''1''" "hex_digit 2 = CHR ''2''" "hex_digit 3 = CHR ''3''"
    "hex_digit 4 = CHR ''4''" "hex_digit 6 = CHR ''6''" by code_simp+
  have "\<exists>tok. fst ?u = Inr (''usr_6162'', tok)" "\<exists>tok. fst ?o = Inr (''org_6364'', tok)"
    by (simp_all add: CreateUserToken_def CreateOrgToken_def generateRawToken_def hex PrefixUser_def
        PrefixOrg_def sample_tokens_def tbl_insert_def Let_def)
  then obtain tok tok' where "?u = (Inr (''usr_6162'', tok), snd ?u)" "?o = (Inr (''org_6364'', tok'), snd ?o)"
    by (metis prod.collapse)
  from created_token_validates [OF this, of 9 True] show ?thesis
    by (intro exI [of _ "''usr_6162''"] exI [of _ "snd ?u"] exI [of _ "''org_6364''"] exI [of _ "snd ?o"]) auto
qed

lemma accepted_admin_sample:
  "\<exists>info. fst (ValidateToken ((@) ''#'') True True 9 ''adm_x'' sample_tokens) = Inr info"
  by (simp add: ValidateToken_def validateAdminToken_def sample_tokens_def PrefixUser_def PrefixOrg_def
      PrefixAdm_def Let_def)

theorem accepted_token_is_live_witness:
  "\<exists>info. fst (ValidateToken ((@) ''#'') True True 9 ''adm_x'' sample_tokens) = Inr info \<and> CanWrite info"
proof -
  obtain info where i: "fst (ValidateToken ((@) ''#'') True True 9 ''adm_x'' sample_tokens) = Inr info"
    using accepted_admin_sample by blast
  from accepted_token_is_live [OF i] have "CanWrite info"
    by (auto simp: sample_tokens_def has_prefix_def PrefixUser_def PrefixOrg_def)
  with i show ?thesis by blast
qed

lemma sample_tokens_ok: "tokens_ok sample_tokens"
  by (simp add: sample_tokens_def tokens_ok_def)

theorem revoked_token_stays_invalid_witness:
  "fst (ValidateToken ((@) ''#'') True True 9 ''adm_x''
     (fold (tok_step ((@) ''#'')) [T_revoke_admin 7 Uncounted 1, T_admin (Some ''zz'') 8 Written 1] sample_tokens))
   = Inl ErrTokenNotFound"
proof (rule revoked_token_stays_invalid [OF sample_tokens_ok])
  show "tok_revokes ((@) ''#'') ''adm_x'' sample_tokens (T_revoke_admin 7 Uncounted 1)" by code_simp
  show "list_all (\<lambda>a. \<not> tok_reissues ((@) ''#'') ''adm_x'' a) [T_admin (Some ''zz'') 8 Written 1]" by code_simp
qed

theorem token_cleanup_invisible_witness:
  "\<exists>info. fst (ValidateToken ((@) ''#'') True True 9 ''adm_x'' (snd (CleanupTokens True False 8 sample_tokens))) = Inr info"
  using accepted_admin_sample
  by (simp only: token_cleanup_invisible [OF sample_tokens_ok, of 8 9, simplified])

text \<open>A scope with a comma becomes two: what was asked for as one name grants every permission.\<close>

lemma comma_scope_escalates:
  "HasScope ScopeGlobal \<lparr>ti_Type = ''user'', ti_OwnerID = u, ti_UserID = u,
     ti_Scopes = parse_scopes (join '','' [''notes,global'']), ti_Token = t\<rparr>"
  by (simp add: HasScope_def parse_scopes_def ScopeGlobal_def)

end
