(* ===== verification/Go_Path.thy ===== *)
theory Go_Path
  imports Go_Strings
begin

text \<open>
  \<open>path/filepath\<close> of the Go standard library on Unix: \<open>Clean\<close>, \<open>Join\<close>, \<open>Base\<close>, \<open>Dir\<close> and \<open>IsAbs\<close>. A
  cleaned path is a list of components; the lemmas say that a rooted path has no component that leads
  upwards, and that a textual prefix ending in a slash is a prefix of components.
\<close>

abbreviation Slash :: char where "Slash \<equiv> CHR ''/''"

definition IsAbs :: "string \<Rightarrow> bool" where
  "IsAbs p = has_prefix p ''/''"

text \<open>The components that remain; \<open>st\<close> is the stack of those seen, the last one first.\<close>

fun reduce_comps :: "bool \<Rightarrow> string list \<Rightarrow> string list \<Rightarrow> string list" where
  "reduce_comps rooted st [] = rev st"
| "reduce_comps rooted st (c # cs) =
     (if c = [] \<or> c = ''.'' then reduce_comps rooted st cs
      else if c = ''..'' then
        (case st of
           [] \<Rightarrow> reduce_comps rooted (if rooted then [] else [''..'']) cs
         | t # ts \<Rightarrow> reduce_comps rooted (if t = ''..'' then ''..'' # st else ts) cs)
      else reduce_comps rooted (c # st) cs)"

definition path_comps :: "string \<Rightarrow> string list" where
  "path_comps p = reduce_comps (IsAbs p) [] (split_char Slash p)"

definition Clean :: "string \<Rightarrow> string" where
  "Clean p =
     (if p = [] then ''.''
      else if IsAbs p then Slash # join ''/'' (path_comps p)
      else if path_comps p = [] then ''.'' else join ''/'' (path_comps p))"

definition path_join :: "string list \<Rightarrow> string" where
  "path_join es =
     (case dropWhile (\<lambda>e. e = []) es of [] \<Rightarrow> [] | es' \<Rightarrow> Clean (join ''/'' es'))"

definition Base :: "string \<Rightarrow> string" where
  "Base p =
     (if p = [] then ''.''
      else case dropWhile (\<lambda>c. c = Slash) (rev p) of
          [] \<Rightarrow> ''/''
        | r \<Rightarrow> rev (takeWhile (\<lambda>c. c \<noteq> Slash) r))"

definition Dir :: "string \<Rightarrow> string" where
  "Dir p = Clean (rev (dropWhile (\<lambda>c. c \<noteq> Slash) (rev p)))"

section \<open>Components\<close>

text \<open>A component that names an entry of a directory.\<close>

definition plain_comp :: "string \<Rightarrow> bool" where
  "plain_comp c \<longleftrightarrow> c \<noteq> [] \<and> c \<noteq> ''.'' \<and> c \<noteq> ''..'' \<and> Slash \<notin> set c"

lemma reduce_step:
  "c = [] \<or> c = ''.'' \<Longrightarrow> reduce_comps r st (c # cs) = reduce_comps r st cs"
  "reduce_comps True [] (''..'' # cs) = reduce_comps True [] cs"
  "plain_comp t \<Longrightarrow> reduce_comps True (t # st) (''..'' # cs) = reduce_comps True st cs"
  "plain_comp c \<Longrightarrow> reduce_comps r st (c # cs) = reduce_comps r (c # st) cs"
  by (simp_all add: plain_comp_def)

declare reduce_comps.simps(2) [simp del]
declare reduce_step [simp]

text \<open>The three kinds of components of a split path.\<close>

lemma comp_cases:
  assumes "Slash \<notin> set c"
  obtains "c = [] \<or> c = ''.''" | "c = ''..''" | "plain_comp c"
  using assms by (auto simp: plain_comp_def)

lemma reduce_comps_plain: "list_all plain_comp cs \<Longrightarrow> reduce_comps r st cs = rev st @ cs"
  by (induction cs arbitrary: st) simp_all

lemma reduce_comps_rooted:
  "list_all plain_comp st \<Longrightarrow> list_all (\<lambda>c. Slash \<notin> set c) cs \<Longrightarrow> list_all plain_comp (reduce_comps True st cs)"
proof (induction cs arbitrary: st)
  case (Cons c cs)
  from Cons.prems(2) have "Slash \<notin> set c" by simp
  then show ?case
  proof (cases rule: comp_cases)
    case 2
    then show ?thesis using Cons by (cases st) simp_all
  qed (use Cons in simp_all)
qed (simp add: list_all_iff)

lemma reduce_comps_append:
  "list_all plain_comp st \<Longrightarrow> list_all (\<lambda>c. Slash \<notin> set c) cs \<Longrightarrow>
   reduce_comps True st (cs @ ds) = reduce_comps True (rev (reduce_comps True st cs)) ds"
proof (induction cs arbitrary: st)
  case (Cons c cs)
  from Cons.prems(2) have "Slash \<notin> set c" by simp
  then show ?case
  proof (cases rule: comp_cases)
    case 2
    then show ?thesis using Cons by (cases st) simp_all
  qed (use Cons in simp_all)
qed simp

lemma split_no_slash: "list_all (\<lambda>c. Slash \<notin> set c) (split_char Slash s)"
  by (auto simp: list_all_iff dest: split_char_no_sep)

lemma path_comps_plain: "IsAbs p \<Longrightarrow> list_all plain_comp (path_comps p)"
  by (simp add: path_comps_def reduce_comps_rooted split_no_slash)

lemma split_char_append_sep: "split_char d (a @ d # b) = split_char d a @ split_char d b"
proof (induction a)
  case (Cons x a)
  then show ?case by (cases "split_char d a") auto
qed simp

lemma split_char_join_plain:
  "list_all plain_comp cs \<Longrightarrow> cs \<noteq> [] \<Longrightarrow> split_char Slash (join ''/'' cs) = cs"
  by (rule split_char_join) (auto simp: list_all_iff plain_comp_def)

lemma path_comps_render:
  assumes "list_all plain_comp cs"
  shows "path_comps (Slash # join ''/'' cs) = cs"
  using assms split_char_join_plain [OF assms]
  by (cases "cs = []") (simp_all add: path_comps_def IsAbs_def reduce_comps_plain)

lemma render_inject:
  assumes "list_all plain_comp as" and "list_all plain_comp bs" and "join ''/'' as = join ''/'' bs"
  shows "as = bs"
proof -
  have "as = path_comps (Slash # join ''/'' as)" by (simp only: path_comps_render [OF assms(1)])
  also have "\<dots> = bs" by (simp only: assms(3) path_comps_render [OF assms(2)])
  finally show ?thesis .
qed

text \<open>\<open>Join\<close> of an absolute directory and a name.\<close>

lemma path_comps_join:
  assumes "IsAbs d"
  shows "path_comps (d @ Slash # n) = reduce_comps True (rev (path_comps d)) (split_char Slash n)"
    and "IsAbs (d @ Slash # n)"
proof -
  show abs: "IsAbs (d @ Slash # n)" using assms by (auto simp: IsAbs_def has_prefix_iff)
  then show "path_comps (d @ Slash # n) = reduce_comps True (rev (path_comps d)) (split_char Slash n)"
    using assms by (simp add: path_comps_def split_char_append_sep reduce_comps_append split_no_slash)
qed

lemma path_join_abs:
  assumes "IsAbs d"
  shows "path_join [d, n] = Slash # join ''/'' (reduce_comps True (rev (path_comps d)) (split_char Slash n))"
proof -
  have "d \<noteq> []" using assms by (auto simp: IsAbs_def)
  then show ?thesis using path_comps_join [OF assms] by (simp add: path_join_def Clean_def)
qed

lemma path_comps_path_join:
  assumes "IsAbs d"
  shows "path_comps (path_join [d, n]) = reduce_comps True (rev (path_comps d)) (split_char Slash n)"
    and "IsAbs (path_join [d, n])"
proof -
  have "list_all plain_comp (reduce_comps True (rev (path_comps d)) (split_char Slash n))"
    using path_comps_plain [OF assms] by (intro reduce_comps_rooted split_no_slash) (simp add: list_all_iff)
  then show "path_comps (path_join [d, n]) = reduce_comps True (rev (path_comps d)) (split_char Slash n)"
    by (simp add: path_join_abs [OF assms] path_comps_render)
  show "IsAbs (path_join [d, n])" by (simp add: path_join_abs [OF assms] IsAbs_def)
qed

lemma path_comps_entry:
  assumes "IsAbs d" and "plain_comp n"
  shows "path_comps (path_join [d, n]) = path_comps d @ [n]"
proof -
  have "split_char Slash n = [n]" using assms(2) by (simp add: split_char_absent plain_comp_def)
  with assms show ?thesis by (simp add: path_comps_path_join)
qed

lemma path_join_inject:
  assumes "IsAbs d" and "plain_comp n" and "plain_comp m"
  shows "path_join [d, n] = path_join [d, m] \<longleftrightarrow> n = m"
proof
  assume "path_join [d, n] = path_join [d, m]"
  then have "path_comps d @ [n] = path_comps d @ [m]"
    by (simp only: path_comps_entry [OF assms(1,2), symmetric] path_comps_entry [OF assms(1,3), symmetric])
  then show "n = m" by simp
qed (simp only:)

text \<open>A textual prefix that ends in a slash is a prefix of components.\<close>

lemma prefix_comps:
  assumes "list_all plain_comp ds" and "list_all plain_comp cs"
    and "has_prefix (Slash # join ''/'' cs) ((Slash # join ''/'' ds) @ ''/'')"
  shows "\<exists>rest. rest \<noteq> [] \<and> cs = ds @ rest"
proof (cases "ds = []")
  case True
  with assms(3) obtain t where t: "join ''/'' cs = Slash # t" by (auto simp: has_prefix_iff)
  show ?thesis
  proof (cases "cs = []")
    case False
    then have "cs = split_char Slash (Slash # t)" using split_char_join_plain [OF assms(2)] t by simp
    then have "[] \<in> set cs" by simp
    with assms(2) show ?thesis by (auto simp: list_all_iff plain_comp_def)
  qed (use t in simp)
next
  case False
  from assms(3) obtain t where t: "join ''/'' cs = join ''/'' ds @ Slash # t" by (auto simp: has_prefix_iff)
  then have "cs \<noteq> []" by auto
  then have "cs = split_char Slash (join ''/'' ds @ Slash # t)" using split_char_join_plain [OF assms(2)] t by simp
  also have "\<dots> = ds @ split_char Slash t"
    by (simp add: split_char_append_sep split_char_join_plain [OF assms(1) False])
  finally show ?thesis by (intro exI [of _ "split_char Slash t"]) simp
qed

end
