(* ===== verification/Files.thy ===== *)
theory Files
  imports Go_Path "HOL-Library.AList" "HOL-Library.List_Lexorder" "HOL-Library.Char_ord"
begin

text \<open>
  What the code uses of a Unix file system: a tree of directories and regular files, each known by the
  components of its absolute path, and the calls of package \<open>os\<close>. Every call may fail: \<open>io_fails E n\<close>
  says that the call number \<open>n\<close> does, and \<open>io_written E n\<close> how many bytes a failing write leaves.
  Permissions and links are left out. \<open>within\<close> is the frame of an operation: the paths it may change.
\<close>

section \<open>The tree\<close>

type_synonym path = "string list"

datatype node = Dir_node | File_node string

type_synonym fs = "(path \<times> node) list"

definition look :: "fs \<Rightarrow> path \<Rightarrow> node option" where
  "look fs p = (if p = [] then Some Dir_node else map_of fs p)"

definition put :: "fs \<Rightarrow> path \<Rightarrow> node \<Rightarrow> fs" where
  "put fs p n = (if p = [] then fs else AList.update p n fs)"

definition under :: "path \<Rightarrow> path \<Rightarrow> bool" where
  "under p q \<longleftrightarrow> take (length p) q = p"

definition drop_path :: "fs \<Rightarrow> path \<Rightarrow> fs" where
  "drop_path fs p = filter (\<lambda>(q, _). q \<noteq> p) fs"

definition drop_tree :: "fs \<Rightarrow> path \<Rightarrow> fs" where
  "drop_tree fs p = filter (\<lambda>(q, _). \<not> under p q) fs"

text \<open>The paths below a root in the order of \<open>filepath.Walk\<close>, the root first.\<close>

definition walk :: "fs \<Rightarrow> path \<Rightarrow> path list" where
  "walk fs root = sort (remdups (filter (under root) (map fst fs)))"

lemma under_refl [simp]: "under p p"
  by (simp add: under_def)

lemma under_append [simp]: "under p (p @ q)"
  by (simp add: under_def)

lemma under_iff: "under p q \<longleftrightarrow> (\<exists>r. q = p @ r)"
  by (metis append_eq_conv_conj append_take_drop_id under_def)

lemma under_Nil [simp]: "under [] q"
  by (simp add: under_def)

lemma under_trans: "under p q \<Longrightarrow> under q r \<Longrightarrow> under p r"
  by (auto simp: under_iff)

lemma look_Nil [simp]: "look fs [] = Some Dir_node"
  by (simp add: look_def)

lemma look_put [simp]: "look (put fs p n) q = (if p = q \<and> p \<noteq> [] then Some n else look fs q)"
  by (simp add: look_def put_def update_conv')

lemma map_of_filter_key: "map_of (filter (\<lambda>(q, _). P q) fs) p = (if P p then map_of fs p else None)"
  by (induction fs) auto

lemma look_drop_path: "look (drop_path fs p) q = (if p = q \<and> p \<noteq> [] then None else look fs q)"
  by (simp add: look_def drop_path_def map_of_filter_key)

lemma look_drop_tree: "look (drop_tree fs p) q = (if under p q \<and> q \<noteq> [] then None else look fs q)"
  by (simp add: look_def drop_tree_def map_of_filter_key)

lemma look_key: "look fs p = Some n \<Longrightarrow> p \<noteq> [] \<Longrightarrow> p \<in> set (map fst fs)"
  by (simp add: look_def) (metis domI dom_map_of_conv_image_fst)

lemma set_walk: "p \<in> set (walk fs root) \<longleftrightarrow> under root p \<and> p \<in> set (map fst fs)"
  by (auto simp: walk_def)

lemma distinct_walk: "distinct (walk fs root)"
  by (simp add: walk_def)

text \<open>\<open>os.MkdirAll\<close> creates the missing directories on the way.\<close>

fun mkdirs :: "fs \<Rightarrow> path \<Rightarrow> path \<Rightarrow> fs option" where
  "mkdirs fs q [] = Some fs"
| "mkdirs fs q (c # cs) =
     (case look fs (q @ [c]) of
        None \<Rightarrow> mkdirs (put fs (q @ [c]) Dir_node) (q @ [c]) cs
      | Some Dir_node \<Rightarrow> mkdirs fs (q @ [c]) cs
      | Some (File_node _) \<Rightarrow> None)"

lemma mkdirs_look:
  "mkdirs fs q cs = Some fs' \<Longrightarrow>
     look fs' p = (if look fs p = None \<and> under q p \<and> p \<noteq> q \<and> under p (q @ cs) then Some Dir_node else look fs p)"
proof (induction fs q cs arbitrary: p rule: mkdirs.induct)
  case (2 fs q c cs)
  have edge: "under q p \<and> p \<noteq> q \<and> under p (q @ c # cs) \<longleftrightarrow>
      p = q @ [c] \<or> (under (q @ [c]) p \<and> p \<noteq> q @ [c] \<and> under p ((q @ [c]) @ cs))"
    by (auto simp: under_iff append_eq_append_conv2 append_eq_Cons_conv Cons_eq_append_conv)
  show ?case
  proof (cases "look fs (q @ [c])")
    case None
    with 2 have "look fs' p = (if look (put fs (q @ [c]) Dir_node) p = None \<and> under (q @ [c]) p \<and> p \<noteq> q @ [c]
        \<and> under p ((q @ [c]) @ cs) then Some Dir_node else look (put fs (q @ [c]) Dir_node) p)" by simp
    with None edge show ?thesis by auto
  next
    case (Some n)
    with 2 edge show ?thesis by (cases n) auto
  qed
qed (auto simp: under_iff)

lemma mkdirs_dir: "mkdirs fs q cs = Some fs' \<Longrightarrow> look fs q = Some Dir_node \<Longrightarrow> look fs' (q @ cs) = Some Dir_node"
proof (induction fs q cs rule: mkdirs.induct)
  case (2 fs q c cs)
  then show ?case by (auto split: option.splits node.splits)
qed simp

section \<open>Calls\<close>

record world =
  files :: fs
  calls :: nat

record faults =
  io_fails :: "nat \<Rightarrow> bool"
  io_written :: "nat \<Rightarrow> nat"

datatype os_error = Os_fault | Not_exist | Is_dir | Not_dir | Exist | Not_empty

type_synonym ('e, 'a) io = "world \<Rightarrow> ('e + 'a) \<times> world"

definition return :: "'a \<Rightarrow> ('e, 'a) io" where
  "return a w = (Inr a, w)"

definition fail :: "'e \<Rightarrow> ('e, 'a) io" where
  "fail e w = (Inl e, w)"

definition and_do :: "('e, 'a) io \<Rightarrow> ('a \<Rightarrow> ('e, 'b) io) \<Rightarrow> ('e, 'b) io" where
  "and_do m k w = (case m w of (Inl e, w') \<Rightarrow> (Inl e, w') | (Inr a, w') \<Rightarrow> k a w')"

text \<open>The error of a call is turned into an error of the program.\<close>

definition or_fail :: "('e, 'a) io \<Rightarrow> ('e \<Rightarrow> 'f) \<Rightarrow> ('f, 'a) io" where
  "or_fail m f w = (case m w of (Inl e, w') \<Rightarrow> (Inl (f e), w') | (Inr a, w') \<Rightarrow> (Inr a, w'))"

text \<open>Both outcomes of a call go on.\<close>

definition on_result :: "('e, 'a) io \<Rightarrow> ('e + 'a \<Rightarrow> ('f, 'b) io) \<Rightarrow> ('f, 'b) io" where
  "on_result m k w = (case m w of (r, w') \<Rightarrow> k r w')"

text \<open>A deferred call whose error is ignored.\<close>

definition deferred :: "('e, 'a) io \<Rightarrow> ('f, 'b) io \<Rightarrow> ('e, 'a) io" where
  "deferred m c w = (case m w of (r, w') \<Rightarrow> (r, snd (c w')))"

fun each :: "('a \<Rightarrow> ('e, unit) io) \<Rightarrow> 'a list \<Rightarrow> ('e, unit) io" where
  "each f [] = return ()"
| "each f (x # xs) = and_do (f x) (\<lambda>_. each f xs)"

definition sys :: "faults \<Rightarrow> (fs \<Rightarrow> os_error + 'a \<times> fs) \<Rightarrow> (os_error, 'a) io" where
  "sys E f w =
     (let w' = w\<lparr>calls := Suc (calls w)\<rparr>
      in if io_fails E (calls w) then (Inl Os_fault, w')
         else (case f (files w) of Inl e \<Rightarrow> (Inl e, w') | Inr (a, fs) \<Rightarrow> (Inr a, w'\<lparr>files := fs\<rparr>)))"

definition os_Stat :: "faults \<Rightarrow> path \<Rightarrow> (os_error, node) io" where
  "os_Stat E p = sys E (\<lambda>fs. case look fs p of None \<Rightarrow> Inl Not_exist | Some n \<Rightarrow> Inr (n, fs))"

definition os_ReadFile :: "faults \<Rightarrow> path \<Rightarrow> (os_error, string) io" where
  "os_ReadFile E p = sys E (\<lambda>fs. case look fs p of
       None \<Rightarrow> Inl Not_exist | Some Dir_node \<Rightarrow> Inl Is_dir | Some (File_node c) \<Rightarrow> Inr (c, fs))"

definition os_Create :: "faults \<Rightarrow> path \<Rightarrow> (os_error, unit) io" where
  "os_Create E p = sys E (\<lambda>fs.
       if look fs p = Some Dir_node then Inl Is_dir
       else if look fs (butlast p) \<noteq> Some Dir_node then Inl Not_exist
       else Inr ((), put fs p (File_node [])))"

definition os_MkdirAll :: "faults \<Rightarrow> path \<Rightarrow> (os_error, unit) io" where
  "os_MkdirAll E p = sys E (\<lambda>fs. case mkdirs fs [] p of None \<Rightarrow> Inl Not_dir | Some fs' \<Rightarrow> Inr ((), fs'))"

text \<open>\<open>os.MkdirTemp\<close>; the fresh name is an argument.\<close>

definition os_MkdirTemp :: "faults \<Rightarrow> path \<Rightarrow> (os_error, unit) io" where
  "os_MkdirTemp E p = sys E (\<lambda>fs.
       if look fs p \<noteq> None then Inl Exist
       else if look fs (butlast p) \<noteq> Some Dir_node then Inl Not_exist
       else Inr ((), put fs p Dir_node))"

definition os_Rename :: "faults \<Rightarrow> path \<Rightarrow> path \<Rightarrow> (os_error, unit) io" where
  "os_Rename E p q = sys E (\<lambda>fs. case look fs p of
       None \<Rightarrow> Inl Not_exist
     | Some Dir_node \<Rightarrow> Inl Is_dir
     | Some (File_node c) \<Rightarrow>
         if look fs q = Some Dir_node then Inl Is_dir
         else if look fs (butlast q) \<noteq> Some Dir_node then Inl Not_exist
         else Inr ((), put (drop_path fs p) q (File_node c)))"

definition os_Remove :: "faults \<Rightarrow> path \<Rightarrow> (os_error, unit) io" where
  "os_Remove E p = sys E (\<lambda>fs. case look fs p of
       None \<Rightarrow> Inl Not_exist
     | Some n \<Rightarrow>
         if n = Dir_node \<and> list_ex (\<lambda>q. q \<noteq> p \<and> under p q) (map fst fs) then Inl Not_empty
         else Inr ((), drop_path fs p))"

definition os_RemoveAll :: "faults \<Rightarrow> path \<Rightarrow> (os_error, unit) io" where
  "os_RemoveAll E p = sys E (\<lambda>fs. Inr ((), drop_tree fs p))"

text \<open>Writing the content of an open file; a failing write leaves a part of it.\<close>

definition io_Copy :: "faults \<Rightarrow> string \<Rightarrow> path \<Rightarrow> (os_error, unit) io" where
  "io_Copy E c p w =
     (let w' = w\<lparr>calls := Suc (calls w)\<rparr>
      in if io_fails E (calls w)
         then (Inl Os_fault, w'\<lparr>files := put (files w) p (File_node (take (io_written E (calls w)) c))\<rparr>)
         else (Inr (), w'\<lparr>files := put (files w) p (File_node c)\<rparr>))"

definition os_WriteFile :: "faults \<Rightarrow> path \<Rightarrow> string \<Rightarrow> (os_error, unit) io" where
  "os_WriteFile E p c = and_do (os_Create E p) (\<lambda>_. io_Copy E c p)"

definition walk_tree :: "faults \<Rightarrow> path \<Rightarrow> (os_error, path list) io" where
  "walk_tree E p = sys E (\<lambda>fs. if look fs p = None then Inl Not_exist else Inr (walk fs p, fs))"

lemmas io_defs = return_def fail_def and_do_def or_fail_def on_result_def deferred_def

section \<open>Frames\<close>

definition within :: "(path \<Rightarrow> bool) \<Rightarrow> ('e, 'a) io \<Rightarrow> bool" where
  "within D m \<longleftrightarrow> (\<forall>w p. \<not> D p \<longrightarrow> look (files (snd (m w))) p = look (files w) p)"

lemma withinD: "within D m \<Longrightarrow> \<not> D p \<Longrightarrow> look (files (snd (m w))) p = look (files w) p"
  by (simp add: within_def)

lemma within_mono: "within D m \<Longrightarrow> (\<And>p. D p \<Longrightarrow> D' p) \<Longrightarrow> within D' m"
  by (auto simp: within_def)

named_theorems frame

lemma within_return [frame]: "within D (return a)" and within_fail [frame]: "within D (fail e)"
  by (simp_all add: within_def return_def fail_def)

lemma within_and_do [frame]: "within D m \<Longrightarrow> (\<And>a. within D (k a)) \<Longrightarrow> within D (and_do m k)"
  by (auto simp: within_def and_do_def split: prod.split sum.split) (metis snd_conv)+

lemma within_or_fail [frame]: "within D m \<Longrightarrow> within D (or_fail m f)"
  by (auto simp: within_def or_fail_def split: prod.split sum.split) (metis snd_conv)+

lemma within_on_result [frame]: "within D m \<Longrightarrow> (\<And>r. within D (k r)) \<Longrightarrow> within D (on_result m k)"
  by (auto simp: within_def on_result_def split: prod.split) (metis snd_conv)+

lemma within_deferred [frame]: "within D m \<Longrightarrow> within D c \<Longrightarrow> within D (deferred m c)"
  by (auto simp: within_def deferred_def split: prod.split) (metis snd_conv)+

lemma within_each [frame]: "(\<And>x. x \<in> set xs \<Longrightarrow> within D (f x)) \<Longrightarrow> within D (each f xs)"
  by (induction xs) (auto intro: frame)

lemma within_sys:
  "(\<And>fs a fs' p. f fs = Inr (a, fs') \<Longrightarrow> \<not> D p \<Longrightarrow> look fs' p = look fs p) \<Longrightarrow> within D (sys E f)"
  by (auto simp: within_def sys_def Let_def split: sum.split)

lemma within_read [frame]:
  "within D (os_Stat E p)" "within D (os_ReadFile E p)" "within D (walk_tree E p)"
  by (auto simp: os_Stat_def os_ReadFile_def walk_tree_def intro!: within_sys split: option.splits node.splits if_splits)

lemma within_os [frame]:
  "D p \<Longrightarrow> within D (os_Create E p)" "D p \<Longrightarrow> within D (os_MkdirTemp E p)" "D p \<Longrightarrow> within D (os_Remove E p)"
  "D p \<Longrightarrow> D q \<Longrightarrow> within D (os_Rename E p q)"
  by (auto simp: os_Create_def os_MkdirTemp_def os_Remove_def os_Rename_def look_drop_path
      intro!: within_sys split: option.splits node.splits if_splits)

lemma within_RemoveAll [frame]: "(\<And>q. under p q \<Longrightarrow> D q) \<Longrightarrow> within D (os_RemoveAll E p)"
  by (auto simp: os_RemoveAll_def look_drop_tree intro!: within_sys)

lemma within_MkdirAll [frame]: "(\<And>q. under q p \<Longrightarrow> D q) \<Longrightarrow> within D (os_MkdirAll E p)"
  by (auto simp: os_MkdirAll_def mkdirs_look intro!: within_sys split: option.splits if_splits)

lemma within_Copy [frame]: "D p \<Longrightarrow> within D (io_Copy E c p)"
  by (auto simp: within_def io_Copy_def Let_def)

lemma within_WriteFile [frame]: "D p \<Longrightarrow> within D (os_WriteFile E p c)"
  by (auto simp: os_WriteFile_def intro!: frame)

section \<open>Invariants\<close>

text \<open>A property of the tree that an operation keeps.\<close>

definition keeps :: "(fs \<Rightarrow> bool) \<Rightarrow> ('e, 'a) io \<Rightarrow> bool" where
  "keeps I m \<longleftrightarrow> (\<forall>w. I (files w) \<longrightarrow> I (files (snd (m w))))"

named_theorems keep

lemma keepsD: "keeps I m \<Longrightarrow> I (files w) \<Longrightarrow> I (files (snd (m w)))"
  by (simp add: keeps_def)

lemma keepsE: "keeps I m \<Longrightarrow> m w = (r, w') \<Longrightarrow> I (files w) \<Longrightarrow> I (files w')"
  unfolding keeps_def by (metis snd_conv)

lemma keeps_return [keep]: "keeps I (return a)" and keeps_fail [keep]: "keeps I (fail e)"
  by (simp_all add: keeps_def return_def fail_def)

lemma keeps_and_do [keep]: "keeps I m \<Longrightarrow> (\<And>a. keeps I (k a)) \<Longrightarrow> keeps I (and_do m k)"
  by (auto simp: keeps_def and_do_def split: prod.split sum.split)

lemma keeps_or_fail [keep]: "keeps I m \<Longrightarrow> keeps I (or_fail m f)"
  by (auto simp: keeps_def or_fail_def split: prod.split sum.split)

lemma keeps_on_result [keep]: "keeps I m \<Longrightarrow> (\<And>r. keeps I (k r)) \<Longrightarrow> keeps I (on_result m k)"
  by (auto simp: keeps_def on_result_def split: prod.split)

lemma keeps_deferred [keep]: "keeps I m \<Longrightarrow> keeps I c \<Longrightarrow> keeps I (deferred m c)"
  by (auto simp: keeps_def deferred_def split: prod.split)

lemma keeps_each [keep]: "(\<And>x. x \<in> set xs \<Longrightarrow> keeps I (f x)) \<Longrightarrow> keeps I (each f xs)"
  by (induction xs) (auto intro: keep)

lemma keeps_sys: "(\<And>fs a fs'. f fs = Inr (a, fs') \<Longrightarrow> I fs \<Longrightarrow> I fs') \<Longrightarrow> keeps I (sys E f)"
  by (auto simp: keeps_def sys_def Let_def split: sum.split)

lemma keeps_read [keep]:
  "keeps I (os_Stat E p)" "keeps I (os_ReadFile E p)" "keeps I (walk_tree E p)"
  "keeps I (sys E (\<lambda>fs. if c fs then Inl e else Inr (g fs, fs)))" "keeps I (sys E (\<lambda>fs. Inr (g fs, fs)))"
  by (auto simp: os_Stat_def os_ReadFile_def walk_tree_def intro!: keeps_sys split: option.splits node.splits if_splits)

text \<open>A file that is there stays as it is unless it is written, moved or removed; a directory may appear.\<close>

abbreviation has_file :: "path \<Rightarrow> string \<Rightarrow> fs \<Rightarrow> bool" where
  "has_file q c fs \<equiv> look fs q = Some (File_node c)"

lemma has_file_MkdirAll [keep]: "keeps (has_file q c) (os_MkdirAll E p)"
  by (auto simp: os_MkdirAll_def mkdirs_look intro!: keeps_sys split: option.splits)

lemma has_file_os [keep]:
  "q \<noteq> p \<Longrightarrow> keeps (has_file q c) (os_Create E p)" "q \<noteq> p \<Longrightarrow> keeps (has_file q c) (os_MkdirTemp E p)"
  "q \<noteq> p \<Longrightarrow> keeps (has_file q c) (os_Remove E p)"
  "q \<noteq> p \<Longrightarrow> q \<noteq> p' \<Longrightarrow> keeps (has_file q c) (os_Rename E p p')"
  "\<not> under p q \<Longrightarrow> keeps (has_file q c) (os_RemoveAll E p)"
  "q \<noteq> p \<Longrightarrow> keeps (has_file q c) (io_Copy E d p)"
  by (auto simp: os_Create_def os_MkdirTemp_def os_Remove_def os_Rename_def os_RemoveAll_def look_drop_path
      look_drop_tree io_Copy_def keeps_def Let_def sys_def split: option.splits node.splits if_splits sum.splits)

lemma has_file_WriteFile [keep]: "q \<noteq> p \<Longrightarrow> keeps (has_file q c) (os_WriteFile E p d)"
  by (auto simp: os_WriteFile_def intro!: keep)

text \<open>Every key is made of names of directory entries.\<close>

definition plain_fs :: "fs \<Rightarrow> bool" where
  "plain_fs fs \<longleftrightarrow> (\<forall>p \<in> set (map fst fs). list_all plain_comp p)"

lemma set_fst_put: "set (map fst (put fs p n)) \<subseteq> insert p (set (map fst fs))"
proof -
  have "set (map fst (AList.update p n fs)) \<subseteq> insert p (set (map fst fs))"
    by (simp only: update_keys) auto
  then show ?thesis by (auto simp: put_def)
qed

lemma plain_put: "plain_fs fs \<Longrightarrow> list_all plain_comp p \<Longrightarrow> plain_fs (put fs p n)"
  using set_fst_put [of fs p n] by (fastforce simp: plain_fs_def)

lemma plain_drop: "plain_fs fs \<Longrightarrow> plain_fs (drop_path fs p)" "plain_fs fs \<Longrightarrow> plain_fs (drop_tree fs p)"
  by (auto simp: plain_fs_def drop_path_def drop_tree_def)

lemma plain_mkdirs:
  "mkdirs fs q cs = Some fs' \<Longrightarrow> plain_fs fs \<Longrightarrow> list_all plain_comp (q @ cs) \<Longrightarrow> plain_fs fs'"
proof (induction fs q cs rule: mkdirs.induct)
  case (2 fs q c cs)
  then show ?case by (auto simp: plain_put split: option.splits node.splits)
qed simp

lemma plain_os [keep]:
  "list_all plain_comp p \<Longrightarrow> keeps plain_fs (os_MkdirAll E p)"
  "list_all plain_comp p \<Longrightarrow> keeps plain_fs (os_Create E p)"
  "list_all plain_comp p \<Longrightarrow> keeps plain_fs (os_MkdirTemp E p)"
  "list_all plain_comp p \<Longrightarrow> keeps plain_fs (io_Copy E c p)"
  "list_all plain_comp q \<Longrightarrow> keeps plain_fs (os_Rename E p q)"
  "keeps plain_fs (os_Remove E p)" "keeps plain_fs (os_RemoveAll E p)"
  by (auto simp: os_MkdirAll_def os_Create_def os_MkdirTemp_def os_Remove_def os_Rename_def os_RemoveAll_def
      io_Copy_def keeps_def Let_def sys_def plain_put plain_drop
      split: option.splits node.splits if_splits sum.splits intro: plain_mkdirs)

lemma plain_WriteFile [keep]: "list_all plain_comp p \<Longrightarrow> keeps plain_fs (os_WriteFile E p d)"
  by (auto simp: os_WriteFile_def intro!: keep)

end
