(* ===== verification/Encryption.thy ===== *)
theory Encryption
  imports Go_Conv
begin

text \<open>
  Encrypted backups (\<open>backup/encryption.go\<close>): the layout salt, nonce, ciphertext. Argon2id and AES-GCM
  come from libraries and are a record of functions; \<open>c_seal\<close> is \<open>gcm.Seal\<close> and \<open>c_open\<close> is \<open>gcm.Open\<close>,
  \<open>None\<close> for a failed authentication. A key of 32 bytes and the block size of AES never make the two
  constructors fail.
\<close>

record ciphers =
  c_argon :: "string \<Rightarrow> string \<Rightarrow> string"
  c_seal :: "string \<Rightarrow> string \<Rightarrow> string \<Rightarrow> string"
  c_open :: "string \<Rightarrow> string \<Rightarrow> string \<Rightarrow> string option"
  c_sha256 :: "string \<Rightarrow> string"

datatype crypt_error = Crypt_rand | ErrInvalidBackupFile | ErrInvalidPassword

definition saltSize :: nat where "saltSize = 16"
definition nonceSize :: nat where "nonceSize = 12"

text \<open>The two reads of random bytes are arguments, \<open>None\<close> for a failure.\<close>

definition EncryptData ::
    "ciphers \<Rightarrow> string option \<Rightarrow> string option \<Rightarrow> string \<Rightarrow> string \<Rightarrow> crypt_error + string" where
  "EncryptData C salt_read nonce_read plaintext password =
     (case salt_read of
        None \<Rightarrow> Inl Crypt_rand
      | Some salt \<Rightarrow>
          let key = c_argon C password salt
          in (case nonce_read of
                None \<Rightarrow> Inl Crypt_rand
              | Some nonce \<Rightarrow>
                  let ciphertext = nonce @ c_seal C key nonce plaintext
                  in Inr (salt @ ciphertext)))"

definition DecryptData :: "ciphers \<Rightarrow> string \<Rightarrow> string \<Rightarrow> crypt_error + string" where
  "DecryptData C data password =
     (if length data < saltSize + nonceSize then Inl ErrInvalidBackupFile
      else
        let salt = take saltSize data; ciphertext = drop saltSize data; key = c_argon C password salt
        in if length ciphertext < nonceSize then Inl ErrInvalidBackupFile
           else
             let nonce = take nonceSize ciphertext; ciphertext = drop nonceSize ciphertext
             in (case c_open C key nonce ciphertext of
                   None \<Rightarrow> Inl ErrInvalidPassword
                 | Some plaintext \<Rightarrow> Inr plaintext))"

definition HashPassword_hint :: "ciphers \<Rightarrow> string \<Rightarrow> string" where
  "HashPassword_hint C password = hex_encode (c_sha256 C password)"

definition GenerateRandomBytes :: "(nat \<Rightarrow> string option) \<Rightarrow> nat \<Rightarrow> crypt_error + string" where
  "GenerateRandomBytes rand n = (case rand n of None \<Rightarrow> Inl Crypt_rand | Some bytes \<Rightarrow> Inr bytes)"

section \<open>The layout\<close>

text \<open>What the documentation of AES-GCM promises: opening undoes sealing under the same key and nonce.\<close>

definition opens_sealed :: "ciphers \<Rightarrow> bool" where
  "opens_sealed C \<longleftrightarrow> (\<forall>k n p. c_open C k n (c_seal C k n p) = Some p)"

lemma encrypted_opens:
  assumes "length salt = saltSize" and "length nonce = nonceSize"
  shows "DecryptData C (salt @ nonce @ ct) password =
     (case c_open C (c_argon C password salt) nonce ct of None \<Rightarrow> Inl ErrInvalidPassword | Some p \<Rightarrow> Inr p)"
  using assms by (simp add: DecryptData_def Let_def)

lemma encrypt_decrypt:
  assumes "opens_sealed C" and "\<forall>s. salt = Some s \<longrightarrow> length s = saltSize"
    and "\<forall>s. nonce = Some s \<longrightarrow> length s = nonceSize"
    and "EncryptData C salt nonce plain password = Inr enc"
  shows "DecryptData C enc password = Inr plain"
  using assms by (auto simp: EncryptData_def Let_def encrypted_opens opens_sealed_def split: option.splits)

text \<open>Too short a file is refused before a key is derived, and every other answer depends on the tag.\<close>

lemma DecryptData_cases:
  "DecryptData C data password = Inl ErrInvalidBackupFile \<longleftrightarrow> length data < 28"
  by (auto simp: DecryptData_def Let_def saltSize_def nonceSize_def split: option.splits)

end
