(* ===== verification/Retention.thy ===== *)
theory Retention
  imports Go_Path Go_Conv "HOL-Library.Multiset"
begin

text \<open>
  Backup retention (\<open>backup/retention.go\<close>): classifying the files of the backup directory by name,
  the number of backups kept per class, and the cap on their total size. The directory is a list of
  entries; whether a file can be removed is an argument. \<open>srt key\<close> is \<open>sort.Slice\<close> by a key, of which
  only the documented behaviour is used: a permutation in ascending order, equal keys in any order.
  The floating point arithmetic of a size limit is a record of operations.
\<close>

section \<open>Configuration\<close>

record RetentionConfig =
  rc_MaxBackups :: int
  rc_KeepWeekly :: int
  rc_KeepMonthly :: int
  rc_KeepYearly :: int
  rc_MaxTotalSize :: string

definition DefaultRetentionConfig :: RetentionConfig where
  "DefaultRetentionConfig =
     \<lparr>rc_MaxBackups = 1, rc_KeepWeekly = 0, rc_KeepMonthly = 0, rc_KeepYearly = 0, rc_MaxTotalSize = ''10%''\<rparr>"

text \<open>\<open>SetConfig\<close> without its log lines.\<close>

definition SetConfig :: "RetentionConfig \<Rightarrow> RetentionConfig" where
  "SetConfig config =
     (let config = if rc_MaxBackups config < 1 then config\<lparr>rc_MaxBackups := 1\<rparr> else config;
          config = if rc_KeepWeekly config < 0 then config\<lparr>rc_KeepWeekly := 0\<rparr> else config;
          config = if rc_KeepMonthly config < 0 then config\<lparr>rc_KeepMonthly := 0\<rparr> else config;
          config = if rc_KeepYearly config < 0 then config\<lparr>rc_KeepYearly := 0\<rparr> else config
      in config)"

text \<open>
  \<open>strconv.ParseFloat\<close>, the comparisons with 0 and 100, the percentage of the disk size and the
  product with a multiplier, both converted to \<open>int64\<close>.
\<close>

record 'f float_ops =
  fl_parse :: "string \<Rightarrow> 'f option"
  fl_le_0 :: "'f \<Rightarrow> bool"
  fl_gt_100 :: "'f \<Rightarrow> bool"
  fl_percent :: "nat \<Rightarrow> 'f \<Rightarrow> int"
  fl_scale :: "'f \<Rightarrow> int \<Rightarrow> int"

definition sizeSuffixBytes :: "char \<Rightarrow> int option" where
  "sizeSuffixBytes c =
     (if c = CHR ''K'' then Some (2 ^ 10) else if c = CHR ''M'' then Some (2 ^ 20)
      else if c = CHR ''G'' then Some (2 ^ 30) else if c = CHR ''T'' then Some (2 ^ 40) else None)"

text \<open>\<open>disk\<close> is the capacity of the file system, \<open>None\<close> if it cannot be read.\<close>

definition parseMaxTotalSize :: "'f float_ops \<Rightarrow> nat option \<Rightarrow> string \<Rightarrow> int" where
  "parseMaxTotalSize F disk v =
     (let value = trim_space v
      in if value = [] \<or> value = ''0'' then 0
         else if has_suffix value ''%'' then
           (case fl_parse F (trim_suffix value ''%'') of
              None \<Rightarrow> 0
            | Some pct \<Rightarrow>
                if fl_le_0 F pct \<or> fl_gt_100 F pct then 0
                else (case disk of None \<Rightarrow> 0 | Some bytes \<Rightarrow> fl_percent F bytes pct))
         else
           let upper = to_upper value;
               bare = (case parse_int upper of Inl _ \<Rightarrow> 0 | Inr bytes \<Rightarrow> if bytes \<le> 0 then 0 else bytes)
           in if 2 \<le> length upper then
                (case sizeSuffixBytes (last upper) of
                   None \<Rightarrow> bare
                 | Some factor \<Rightarrow>
                     (case fl_parse F (trim_space (butlast upper)) of
                        None \<Rightarrow> 0
                      | Some num \<Rightarrow> if fl_le_0 F num then 0 else fl_scale F num factor))
              else bare)"

section \<open>The class of a backup\<close>

text \<open>Each character of \<open>pat\<close> stands for itself, \<open>0\<close> for a digit.\<close>

definition like :: "string \<Rightarrow> string \<Rightarrow> bool" where
  "like pat s = list_all2 (\<lambda>p c. if p = CHR ''0'' then is_digit c else c = p) pat s"

definition archive_suffix :: "string \<Rightarrow> bool" where
  "archive_suffix s \<longleftrightarrow> s = ''.tar.gz'' \<or> s = ''.tar.gz.enc''"

text \<open>The submatch of the date in \<open>fullPattern\<close>, and \<open>incrPattern\<close>.\<close>

definition full_date :: "string \<Rightarrow> string option" where
  "full_date name =
     (let r = drop 16 name
      in if has_prefix name ''caspaste_backup_'' \<and> like ''0000-00-00_000000'' (take 17 r) \<and> archive_suffix (drop 17 r)
         then Some (take 10 r) else None)"

definition incr_pattern :: "string \<Rightarrow> bool" where
  "incr_pattern name \<longleftrightarrow>
     has_prefix name ''caspaste-daily'' \<and> archive_suffix (drop 14 name)
   \<or> has_prefix name ''caspaste-hourly'' \<and> archive_suffix (drop 15 name)"

definition leap :: "int \<Rightarrow> bool" where
  "leap y \<longleftrightarrow> y mod 4 = 0 \<and> (y mod 100 \<noteq> 0 \<or> y mod 400 = 0)"

definition days_in :: "int \<Rightarrow> int \<Rightarrow> int" where
  "days_in m y = (if m = 2 then (if leap y then 29 else 28) else if m \<in> {4, 6, 9, 11} then 30 else 31)"

text \<open>\<open>time.Parse("2006-01-02", s)\<close> on a string of that shape, as year, month and day.\<close>

definition parse_date :: "string \<Rightarrow> (int \<times> int \<times> int) option" where
  "parse_date s =
     (let num = (\<lambda>t. int (the (parse_nat t))); y = num (take 4 s); m = num (take 2 (drop 5 s));
          d = num (drop 8 s)
      in if 1 \<le> m \<and> m \<le> 12 \<and> 1 \<le> d \<and> d \<le> days_in m y then Some (y, m, d) else None)"

text \<open>Days since the first of March of the year 0, a Wednesday; Sunday is 0.\<close>

definition weekday :: "int \<times> int \<times> int \<Rightarrow> int" where
  "weekday date =
     (case date of (y, m, d) \<Rightarrow>
        let y' = if m \<le> 2 then y - 1 else y; m' = if m \<le> 2 then m + 9 else m - 3
        in (365 * y' + y' div 4 - y' div 100 + y' div 400 + (153 * m' + 2) div 5 + d + 2) mod 7)"

text \<open>The error of \<open>time.Parse\<close> is ignored, and the zero time is the first of January of the year 1.\<close>

definition date_class :: "string \<Rightarrow> string" where
  "date_class s =
     (let (y, m, d) = (case parse_date s of None \<Rightarrow> (1, 1, 1) | Some t \<Rightarrow> t)
      in if m = 1 \<and> d = 1 then ''yearly''
         else if d = 1 then ''monthly''
         else if weekday (y, m, d) = 0 then ''weekly''
         else ''daily'')"

definition backup_class :: "string \<Rightarrow> string option" where
  "backup_class name =
     (case full_date name of
        Some s \<Rightarrow> Some (date_class s)
      | None \<Rightarrow> if incr_pattern name then Some ''incremental'' else None)"

section \<open>Listing\<close>

record dir_entry =
  de_name :: string
  de_dir :: bool
  de_info :: "(int \<times> int) option"

datatype dir_listing = Dir_missing | Dir_unreadable | Entries "dir_entry list"

record BackupInfo =
  bi_Filename :: string
  bi_FilePath :: string
  bi_Size :: int
  bi_CreatedAt :: int
  bi_Encrypted :: bool
  bi_Type :: string
  bi_IsValid :: bool

definition backup_of :: "string \<Rightarrow> dir_entry \<Rightarrow> BackupInfo option" where
  "backup_of dir e =
     (if de_dir e then None
      else (case de_info e of
          None \<Rightarrow> None
        | Some (sz, mtime) \<Rightarrow>
            map_option (\<lambda>t. \<lparr>bi_Filename = de_name e, bi_FilePath = path_join [dir, de_name e], bi_Size = sz,
                bi_CreatedAt = mtime, bi_Encrypted = has_suffix (de_name e) ''.enc'', bi_Type = t,
                bi_IsValid = True\<rparr>) (backup_class (de_name e))))"

type_synonym sorter = "(BackupInfo \<Rightarrow> int) \<Rightarrow> BackupInfo list \<Rightarrow> BackupInfo list"

definition ListBackups :: "sorter \<Rightarrow> string \<Rightarrow> dir_listing \<Rightarrow> BackupInfo list option" where
  "ListBackups srt dir l =
     (case l of
        Dir_missing \<Rightarrow> Some []
      | Dir_unreadable \<Rightarrow> None
      | Entries es \<Rightarrow> Some (srt (\<lambda>b. - bi_CreatedAt b) (List.map_filter (backup_of dir) es)))"

section \<open>Applying the policy\<close>

definition of_type :: "string \<Rightarrow> BackupInfo list \<Rightarrow> BackupInfo list" where
  "of_type t bs = filter (\<lambda>b. bi_Type b = t) bs"

text \<open>The loop that takes the oldest survivors until the total is under the cap.\<close>

fun cap_loop :: "int \<Rightarrow> int \<Rightarrow> BackupInfo list \<Rightarrow> BackupInfo list" where
  "cap_loop sizeCap tot [] = []"
| "cap_loop sizeCap tot (b # bs) =
     (if tot \<le> sizeCap then [] else b # cap_loop sizeCap (int64 (tot - bi_Size b)) bs)"

definition survivors_of :: "BackupInfo list \<Rightarrow> BackupInfo list \<Rightarrow> BackupInfo list" where
  "survivors_of alreadyDeleted all =
     filter (\<lambda>b. \<not> (bi_FilePath b \<in> set (map bi_FilePath alreadyDeleted) \<or> bi_Type b = ''incremental'')) all"

definition applySizeCap :: "sorter \<Rightarrow> int \<Rightarrow> BackupInfo list \<Rightarrow> BackupInfo list \<Rightarrow> BackupInfo list" where
  "applySizeCap srt sizeCap all alreadyDeleted =
     (if sizeCap \<le> 0 then []
      else
        let survivors = survivors_of alreadyDeleted all;
            tot = foldl (\<lambda>t b. int64 (t + bi_Size b)) 0 survivors
        in if tot \<le> sizeCap then [] else cap_loop sizeCap tot (srt bi_CreatedAt survivors))"

definition excess :: "int \<Rightarrow> BackupInfo list \<Rightarrow> BackupInfo list" where
  "excess n bs = (if n > 0 \<and> int (length bs) > n then drop (nat n) bs else [])"

text \<open>What \<open>Apply\<close> removes. A negative number of daily backups would be an index out of range.\<close>

definition toDelete :: "sorter \<Rightarrow> int \<Rightarrow> RetentionConfig \<Rightarrow> BackupInfo list \<Rightarrow> BackupInfo list option" where
  "toDelete srt sizeCap c backups =
     (let daily = of_type ''daily'' backups
      in if int (length daily) > rc_MaxBackups c \<and> rc_MaxBackups c < 0 then None
         else
           let del = excess (rc_KeepYearly c) (of_type ''yearly'' backups)
                   @ excess (rc_KeepMonthly c) (of_type ''monthly'' backups)
                   @ excess (rc_KeepWeekly c) (of_type ''weekly'' backups)
                   @ (if int (length daily) > rc_MaxBackups c then drop (nat (rc_MaxBackups c)) daily else [])
           in Some (del @ applySizeCap srt sizeCap backups del))"

datatype retention_error = Read_failed | Slice_panic

text \<open>\<open>rm\<close> says which paths can be removed; a failure is logged.\<close>

definition remove_files :: "(string \<Rightarrow> bool) \<Rightarrow> string \<Rightarrow> string list \<Rightarrow> dir_listing \<Rightarrow> dir_listing" where
  "remove_files rm dir paths l =
     (case l of
        Entries es \<Rightarrow> Entries (filter (\<lambda>e. \<not> (path_join [dir, de_name e] \<in> set paths \<and> rm (path_join [dir, de_name e]))) es)
      | _ \<Rightarrow> l)"

definition Apply ::
    "sorter \<Rightarrow> 'f float_ops \<Rightarrow> nat option \<Rightarrow> (string \<Rightarrow> bool) \<Rightarrow> string \<Rightarrow> RetentionConfig \<Rightarrow> dir_listing \<Rightarrow>
     (retention_error + unit) \<times> dir_listing" where
  "Apply srt F disk rm dir c l =
     (case ListBackups srt dir l of
        None \<Rightarrow> (Inl Read_failed, l)
      | Some backups \<Rightarrow>
          (case toDelete srt (parseMaxTotalSize F disk (rc_MaxTotalSize c)) c backups of
             None \<Rightarrow> (Inl Slice_panic, l)
           | Some del \<Rightarrow> (Inr (), remove_files rm dir (map bi_FilePath del) l)))"

section \<open>Other operations\<close>

text \<open>\<open>os.Stat\<close> and \<open>os.Remove\<close> of one entry.\<close>

definition CleanupFailed :: "(string \<Rightarrow> bool) \<Rightarrow> string \<Rightarrow> string \<Rightarrow> dir_entry list \<Rightarrow> bool \<times> dir_entry list" where
  "CleanupFailed rm dir filename es =
     (let p = path_join [dir, filename]
      in if list_all (\<lambda>e. path_join [dir, de_name e] \<noteq> p) es then (True, es)
         else if rm p then (True, filter (\<lambda>e. path_join [dir, de_name e] \<noteq> p) es)
         else (False, es))"

definition GetStorageInfo :: "sorter \<Rightarrow> string \<Rightarrow> dir_listing \<Rightarrow> (int \<times> int) option" where
  "GetStorageInfo srt dir l =
     map_option (\<lambda>bs. (foldl (\<lambda>t b. int64 (t + bi_Size b)) 0 bs, int (length bs))) (ListBackups srt dir l)"

definition EstimateStorage :: "sorter \<Rightarrow> string \<Rightarrow> RetentionConfig \<Rightarrow> dir_listing \<Rightarrow> int option" where
  "EstimateStorage srt dir c l =
     (case ListBackups srt dir l of
        None \<Rightarrow> None
      | Some backups \<Rightarrow>
          if backups = [] then Some 0
          else
            let full = filter (\<lambda>b. bi_Type b \<noteq> ''incremental'') backups;
                totalSize = foldl (\<lambda>t b. int64 (t + bi_Size b)) 0 full;
                fullCount = int (length full)
            in if fullCount = 0 then Some 0
               else
                 let avgSize = go_div totalSize fullCount;
                     expectedCount = int64 (rc_MaxBackups c + rc_KeepWeekly c + rc_KeepMonthly c + rc_KeepYearly c + 2)
                 in Some (int64 (avgSize * expectedCount)))"

section \<open>What the sort and the directory give\<close>

definition sorts :: "sorter \<Rightarrow> bool" where
  "sorts srt \<longleftrightarrow> (\<forall>key bs. mset (srt key bs) = mset bs \<and> sorted (map key (srt key bs)))"

lemma sorts_sort_key: "sorts sort_key"
  by (simp add: sorts_def)

lemma sorts_set: "sorts srt \<Longrightarrow> set (srt key bs) = set bs"
  by (metis sorts_def set_mset_mset)

definition dir_ok :: "string \<Rightarrow> dir_entry list \<Rightarrow> bool" where
  "dir_ok dir es \<longleftrightarrow> IsAbs dir \<and> list_all (\<lambda>e. plain_comp (de_name e)) es \<and> distinct (map de_name es)"

lemma backup_of_path: "backup_of dir e = Some b \<Longrightarrow> bi_FilePath b = path_join [dir, de_name e]"
  by (auto simp: backup_of_def split: if_splits option.splits)

lemma set_map_filter: "set (List.map_filter f xs) = {y. \<exists>x \<in> set xs. f x = Some y}"
  by (auto simp: List.map_filter_def image_iff) (metis option.sel)

lemma map_filter_filter:
  assumes "\<And>x y. f x = Some y \<Longrightarrow> P x \<longleftrightarrow> Q y"
  shows "List.map_filter f (filter P xs) = filter Q (List.map_filter f xs)"
proof (induction xs)
  case (Cons x xs)
  then show ?case using assms by (cases "f x") (auto simp: map_filter_simps)
qed (simp add: map_filter_simps)

lemma entry_of_path:
  assumes "dir_ok dir es" and "e \<in> set es" and "b \<in> set (List.map_filter (backup_of dir) es)"
    and "bi_FilePath b = path_join [dir, de_name e]"
  shows "backup_of dir e = Some b"
proof -
  from assms(3) obtain e0 where e0: "e0 \<in> set es" "backup_of dir e0 = Some b"
    by (auto simp: set_map_filter)
  then have "path_join [dir, de_name e0] = path_join [dir, de_name e]"
    using backup_of_path [OF e0(2)] assms(4) by simp
  then have "de_name e0 = de_name e"
    using assms(1,2) e0(1) by (simp add: dir_ok_def list_all_iff path_join_inject)
  then have "e0 = e" using assms(1,2) e0(1) by (auto simp: dir_ok_def distinct_map dest: inj_onD)
  with e0(2) show ?thesis by simp
qed

lemma path_determines:
  assumes "dir_ok dir es" and "b \<in> set (List.map_filter (backup_of dir) es)"
    and "b' \<in> set (List.map_filter (backup_of dir) es)" and "bi_FilePath b = bi_FilePath b'"
  shows "b = b'"
proof -
  from assms(2) obtain e where e: "e \<in> set es" "backup_of dir e = Some b" by (auto simp: set_map_filter)
  then have "backup_of dir e = Some b'"
    using entry_of_path [OF assms(1) e(1) assms(3)] backup_of_path [OF e(2)] assms(4) by simp
  with e(2) show ?thesis by simp
qed

text \<open>The listing before and after files are removed.\<close>

lemma ListBackups_sorted:
  assumes "sorts srt" and "ListBackups srt dir (Entries es) = Some bs"
  shows "mset bs = mset (List.map_filter (backup_of dir) es)"
    and "sorted_wrt (\<lambda>a b. bi_CreatedAt b \<le> bi_CreatedAt a) bs"
proof -
  have bs: "bs = srt (\<lambda>b. - bi_CreatedAt b) (List.map_filter (backup_of dir) es)"
    using assms(2) by (simp add: ListBackups_def)
  then show "mset bs = mset (List.map_filter (backup_of dir) es)" using assms(1) by (simp add: sorts_def)
  have "sorted (map (\<lambda>b. - bi_CreatedAt b) bs)" unfolding bs using assms(1) by (simp only: sorts_def)
  then show "sorted_wrt (\<lambda>a b. bi_CreatedAt b \<le> bi_CreatedAt a) bs" by (simp add: sorted_wrt_map)
qed

lemma ListBackups_removed:
  assumes "sorts srt" and "ListBackups srt dir (Entries es) = Some bs"
    and "ListBackups srt dir (remove_files rm dir ps (Entries es)) = Some bs'"
  shows "mset bs' = mset (filter (\<lambda>b. \<not> (bi_FilePath b \<in> set ps \<and> rm (bi_FilePath b))) bs)"
proof -
  have "List.map_filter (backup_of dir)
      (filter (\<lambda>e. \<not> (path_join [dir, de_name e] \<in> set ps \<and> rm (path_join [dir, de_name e]))) es)
    = filter (\<lambda>b. \<not> (bi_FilePath b \<in> set ps \<and> rm (bi_FilePath b))) (List.map_filter (backup_of dir) es)"
    by (rule map_filter_filter) (simp add: backup_of_path)
  then show ?thesis
    using assms by (auto simp: ListBackups_def remove_files_def sorts_def)
qed

section \<open>What is deleted\<close>

lemma sizes_nonneg: "list_all (\<lambda>b. 0 \<le> bi_Size b) bs \<Longrightarrow> 0 \<le> sum_list (map bi_Size bs)"
  by (induction bs) simp_all

lemma sum_int64:
  assumes "list_all (\<lambda>b. 0 \<le> bi_Size b) bs" and "0 \<le> t" and "t + sum_list (map bi_Size bs) \<le> int64_max"
  shows "foldl (\<lambda>t b. int64 (t + bi_Size b)) t bs = t + sum_list (map bi_Size bs)"
  using assms
proof (induction bs arbitrary: t)
  case (Cons b bs)
  have "0 \<le> sum_list (map bi_Size bs)" using Cons.prems(1) by (simp add: sizes_nonneg)
  then have "int64 (t + bi_Size b) = t + bi_Size b"
    using Cons.prems by (intro int64_small) (auto simp: int64_max_def)
  with Cons show ?case by (simp add: algebra_simps)
qed simp

lemma cap_loop_prefix: "\<exists>k. cap_loop c t bs = take k bs"
proof (induction bs arbitrary: t)
  case (Cons b bs)
  obtain k where "cap_loop c (int64 (t - bi_Size b)) bs = take k bs" using Cons by blast
  then show ?case by (auto intro: exI [of _ 0] exI [of _ "Suc k"])
qed simp

lemma cap_loop_fits:
  assumes "list_all (\<lambda>b. 0 \<le> bi_Size b) bs" and "sum_list (map bi_Size bs) \<le> int64_max" and "0 < c"
  shows "\<exists>k. cap_loop c (sum_list (map bi_Size bs)) bs = take k bs \<and> sum_list (map bi_Size (drop k bs)) \<le> c"
  using assms
proof (induction bs)
  case (Cons b bs)
  have nn: "0 \<le> sum_list (map bi_Size bs)" using Cons.prems(1) by (simp add: sizes_nonneg)
  then have "int64 (sum_list (map bi_Size (b # bs)) - bi_Size b) = sum_list (map bi_Size bs)"
    using Cons.prems by (auto simp: int64_max_def intro!: int64_small)
  moreover obtain k where "cap_loop c (sum_list (map bi_Size bs)) bs = take k bs"
    "sum_list (map bi_Size (drop k bs)) \<le> c"
    using Cons nn by auto
  ultimately show ?case
    by (cases "sum_list (map bi_Size (b # bs)) \<le> c") (auto intro: exI [of _ 0] exI [of _ "Suc k"])
qed simp

lemma applySizeCap_prefix: "\<exists>n. applySizeCap srt k all del = take n (srt bi_CreatedAt (survivors_of del all))"
proof (cases "applySizeCap srt k all del = []")
  case True
  then show ?thesis by (intro exI [of _ 0]) simp
next
  case False
  then have "applySizeCap srt k all del = cap_loop k (foldl (\<lambda>t b. int64 (t + bi_Size b)) 0 (survivors_of del all))
      (srt bi_CreatedAt (survivors_of del all))"
    by (simp add: applySizeCap_def Let_def split: if_splits)
  then show ?thesis using cap_loop_prefix by simp
qed

lemma set_applySizeCap:
  assumes "sorts srt" and "b \<in> set (applySizeCap srt c all del)"
  shows "b \<in> set all \<and> bi_FilePath b \<notin> bi_FilePath ` set del \<and> bi_Type b \<noteq> ''incremental''"
proof -
  from assms(2) have "b \<in> set (srt bi_CreatedAt (survivors_of del all))"
    using applySizeCap_prefix [of srt c all del] by (auto dest: in_set_takeD)
  then show ?thesis by (simp add: sorts_set [OF assms(1)] survivors_of_def)
qed

text \<open>The four counts; a class with limit 0 is exempt.\<close>

definition class_limit :: "RetentionConfig \<Rightarrow> string \<Rightarrow> int" where
  "class_limit c t =
     (if t = ''daily'' then rc_MaxBackups c else if t = ''weekly'' then rc_KeepWeekly c
      else if t = ''monthly'' then rc_KeepMonthly c else if t = ''yearly'' then rc_KeepYearly c else 0)"

definition counted :: "RetentionConfig \<Rightarrow> BackupInfo list \<Rightarrow> BackupInfo list" where
  "counted c bs = excess (rc_KeepYearly c) (of_type ''yearly'' bs)
     @ excess (rc_KeepMonthly c) (of_type ''monthly'' bs)
     @ excess (rc_KeepWeekly c) (of_type ''weekly'' bs)
     @ excess (rc_MaxBackups c) (of_type ''daily'' bs)"

lemma toDelete_eq:
  assumes "1 \<le> rc_MaxBackups c"
  shows "toDelete srt k c bs = Some (counted c bs @ applySizeCap srt k bs (counted c bs))"
  using assms by (simp add: toDelete_def counted_def excess_def Let_def)

lemma set_excess: "set (excess n bs) \<subseteq> set bs"
  by (auto simp: excess_def dest: in_set_dropD)

lemma counted_type:
  assumes "b \<in> set (counted c bs)"
  shows "b \<in> set (excess (class_limit c (bi_Type b)) (of_type (bi_Type b) bs)) \<and> bi_Type b \<noteq> ''incremental''"
  using assms set_excess [of "rc_KeepYearly c" "of_type ''yearly'' bs"]
    set_excess [of "rc_KeepMonthly c" "of_type ''monthly'' bs"]
    set_excess [of "rc_KeepWeekly c" "of_type ''weekly'' bs"] set_excess [of "rc_MaxBackups c" "of_type ''daily'' bs"]
  by (auto simp: counted_def class_limit_def of_type_def)

lemma counted_subset: "set (counted c bs) \<subseteq> set bs"
  using counted_type set_excess by (fastforce simp: of_type_def)

lemma excess_subset_counted:
  "t \<in> {''daily'', ''weekly'', ''monthly'', ''yearly''} \<Longrightarrow>
     set (excess (class_limit c t) (of_type t bs)) \<subseteq> set (counted c bs)"
  by (auto simp: counted_def class_limit_def)

lemma excess_older:
  assumes "sorted_wrt (\<lambda>a b. bi_CreatedAt b \<le> bi_CreatedAt a) bs"
    and "b \<in> set (excess n (of_type t bs))" and "b' \<in> set (of_type t bs)" and "b' \<notin> set (excess n (of_type t bs))"
  shows "bi_CreatedAt b \<le> bi_CreatedAt b'"
proof -
  have "sorted_wrt (\<lambda>a b. bi_CreatedAt b \<le> bi_CreatedAt a) (of_type t bs)"
    unfolding of_type_def by (rule sorted_wrt_filter [OF assms(1)])
  then have s: "sorted_wrt (\<lambda>a b. bi_CreatedAt b \<le> bi_CreatedAt a)
      (take (nat n) (of_type t bs) @ drop (nat n) (of_type t bs))" by simp
  have "b \<in> set (drop (nat n) (of_type t bs))" using assms(2) by (auto simp: excess_def split: if_splits)
  moreover have "b' \<in> set (take (nat n) (of_type t bs))"
    using assms(2-4) by (metis UnE append_take_drop_id excess_def set_append list.set(1) empty_iff)
  ultimately show ?thesis using s unfolding sorted_wrt_append by blast
qed

lemma cap_older:
  assumes "sorts srt" and "b \<in> set (applySizeCap srt k bs del)" and "b' \<in> set bs"
    and "b' \<notin> set (applySizeCap srt k bs del)" and "bi_FilePath b' \<notin> bi_FilePath ` set del"
    and "bi_Type b' \<noteq> ''incremental''"
  shows "bi_CreatedAt b \<le> bi_CreatedAt b'"
proof -
  let ?S = "srt bi_CreatedAt (survivors_of del bs)"
  obtain n where n: "applySizeCap srt k bs del = take n ?S" using applySizeCap_prefix by blast
  have "sorted (map bi_CreatedAt ?S)" using assms(1) by (simp only: sorts_def)
  then have s: "sorted_wrt (\<lambda>a b. bi_CreatedAt a \<le> bi_CreatedAt b) (take n ?S @ drop n ?S)"
    by (simp add: sorted_wrt_map)
  have "b' \<in> set ?S" using assms(3,5,6) by (simp add: sorts_set [OF assms(1)] survivors_of_def)
  then have "b' \<in> set (drop n ?S)" using assms(4) n by (metis UnE append_take_drop_id set_append)
  moreover have "b \<in> set (take n ?S)" using assms(2) n by simp
  ultimately show ?thesis using s unfolding sorted_wrt_append by blast
qed

section \<open>The policy\<close>

text \<open>The steps of \<open>Apply\<close> with a valid configuration.\<close>

lemma Apply_steps:
  assumes "1 \<le> rc_MaxBackups c" and "ListBackups srt dir (Entries es) = Some bs"
  shows "Apply srt F disk rm dir c (Entries es) =
     (Inr (), remove_files rm dir (map bi_FilePath (counted c bs @
        applySizeCap srt (parseMaxTotalSize F disk (rc_MaxTotalSize c)) bs (counted c bs))) (Entries es))"
  using assms by (simp add: Apply_def toDelete_eq)

lemma SetConfig_valid: "1 \<le> rc_MaxBackups (SetConfig c)"
  by (simp add: SetConfig_def Let_def)

lemma length_excess_kept:
  assumes "0 < n" and "bi_FilePath ` set (excess n bs) \<subseteq> P"
  shows "int (length (filter (\<lambda>b. bi_FilePath b \<notin> P) bs)) \<le> n"
proof (cases "int (length bs) > n")
  case True
  then have "filter (\<lambda>b. bi_FilePath b \<notin> P) (drop (nat n) bs) = []"
    using assms by (auto simp: excess_def filter_empty_conv)
  then have "filter (\<lambda>b. bi_FilePath b \<notin> P) bs = filter (\<lambda>b. bi_FilePath b \<notin> P) (take (nat n) bs)"
    by (metis append_Nil2 append_take_drop_id filter_append)
  moreover have "length (filter (\<lambda>b. bi_FilePath b \<notin> P) (take (nat n) bs)) \<le> nat n"
    using length_filter_le [of "\<lambda>b. bi_FilePath b \<notin> P" "take (nat n) bs"] by simp
  ultimately show ?thesis using assms(1) by (simp add: le_nat_iff)
next
  case False
  then show ?thesis using length_filter_le [of "\<lambda>b. bi_FilePath b \<notin> P" bs] by linarith
qed

text \<open>
  C31: The limits hold after the policy was applied: with files that can be removed, at most the
  configured number of daily backups remain, and of weekly, monthly and yearly ones where a number
  is set; \<open>Apply\<close> never fails with a configuration that went through \<open>SetConfig\<close>, even a senseless one.
\<close>

theorem retention_limits:
  assumes "sorts srt" and "ListBackups srt dir (Entries es) = Some bs"
    and "t \<in> {''daily'', ''weekly'', ''monthly'', ''yearly''}" and "0 < class_limit (SetConfig c) t"
  shows "\<exists>l bs'. Apply srt F disk (\<lambda>p. True) dir (SetConfig c) (Entries es) = (Inr (), l)
     \<and> ListBackups srt dir l = Some bs' \<and> int (length (of_type t bs')) \<le> class_limit (SetConfig c) t"
proof -
  let ?del = "counted (SetConfig c) bs @
    applySizeCap srt (parseMaxTotalSize F disk (rc_MaxTotalSize (SetConfig c))) bs (counted (SetConfig c) bs)"
  let ?P = "set (map bi_FilePath ?del)"
  let ?l = "remove_files (\<lambda>p. True) dir (map bi_FilePath ?del) (Entries es)"
  obtain bs' where bs': "ListBackups srt dir ?l = Some bs'"
    by (simp add: ListBackups_def remove_files_def)
  have "mset bs' = mset (filter (\<lambda>b. bi_FilePath b \<notin> ?P) bs)"
    using ListBackups_removed [OF assms(1,2) bs'] by simp
  then have "mset (of_type t bs') = mset (filter (\<lambda>b. bi_FilePath b \<notin> ?P) (of_type t bs))"
    unfolding of_type_def by (simp add: filter_mset_eq_conv flip: mset_filter) (simp add: multiset.map_comp filter_filter_mset conj_commute)
  then have "length (of_type t bs') = length (filter (\<lambda>b. bi_FilePath b \<notin> ?P) (of_type t bs))"
    by (metis size_mset)
  moreover have "int (length (filter (\<lambda>b. bi_FilePath b \<notin> ?P) (of_type t bs))) \<le> class_limit (SetConfig c) t"
    using excess_subset_counted [OF assms(3), of "SetConfig c" bs]
    by (intro length_excess_kept assms(4)) auto
  ultimately show ?thesis using Apply_steps [OF SetConfig_valid assms(2), of F disk "\<lambda>p. True"] bs'
    by (intro exI [of _ ?l] exI [of _ bs']) simp
qed

lemma sum_sizes_mset:
  assumes "mset xs = mset ys"
  shows "sum_list (map bi_Size xs) = sum_list (map bi_Size ys)"
proof -
  have "mset (map bi_Size xs) = mset (map bi_Size ys)" using assms by simp
  then show ?thesis by (metis sum_mset_sum_list)
qed

lemma sum_filter_le:
  "list_all (\<lambda>b. 0 \<le> bi_Size b) bs \<Longrightarrow>
     sum_list (map bi_Size (filter P bs)) \<le> sum_list (map bi_Size bs)"
  by (induction bs) auto

lemma cap_remaining:
  assumes "sorts srt" and "list_all (\<lambda>b. 0 \<le> bi_Size b) bs" and "sum_list (map bi_Size bs) \<le> int64_max" and "0 < k"
  shows "sum_list (map bi_Size (filter (\<lambda>b. bi_FilePath b \<notin> bi_FilePath ` set (applySizeCap srt k bs del))
      (survivors_of del bs))) \<le> k"
proof -
  let ?S = "survivors_of del bs" and ?E = "applySizeCap srt k bs del"
  have nn: "list_all (\<lambda>b. 0 \<le> bi_Size b) ?S" using assms(2) by (auto simp: survivors_of_def list_all_iff)
  have le: "sum_list (map bi_Size ?S) \<le> int64_max"
    using sum_filter_le [OF assms(2)] assms(3) by (auto simp: survivors_of_def intro: order_trans)
  have tot: "foldl (\<lambda>t b. int64 (t + bi_Size b)) 0 ?S = sum_list (map bi_Size ?S)"
    using sum_int64 [OF nn, of 0] le by simp
  show ?thesis
  proof (cases "sum_list (map bi_Size ?S) \<le> k")
    case True
    then show ?thesis using sum_filter_le [OF nn] by (rule order_trans [rotated])
  next
    case False
    let ?R = "srt bi_CreatedAt ?S"
    have m: "mset ?R = mset ?S" using assms(1) by (simp add: sorts_def)
    have sum: "sum_list (map bi_Size ?R) = sum_list (map bi_Size ?S)"
      by (rule sum_sizes_mset [OF m])
    have nnR: "list_all (\<lambda>b. 0 \<le> bi_Size b) ?R" using nn by (simp add: list_all_iff sorts_set [OF assms(1)])
    have "?E = cap_loop k (sum_list (map bi_Size ?R)) ?R"
      using False assms(4) by (simp add: applySizeCap_def Let_def tot sum)
    then obtain n where n: "?E = take n ?R" "sum_list (map bi_Size (drop n ?R)) \<le> k"
      using cap_loop_fits [OF nnR _ assms(4)] sum le by auto
    let ?P = "\<lambda>b. bi_FilePath b \<notin> bi_FilePath ` set ?E"
    have "sum_list (map bi_Size (filter ?P ?S)) = sum_list (map bi_Size (filter ?P ?R))"
      by (rule sum_sizes_mset) (simp add: m)
    also have "filter ?P ?R = filter ?P (take n ?R) @ filter ?P (drop n ?R)"
      by (metis append_take_drop_id filter_append)
    also have "filter ?P (take n ?R) = []" by (auto simp: n(1) filter_empty_conv)
    also have "sum_list (map bi_Size ([] @ filter ?P (drop n ?R))) \<le> sum_list (map bi_Size (drop n ?R))"
      using nnR by (simp, intro sum_filter_le) (auto simp: list_all_iff dest: in_set_dropD)
    finally show ?thesis using n(2) by simp
  qed
qed

text \<open>
  The cap is a hard one: with a limit on the total size and files that can be removed, the full
  backups that remain after the policy was applied fit under the cap, even if that means that none
  is left; sizes are not negative and their sum stays in 64 bits.
\<close>

theorem size_cap_holds:
  assumes "sorts srt" and "ListBackups srt dir (Entries es) = Some bs" and "1 \<le> rc_MaxBackups c"
    and "list_all (\<lambda>b. 0 \<le> bi_Size b) bs" and "sum_list (map bi_Size bs) \<le> int64_max"
    and "0 < parseMaxTotalSize F disk (rc_MaxTotalSize c)"
  shows "\<exists>l bs'. Apply srt F disk (\<lambda>p. True) dir c (Entries es) = (Inr (), l)
     \<and> ListBackups srt dir l = Some bs'
     \<and> sum_list (map bi_Size (filter (\<lambda>b. bi_Type b \<noteq> ''incremental'') bs'))
         \<le> parseMaxTotalSize F disk (rc_MaxTotalSize c)"
proof -
  let ?k = "parseMaxTotalSize F disk (rc_MaxTotalSize c)" and ?C = "counted c bs"
  let ?E = "applySizeCap srt ?k bs ?C"
  let ?l = "remove_files (\<lambda>p. True) dir (map bi_FilePath (?C @ ?E)) (Entries es)"
  obtain bs' where bs': "ListBackups srt dir ?l = Some bs'" by (simp add: ListBackups_def remove_files_def)
  have "mset bs' = mset (filter (\<lambda>b. bi_FilePath b \<notin> set (map bi_FilePath (?C @ ?E))) bs)"
    using ListBackups_removed [OF assms(1,2) bs'] by simp
  then have "mset (filter (\<lambda>b. bi_Type b \<noteq> ''incremental'') bs')
      = mset (filter (\<lambda>b. bi_Type b \<noteq> ''incremental'') (filter (\<lambda>b. bi_FilePath b \<notin> set (map bi_FilePath (?C @ ?E))) bs))"
    by (simp only: mset_filter)
  also have "filter (\<lambda>b. bi_Type b \<noteq> ''incremental'') (filter (\<lambda>b. bi_FilePath b \<notin> set (map bi_FilePath (?C @ ?E))) bs)
      = filter (\<lambda>b. bi_FilePath b \<notin> bi_FilePath ` set ?E) (survivors_of ?C bs)"
    by (auto simp: survivors_of_def intro: filter_cong)
  finally have same: "mset (filter (\<lambda>b. bi_Type b \<noteq> ''incremental'') bs')
      = mset (filter (\<lambda>b. bi_FilePath b \<notin> bi_FilePath ` set ?E) (survivors_of ?C bs))" .
  have "sum_list (map bi_Size (filter (\<lambda>b. bi_Type b \<noteq> ''incremental'') bs')) \<le> ?k"
    unfolding sum_sizes_mset [OF same] by (rule cap_remaining [OF assms(1,4,5,6)])
  then show ?thesis using Apply_steps [OF assms(3,2), of F disk "\<lambda>p. True"] bs'
    by (intro exI [of _ ?l] exI [of _ bs']) simp
qed

lemma deleted_class:
  assumes "sorts srt" and "b \<in> set (counted c bs @ applySizeCap srt k bs (counted c bs))"
  shows "b \<in> set bs \<and> bi_Type b \<noteq> ''incremental''"
  using assms set_applySizeCap [OF assms(1), of b k bs "counted c bs"] counted_type [of b c bs] counted_subset [of c bs]
  by auto

lemma deleted_older:
  assumes "sorts srt" and "sorted_wrt (\<lambda>a b. bi_CreatedAt b \<le> bi_CreatedAt a) bs"
    and "\<And>x y. x \<in> set bs \<Longrightarrow> y \<in> set bs \<Longrightarrow> bi_FilePath x = bi_FilePath y \<Longrightarrow> x = y"
    and "b \<in> set (counted c bs @ applySizeCap srt k bs (counted c bs))" and "b' \<in> set bs"
    and "b' \<notin> set (counted c bs @ applySizeCap srt k bs (counted c bs))" and "bi_Type b' = bi_Type b"
    and "bi_Type b \<in> {''daily'', ''weekly'', ''monthly'', ''yearly''}"
  shows "bi_CreatedAt b \<le> bi_CreatedAt b'"
proof (cases "b \<in> set (counted c bs)")
  case True
  have "b' \<notin> set (excess (class_limit c (bi_Type b)) (of_type (bi_Type b) bs))"
    using excess_subset_counted [OF assms(8), of c bs] assms(6) by auto
  moreover have "b' \<in> set (of_type (bi_Type b) bs)" using assms(5,7) by (simp add: of_type_def)
  ultimately show ?thesis
    using counted_type [OF True] excess_older [OF assms(2), of b "class_limit c (bi_Type b)" "bi_Type b"] by blast
next
  case False
  then have b: "b \<in> set (applySizeCap srt k bs (counted c bs))" using assms(4) by simp
  have "bi_FilePath b' \<notin> bi_FilePath ` set (counted c bs)"
    using assms(3) [OF assms(5)] assms(6) counted_subset [of c bs] by fastforce
  then show ?thesis
    using cap_older [OF assms(1) b assms(5)] assms(6,7) set_applySizeCap [OF assms(1) b] by auto
qed

text \<open>
  The policy takes the oldest: whatever files can be removed, a backup that disappears is a full
  one and no newer than any backup of its class that was kept, and every other file of the directory, the
  incremental backups among them, is still there.
\<close>

theorem retention_takes_oldest:
  assumes "sorts srt" and "dir_ok dir es" and "1 \<le> rc_MaxBackups c"
    and "Apply srt F disk rm dir c (Entries es) = (r, Entries es')"
  shows "(\<forall>e \<in> set es - set es'. \<exists>b. backup_of dir e = Some b \<and> bi_Type b \<noteq> ''incremental''
        \<and> (\<forall>e' \<in> set es'. \<forall>b'. backup_of dir e' = Some b' \<and> bi_Type b' = bi_Type b \<and> rm (bi_FilePath b')
              \<longrightarrow> bi_CreatedAt b \<le> bi_CreatedAt b'))
     \<and> set es' \<subseteq> set es"
proof -
  obtain bs where bs: "ListBackups srt dir (Entries es) = Some bs" by (simp add: ListBackups_def)
  let ?k = "parseMaxTotalSize F disk (rc_MaxTotalSize c)"
  let ?D = "counted c bs @ applySizeCap srt ?k bs (counted c bs)"
  have set_bs: "set bs = set (List.map_filter (backup_of dir) es)"
    using ListBackups_sorted(1) [OF assms(1) bs] by (metis set_mset_mset)
  have es': "es' = filter (\<lambda>e. \<not> (path_join [dir, de_name e] \<in> set (map bi_FilePath ?D) \<and> rm (path_join [dir, de_name e]))) es"
    using Apply_steps [OF assms(3) bs, of F disk rm] assms(4) by (simp add: remove_files_def)
  have inj: "x = y" if "x \<in> set bs" "y \<in> set bs" "bi_FilePath x = bi_FilePath y" for x y
    using path_determines [OF assms(2)] that set_bs by blast
  have "\<exists>b. backup_of dir e = Some b \<and> bi_Type b \<noteq> ''incremental''
        \<and> (\<forall>e' \<in> set es'. \<forall>b'. backup_of dir e' = Some b' \<and> bi_Type b' = bi_Type b \<and> rm (bi_FilePath b')
              \<longrightarrow> bi_CreatedAt b \<le> bi_CreatedAt b')" if e: "e \<in> set es" "e \<notin> set es'" for e
  proof -
    from e have "path_join [dir, de_name e] \<in> bi_FilePath ` set ?D" unfolding es' by auto
    then obtain b where b: "b \<in> set ?D" "bi_FilePath b = path_join [dir, de_name e]" by (metis imageE)
    have b': "b \<in> set bs" "bi_Type b \<noteq> ''incremental''" using deleted_class [OF assms(1) b(1)] by auto
    then have be: "backup_of dir e = Some b" using entry_of_path [OF assms(2) e(1)] b(2) set_bs by auto
    have cls: "bi_Type b \<in> {''daily'', ''weekly'', ''monthly'', ''yearly''}"
      using be b'(2) by (auto simp: backup_of_def backup_class_def date_class_def split: if_splits option.splits prod.splits)
    have "bi_CreatedAt b \<le> bi_CreatedAt y"
      if y: "e' \<in> set es'" "backup_of dir e' = Some y" "bi_Type y = bi_Type b" "rm (bi_FilePath y)" for e' y
    proof -
      have "y \<in> set bs" using y(1,2) unfolding es' set_bs by (auto simp: set_map_filter)
      moreover have "y \<notin> set ?D" using y(1,2,4) backup_of_path [OF y(2)] unfolding es' by force
      ultimately show ?thesis
        using deleted_older [OF assms(1) ListBackups_sorted(2) [OF assms(1) bs] inj b(1), of y] y(3) cls by blast
    qed
    with be b'(2) show ?thesis by blast
  qed
  then show ?thesis unfolding es' by auto
qed

text \<open>
  A count of 0 does not mean that no backup of the class is kept: with \<open>keep_weekly\<close>, \<open>keep_monthly\<close>
  or \<open>keep_yearly\<close> at 0, documented as disabled, the policy never removes a backup of that class
  unless a size cap does, so that the backups of Sundays and of the first of a month pile up.
\<close>

theorem disabled_class_never_pruned:
  assumes "sorts srt" and "dir_ok dir es" and "1 \<le> rc_MaxBackups c"
    and "parseMaxTotalSize F disk (rc_MaxTotalSize c) \<le> 0"
    and "Apply srt F disk rm dir c (Entries es) = (r, Entries es')"
    and "e \<in> set es" and "backup_of dir e = Some b" and "class_limit c (bi_Type b) = 0"
  shows "e \<in> set es'"
proof -
  obtain bs where bs: "ListBackups srt dir (Entries es) = Some bs" by (simp add: ListBackups_def)
  have set_bs: "set bs = set (List.map_filter (backup_of dir) es)"
    using ListBackups_sorted(1) [OF assms(1) bs] by (metis set_mset_mset)
  have es': "es' = filter (\<lambda>e. \<not> (path_join [dir, de_name e] \<in> set (map bi_FilePath (counted c bs))
      \<and> rm (path_join [dir, de_name e]))) es"
    using Apply_steps [OF assms(3) bs, of F disk rm] assms(4,5) by (simp add: remove_files_def applySizeCap_def)
  show ?thesis
  proof (rule ccontr)
    assume "e \<notin> set es'"
    then have "path_join [dir, de_name e] \<in> bi_FilePath ` set (counted c bs)" using assms(6) unfolding es' by auto
    then obtain b0 where b0: "b0 \<in> set (counted c bs)" "bi_FilePath b0 = path_join [dir, de_name e]" by (metis imageE)
    then have "backup_of dir e = Some b0"
      using entry_of_path [OF assms(2,6)] counted_subset [of c bs] set_bs by auto
    with assms(7) have "b0 = b" by simp
    with counted_type [OF b0(1)] assms(8) show False by (simp add: excess_def)
  qed
qed

section \<open>A concrete directory\<close>

definition int_float :: "int float_ops" where
  "int_float = \<lparr>fl_parse = (\<lambda>s. case parse_int s of Inl _ \<Rightarrow> None | Inr n \<Rightarrow> Some n), fl_le_0 = (\<lambda>x. x \<le> 0),
     fl_gt_100 = (\<lambda>x. 100 < x), fl_percent = (\<lambda>n p. int n * p div 100), fl_scale = (\<lambda>x m. x * m)\<rparr>"

definition sample_file :: "string \<Rightarrow> int \<Rightarrow> int \<Rightarrow> dir_entry" where
  "sample_file n sz t = \<lparr>de_name = n, de_dir = False, de_info = Some (sz, t)\<rparr>"

definition sample_dir :: "dir_entry list" where
  "sample_dir =
     [sample_file ''caspaste-daily.tar.gz'' 5 4,
      sample_file ''caspaste_backup_2025-01-05_020000.tar.gz'' 40 1,
      sample_file ''caspaste_backup_2025-01-06_020000.tar.gz'' 20 2,
      sample_file ''caspaste_backup_2025-01-07_020000.tar.gz'' 30 3,
      sample_file ''notes.txt'' 1 1]"

definition sample_backups :: "BackupInfo list" where
  "sample_backups = the (ListBackups sort_key ''/b'' (Entries sample_dir))"

lemma sample_listing: "ListBackups sort_key ''/b'' (Entries sample_dir) = Some sample_backups"
  by (simp add: sample_backups_def ListBackups_def)

lemma sample_dir_ok: "dir_ok ''/b'' sample_dir"
  by code_simp

lemma sample_sizes:
  "list_all (\<lambda>b. 0 \<le> bi_Size b) sample_backups" "sum_list (map bi_Size sample_backups) \<le> int64_max"
  "parseMaxTotalSize int_float None ''20'' = 20"
  by code_simp+

theorem retention_limits_witness:
  "\<exists>l bs'. Apply sort_key int_float None (\<lambda>p. True) ''/b'' (SetConfig (DefaultRetentionConfig\<lparr>rc_MaxBackups := -3\<rparr>))
       (Entries sample_dir) = (Inr (), l) \<and> ListBackups sort_key ''/b'' l = Some bs' \<and> length (of_type ''daily'' bs') \<le> 1"
  using retention_limits [OF sorts_sort_key sample_listing, of "''daily''" "DefaultRetentionConfig\<lparr>rc_MaxBackups := -3\<rparr>"
      int_float None]
  by (simp add: class_limit_def SetConfig_def DefaultRetentionConfig_def Let_def)

theorem size_cap_holds_witness:
  "\<exists>l bs'. Apply sort_key int_float None (\<lambda>p. True) ''/b'' (DefaultRetentionConfig\<lparr>rc_MaxTotalSize := ''20''\<rparr>)
       (Entries sample_dir) = (Inr (), l) \<and> ListBackups sort_key ''/b'' l = Some bs'
     \<and> sum_list (map bi_Size (filter (\<lambda>b. bi_Type b \<noteq> ''incremental'') bs')) \<le> 20"
  using size_cap_holds [OF sorts_sort_key sample_listing, of "DefaultRetentionConfig\<lparr>rc_MaxTotalSize := ''20''\<rparr>"
      int_float None] sample_sizes
  by (simp add: DefaultRetentionConfig_def)

text \<open>That cap leaves no backup at all: the newest one is larger than it.\<close>

lemma cap_deletes_newest:
  "snd (Apply sort_key int_float None (\<lambda>p. True) ''/b'' (DefaultRetentionConfig\<lparr>rc_MaxTotalSize := ''20''\<rparr>)
       (Entries sample_dir))
   = Entries [sample_file ''caspaste-daily.tar.gz'' 5 4, sample_file ''notes.txt'' 1 1]"
  by code_simp

lemma sample_default:
  "Apply sort_key int_float None (\<lambda>p. True) ''/b'' (DefaultRetentionConfig\<lparr>rc_MaxTotalSize := ''0''\<rparr>)
       (Entries sample_dir)
   = (Inr (), Entries [sample_file ''caspaste-daily.tar.gz'' 5 4, sample_file ''caspaste_backup_2025-01-05_020000.tar.gz'' 40 1,
        sample_file ''caspaste_backup_2025-01-07_020000.tar.gz'' 30 3, sample_file ''notes.txt'' 1 1])"
  by code_simp

theorem retention_takes_oldest_witness:
  "\<exists>b. backup_of ''/b'' (sample_file ''caspaste_backup_2025-01-06_020000.tar.gz'' 20 2) = Some b
     \<and> bi_Type b \<noteq> ''incremental''"
proof -
  have "sample_file ''caspaste_backup_2025-01-06_020000.tar.gz'' 20 2 \<in> set sample_dir
      - set [sample_file ''caspaste-daily.tar.gz'' 5 4, sample_file ''caspaste_backup_2025-01-05_020000.tar.gz'' 40 1,
        sample_file ''caspaste_backup_2025-01-07_020000.tar.gz'' 30 3, sample_file ''notes.txt'' 1 1]"
    by (simp add: sample_dir_def sample_file_def)
  then show ?thesis
    using retention_takes_oldest [OF sorts_sort_key sample_dir_ok _ sample_default]
    by (auto simp: DefaultRetentionConfig_def)
qed

lemma sample_weekly:
  "\<exists>b. backup_of ''/b'' (sample_file ''caspaste_backup_2025-01-05_020000.tar.gz'' 40 1) = Some b \<and> bi_Type b = ''weekly''"
proof -
  have "map_option bi_Type (backup_of ''/b'' (sample_file ''caspaste_backup_2025-01-05_020000.tar.gz'' 40 1)) = Some ''weekly''"
    by code_simp
  then show ?thesis by auto
qed

theorem disabled_class_never_pruned_witness:
  "sample_file ''caspaste_backup_2025-01-05_020000.tar.gz'' 40 1 \<in> set
     [sample_file ''caspaste-daily.tar.gz'' 5 4, sample_file ''caspaste_backup_2025-01-05_020000.tar.gz'' 40 1,
        sample_file ''caspaste_backup_2025-01-07_020000.tar.gz'' 30 3, sample_file ''notes.txt'' 1 1]"
proof -
  obtain b where b: "backup_of ''/b'' (sample_file ''caspaste_backup_2025-01-05_020000.tar.gz'' 40 1) = Some b"
    "bi_Type b = ''weekly''" using sample_weekly by blast
  have z: "parseMaxTotalSize int_float None ''0'' = 0" by code_simp
  show ?thesis
    by (rule disabled_class_never_pruned [OF sorts_sort_key sample_dir_ok _ _ sample_default _ b(1)])
      (simp_all add: DefaultRetentionConfig_def z sample_dir_def class_limit_def b(2))
qed

end
