(* ===== verification/Backups.thy ===== *)
theory Backups
  imports Files Encryption Retention
begin

text \<open>
  Creating, verifying and restoring backups (\<open>backup/backup.go\<close>, \<open>backup/verify.go\<close>,
  \<open>backup/manifest.go\<close>). A backup is a compressed archive of a staged copy of the configuration and the
  databases, with a manifest that lists what was staged and a checksum over the staged files. The
  compressed archive, JSON, SHA-256 and the integrity check of SQLite are a record of functions; the name of a
  temporary directory is an argument.
\<close>

section \<open>Data\<close>

record Manifest =
  mf_Version :: string
  mf_CreatedAt :: int
  mf_CreatedBy :: string
  mf_AppVersion :: string
  mf_Contents :: "string list"
  mf_Encrypted :: bool
  mf_Checksum :: string

datatype typeflag = TypeReg | TypeDir | Type_other nat

record tar_entry =
  te_Name :: string
  te_Typeflag :: typeflag
  te_Size :: int
  te_body :: string

text \<open>
  \<open>k_unpack\<close> reads a stream: \<open>None\<close> when it is not compressed data, otherwise the entries and whether
  the end of the archive is reached without an error.
\<close>

record codecs =
  k_pack :: "tar_entry list \<Rightarrow> string"
  k_unpack :: "string \<Rightarrow> (tar_entry list \<times> bool) option"
  k_json :: "Manifest \<Rightarrow> string"
  k_unjson :: "string \<Rightarrow> Manifest option"
  k_intact :: "string \<Rightarrow> bool"

record Service =
  sv_configDir :: string
  sv_dataDir :: string
  sv_backupDir :: string
  sv_compliance :: bool
  sv_appVersion :: string
  sv_retention :: RetentionConfig

record BackupOptions =
  bo_IncludeSSL :: bool
  bo_IncludeUploads :: bool
  bo_Password :: string
  bo_CustomFilename :: string

record RestoreOptions =
  ro_Password :: string
  ro_SkipVerify :: bool
  ro_DryRun :: bool

datatype backup_error =
    ErrComplianceRequiresEncryption | ErrBackupNotFound | ErrPasswordRequired | ErrInvalidManifest
  | Backup_os os_error | Backup_crypt crypt_error | Not_gzip | Bad_archive | Bad_entry_name | Bad_entry_type
  | Too_many_files | Entry_too_large | Archive_too_large | Ratio_exceeded | Bad_json | Checksum_mismatch
  | Database_corrupt | File_not_found | Backup_empty | Retention_panic

abbreviation P :: "string \<Rightarrow> path" where "P \<equiv> path_comps"

definition NewService :: "string \<Rightarrow> string \<Rightarrow> string \<Rightarrow> string \<Rightarrow> Service" where
  "NewService configDir dataDir backupDir appVersion =
     \<lparr>sv_configDir = configDir, sv_dataDir = dataDir, sv_backupDir = backupDir, sv_compliance = False,
      sv_appVersion = (if appVersion = [] then ''dev'' else appVersion), sv_retention = DefaultRetentionConfig\<rparr>"

definition NewManifest :: "int \<Rightarrow> string \<Rightarrow> Manifest" where
  "NewManifest now hostname = \<lparr>mf_Version = ''1.0.0'', mf_CreatedAt = now, mf_CreatedBy = hostname,
     mf_AppVersion = [], mf_Contents = [], mf_Encrypted = False, mf_Checksum = []\<rparr>"

definition Manifest_Validate :: "Manifest \<Rightarrow> bool" where
  "Manifest_Validate m \<longleftrightarrow> mf_Version m \<noteq> [] \<and> mf_CreatedAt m \<noteq> 0 \<and> mf_Contents m \<noteq> []"

definition Manifest_Save :: "faults \<Rightarrow> codecs \<Rightarrow> Manifest \<Rightarrow> path \<Rightarrow> (os_error, unit) io" where
  "Manifest_Save E K m p = os_WriteFile E p (k_json K m)"

definition LoadManifest :: "faults \<Rightarrow> codecs \<Rightarrow> path \<Rightarrow> (backup_error, Manifest) io" where
  "LoadManifest E K p = and_do (or_fail (os_ReadFile E p) Backup_os)
     (\<lambda>data. case k_unjson K data of None \<Rightarrow> fail Bad_json | Some m \<Rightarrow> return m)"

section \<open>Copying\<close>

text \<open>The mode of the source is read and set at the end.\<close>

definition copyFile :: "faults \<Rightarrow> path \<Rightarrow> path \<Rightarrow> (os_error, unit) io" where
  "copyFile E src dst =
     and_do (os_Stat E src) (\<lambda>n.
     and_do (os_MkdirAll E (butlast dst)) (\<lambda>_.
     and_do (os_Create E dst) (\<lambda>_.
     and_do (case n of Dir_node \<Rightarrow> fail Is_dir | File_node c \<Rightarrow> io_Copy E c dst) (\<lambda>_.
     and_do (os_Stat E src) (\<lambda>_. return ())))))"

definition copyDir :: "faults \<Rightarrow> path \<Rightarrow> path \<Rightarrow> (os_error, unit) io" where
  "copyDir E src dst =
     and_do (walk_tree E src) (each (\<lambda>p.
       and_do (os_Stat E p) (\<lambda>n.
         let dstPath = dst @ drop (length src) p
         in (case n of Dir_node \<Rightarrow> os_MkdirAll E dstPath | File_node c \<Rightarrow> copyFile E p dstPath))))"

definition moveFile :: "faults \<Rightarrow> path \<Rightarrow> path \<Rightarrow> (os_error, unit) io" where
  "moveFile E src dst =
     on_result (os_Rename E src dst) (\<lambda>r. case r of
        Inr _ \<Rightarrow> return ()
      | Inl _ \<Rightarrow> and_do (copyFile E src dst) (\<lambda>_. os_Remove E src))"

section \<open>Staging\<close>

text \<open>
  The seven blocks of \<open>stageBackupFiles\<close> as a list: whether a directory is copied, the source, the
  destination and the name in the manifest.
\<close>

definition stage_dirs :: "Service \<Rightarrow> string \<Rightarrow> BackupOptions \<Rightarrow> (bool \<times> string \<times> string \<times> string) list" where
  "stage_dirs s tempDir opts =
     [(True, path_join [sv_configDir s, ''template''], path_join [tempDir, ''template''], ''template/''),
      (True, path_join [sv_configDir s, ''theme''], path_join [tempDir, ''theme''], ''theme/'')]
     @ (if bo_IncludeSSL opts
        then [(True, path_join [sv_configDir s, ''ssl''], path_join [tempDir, ''ssl''], ''ssl/'')] else [])
     @ (if bo_IncludeUploads opts
        then [(True, path_join [sv_dataDir s, ''uploads''], path_join [tempDir, ''uploads''], ''uploads/'')] else [])"

definition stage_list :: "Service \<Rightarrow> string \<Rightarrow> BackupOptions \<Rightarrow> (bool \<times> string \<times> string \<times> string) list" where
  "stage_list s tempDir opts =
     (False, path_join [sv_configDir s, ''server.yml''], path_join [tempDir, ''server.yml''], ''server.yml'')
     # (False, path_join [sv_dataDir s, ''db'', ''server.db''], path_join [tempDir, ''server.db''], ''server.db'')
     # (False, path_join [sv_dataDir s, ''db'', ''users.db''], path_join [tempDir, ''users.db''], ''users.db'')
     # stage_dirs s tempDir opts"

definition stage_item ::
    "faults \<Rightarrow> bool \<times> string \<times> string \<times> string \<Rightarrow> string list \<Rightarrow> (backup_error, string list) io" where
  "stage_item E item contents =
     (case item of (is_dir, src, dst, name) \<Rightarrow>
        on_result (os_Stat E (P src)) (\<lambda>r. case r of
           Inl _ \<Rightarrow> return contents
         | Inr _ \<Rightarrow> and_do (or_fail ((if is_dir then copyDir else copyFile) E (P src) (P dst)) Backup_os)
                     (\<lambda>_. return (contents @ [name]))))"

fun stage_items ::
    "faults \<Rightarrow> (bool \<times> string \<times> string \<times> string) list \<Rightarrow> string list \<Rightarrow> (backup_error, string list) io" where
  "stage_items E [] contents = return contents"
| "stage_items E (x # xs) contents = and_do (stage_item E x contents) (stage_items E xs)"

definition stageBackupFiles ::
    "faults \<Rightarrow> Service \<Rightarrow> string \<Rightarrow> BackupOptions \<Rightarrow> (backup_error, string list) io" where
  "stageBackupFiles E s tempDir opts = stage_items E (stage_list s tempDir opts) []"

section \<open>Checksum and archive\<close>

definition rel_name :: "path \<Rightarrow> path \<Rightarrow> string" where
  "rel_name root p = join ''/'' (drop (length root) p)"

text \<open>The regular files below the root, but for those with a skipped base name, in the order of their names.\<close>

definition checksum_files :: "fs \<Rightarrow> path \<Rightarrow> string list \<Rightarrow> (string \<times> string) list" where
  "checksum_files fs root skip =
     sort_key fst (List.map_filter (\<lambda>p. case look fs p of
         Some (File_node c) \<Rightarrow> if p \<noteq> [] \<and> last p \<in> set skip then None else Some (rel_name root p, c)
       | _ \<Rightarrow> None) (walk fs root))"

definition computeContentChecksum ::
    "faults \<Rightarrow> ciphers \<Rightarrow> path \<Rightarrow> string list \<Rightarrow> (os_error, string) io" where
  "computeContentChecksum E C root skip =
     sys E (\<lambda>fs. if look fs root = None then Inl Not_exist
       else Inr (''sha256:'' @ hex_encode (c_sha256 C
              (concat (map (\<lambda>(rel, c). rel @ CHR 0x0A # c) (checksum_files fs root skip)))), fs))"

text \<open>What the walk of \<open>createArchive\<close> writes for a path.\<close>

definition archive_entry :: "fs \<Rightarrow> path \<Rightarrow> path \<Rightarrow> path \<Rightarrow> tar_entry option" where
  "archive_entry fs sourceDir archivePath p =
     (if p = archivePath \<or> p = sourceDir then None
      else (case look fs p of
          None \<Rightarrow> None
        | Some Dir_node \<Rightarrow> Some \<lparr>te_Name = rel_name sourceDir p, te_Typeflag = TypeDir, te_Size = 0, te_body = []\<rparr>
        | Some (File_node c) \<Rightarrow>
            Some \<lparr>te_Name = rel_name sourceDir p, te_Typeflag = TypeReg, te_Size = int (length c), te_body = c\<rparr>))"

definition archive_entries :: "fs \<Rightarrow> path \<Rightarrow> path \<Rightarrow> tar_entry list" where
  "archive_entries fs sourceDir archivePath =
     List.map_filter (archive_entry fs sourceDir archivePath) (walk fs sourceDir)"

text \<open>What a tar writer is given: the size in the header is that of the body, and a directory has none.\<close>

definition written_entry :: "tar_entry \<Rightarrow> bool" where
  "written_entry h \<longleftrightarrow> te_Typeflag h \<in> {TypeReg, TypeDir} \<and> te_Size h = int (length (te_body h))"

text \<open>
  The archive is written while the tree is walked. An error of a write is reported by the writers or,
  when it comes with the deferred flush, lost: the second of the two last calls decides.
\<close>

definition createArchive :: "faults \<Rightarrow> codecs \<Rightarrow> path \<Rightarrow> path \<Rightarrow> (os_error, unit) io" where
  "createArchive E K sourceDir archivePath =
     and_do (os_Create E archivePath) (\<lambda>_.
     and_do (sys E (\<lambda>fs. if look fs sourceDir = None then Inl Not_exist
                        else Inr (archive_entries fs sourceDir archivePath, fs))) (\<lambda>es.
     on_result (io_Copy E (k_pack K es) archivePath) (\<lambda>r. case r of
        Inr _ \<Rightarrow> return ()
      | Inl _ \<Rightarrow> sys E (\<lambda>fs. Inr ((), fs)))))"

definition maxExtractFiles :: int where "maxExtractFiles = 200000"
definition maxExtractSingleFile :: int where "maxExtractSingleFile = 4 * 2 ^ 30"
definition maxExtractTotalSize :: int where "maxExtractTotalSize = 20 * 2 ^ 30"
definition maxCompressionRatio :: int where "maxCompressionRatio = 200"

definition inside :: "string \<Rightarrow> string \<Rightarrow> bool" where
  "inside destDir targetPath \<longleftrightarrow> has_prefix targetPath (Clean destDir @ ''/'')"

text \<open>\<open>io.LimitReader\<close>.\<close>

definition at_most :: "int \<Rightarrow> string \<Rightarrow> string" where
  "at_most limit body = (if int (length body) \<le> limit then body else take (nat limit) body)"

text \<open>The body of the extraction loop; the state is the number of entries and of bytes so far.\<close>

definition extract_entry ::
    "faults \<Rightarrow> string \<Rightarrow> int \<Rightarrow> tar_entry \<Rightarrow> int \<times> int \<Rightarrow> (backup_error, int \<times> int) io" where
  "extract_entry E destDir ratioCeiling h st =
     (let fileCount = fst st + 1; name = te_Name h; target = path_join [destDir, name]; limit = maxExtractSingleFile + 1
      in if fileCount > maxExtractFiles then fail Too_many_files
         else if name = [] \<or> IsAbs name \<or> contains_str name ''..'' then fail Bad_entry_name
         else if \<not> inside destDir target then fail Bad_entry_name
         else (case te_Typeflag h of
             TypeDir \<Rightarrow> and_do (or_fail (os_MkdirAll E (P target)) Backup_os) (\<lambda>_. return (fileCount, snd st))
           | TypeReg \<Rightarrow>
               if te_Size h > maxExtractSingleFile then fail Entry_too_large
               else
                 and_do (or_fail (os_MkdirAll E (butlast (P target))) Backup_os) (\<lambda>_.
                 and_do (or_fail (os_Create E (P target)) Backup_os) (\<lambda>_.
                 let body = at_most limit (te_body h); written = int (length body); totalSize = snd st + written
                 in and_do (or_fail (io_Copy E body (P target)) Backup_os) (\<lambda>_.
                    if written \<ge> limit then fail Entry_too_large
                    else if totalSize > maxExtractTotalSize then fail Archive_too_large
                    else if totalSize > ratioCeiling then fail Ratio_exceeded
                    else return (fileCount, totalSize))))
           | Type_other n \<Rightarrow> fail Bad_entry_type))"

fun extract_loop ::
    "faults \<Rightarrow> string \<Rightarrow> int \<Rightarrow> tar_entry list \<Rightarrow> int \<times> int \<Rightarrow> (backup_error, int \<times> int) io" where
  "extract_loop E destDir ceiling [] st = return st"
| "extract_loop E destDir ceiling (h # hs) st =
     and_do (extract_entry E destDir ceiling h st) (extract_loop E destDir ceiling hs)"

definition extractArchive :: "faults \<Rightarrow> codecs \<Rightarrow> string \<Rightarrow> string \<Rightarrow> (backup_error, unit) io" where
  "extractArchive E K archivePath destDir =
     and_do (or_fail (os_ReadFile E (P archivePath)) Backup_os) (\<lambda>data.
       let ratioCeiling = max (int64 (int (length data) * maxCompressionRatio)) maxExtractSingleFile
       in (case k_unpack K data of
             None \<Rightarrow> fail Not_gzip
           | Some (es, complete) \<Rightarrow>
               and_do (extract_loop E destDir ratioCeiling es (0, 0)) (\<lambda>_.
                 if complete then return () else fail Bad_archive)))"

section \<open>Encrypting and decrypting files\<close>

definition EncryptFile ::
    "faults \<Rightarrow> ciphers \<Rightarrow> string option \<Rightarrow> string option \<Rightarrow> string \<Rightarrow> string \<Rightarrow> (backup_error, string) io" where
  "EncryptFile E C salt nonce inputPath password =
     and_do (or_fail (os_ReadFile E (P inputPath)) Backup_os) (\<lambda>plaintext.
       (case EncryptData C salt nonce plaintext password of
          Inl e \<Rightarrow> fail (Backup_crypt e)
        | Inr output \<Rightarrow>
            let outputPath = inputPath @ ''.enc''
            in and_do (or_fail (os_WriteFile E (P outputPath) output) Backup_os) (\<lambda>_. return outputPath)))"

definition DecryptFile ::
    "faults \<Rightarrow> ciphers \<Rightarrow> string \<Rightarrow> string \<Rightarrow> string \<Rightarrow> (backup_error, string) io" where
  "DecryptFile E C inputPath password outputDir =
     and_do (or_fail (os_ReadFile E (P inputPath)) Backup_os) (\<lambda>data.
       (case DecryptData C data password of
          Inl e \<Rightarrow> fail (Backup_crypt e)
        | Inr plaintext \<Rightarrow>
            let basename = Base inputPath;
                basename = if length basename > 4 \<and> drop (length basename - 4) basename = ''.enc''
                           then take (length basename - 4) basename else basename;
                outputPath = path_join [outputDir, basename]
            in and_do (or_fail (os_WriteFile E (P outputPath) plaintext) Backup_os) (\<lambda>_. return outputPath)))"

section \<open>Verifying\<close>

text \<open>The extraction of the verification has no limits, and skips entries that are neither files nor directories.\<close>

definition verify_entry :: "faults \<Rightarrow> string \<Rightarrow> tar_entry \<Rightarrow> nat \<Rightarrow> (backup_error, nat) io" where
  "verify_entry E extractDir h n =
     (let target = path_join [extractDir, te_Name h]
      in if \<not> inside extractDir target then fail Bad_entry_name
         else (case te_Typeflag h of
             TypeDir \<Rightarrow> and_do (or_fail (os_MkdirAll E (P target)) Backup_os) (\<lambda>_. return n)
           | TypeReg \<Rightarrow>
               and_do (or_fail (os_MkdirAll E (butlast (P target))) Backup_os) (\<lambda>_.
               and_do (or_fail (os_Create E (P target)) Backup_os) (\<lambda>_.
               and_do (or_fail (io_Copy E (te_body h) (P target)) Backup_os) (\<lambda>_. return (n + 1))))
           | Type_other k \<Rightarrow> return n))"

fun verify_loop :: "faults \<Rightarrow> string \<Rightarrow> tar_entry list \<Rightarrow> nat \<Rightarrow> (backup_error, nat) io" where
  "verify_loop E extractDir [] n = return n"
| "verify_loop E extractDir (h # hs) n = and_do (verify_entry E extractDir h n) (verify_loop E extractDir hs)"

definition verifyAndExtractArchive ::
    "faults \<Rightarrow> codecs \<Rightarrow> string \<Rightarrow> string \<Rightarrow> (backup_error, nat) io" where
  "verifyAndExtractArchive E K archivePath extractDir =
     and_do (or_fail (os_ReadFile E (P archivePath)) Backup_os) (\<lambda>data.
       (case k_unpack K data of
          None \<Rightarrow> fail Not_gzip
        | Some (es, complete) \<Rightarrow>
            and_do (or_fail (os_MkdirAll E (P extractDir)) Backup_os) (\<lambda>_.
            and_do (verify_loop E extractDir es 0) (\<lambda>n. if complete then return n else fail Bad_archive))))"

text \<open>The part of \<open>VerifyDetailed\<close> after decryption.\<close>

definition verify_content ::
    "faults \<Rightarrow> codecs \<Rightarrow> ciphers \<Rightarrow> string \<Rightarrow> string \<Rightarrow> (backup_error, nat) io" where
  "verify_content E K C archivePath extractDir =
     and_do (verifyAndExtractArchive E K archivePath extractDir) (\<lambda>n.
     and_do (LoadManifest E K (P (path_join [extractDir, ''manifest.json'']))) (\<lambda>m.
     if \<not> Manifest_Validate m then fail ErrInvalidManifest
     else
       and_do (if mf_Checksum m \<noteq> []
               then and_do (or_fail (computeContentChecksum E C (P extractDir) [''manifest.json'']) Backup_os)
                      (\<lambda>actual. if actual \<noteq> mf_Checksum m then fail Checksum_mismatch else return ())
               else return ()) (\<lambda>_.
       on_result (os_Stat E (P (path_join [extractDir, ''server.db'']))) (\<lambda>r. case r of
          Inl _ \<Rightarrow> return n
        | Inr (File_node c) \<Rightarrow> if k_intact K c then return n else fail Database_corrupt
        | Inr Dir_node \<Rightarrow> fail Database_corrupt))))"

text \<open>
  \<open>VerifyDetailed\<close> as its first error or the number of files; each failing check sets its flags, adds
  one error and returns, so nothing else is in the result.
\<close>

definition Verify ::
    "faults \<Rightarrow> codecs \<Rightarrow> ciphers \<Rightarrow> string \<Rightarrow> string \<Rightarrow> string \<Rightarrow> (backup_error, nat) io" where
  "Verify E K C tempDir backupPath password =
     on_result (os_Stat E (P backupPath)) (\<lambda>r. case r of
        Inl _ \<Rightarrow> fail File_not_found
      | Inr n \<Rightarrow>
          if n = File_node [] then fail Backup_empty
          else if has_suffix backupPath ''.enc'' then
            if password = [] then fail ErrPasswordRequired
            else
              and_do (or_fail (os_MkdirTemp E (P tempDir)) Backup_os) (\<lambda>_.
                deferred
                  (and_do (DecryptFile E C backupPath password tempDir)
                     (\<lambda>archivePath. verify_content E K C archivePath (path_join [tempDir, ''extracted''])))
                  (os_RemoveAll E (P tempDir)))
          else
            and_do (or_fail (os_MkdirTemp E (P tempDir)) Backup_os) (\<lambda>_.
              deferred (verify_content E K C backupPath (path_join [tempDir, ''extracted'']))
                (os_RemoveAll E (P tempDir))))"

section \<open>Creating\<close>

text \<open>
  The backup directory as \<open>os.ReadDir\<close> and \<open>Info\<close> report it, with the times of modification an
  argument, and the removal of what the retention policy chose.
\<close>

definition listing :: "(path \<Rightarrow> int) \<Rightarrow> fs \<Rightarrow> path \<Rightarrow> dir_listing" where
  "listing mtime fs dir =
     (case look fs dir of
        None \<Rightarrow> Dir_missing
      | Some (File_node _) \<Rightarrow> Dir_unreadable
      | Some Dir_node \<Rightarrow>
          Entries (List.map_filter (\<lambda>p.
            if length p = Suc (length dir) then
              (case look fs p of
                 None \<Rightarrow> None
               | Some Dir_node \<Rightarrow> Some \<lparr>de_name = last p, de_dir = True, de_info = Some (0, mtime p)\<rparr>
               | Some (File_node c) \<Rightarrow>
                   Some \<lparr>de_name = last p, de_dir = False, de_info = Some (int (length c), mtime p)\<rparr>)
            else None) (walk fs dir)))"

record 'f retention_env =
  re_sort :: sorter
  re_float :: "'f float_ops"
  re_disk :: "nat option"
  re_mtime :: "path \<Rightarrow> int"

definition apply_retention :: "faults \<Rightarrow> 'f retention_env \<Rightarrow> Service \<Rightarrow> (backup_error, unit) io" where
  "apply_retention E R s =
     and_do (or_fail (sys E (\<lambda>fs. Inr (listing (re_mtime R) fs (P (sv_backupDir s)), fs))) Backup_os) (\<lambda>l.
       case ListBackups (re_sort R) (sv_backupDir s) l of
         None \<Rightarrow> fail (Backup_os Not_dir)
       | Some backups \<Rightarrow>
           (case toDelete (re_sort R) (parseMaxTotalSize (re_float R) (re_disk R) (rc_MaxTotalSize (sv_retention s)))
                  (sv_retention s) backups of
              None \<Rightarrow> fail Retention_panic
            | Some del \<Rightarrow> each (\<lambda>b. on_result (os_Remove E (P (bi_FilePath b))) (\<lambda>_. return ())) del))"

record create_env =
  ce_timestamp :: string
  ce_now :: int
  ce_hostname :: string
  ce_tempDir :: string
  ce_verifyDir :: string
  ce_salt :: "string option"
  ce_nonce :: "string option"

record BackupResult =
  br_Filename :: string
  br_FilePath :: string
  br_Size :: int
  br_Encrypted :: bool
  br_Manifest :: Manifest

text \<open>From the staging directory to the file in the backup directory; the result is its name and path.\<close>

definition build_backup ::
    "faults \<Rightarrow> codecs \<Rightarrow> ciphers \<Rightarrow> create_env \<Rightarrow> Service \<Rightarrow> BackupOptions \<Rightarrow> string \<Rightarrow>
     (backup_error, string \<times> string \<times> Manifest) io" where
  "build_backup E K C V s opts filename =
     (let tempDir = ce_tempDir V; archivePath = path_join [tempDir, filename @ ''.tar.gz'']
      in and_do (stageBackupFiles E s tempDir opts) (\<lambda>contents.
         and_do (or_fail (computeContentChecksum E C (P tempDir) []) Backup_os) (\<lambda>checksum.
         let m = (NewManifest (ce_now V) (ce_hostname V))\<lparr>mf_AppVersion := sv_appVersion s,
                   mf_Encrypted := bo_Password opts \<noteq> [], mf_Contents := contents, mf_Checksum := checksum\<rparr>
         in and_do (or_fail (Manifest_Save E K m (P (path_join [tempDir, ''manifest.json'']))) Backup_os) (\<lambda>_.
            and_do (or_fail (createArchive E K (P tempDir) (P archivePath)) Backup_os) (\<lambda>_.
            and_do (if bo_Password opts \<noteq> []
                    then and_do (EncryptFile E C (ce_salt V) (ce_nonce V) archivePath (bo_Password opts))
                           (\<lambda>enc. return (enc, filename @ ''.tar.gz.enc''))
                    else return (archivePath, filename @ ''.tar.gz'')) (\<lambda>(archive, finalFilename).
            let finalPath = path_join [sv_backupDir s, finalFilename]
            in and_do (or_fail (moveFile E (P archive) (P finalPath)) Backup_os) (\<lambda>_.
               return (finalFilename, finalPath, m))))))))"

text \<open>Verifying the file and applying the policy; a backup that fails the verification is deleted.\<close>

definition finish_backup ::
    "faults \<Rightarrow> codecs \<Rightarrow> ciphers \<Rightarrow> 'f retention_env \<Rightarrow> create_env \<Rightarrow> Service \<Rightarrow> BackupOptions \<Rightarrow>
     string \<times> string \<times> Manifest \<Rightarrow> (backup_error, BackupResult) io" where
  "finish_backup E K C R V s opts built =
     (case built of (finalFilename, finalPath, m) \<Rightarrow>
        and_do (or_fail (os_Stat E (P finalPath)) Backup_os) (\<lambda>info.
        on_result (Verify E K C (ce_verifyDir V) finalPath (bo_Password opts)) (\<lambda>v. case v of
           Inl e \<Rightarrow> on_result (os_Remove E (P finalPath)) (\<lambda>_. fail e)
         | Inr _ \<Rightarrow>
             on_result (apply_retention E R s) (\<lambda>a.
               if a = Inl Retention_panic then fail Retention_panic
               else return \<lparr>br_Filename = finalFilename, br_FilePath = finalPath,
                 br_Size = (case info of Dir_node \<Rightarrow> 0 | File_node c \<Rightarrow> int (length c)),
                 br_Encrypted = (bo_Password opts \<noteq> []), br_Manifest = m\<rparr>))))"

definition backup_name :: "create_env \<Rightarrow> BackupOptions \<Rightarrow> string" where
  "backup_name V opts =
     (if bo_CustomFilename opts = [] then ''caspaste_backup_'' @ ce_timestamp V else bo_CustomFilename opts)"

definition Create ::
    "faults \<Rightarrow> codecs \<Rightarrow> ciphers \<Rightarrow> 'f retention_env \<Rightarrow> create_env \<Rightarrow> Service \<Rightarrow> BackupOptions \<Rightarrow>
     (backup_error, BackupResult) io" where
  "Create E K C R V s opts =
     (if sv_compliance s \<and> bo_Password opts = [] then fail ErrComplianceRequiresEncryption
      else
        and_do (or_fail (os_MkdirAll E (P (sv_backupDir s))) Backup_os) (\<lambda>_.
        let filename = backup_name V opts
        in and_do (or_fail (os_MkdirTemp E (P (ce_tempDir V))) Backup_os) (\<lambda>_.
           deferred
             (and_do (build_backup E K C V s opts filename) (finish_backup E K C R V s opts))
             (os_RemoveAll E (P (ce_tempDir V))))))"

section \<open>Restoring\<close>

text \<open>Where an item of the manifest goes; other items are skipped.\<close>

definition restore_target :: "Service \<Rightarrow> string \<Rightarrow> string option" where
  "restore_target s content =
     (if content = ''server.yml'' then Some (path_join [sv_configDir s, ''server.yml''])
      else if content = ''server.db'' then Some (path_join [sv_dataDir s, ''db'', ''server.db''])
      else if content = ''users.db'' then Some (path_join [sv_dataDir s, ''db'', ''users.db''])
      else if has_prefix content ''template/'' then Some (path_join [sv_configDir s, content])
      else if has_prefix content ''theme/'' then Some (path_join [sv_configDir s, content])
      else if has_prefix content ''ssl/'' then Some (path_join [sv_configDir s, content])
      else if has_prefix content ''uploads/'' then Some (path_join [sv_dataDir s, content])
      else None)"

definition restore_item :: "faults \<Rightarrow> Service \<Rightarrow> string \<Rightarrow> string \<Rightarrow> int \<Rightarrow> (backup_error, int) io" where
  "restore_item E s extractDir content restored =
     (case restore_target s content of
        None \<Rightarrow> return restored
      | Some dstPath \<Rightarrow>
          let srcPath = P (path_join [extractDir, content]); dst = P dstPath
          in on_result (os_Stat E srcPath) (\<lambda>r.
             if r = Inl Not_exist then return restored
             else on_result (os_MkdirAll E (butlast dst)) (\<lambda>r. case r of
                 Inl _ \<Rightarrow> return restored
               | Inr _ \<Rightarrow> on_result (copyFile E srcPath dst) (\<lambda>r. case r of
                     Inl _ \<Rightarrow> return restored
                   | Inr _ \<Rightarrow> return (restored + 1)))))"

fun restore_items :: "faults \<Rightarrow> Service \<Rightarrow> string \<Rightarrow> string list \<Rightarrow> int \<Rightarrow> (backup_error, int) io" where
  "restore_items E s extractDir [] restored = return restored"
| "restore_items E s extractDir (c # cs) restored =
     and_do (restore_item E s extractDir c restored) (restore_items E s extractDir cs)"

definition generateSetupToken :: "ciphers \<Rightarrow> string option \<Rightarrow> string \<Rightarrow> string" where
  "generateSetupToken C bytes clock =
     (case bytes of None \<Rightarrow> take 32 (hex_encode (c_sha256 C clock)) | Some b \<Rightarrow> hex_encode b)"

record restore_env =
  xe_tempDir :: string
  xe_verifyDir :: string
  xe_token_bytes :: "string option"
  xe_clock :: string

record RestoreResult =
  rr_BackupFile :: string
  rr_FilesRestored :: int
  rr_Manifest :: Manifest
  rr_SetupRequired :: bool
  rr_SetupToken :: string

text \<open>What follows the decryption.\<close>

definition restore_archive ::
    "faults \<Rightarrow> codecs \<Rightarrow> ciphers \<Rightarrow> restore_env \<Rightarrow> Service \<Rightarrow> string \<Rightarrow> RestoreOptions \<Rightarrow> string \<Rightarrow>
     (backup_error, RestoreResult) io" where
  "restore_archive E K C V s backupPath opts archivePath =
     (let extractDir = path_join [xe_tempDir V, ''extracted'']
      in and_do (if ro_SkipVerify opts then return ()
                 else and_do (Verify E K C (xe_verifyDir V) backupPath (ro_Password opts)) (\<lambda>_. return ())) (\<lambda>_.
         and_do (extractArchive E K archivePath extractDir) (\<lambda>_.
         and_do (LoadManifest E K (P (path_join [extractDir, ''manifest.json'']))) (\<lambda>m.
         if ro_DryRun opts
         then return \<lparr>rr_BackupFile = backupPath, rr_FilesRestored = int (length (mf_Contents m)), rr_Manifest = m,
                rr_SetupRequired = False, rr_SetupToken = []\<rparr>
         else and_do (restore_items E s extractDir (mf_Contents m) 0) (\<lambda>n.
           return \<lparr>rr_BackupFile = backupPath, rr_FilesRestored = n, rr_Manifest = m, rr_SetupRequired = True,
             rr_SetupToken = generateSetupToken C (xe_token_bytes V) (xe_clock V)\<rparr>)))))"

definition Restore ::
    "faults \<Rightarrow> codecs \<Rightarrow> ciphers \<Rightarrow> restore_env \<Rightarrow> Service \<Rightarrow> string \<Rightarrow> RestoreOptions \<Rightarrow>
     (backup_error, RestoreResult) io" where
  "Restore E K C V s backupPath opts =
     on_result (os_Stat E (P backupPath)) (\<lambda>r.
       if r = Inl Not_exist then fail ErrBackupNotFound
       else if has_suffix backupPath ''.enc'' \<and> ro_Password opts = [] then fail ErrPasswordRequired
       else and_do (or_fail (os_MkdirTemp E (P (xe_tempDir V))) Backup_os) (\<lambda>_.
         deferred
           (and_do (if has_suffix backupPath ''.enc''
                    then DecryptFile E C backupPath (ro_Password opts) (xe_tempDir V)
                    else return backupPath) (restore_archive E K C V s backupPath opts))
           (os_RemoveAll E (P (xe_tempDir V)))))"

section \<open>Other operations\<close>

definition Delete_backup :: "faults \<Rightarrow> Service \<Rightarrow> string \<Rightarrow> (backup_error, unit) io" where
  "Delete_backup E s filename =
     (let backupPath = P (path_join [sv_backupDir s, filename])
      in on_result (os_Stat E backupPath) (\<lambda>r.
           if r = Inl Not_exist then fail ErrBackupNotFound
           else or_fail (os_Remove E backupPath) Backup_os))"

text \<open>
  \<open>over used total\<close> is the comparison of the used percentage with 90 in floating point; sizes are
  unsigned, and the subtraction wraps.
\<close>

definition CheckDiskSpace ::
    "(nat \<Rightarrow> nat \<Rightarrow> bool) \<Rightarrow> sorter \<Rightarrow> nat option \<Rightarrow> nat option \<Rightarrow> string \<Rightarrow> dir_listing \<Rightarrow> bool option" where
  "CheckDiskSpace over srt total_bytes free_bytes dir l =
     (case total_bytes of
        None \<Rightarrow> None
      | Some t \<Rightarrow>
          (case free_bytes of
             None \<Rightarrow> None
           | Some free \<Rightarrow>
               if t > 0 \<and> over (nat ((int t - int free) mod 2 ^ 64)) t then Some True
               else (case ListBackups srt dir l of
                   None \<Rightarrow> None
                 | Some [] \<Rightarrow> Some False
                 | Some (b # _) \<Rightarrow> Some (int64 (int free) < int64 (bi_Size b * 2)))))"

section \<open>Where extraction writes\<close>

lemma P_join:
  assumes "IsAbs d" and "plain_comp n"
  shows "P (path_join [d, n]) = P d @ [n]" and "IsAbs (path_join [d, n])"
  using path_comps_entry [OF assms] path_comps_path_join(2) [OF assms(1)] by simp_all

lemma inside_under:
  assumes "IsAbs d" and "inside d (path_join [d, n])"
  shows "\<exists>rest. rest \<noteq> [] \<and> P (path_join [d, n]) = P d @ rest"
proof -
  have render: "path_join [d, n] = Slash # join ''/'' (P (path_join [d, n]))"
    using path_join_abs [OF assms(1), of n] path_comps_path_join(1) [OF assms(1), of n] by simp
  have "Clean d = Slash # join ''/'' (P d)" using assms(1) by (auto simp: Clean_def IsAbs_def)
  with assms(2) render
  have "has_prefix (Slash # join ''/'' (P (path_join [d, n]))) ((Slash # join ''/'' (P d)) @ ''/'')"
    by (simp only: inside_def)
  then show ?thesis
    by (rule prefix_comps [OF path_comps_plain [OF assms(1)] path_comps_plain [OF path_comps_path_join(2) [OF assms(1)]]])
qed

abbreviation at_or_above :: "path \<Rightarrow> path \<Rightarrow> bool" where
  "at_or_above d p \<equiv> under d p \<or> under p d"

lemma prefix_of_inside: "under q (d @ r) \<Longrightarrow> at_or_above d q"
  by (auto simp: under_iff append_eq_append_conv2)

lemma butlast_under: "r \<noteq> [] \<Longrightarrow> under q (butlast (d @ r)) \<Longrightarrow> at_or_above d q"
  using prefix_of_inside [of q d "butlast r"] by (simp add: butlast_append)

lemma extract_entry_frame:
  assumes "IsAbs d"
  shows "within (at_or_above (P d)) (extract_entry E d k h st)"
proof (cases "inside d (path_join [d, te_Name h])")
  case True
  then obtain r where r: "r \<noteq> []" "P (path_join [d, te_Name h]) = P d @ r"
    using inside_under [OF assms] by blast
  show ?thesis
    by (auto simp: extract_entry_def Let_def r(2) intro!: frame dest: prefix_of_inside butlast_under [OF r(1)]
        split: typeflag.split)
qed (auto simp: extract_entry_def Let_def intro!: frame)

lemma extract_loop_frame: "IsAbs d \<Longrightarrow> within (at_or_above (P d)) (extract_loop E d k hs st)"
  by (induction hs arbitrary: st) (auto intro!: frame extract_entry_frame)

lemma verify_entry_frame:
  assumes "IsAbs d"
  shows "within (at_or_above (P d)) (verify_entry E d h n)"
proof (cases "inside d (path_join [d, te_Name h])")
  case True
  then obtain r where r: "r \<noteq> []" "P (path_join [d, te_Name h]) = P d @ r"
    using inside_under [OF assms] by blast
  show ?thesis
    by (auto simp: verify_entry_def Let_def r(2) intro!: frame dest: prefix_of_inside butlast_under [OF r(1)]
        split: typeflag.split)
qed (auto simp: verify_entry_def Let_def intro!: frame)

lemma verify_loop_frame: "IsAbs d \<Longrightarrow> within (at_or_above (P d)) (verify_loop E d hs n)"
  by (induction hs arbitrary: n) (auto intro!: frame verify_entry_frame)

lemma extractArchive_frame: "IsAbs d \<Longrightarrow> within (at_or_above (P d)) (extractArchive E K a d)"
  by (auto simp: extractArchive_def Let_def intro!: frame extract_loop_frame split: option.split)

lemma verifyAndExtract_frame: "IsAbs d \<Longrightarrow> within (at_or_above (P d)) (verifyAndExtractArchive E K a d)"
  by (auto simp: verifyAndExtractArchive_def intro!: frame verify_loop_frame split: option.split)

end
