(* ===== verification/Backup_Copy.thy ===== *)
theory Backup_Copy
  imports Backups
begin

text \<open>
  What the steps of creating a backup leave behind when they succeed: copies have the content of their
  source, and files that are not written stay.
\<close>

section \<open>Successful calls\<close>

lemma and_do_eq:
  "and_do m k w = (Inr b, w') \<longleftrightarrow> (\<exists>a w1. m w = (Inr a, w1) \<and> k a w1 = (Inr b, w'))"
  by (auto simp: and_do_def split: prod.split sum.split)

lemma or_fail_eq: "or_fail m f w = (Inr b, w') \<longleftrightarrow> m w = (Inr b, w')"
  by (auto simp: or_fail_def split: prod.split sum.split)

lemma on_result_eq: "on_result m k w = (r, w') \<longleftrightarrow> (\<exists>a w1. m w = (a, w1) \<and> k a w1 = (r, w'))"
  by (auto simp: on_result_def split: prod.split)

lemma return_eq: "return a w = (Inr b, w') \<longleftrightarrow> a = b \<and> w' = w"
  by (auto simp: return_def)

lemma fail_eq: "fail e w = (Inr b, w') \<longleftrightarrow> False"
  by (simp add: fail_def)

lemma deferred_eq: "deferred m c w = (r, w') \<longleftrightarrow> (\<exists>w1. m w = (r, w1) \<and> w' = snd (c w1))"
  by (auto simp: deferred_def split: prod.split)

lemmas io_eqs = and_do_eq or_fail_eq on_result_eq return_eq fail_eq deferred_eq

lemma sys_eq:
  "sys E f w = (Inr a, w') \<Longrightarrow> f (files w) = Inr (a, files w')"
  by (auto simp: sys_def Let_def split: if_splits sum.splits)

lemma os_eqs:
  "os_Stat E p w = (Inr n, w') \<Longrightarrow> look (files w) p = Some n \<and> files w' = files w"
  "os_ReadFile E p w = (Inr c, w') \<Longrightarrow> has_file p c (files w) \<and> files w' = files w"
  "os_Create E p w = (Inr u, w') \<Longrightarrow> files w' = put (files w) p (File_node []) \<and> p \<noteq> []"
  "walk_tree E p w = (Inr ps, w') \<Longrightarrow> ps = walk (files w) p \<and> files w' = files w"
  by (auto simp: os_Stat_def os_ReadFile_def os_Create_def walk_tree_def dest!: sys_eq
      split: option.splits node.splits if_splits)

lemma io_Copy_eq: "io_Copy E c p w = (Inr u, w') \<Longrightarrow> files w' = put (files w) p (File_node c)"
  by (auto simp: io_Copy_def Let_def split: if_splits)

lemma io_Copy_file: "io_Copy E c p w = (Inr u, w') \<Longrightarrow> p \<noteq> [] \<Longrightarrow> has_file p c (files w')"
  by (simp add: io_Copy_eq)

lemma os_WriteFile_file: "os_WriteFile E p c w = (Inr u, w') \<Longrightarrow> has_file p c (files w')"
  by (auto simp: os_WriteFile_def and_do_eq dest!: os_eqs(3) io_Copy_eq)

text \<open>With no fault a file that exists is found.\<close>

definition quiet :: "faults \<Rightarrow> bool" where
  "quiet E \<longleftrightarrow> (\<forall>n. \<not> io_fails E n)"

lemma quiet_Stat:
  assumes "quiet E"
  shows "os_Stat E p w = (case look (files w) p of None \<Rightarrow> Inl Not_exist | Some n \<Rightarrow> Inr n, w\<lparr>calls := Suc (calls w)\<rparr>)"
  using assms by (auto simp: quiet_def os_Stat_def sys_def split: option.split)

section \<open>Copying\<close>

lemma copyFile_keeps [keep]: "q \<noteq> dst \<Longrightarrow> keeps (has_file q c) (copyFile E src dst)"
  by (auto simp: copyFile_def intro!: keep split: node.split)

lemma list_all_butlast: "list_all Q xs \<Longrightarrow> list_all Q (butlast xs)"
  by (auto simp: list_all_iff dest: in_set_butlastD)

lemma list_all_drop: "list_all Q xs \<Longrightarrow> list_all Q (drop n xs)"
  by (auto simp: list_all_iff dest: in_set_dropD)

lemma copyFile_plain [keep]: "list_all plain_comp dst \<Longrightarrow> keeps plain_fs (copyFile E src dst)"
  by (auto simp: copyFile_def intro!: keep list_all_butlast split: node.split)

lemma copyFile_file:
  assumes "copyFile E src dst w = (Inr u, w')" and "has_file src c (files w)" and "src \<noteq> dst"
  shows "has_file dst c (files w')"
proof -
  from assms(1) obtain n w1 u2 w2 u3 w3 u4 w4 where steps: "os_Stat E src w = (Inr n, w1)"
    "os_Create E dst w2 = (Inr u3, w3)"
    "(case n of Dir_node \<Rightarrow> fail Is_dir | File_node c \<Rightarrow> io_Copy E c dst) w3 = (Inr u4, w4)"
    and rest: "\<exists>n' w5. os_Stat E src w4 = (Inr n', w5) \<and> w' = w5"
    unfolding copyFile_def io_eqs by blast
  from os_eqs(1) [OF steps(1)] assms(2) have n: "n = File_node c" by simp
  then have "has_file dst c (files w4)"
    using steps(3) os_eqs(3) [OF steps(2)] by (auto dest: io_Copy_file)
  with rest show ?thesis by (auto dest: os_eqs(1))
qed

lemma keeps_plain_walk [keep]:
  assumes "\<And>ps. list_all (list_all plain_comp) ps \<Longrightarrow> keeps plain_fs (k ps)"
  shows "keeps plain_fs (and_do (walk_tree E p) k)"
proof (unfold keeps_def, intro allI impI)
  fix w :: world
  assume pl: "plain_fs (files w)"
  show "plain_fs (files (snd (and_do (walk_tree E p) k w)))"
  proof (cases "walk_tree E p w")
    case (Pair r w1)
    have pl1: "plain_fs (files w1)" by (rule keepsE [where I = plain_fs, OF keeps_read(3) Pair pl])
    show ?thesis
    proof (cases r)
      case (Inr ps)
      then have "ps = walk (files w) p" using Pair os_eqs(4) by blast
      then have "list_all (list_all plain_comp) ps" using pl by (auto simp: plain_fs_def set_walk list_all_iff)
      then have "keeps plain_fs (k ps)" by (rule assms)
      then show ?thesis using Pair Inr pl1 by (simp add: and_do_def keeps_def)
    qed (use Pair pl1 in \<open>simp add: and_do_def\<close>)
  qed
qed

lemma copyDir_keeps [keep]:
  assumes "\<not> under dst q"
  shows "keeps (has_file q c) (copyDir E src dst)"
proof -
  have ne: "q \<noteq> dst @ r" for r using assms by auto
  show ?thesis by (auto simp: copyDir_def Let_def ne intro!: keep copyFile_keeps [OF ne] split: node.split)
qed

lemma copyDir_plain [keep]: "list_all plain_comp dst \<Longrightarrow> keeps plain_fs (copyDir E src dst)"
  unfolding copyDir_def
  by (rule keeps_plain_walk) (auto simp: Let_def list_all_iff intro!: keep split: node.split dest!: in_set_dropD)

lemma moveFile_keeps [keep]: "q \<noteq> src \<Longrightarrow> q \<noteq> dst \<Longrightarrow> keeps (has_file q c) (moveFile E src dst)"
  by (auto simp: moveFile_def intro!: keep split: sum.split)

lemma os_Rename_failed: "os_Rename E src dst w = (Inl e, w') \<Longrightarrow> files w' = files w"
  by (auto simp: os_Rename_def sys_def Let_def split: if_splits sum.splits)

lemma moveFile_file:
  assumes "moveFile E src dst w = (Inr u, w')" and "has_file src c (files w)" and "src \<noteq> dst" and "dst \<noteq> []"
  shows "has_file dst c (files w')"
proof -
  from assms(1) obtain r w1 where r: "os_Rename E src dst w = (r, w1)"
    and k: "(case r of Inr _ \<Rightarrow> return () | Inl _ \<Rightarrow> and_do (copyFile E src dst) (\<lambda>_. os_Remove E src)) w1 = (Inr u, w')"
    unfolding moveFile_def on_result_eq by blast
  show ?thesis
  proof (cases r)
    case (Inl e)
    then obtain u1 w2 u2 where c: "copyFile E src dst w1 = (Inr u1, w2)" "os_Remove E src w2 = (Inr u2, w')"
      using k by (auto simp: and_do_eq)
    have "has_file src c (files w1)" using r Inl assms(2) os_Rename_failed by metis
    then have "has_file dst c (files w2)" using copyFile_file [OF c(1) _ assms(3)] by blast
    then show ?thesis
      by (rule keepsE [where I = "has_file dst c", OF has_file_os(3) [OF assms(3) [symmetric]] c(2)])
  next
    case (Inr x)
    then have "w' = w1" using k by (simp add: return_eq)
    with r Inr assms(2,4) show ?thesis
      by (auto simp: os_Rename_def dest!: sys_eq split: option.splits node.splits if_splits) (metis look_put)
  qed
qed

section \<open>Staging\<close>

abbreviation item_dst :: "bool \<times> string \<times> string \<times> string \<Rightarrow> path" where
  "item_dst x \<equiv> P (fst (snd (snd x)))"

abbreviation item_name :: "bool \<times> string \<times> string \<times> string \<Rightarrow> string" where
  "item_name x \<equiv> snd (snd (snd x))"

lemma stage_item_keeps [keep]: "\<not> under (item_dst x) q \<Longrightarrow> keeps (has_file q c) (stage_item E x contents)"
  by (auto simp: stage_item_def intro!: keep split: sum.split prod.split)

lemma stage_item_plain [keep]: "list_all plain_comp (item_dst x) \<Longrightarrow> keeps plain_fs (stage_item E x contents)"
  by (auto simp: stage_item_def intro!: keep split: sum.split prod.split)

lemma stage_items_keeps [keep]:
  "\<forall>x \<in> set xs. \<not> under (item_dst x) q \<Longrightarrow> keeps (has_file q c) (stage_items E xs contents)"
  by (induction xs arbitrary: contents) (auto intro!: keep)

lemma stage_items_plain [keep]:
  "\<forall>x \<in> set xs. list_all plain_comp (item_dst x) \<Longrightarrow> keeps plain_fs (stage_items E xs contents)"
  by (induction xs arbitrary: contents) (auto intro!: keep)

lemma stage_item_contents:
  assumes "stage_item E x contents w = (Inr contents', w')"
  shows "set contents \<subseteq> set contents' \<and> set contents' \<subseteq> insert (item_name x) (set contents)"
proof -
  obtain d src dst name where x: "x = (d, src, dst, name)" by (metis prod.exhaust)
  from assms obtain r w1 where "os_Stat E (P src) w = (r, w1)" "(case r of Inl _ \<Rightarrow> return contents
      | Inr _ \<Rightarrow> and_do (or_fail ((if d then copyDir else copyFile) E (P src) (P dst)) Backup_os)
                   (\<lambda>_. return (contents @ [name]))) w1 = (Inr contents', w')"
    by (auto simp: stage_item_def x on_result_eq)
  then show ?thesis by (cases r) (auto simp: io_eqs x)
qed

lemma stage_items_contents:
  "stage_items E xs contents w = (Inr contents', w') \<Longrightarrow>
     set contents \<subseteq> set contents' \<and> set contents' \<subseteq> set contents \<union> item_name ` set xs"
proof (induction xs arbitrary: contents w)
  case (Cons x xs)
  then obtain c1 w1 where c1: "stage_item E x contents w = (Inr c1, w1)" "stage_items E xs c1 w1 = (Inr contents', w')"
    by (auto simp: and_do_eq)
  from Cons.IH [OF c1(2)] stage_item_contents [OF c1(1)] show ?case by auto
qed (simp add: return_eq)

lemma stage_item_file:
  assumes "quiet E" and "stage_item E (False, src, dst, name) contents w = (Inr contents', w')"
    and "has_file (P src) y (files w)" and "P src \<noteq> P dst"
  shows "has_file (P dst) y (files w') \<and> name \<in> set contents'"
proof -
  let ?w = "w\<lparr>calls := Suc (calls w)\<rparr>"
  have "os_Stat E (P src) w = (Inr (File_node y), ?w)" using assms(1,3) by (simp add: quiet_Stat)
  with assms(2) obtain u w1 where c: "copyFile E (P src) (P dst) ?w = (Inr u, w1)" "contents' = contents @ [name]" "w' = w1"
    by (auto simp: stage_item_def io_eqs)
  from copyFile_file [OF c(1) _ assms(4)] assms(3) c(2,3) show ?thesis by simp
qed

lemma stage_items_file:
  assumes "quiet E" and "stage_items E (pre @ (False, src, dst, name) # post) contents w = (Inr contents', w')"
    and "has_file (P src) y (files w)" and "\<forall>x \<in> set pre. \<not> under (item_dst x) (P src)" and "P src \<noteq> P dst"
    and "\<forall>x \<in> set post. \<not> under (item_dst x) (P dst)"
  shows "has_file (P dst) y (files w') \<and> name \<in> set contents'"
  using assms(2-4)
proof (induction pre arbitrary: contents w)
  case Nil
  then obtain c1 w1 where c1: "stage_item E (False, src, dst, name) contents w = (Inr c1, w1)"
    "stage_items E post c1 w1 = (Inr contents', w')" by (auto simp: and_do_eq)
  have f: "has_file (P dst) y (files w1) \<and> name \<in> set c1"
    by (rule stage_item_file [OF assms(1) c1(1) Nil.prems(2) assms(5)])
  then have "has_file (P dst) y (files w')"
    using keepsE [where I = "has_file (P dst) y", OF stage_items_keeps [OF assms(6)] c1(2)] by blast
  with f stage_items_contents [OF c1(2)] show ?case by blast
next
  case (Cons x pre)
  then obtain c1 w1 where c1: "stage_item E x contents w = (Inr c1, w1)"
    "stage_items E (pre @ (False, src, dst, name) # post) c1 w1 = (Inr contents', w')" by (auto simp: and_do_eq)
  have "has_file (P src) y (files w1)"
    using keepsE [where I = "has_file (P src) y", OF stage_item_keeps c1(1)] Cons.prems(2,3) by simp
  with Cons.IH [OF c1(2)] Cons.prems(3) show ?case by simp
qed

text \<open>The three files a backup consists of at least, with the name in the manifest.\<close>

definition main_files :: "Service \<Rightarrow> (string \<times> string) list" where
  "main_files s =
     [(''server.yml'', path_join [sv_configDir s, ''server.yml'']),
      (''server.db'', path_join [sv_dataDir s, ''db'', ''server.db'']),
      (''users.db'', path_join [sv_dataDir s, ''db'', ''users.db''])]"

definition item_names :: "string list" where
  "item_names = [''server.yml'', ''server.db'', ''users.db'', ''template/'', ''theme/'', ''ssl/'', ''uploads/'']"

definition dir_names :: "string list" where
  "dir_names = [''template'', ''theme'', ''ssl'', ''uploads'']"

lemma stage_dirs_dst: "(\<lambda>x. fst (snd (snd x))) ` set (stage_dirs s t opts) \<subseteq> (\<lambda>d. path_join [t, d]) ` set dir_names"
  by (cases "bo_IncludeSSL opts"; cases "bo_IncludeUploads opts") (simp_all add: stage_dirs_def dir_names_def)

lemma stage_dirs_dstE:
  assumes "x \<in> set (stage_dirs s t opts)"
  obtains d where "d \<in> set dir_names" "fst (snd (snd x)) = path_join [t, d]"
proof -
  have "fst (snd (snd x)) \<in> (\<lambda>d. path_join [t, d]) ` set dir_names" using assms stage_dirs_dst [of s t opts] by blast
  then show ?thesis using that by blast
qed

lemma item_names_plain: "list_all plain_comp ([''server.yml'', ''server.db'', ''users.db''] @ dir_names)"
  by code_simp

lemma stage_list_dst:
  assumes "IsAbs t" and "x \<in> set (stage_list s t opts)"
  shows "\<exists>d. item_dst x = P t @ [d] \<and> plain_comp d"
proof -
  have "(\<lambda>x. fst (snd (snd x))) ` set (stage_list s t opts)
      \<subseteq> (\<lambda>d. path_join [t, d]) ` set ([''server.yml'', ''server.db'', ''users.db''] @ dir_names)"
    using stage_dirs_dst [of s t opts] by (simp add: stage_list_def subset_insertI2)
  then have "fst (snd (snd x)) \<in> (\<lambda>d. path_join [t, d]) ` set ([''server.yml'', ''server.db'', ''users.db''] @ dir_names)"
    using assms(2) by (simp only: image_subset_iff)
  then obtain d where "d \<in> set ([''server.yml'', ''server.db'', ''users.db''] @ dir_names)" "fst (snd (snd x)) = path_join [t, d]"
    by (rule imageE) blast
  then show ?thesis using item_names_plain P_join(1) [OF assms(1)] unfolding list_all_iff by metis
qed

lemma stage_list_names: "item_name ` set (stage_list s t opts) \<subseteq> set item_names"
  by (auto simp: stage_list_def stage_dirs_def item_names_def split: if_splits)

lemma under_child: "under (p @ [a]) (p @ [b]) \<longleftrightarrow> a = b"
  by (auto simp: under_def)

lemma stage_list_split:
  assumes "(n, src) \<in> set (main_files s)"
  shows "\<exists>pre post. stage_list s t opts = pre @ (False, src, path_join [t, n], n) # post
     \<and> (\<forall>x \<in> set post. \<exists>d. fst (snd (snd x)) = path_join [t, d] \<and> plain_comp d \<and> d \<noteq> n)"
proof -
  let ?a = "\<lambda>s. (False, path_join [sv_configDir s, ''server.yml''], path_join [t, ''server.yml''], ''server.yml'')"
  let ?b = "\<lambda>s. (False, path_join [sv_dataDir s, ''db'', ''server.db''], path_join [t, ''server.db''], ''server.db'')"
  let ?c = "\<lambda>s. (False, path_join [sv_dataDir s, ''db'', ''users.db''], path_join [t, ''users.db''], ''users.db'')"
  have ne: "list_all (\<lambda>d. d \<noteq> ''server.yml'' \<and> d \<noteq> ''server.db'' \<and> d \<noteq> ''users.db'') dir_names"
    "plain_comp ''server.db''" "plain_comp ''users.db''" by code_simp+
  have dirs: "\<exists>d. fst (snd (snd x)) = path_join [t, d] \<and> plain_comp d \<and> d \<noteq> n"
    if x: "x \<in> set (stage_dirs s t opts)" and n: "n \<in> {''server.yml'', ''server.db'', ''users.db''}" for x
  proof -
    obtain d where "d \<in> set dir_names" "fst (snd (snd x)) = path_join [t, d]" by (rule stage_dirs_dstE [OF x])
    moreover from this n ne(1) item_names_plain have "plain_comp d \<and> d \<noteq> n" by (auto simp: list_all_iff)
    ultimately show ?thesis by blast
  qed
  from assms consider "n = ''server.yml''" "src = path_join [sv_configDir s, ''server.yml'']"
    | "n = ''server.db''" "src = path_join [sv_dataDir s, ''db'', ''server.db'']"
    | "n = ''users.db''" "src = path_join [sv_dataDir s, ''db'', ''users.db'']"
    by (auto simp: main_files_def)
  then show ?thesis
  proof cases
    case 1
    show ?thesis
      by (rule exI [of _ "[]"], rule exI [of _ "?b s # ?c s # stage_dirs s t opts"])
        (use dirs 1 ne in \<open>auto simp: stage_list_def\<close>)
  next
    case 2
    show ?thesis
      by (rule exI [of _ "[?a s]"], rule exI [of _ "?c s # stage_dirs s t opts"])
        (use dirs 2 ne in \<open>auto simp: stage_list_def\<close>)
  next
    case 3
    show ?thesis
      by (rule exI [of _ "[?a s, ?b s]"], rule exI [of _ "stage_dirs s t opts"])
        (use dirs 3 ne in \<open>auto simp: stage_list_def\<close>)
  qed
qed

lemma stage_main_file:
  assumes "quiet E" and "IsAbs t" and "(n, src) \<in> set (main_files s)"
    and "stageBackupFiles E s t opts w = (Inr contents, w')"
    and "has_file (P src) y (files w)" and "\<not> under (P t) (P src)"
  shows "has_file (P t @ [n]) y (files w') \<and> n \<in> set contents \<and> set contents \<subseteq> set item_names"
proof -
  obtain pre post where split: "stage_list s t opts = pre @ (False, src, path_join [t, n], n) # post"
    and post: "\<forall>x \<in> set post. \<exists>d. fst (snd (snd x)) = path_join [t, d] \<and> plain_comp d \<and> d \<noteq> n"
    using stage_list_split [OF assms(3)] by blast
  have pn: "plain_comp n" using assms(3) item_names_plain by (auto simp: main_files_def)
  note Pn = P_join(1) [OF assms(2) pn]
  have src: "\<not> under (item_dst x) (P src)" if "x \<in> set (stage_list s t opts)" for x
    using stage_list_dst [OF assms(2) that] assms(6) under_trans [OF under_append] by metis
  have "has_file (P (path_join [t, n])) y (files w') \<and> n \<in> set contents"
  proof (rule stage_items_file [OF assms(1) _ assms(5)])
    show "stage_items E (pre @ (False, src, path_join [t, n], n) # post) [] w = (Inr contents, w')"
      using assms(4) by (simp add: stageBackupFiles_def split)
    show "\<forall>x \<in> set pre. \<not> under (item_dst x) (P src)" using src split by auto
    show "P src \<noteq> P (path_join [t, n])" using assms(6) Pn by auto
    show "\<forall>x \<in> set post. \<not> under (item_dst x) (P (path_join [t, n]))"
      using post P_join(1) [OF assms(2)] Pn under_child by fastforce
  qed
  moreover have "set contents \<subseteq> set item_names"
    using stage_items_contents [of E "stage_list s t opts" "[]" w contents w'] assms(4) stage_list_names [of s t opts]
    by (auto simp: stageBackupFiles_def)
  ultimately show ?thesis by (simp add: Pn)
qed

lemma stage_plain: "IsAbs t \<Longrightarrow> keeps plain_fs (stageBackupFiles E s t opts)"
  unfolding stageBackupFiles_def
  using stage_list_dst path_comps_plain by (intro stage_items_plain ballI) fastforce

section \<open>The archive\<close>

text \<open>Entries with distinct relative names.\<close>

definition wf_entries :: "tar_entry list \<Rightarrow> bool" where
  "wf_entries es \<longleftrightarrow> list_all written_entry es \<and> distinct (map te_Name es)
     \<and> (\<forall>h \<in> set es. \<exists>rel. rel \<noteq> [] \<and> list_all plain_comp rel \<and> te_Name h = join ''/'' rel)"

definition carries :: "string \<Rightarrow> string \<Rightarrow> tar_entry list \<Rightarrow> bool" where
  "carries n c es \<longleftrightarrow> (\<exists>h \<in> set es. te_Name h = n \<and> te_Typeflag h = TypeReg \<and> te_body h = c)"

lemma archive_entry_Some:
  assumes "archive_entry fs t a p = Some h"
  shows "p \<noteq> a \<and> p \<noteq> t \<and> te_Name h = rel_name t p \<and> written_entry h"
proof -
  from assms obtain n where "p \<noteq> a" "p \<noteq> t" "look fs p = Some n" by (auto simp: archive_entry_def split: if_splits option.splits)
  with assms show ?thesis by (cases n) (auto simp: archive_entry_def written_entry_def)
qed

lemma archive_entry_of:
  "h \<in> set (archive_entries fs t a) \<Longrightarrow>
     \<exists>p. p \<in> set (walk fs t) \<and> p \<noteq> t \<and> te_Name h = rel_name t p \<and> written_entry h"
  by (auto simp: archive_entries_def set_map_filter dest: archive_entry_Some)

lemma rel_of_walk:
  assumes "plain_fs fs" and "p \<in> set (walk fs t)" and "p \<noteq> t"
  shows "\<exists>rel. rel \<noteq> [] \<and> list_all plain_comp rel \<and> p = t @ rel \<and> rel_name t p = join ''/'' rel"
proof -
  from assms(2) obtain rel where "p = t @ rel" by (auto simp: set_walk under_iff)
  moreover from assms(1,2) have "list_all plain_comp p" by (auto simp: plain_fs_def set_walk)
  ultimately show ?thesis using assms(3) by (intro exI [of _ rel]) (auto simp: rel_name_def)
qed

lemma distinct_map_filter_names:
  assumes "distinct xs" and "\<And>x h. x \<in> set xs \<Longrightarrow> f x = Some h \<Longrightarrow> te_Name h = g x"
    and "\<And>x y. x \<in> set xs \<Longrightarrow> y \<in> set xs \<Longrightarrow> f x \<noteq> None \<Longrightarrow> f y \<noteq> None \<Longrightarrow> g x = g y \<Longrightarrow> x = y"
  shows "distinct (map te_Name (List.map_filter f xs))"
  using assms
proof (induction xs)
  case (Cons x xs)
  have IH: "distinct (map te_Name (List.map_filter f xs))"
    using Cons.IH Cons.prems by (metis distinct.simps(2) list.set_intros(2))
  show ?case
  proof (cases "f x")
    case (Some h)
    have "te_Name h \<notin> te_Name ` set (List.map_filter f xs)"
    proof
      assume "te_Name h \<in> te_Name ` set (List.map_filter f xs)"
      then obtain h' y where y: "y \<in> set xs" "f y = Some h'" "te_Name h = te_Name h'"
        by (auto simp: set_map_filter)
      then have "g x = g y" using Cons.prems(2) [of x h] Cons.prems(2) [of y h'] Some by simp
      then have "x = y" using Cons.prems(3) [of x y] y Some by simp
      with Cons.prems(1) y(1) show False by simp
    qed
    with IH Some show ?thesis by (simp add: map_filter_simps)
  qed (use IH in \<open>simp add: map_filter_simps\<close>)
qed (simp add: map_filter_simps)

lemma archive_wf:
  assumes "plain_fs fs"
  shows "wf_entries (archive_entries fs t a)"
proof -
  have "distinct (map te_Name (archive_entries fs t a))"
    unfolding archive_entries_def
  proof (rule distinct_map_filter_names [where g = "rel_name t", OF distinct_walk])
    show "te_Name h = rel_name t x" if "archive_entry fs t a x = Some h" for x h
      using archive_entry_Some [OF that] by blast
  next
    fix x y
    assume xy: "x \<in> set (walk fs t)" "y \<in> set (walk fs t)" "rel_name t x = rel_name t y"
      and "archive_entry fs t a x \<noteq> None" "archive_entry fs t a y \<noteq> None"
    then have ne: "x \<noteq> t" "y \<noteq> t" by (auto dest: archive_entry_Some)
    obtain r where r: "list_all plain_comp r" "x = t @ r" "rel_name t x = join ''/'' r"
      using rel_of_walk [OF assms xy(1) ne(1)] by blast
    obtain q where q: "list_all plain_comp q" "y = t @ q" "rel_name t y = join ''/'' q"
      using rel_of_walk [OF assms xy(2) ne(2)] by blast
    have "r = q" by (rule render_inject [OF r(1) q(1)]) (use xy(3) r(3) q(3) in simp)
    with r(2) q(2) show "x = y" by simp
  qed
  moreover have "list_all written_entry (archive_entries fs t a)"
    using archive_entry_of by (auto simp: list_all_iff)
  moreover have "\<exists>rel. rel \<noteq> [] \<and> list_all plain_comp rel \<and> te_Name h = join ''/'' rel"
    if "h \<in> set (archive_entries fs t a)" for h
    using archive_entry_of [OF that] rel_of_walk [OF assms] by metis
  ultimately show ?thesis by (simp add: wf_entries_def)
qed

lemma archive_carries:
  assumes "has_file (t @ [n]) c fs" and "t @ [n] \<noteq> a"
  shows "carries n c (archive_entries fs t a)"
proof -
  have "t @ [n] \<in> set (walk fs t)" using look_key [OF assms(1)] by (simp add: set_walk)
  moreover have "archive_entry fs t a (t @ [n])
      = Some \<lparr>te_Name = n, te_Typeflag = TypeReg, te_Size = int (length c), te_body = c\<rparr>"
    using assms by (simp add: archive_entry_def rel_name_def)
  ultimately have "\<lparr>te_Name = n, te_Typeflag = TypeReg, te_Size = int (length c), te_body = c\<rparr> \<in> set (archive_entries fs t a)"
    unfolding archive_entries_def set_map_filter by blast
  then show ?thesis unfolding carries_def by (rule rev_bexI) simp
qed

lemma createArchive_result:
  assumes "quiet E" and "createArchive E K t a w = (Inr u, w')"
  shows "has_file a (k_pack K (archive_entries (put (files w) a (File_node [])) t a)) (files w')"
proof -
  from assms(2) obtain u1 w1 es w2 r w3 where c: "os_Create E a w = (Inr u1, w1)"
    and es: "sys E (\<lambda>fs. if look fs t = None then Inl Not_exist else Inr (archive_entries fs t a, fs)) w1 = (Inr es, w2)"
    and r: "io_Copy E (k_pack K es) a w2 = (r, w3)"
    and k: "(case r of Inl _ \<Rightarrow> sys E (\<lambda>fs. Inr ((), fs)) | Inr _ \<Rightarrow> return ()) w3 = (Inr u, w')"
    unfolding createArchive_def and_do_eq on_result_eq by blast
  have "r = Inr ()" using r assms(1) by (auto simp: io_Copy_def Let_def quiet_def)
  then have w3: "w' = w3" using k by (simp add: return_eq)
  have "files w3 = put (files w2) a (File_node (k_pack K es))" using io_Copy_eq r \<open>r = Inr ()\<close> by blast
  moreover have "es = archive_entries (files w1) t a" using sys_eq [OF es] by (auto split: if_splits)
  moreover have "files w1 = put (files w) a (File_node []) \<and> a \<noteq> []" by (rule os_eqs(3) [OF c])
  ultimately show ?thesis by (simp add: w3)
qed

lemma createArchive_keeps [keep]: "q \<noteq> a \<Longrightarrow> keeps (has_file q c) (createArchive E K t a)"
  by (auto simp: createArchive_def intro!: keep split: sum.split)

lemma checksum_keeps [keep]: "keeps I (computeContentChecksum E C p skip)"
  unfolding computeContentChecksum_def by (rule keeps_read)

section \<open>Building a backup\<close>

lemma path_join_render:
  assumes "IsAbs d" and "plain_comp n"
  shows "path_join [d, n] = Slash # join ''/'' (P d @ [n])"
  using path_join_abs [OF assms(1), of n] path_comps_path_join(1) [OF assms(1), of n] P_join(1) [OF assms] by simp

lemma join_snoc_append: "join sep (xs @ [n]) @ e = join sep (xs @ [n @ e])"
proof (induction xs)
  case (Cons x xs)
  then show ?case by (cases xs) simp_all
qed simp

lemma P_join_suffix:
  assumes "IsAbs d" and "plain_comp n" and "plain_comp (n @ e)"
  shows "P (path_join [d, n] @ e) = P d @ [n @ e]"
proof -
  have "path_join [d, n] @ e = Slash # join ''/'' (P d @ [n @ e])"
    by (simp add: path_join_render [OF assms(1,2)] join_snoc_append)
  moreover have "list_all plain_comp (P d @ [n @ e])" using path_comps_plain [OF assms(1)] assms(3) by simp
  ultimately show ?thesis by (simp only: path_comps_render)
qed

text \<open>The file in the backup directory, as the name of an archive.\<close>

definition seals :: "ciphers \<Rightarrow> string \<Rightarrow> string \<Rightarrow> string \<Rightarrow> bool" where
  "seals C password data plain =
     (if password = [] then data = plain else DecryptData C data password = Inr plain)"

definition crypt_ok :: "ciphers \<Rightarrow> create_env \<Rightarrow> bool" where
  "crypt_ok C V \<longleftrightarrow> opens_sealed C \<and> (\<forall>s. ce_salt V = Some s \<longrightarrow> length s = saltSize)
     \<and> (\<forall>s. ce_nonce V = Some s \<longrightarrow> length s = nonceSize)"

definition final_name :: "BackupOptions \<Rightarrow> string \<Rightarrow> string" where
  "final_name opts filename = filename @ (if bo_Password opts = [] then ''.tar.gz'' else ''.tar.gz.enc'')"

lemma EncryptFile_result:
  assumes "crypt_ok C V" and "EncryptFile E C (ce_salt V) (ce_nonce V) a pw w = (Inr out, w')"
    and "has_file (P a) c (files w)" and "pw \<noteq> []"
  shows "out = a @ ''.enc'' \<and> (\<exists>data. has_file (P out) data (files w') \<and> seals C pw data c)"
proof -
  from assms(2) obtain plain w1 where r: "os_ReadFile E (P a) w = (Inr plain, w1)"
    and k: "(case EncryptData C (ce_salt V) (ce_nonce V) plain pw of Inl e \<Rightarrow> fail (Backup_crypt e)
      | Inr sealed \<Rightarrow> let outputPath = a @ ''.enc''
          in and_do (or_fail (os_WriteFile E (P outputPath) sealed) Backup_os) (\<lambda>_. return outputPath)) w1 = (Inr out, w')"
    unfolding EncryptFile_def and_do_eq or_fail_eq by blast
  have plain: "plain = c" using os_eqs(2) [OF r] assms(3) by simp
  obtain sealed where sealed: "EncryptData C (ce_salt V) (ce_nonce V) c pw = Inr sealed"
  proof (cases "EncryptData C (ce_salt V) (ce_nonce V) c pw")
    case (Inl e)
    then show ?thesis using k by (simp add: plain fail_eq)
  qed (use that in blast)
  then obtain u where "os_WriteFile E (P (a @ ''.enc'')) sealed w1 = (Inr u, w')" "out = a @ ''.enc''"
    using k unfolding plain sealed sum.case Let_def and_do_eq or_fail_eq return_eq by blast
  note o = sealed this
  have "DecryptData C sealed pw = Inr c"
    using assms(1) o(1) by (intro encrypt_decrypt) (auto simp: crypt_ok_def)
  with os_WriteFile_file [OF o(2)] o(3) assms(4) show ?thesis by (auto simp: seals_def)
qed

lemma build_backup_carries:
  assumes "quiet E" and "crypt_ok C V" and "IsAbs (ce_tempDir V)" and "IsAbs (sv_backupDir s)"
    and "plain_comp (filename @ ''.tar.gz'')" and "plain_comp (final_name opts filename)" and "plain_fs (files w)"
    and "(n, src) \<in> set (main_files s)" and "has_file (P src) y (files w)"
    and "\<not> under (P (ce_tempDir V)) (P src)" and "\<not> under (P (ce_tempDir V)) (P (sv_backupDir s))"
    and "build_backup E K C V s opts filename w = (Inr (ff, fp, m), w')"
  shows "ff = final_name opts filename \<and> fp = path_join [sv_backupDir s, ff] \<and> mf_CreatedAt m = ce_now V
     \<and> n \<in> set (mf_Contents m) \<and> set (mf_Contents m) \<subseteq> set item_names
     \<and> (\<exists>data es. has_file (P fp) data (files w') \<and> seals C (bo_Password opts) data (k_pack K es)
          \<and> wf_entries es \<and> carries n y es \<and> carries ''manifest.json'' (k_json K m) es)"
proof -
  let ?T = "ce_tempDir V" and ?a = "filename @ ''.tar.gz''"
  let ?arch = "path_join [?T, ?a]" and ?mp = "path_join [?T, ''manifest.json'']"
  from assms(12) obtain contents w1 sum w2 u3 w3 u4 w4 archive ff' w5 u6 where
    st: "stageBackupFiles E s ?T opts w = (Inr contents, w1)"
    and cs: "computeContentChecksum E C (P ?T) [] w1 = (Inr sum, w2)"
    and m: "m = (NewManifest (ce_now V) (ce_hostname V))\<lparr>mf_AppVersion := sv_appVersion s,
              mf_Encrypted := bo_Password opts \<noteq> [], mf_Contents := contents, mf_Checksum := sum\<rparr>"
    and ms: "Manifest_Save E K m (P ?mp) w2 = (Inr u3, w3)"
    and ca: "createArchive E K (P ?T) (P ?arch) w3 = (Inr u4, w4)"
    and en: "(if bo_Password opts \<noteq> []
              then and_do (EncryptFile E C (ce_salt V) (ce_nonce V) ?arch (bo_Password opts))
                     (\<lambda>enc. return (enc, filename @ ''.tar.gz.enc''))
              else return (?arch, ?a)) w4 = (Inr (archive, ff'), w5)"
    and mv: "moveFile E (P archive) (P (path_join [sv_backupDir s, ff'])) w5 = (Inr u6, w')"
    and res: "ff = ff'" "fp = path_join [sv_backupDir s, ff']"
    by (auto simp: build_backup_def Let_def and_do_eq or_fail_eq return_eq split: prod.splits)
  have pm: "plain_comp ''manifest.json''" by code_simp
  note Pa = P_join(1) [OF assms(3,5)] and Pm = P_join(1) [OF assms(3) pm]
  have az: "last ?a = CHR ''z''" by simp
  have ne: "?a \<noteq> n" "n \<noteq> ''manifest.json''" "?a \<noteq> ''manifest.json''"
    using az assms(8) by (auto simp: main_files_def)
  from stage_main_file [OF assms(1,3,8) st assms(9,10)]
  have f1: "has_file (P ?T @ [n]) y (files w1)" and names: "n \<in> set contents" "set contents \<subseteq> set item_names" by auto
  have p1: "plain_fs (files w1)" by (rule keepsE [where I = plain_fs, OF stage_plain [OF assms(3)] st assms(7)])
  have w2: "has_file (P ?T @ [n]) y (files w2)" "plain_fs (files w2)"
    using keepsE [where I = "has_file (P ?T @ [n]) y", OF checksum_keeps cs f1]
      keepsE [where I = plain_fs, OF checksum_keeps cs p1] by auto
  have w3: "has_file (P ?T @ [n]) y (files w3)" "plain_fs (files w3)" "has_file (P ?mp) (k_json K m) (files w3)"
    using keepsE [where I = "has_file (P ?T @ [n]) y", OF has_file_WriteFile ms [unfolded Manifest_Save_def] w2(1)]
      keepsE [where I = plain_fs, OF plain_WriteFile ms [unfolded Manifest_Save_def] w2(2)]
      os_WriteFile_file [OF ms [unfolded Manifest_Save_def]] ne path_comps_plain [OF assms(3)] pm
    by (auto simp: Pm)
  let ?fs = "put (files w3) (P ?arch) (File_node [])"
  let ?es = "archive_entries ?fs (P ?T) (P ?arch)"
  have arch: "has_file (P ?arch) (k_pack K ?es) (files w4)" by (rule createArchive_result [OF assms(1) ca])
  have "plain_fs ?fs" using w3(2) path_comps_plain [OF assms(3)] assms(5) by (intro plain_put) (auto simp: Pa)
  then have wf: "wf_entries ?es" by (rule archive_wf)
  have c1: "carries n y ?es" using w3(1) ne by (intro archive_carries) (auto simp: Pa)
  have c2: "carries ''manifest.json'' (k_json K m) ?es" using w3(3) ne by (intro archive_carries) (auto simp: Pa Pm)
  have last: "ff' = final_name opts filename \<and> (\<exists>data. has_file (P archive) data (files w5)
      \<and> seals C (bo_Password opts) data (k_pack K ?es)) \<and> (\<exists>x. P archive = P ?T @ [x])"
  proof (cases "bo_Password opts = []")
    case True
    then show ?thesis using en arch by (auto simp: return_eq final_name_def seals_def Pa)
  next
    case False
    then obtain enc where e: "EncryptFile E C (ce_salt V) (ce_nonce V) ?arch (bo_Password opts) w4 = (Inr archive, w5)"
      "ff' = filename @ ''.tar.gz.enc''"
      using en by (auto simp: and_do_eq return_eq)
    from EncryptFile_result [OF assms(2) e(1) arch False] have a: "archive = ?arch @ ''.enc''"
      "\<exists>data. has_file (P archive) data (files w5) \<and> seals C (bo_Password opts) data (k_pack K ?es)" by auto
    have "plain_comp (?a @ ''.enc'')" using assms(6) False by (simp add: final_name_def)
    then have "P archive = P ?T @ [?a @ ''.enc'']" using P_join_suffix [OF assms(3,5)] a(1) by simp
    with a(2) e(2) False show ?thesis by (auto simp: final_name_def)
  qed
  then obtain data x where d: "has_file (P archive) data (files w5)" "seals C (bo_Password opts) data (k_pack K ?es)"
    "P archive = P ?T @ [x]" and ff': "ff' = final_name opts filename" by blast
  have Pf: "P (path_join [sv_backupDir s, ff']) = P (sv_backupDir s) @ [ff']"
    using P_join(1) [OF assms(4,6)] ff' by simp
  have "P archive \<noteq> P (path_join [sv_backupDir s, ff'])"
    using assms(11) d(3) under_refl [of "P ?T"] by (auto simp: Pf)
  then have "has_file (P fp) data (files w')" using moveFile_file [OF mv d(1)] res(2) by (simp add: Pf)
  with d(2) wf c1 c2 res ff' names m show ?thesis by (auto simp: NewManifest_def)
qed

section \<open>Verifying and pruning\<close>

lemma verify_entry_keeps [keep]:
  assumes "IsAbs d" and "\<not> under (P d) q"
  shows "keeps (has_file q c) (verify_entry E d h n)"
proof (cases "inside d (path_join [d, te_Name h])")
  case True
  then obtain r where r: "P (path_join [d, te_Name h]) = P d @ r" using inside_under [OF assms(1)] by blast
  have ne: "q \<noteq> P d @ r" using assms(2) by auto
  show ?thesis by (auto simp: verify_entry_def Let_def r ne intro!: keep split: typeflag.split)
qed (auto simp: verify_entry_def Let_def intro!: keep)

lemma verify_loop_keeps [keep]:
  "IsAbs d \<Longrightarrow> \<not> under (P d) q \<Longrightarrow> keeps (has_file q c) (verify_loop E d hs n)"
  by (induction hs arbitrary: n) (auto intro!: keep)

lemma LoadManifest_keeps [keep]: "keeps I (LoadManifest E K p)"
  by (auto simp: LoadManifest_def intro!: keep split: option.split)

lemma verify_content_keeps [keep]:
  "IsAbs d \<Longrightarrow> \<not> under (P d) q \<Longrightarrow> keeps (has_file q c) (verify_content E K C a d)"
  by (auto simp: verify_content_def verifyAndExtractArchive_def intro!: keep
      split: option.split sum.split node.split)

lemma join_snoc: "xs \<noteq> [] \<Longrightarrow> join sep (xs @ [n]) = join sep xs @ sep @ n"
proof (induction xs)
  case (Cons x xs)
  then show ?case by (cases xs) simp_all
qed simp

lemma Base_join:
  assumes "IsAbs d" and "plain_comp n"
  shows "Base (path_join [d, n]) = n"
proof -
  have no: "Slash \<notin> set n" "n \<noteq> []" using assms(2) by (auto simp: plain_comp_def)
  have "\<exists>x. path_join [d, n] = x @ Slash # n"
  proof (cases "P d = []")
    case True
    then show ?thesis by (auto simp: path_join_render [OF assms])
  next
    case False
    then have "join ''/'' (P d @ [n]) = join ''/'' (P d) @ Slash # n" by (simp add: join_snoc)
    then show ?thesis by (auto simp: path_join_render [OF assms])
  qed
  then obtain x where x: "path_join [d, n] = x @ Slash # n" by blast
  obtain y ys where y: "rev n = y # ys" using no by (cases "rev n") auto
  then have "y \<in> set n" "set ys \<subseteq> set n" by (metis list.set_intros(1) set_rev, metis set_rev set_subset_Cons)
  then have "y \<noteq> Slash" "Slash \<notin> set ys" using no by auto
  then have "takeWhile (\<lambda>c. c \<noteq> Slash) (ys @ Slash # rev x) = ys" by (subst takeWhile_append2) auto
  then have "Base (path_join [d, n]) = rev (rev n)" using \<open>y \<noteq> Slash\<close> by (simp add: Base_def x y)
  then show ?thesis by simp
qed

text \<open>A name that loses its ending \<open>.enc\<close>.\<close>

lemma decrypted_base:
  assumes "b = x @ ''.enc''" and "x \<noteq> []"
  shows "(if length b > 4 \<and> drop (length b - 4) b = ''.enc'' then take (length b - 4) b else b) = x"
  using assms by simp

lemma DecryptFile_keeps:
  assumes "IsAbs d" and "IsAbs v" and "plain_comp (x @ ''.enc'')" and "plain_comp x" and "\<not> under (P v) q"
  shows "keeps (has_file q c) (DecryptFile E C (path_join [d, x @ ''.enc'']) pw v)"
proof -
  have b: "(if length b > 4 \<and> drop (length b - 4) b = ''.enc'' then take (length b - 4) b else b) = x"
    if "b = x @ ''.enc''" for b
    using that assms(4) by (intro decrypted_base) (auto simp: plain_comp_def)
  have ne: "q \<noteq> P (path_join [v, x])" using assms(5) P_join(1) [OF assms(2,4)] by auto
  show ?thesis
    unfolding DecryptFile_def Base_join [OF assms(1,3)] Let_def b [OF refl]
    by (auto intro!: keep ne split: sum.split)
qed

lemma last_path_join:
  assumes "IsAbs d" and "plain_comp n"
  shows "last (path_join [d, n]) = last n"
proof -
  have "n \<noteq> []" using assms(2) by (auto simp: plain_comp_def)
  then show ?thesis
    by (cases "P d = []") (simp_all add: path_join_render [OF assms] join_snoc)
qed

lemma final_name_suffix:
  assumes "IsAbs d" and "plain_comp (final_name opts f)"
  shows "has_suffix (path_join [d, final_name opts f]) ''.enc'' \<longleftrightarrow> bo_Password opts \<noteq> []"
proof (cases "bo_Password opts = []")
  case True
  have "last (path_join [d, final_name opts f]) = CHR ''z''"
    by (simp add: last_path_join [OF assms]) (simp add: final_name_def True)
  then have "\<not> has_suffix (path_join [d, final_name opts f]) ''.enc''" by (auto simp: has_suffix_iff)
  with True show ?thesis by simp
next
  case False
  have "path_join [d, final_name opts f] = Slash # join ''/'' (P d @ [f @ ''.tar.gz'' @ ''.enc''])"
    by (simp add: path_join_render [OF assms]) (simp add: final_name_def False)
  also have "\<dots> = (Slash # join ''/'' (P d @ [f @ ''.tar.gz''])) @ ''.enc''"
    using join_snoc_append [of "''/''" "P d" "f @ ''.tar.gz''" "''.enc''"] by simp
  finally have "has_suffix (path_join [d, final_name opts f]) ''.enc''" unfolding has_suffix_iff by blast
  with False show ?thesis by simp
qed

lemma Verify_keeps:
  assumes "IsAbs d" and "IsAbs v" and "plain_comp (f @ ''.tar.gz'')" and "plain_comp (final_name opts f)" and "\<not> under (P v) q"
  shows "keeps (has_file q c) (Verify E K C v (path_join [d, final_name opts f]) pw)"
proof -
  have px: "plain_comp ''extracted''" by code_simp
  have ext: "IsAbs (path_join [v, ''extracted''])" "\<not> under (P (path_join [v, ''extracted''])) q"
    using P_join [OF assms(2) px] assms(5) under_trans [OF under_append] by auto
  have ne: "q \<noteq> P v" using assms(5) by auto
  have dec: "keeps (has_file q c) (DecryptFile E C (path_join [d, final_name opts f]) pw v)"
    if "has_suffix (path_join [d, final_name opts f]) ''.enc''"
  proof -
    have "final_name opts f = (f @ ''.tar.gz'') @ ''.enc''"
      using that final_name_suffix [OF assms(1,4)] by (simp add: final_name_def)
    then show ?thesis using DecryptFile_keeps [OF assms(1,2) _ assms(3,5)] assms(4) by simp
  qed
  show ?thesis
    unfolding Verify_def
    by (auto intro!: keep ext ne dec assms(5) split: sum.split)
qed

text \<open>Pruning removes files and writes none.\<close>

abbreviation file_or_gone :: "path \<Rightarrow> string \<Rightarrow> fs \<Rightarrow> bool" where
  "file_or_gone q c fs \<equiv> look fs q = None \<or> has_file q c fs"

lemma gone_os [keep]: "keeps (file_or_gone q c) (os_Remove E p)" "keeps (file_or_gone q c) (os_RemoveAll E p)"
  by (auto simp: os_Remove_def os_RemoveAll_def keeps_def Let_def sys_def look_drop_path look_drop_tree
      split: option.splits if_splits sum.splits)

lemma apply_retention_gone [keep]: "keeps (file_or_gone q c) (apply_retention E R s)"
  by (auto simp: apply_retention_def intro!: keep split: option.split)

lemma finish_backup_result:
  assumes "finish_backup E K C R V s opts (ff, fp, m) w = (Inr res, w')"
  obtains info w1 v w2 a where "os_Stat E (P fp) w = (Inr info, w1)"
    "Verify E K C (ce_verifyDir V) fp (bo_Password opts) w1 = (Inr v, w2)" "apply_retention E R s w2 = (a, w')"
    "br_FilePath res = fp"
proof -
  from assms obtain info w1 r w2 where st: "os_Stat E (P fp) w = (Inr info, w1)"
    and v: "Verify E K C (ce_verifyDir V) fp (bo_Password opts) w1 = (r, w2)"
    and k: "(case r of
           Inl e \<Rightarrow> on_result (os_Remove E (P fp)) (\<lambda>_. fail e)
         | Inr _ \<Rightarrow>
             on_result (apply_retention E R s) (\<lambda>a.
               if a = Inl Retention_panic then fail Retention_panic
               else return \<lparr>br_Filename = ff, br_FilePath = fp,
                 br_Size = (case info of Dir_node \<Rightarrow> 0 | File_node c \<Rightarrow> int (length c)),
                 br_Encrypted = (bo_Password opts \<noteq> []), br_Manifest = m\<rparr>)) w2 = (Inr res, w')"
    unfolding finish_backup_def prod.case and_do_eq or_fail_eq on_result_eq by blast
  show ?thesis
  proof (cases r)
    case (Inl e)
    then show ?thesis using k by (simp add: on_result_eq fail_eq)
  next
    case (Inr n)
    then show ?thesis using k st v that by (auto simp: on_result_eq return_eq fail_eq split: if_splits)
  qed
qed

lemma Create_steps:
  assumes "Create E K C R V s opts w = (Inr res, w')"
    and "filename = backup_name V opts"
  obtains u1 w1 u2 w2 built w3 w4 where "os_MkdirAll E (P (sv_backupDir s)) w = (Inr u1, w1)"
    "os_MkdirTemp E (P (ce_tempDir V)) w1 = (Inr u2, w2)" "build_backup E K C V s opts filename w2 = (Inr built, w3)"
    "finish_backup E K C R V s opts built w3 = (Inr res, w4)" "w' = snd (os_RemoveAll E (P (ce_tempDir V)) w4)"
proof -
  have "\<not> (sv_compliance s \<and> bo_Password opts = [])" using assms(1) by (auto simp: Create_def fail_eq)
  then have "and_do (or_fail (os_MkdirAll E (P (sv_backupDir s))) Backup_os)
       (\<lambda>_. and_do (or_fail (os_MkdirTemp E (P (ce_tempDir V))) Backup_os)
             (\<lambda>_. deferred (and_do (build_backup E K C V s opts filename) (finish_backup E K C R V s opts))
                   (os_RemoveAll E (P (ce_tempDir V))))) w = (Inr res, w')"
    using assms(1) by (simp only: Create_def Let_def assms(2) [symmetric] if_False)
  then show ?thesis using that unfolding and_do_eq or_fail_eq deferred_eq by blast
qed

lemma Create_result:
  assumes "quiet E" and "crypt_ok C V" and "IsAbs (ce_tempDir V)" and "IsAbs (ce_verifyDir V)" and "IsAbs (sv_backupDir s)"
    and "filename = backup_name V opts"
    and "plain_comp (filename @ ''.tar.gz'')" and "plain_comp (final_name opts filename)" and "plain_fs (files w)"
    and "(n, src) \<in> set (main_files s)" and "has_file (P src) y (files w)"
    and "\<not> under (P (ce_tempDir V)) (P src)" and "\<not> under (P (ce_tempDir V)) (P (sv_backupDir s))"
    and "\<not> under (P (ce_verifyDir V)) (P (sv_backupDir s) @ [final_name opts filename])"
    and "Create E K C R V s opts w = (Inr res, w')"
  shows "br_FilePath res = path_join [sv_backupDir s, final_name opts filename]
     \<and> (\<exists>data es m. file_or_gone (P (br_FilePath res)) data (files w') \<and> seals C (bo_Password opts) data (k_pack K es)
          \<and> wf_entries es \<and> carries n y es \<and> carries ''manifest.json'' (k_json K m) es
          \<and> mf_CreatedAt m = ce_now V \<and> n \<in> set (mf_Contents m) \<and> set (mf_Contents m) \<subseteq> set item_names)"
proof -
  let ?T = "P (ce_tempDir V)"
  obtain u1 w1 u2 w2 built w3 w6 where
    mk: "os_MkdirAll E (P (sv_backupDir s)) w = (Inr u1, w1)" and mt: "os_MkdirTemp E ?T w1 = (Inr u2, w2)"
    and bb0: "build_backup E K C V s opts filename w2 = (Inr built, w3)"
    and fin: "finish_backup E K C R V s opts built w3 = (Inr res, w6)" and w': "w' = snd (os_RemoveAll E ?T w6)"
    by (rule Create_steps [OF assms(15,6)])
  obtain ff fp m where built: "built = (ff, fp, m)" by (metis prod.exhaust)
  note bb = bb0 [unfolded built]
  obtain info w4 v w5 a where st: "os_Stat E (P fp) w3 = (Inr info, w4)"
    and ve: "Verify E K C (ce_verifyDir V) fp (bo_Password opts) w4 = (Inr v, w5)"
    and ret: "apply_retention E R s w5 = (a, w6)" and res: "br_FilePath res = fp"
    by (rule finish_backup_result [OF fin [unfolded built]])
  have ne: "?T \<noteq> P src" using assms(12) by auto
  have w2: "has_file (P src) y (files w2)" "plain_fs (files w2)"
    using keepsE [where I = "has_file (P src) y", OF has_file_os(2) [OF ne [symmetric]] mt]
      keepsE [where I = "has_file (P src) y", OF has_file_MkdirAll mk assms(11)]
      keepsE [where I = plain_fs, OF plain_os(3) [OF path_comps_plain [OF assms(3)]] mt]
      keepsE [where I = plain_fs, OF plain_os(1) [OF path_comps_plain [OF assms(5)]] mk assms(9)] by blast+
  from build_backup_carries [OF assms(1-3,5,7,8) w2(2) assms(10) w2(1) assms(12,13) bb]
  obtain data es where b: "ff = final_name opts filename" "fp = path_join [sv_backupDir s, ff]" "mf_CreatedAt m = ce_now V"
    "n \<in> set (mf_Contents m)" "set (mf_Contents m) \<subseteq> set item_names" "has_file (P fp) data (files w3)"
    "seals C (bo_Password opts) data (k_pack K es)" "wf_entries es" "carries n y es"
    "carries ''manifest.json'' (k_json K m) es" by blast
  have Pf: "P fp = P (sv_backupDir s) @ [final_name opts filename]" using P_join(1) [OF assms(5,8)] b(1,2) by simp
  have "has_file (P fp) data (files w4)" using os_eqs(1) [OF st] b(6) by simp
  moreover have "\<not> under (P (ce_verifyDir V)) (P fp)" using assms(14) Pf by simp
  moreover have "Verify E K C (ce_verifyDir V) (path_join [sv_backupDir s, final_name opts filename]) (bo_Password opts) w4
      = (Inr v, w5)" using ve b(1,2) by simp
  ultimately have "has_file (P fp) data (files w5)"
    using keepsE [where I = "has_file (P fp) data", OF Verify_keeps [OF assms(5,4,7,8)]] by blast
  then have "file_or_gone (P fp) data (files w6)"
    using keepsE [where I = "file_or_gone (P fp) data", OF apply_retention_gone ret] by blast
  then have "file_or_gone (P fp) data (files w')"
    using keepsD [where I = "file_or_gone (P fp) data", OF gone_os(2)] unfolding w' by blast
  with b res show ?thesis by auto
qed

end
