(* ===== verification/Backup_Restore.thy ===== *)
theory Backup_Restore
  imports Backup_Copy
begin

text \<open>
  What restoring does with an archive: the entries that are extracted, the items that are copied to
  their place, and why the directories among them are not.
\<close>

section \<open>Extracting an archive that was created\<close>

lemma P_join_rel:
  assumes "IsAbs d" and "list_all plain_comp rel" and "rel \<noteq> []"
  shows "P (path_join [d, join ''/'' rel]) = P d @ rel"
  using path_comps_path_join(1) [OF assms(1)] split_char_join_plain [OF assms(2,3)] reduce_comps_plain [OF assms(2)]
  by simp

lemma extract_entry_keeps [keep]:
  assumes "q \<noteq> P (path_join [d, te_Name h])"
  shows "keeps (has_file q c) (extract_entry E d k h st)"
  unfolding extract_entry_def Let_def
  by (auto intro!: keep assms split: typeflag.split)

lemma extract_entry_file:
  assumes "extract_entry E d k h st w = (Inr st', w')" and "te_Typeflag h = TypeReg" and "P (path_join [d, te_Name h]) \<noteq> []"
  shows "has_file (P (path_join [d, te_Name h])) (te_body h) (files w')"
proof -
  from assms(1,2) obtain w1 u where c: "io_Copy E (at_most (maxExtractSingleFile + 1) (te_body h)) (P (path_join [d, te_Name h])) w1 = (Inr u, w')"
    and n: "\<not> int (length (at_most (maxExtractSingleFile + 1) (te_body h))) \<ge> maxExtractSingleFile + 1"
    by (auto simp: extract_entry_def Let_def and_do_eq or_fail_eq return_eq fail_eq split: if_splits)
  from n have "at_most (maxExtractSingleFile + 1) (te_body h) = te_body h"
    by (auto simp: at_most_def maxExtractSingleFile_def split: if_splits)
  with io_Copy_file [OF c assms(3)] show ?thesis by simp
qed

lemma extract_loop_keeps [keep]:
  "\<forall>h \<in> set hs. q \<noteq> P (path_join [d, te_Name h]) \<Longrightarrow> keeps (has_file q c) (extract_loop E d k hs st)"
  by (induction hs arbitrary: st) (auto intro!: keep)

lemma extract_loop_append:
  "extract_loop E d k (as @ bs) st = and_do (extract_loop E d k as st) (extract_loop E d k bs)"
proof (induction as arbitrary: st)
  case (Cons a as)
  then show ?case by (auto simp: and_do_def split: prod.split sum.split)
qed (auto simp: and_do_def return_def)

lemma extract_loop_file:
  assumes "IsAbs d" and "wf_entries es" and "carries n c es" and "plain_comp n"
    and "extract_loop E d k es st w = (Inr st', w')"
  shows "has_file (P d @ [n]) c (files w')"
proof -
  obtain h where h: "h \<in> set es" "te_Name h = n" "te_Typeflag h = TypeReg" "te_body h = c"
    using assms(3) by (auto simp: carries_def)
  obtain pre post where es: "es = pre @ h # post" using split_list [OF h(1)] by blast
  have Pn: "P (path_join [d, te_Name h]) = P d @ [n]" using P_join(1) [OF assms(1,4)] h(2) by simp
  from assms(5) obtain s1 w1 s2 w2 where w: "extract_entry E d k h s1 w1 = (Inr s2, w2)"
    "extract_loop E d k post s2 w2 = (Inr st', w')"
    by (auto simp: es extract_loop_append and_do_eq)
  have "has_file (P d @ [n]) c (files w2)" using extract_entry_file [OF w(1) h(3)] Pn h(4) by simp
  moreover have "\<forall>h' \<in> set post. P d @ [n] \<noteq> P (path_join [d, te_Name h'])"
  proof
    fix h' assume h': "h' \<in> set post"
    then have "\<exists>rel. rel \<noteq> [] \<and> list_all plain_comp rel \<and> te_Name h' = join ''/'' rel"
      using assms(2) by (simp add: wf_entries_def es)
    then obtain rel where rel: "rel \<noteq> []" "list_all plain_comp rel" "te_Name h' = join ''/'' rel" by blast
    have "te_Name h \<notin> te_Name ` set post" using assms(2) by (simp add: wf_entries_def es)
    then have "te_Name h' \<noteq> n" using h' h(2) by (metis imageI)
    then have "rel \<noteq> [n]" using rel(3) by auto
    then show "P d @ [n] \<noteq> P (path_join [d, te_Name h'])"
      using P_join_rel [OF assms(1) rel(2,1)] rel(3) by simp
  qed
  ultimately show ?thesis
    using keepsE [where I = "has_file (P d @ [n]) c", OF extract_loop_keeps w(2)] by blast
qed

lemma extractArchive_file:
  assumes "IsAbs d" and "wf_entries es" and "carries n c es" and "plain_comp n"
    and "has_file (P a) data (files w)" and "k_unpack K data = Some (es, True)"
    and "extractArchive E K a d w = (Inr u, w')"
  shows "has_file (P d @ [n]) c (files w')"
proof -
  from assms(7) obtain data' w1 where r: "os_ReadFile E (P a) w = (Inr data', w1)"
    and k: "(let ratioCeiling = max (int64 (int (length data') * maxCompressionRatio)) maxExtractSingleFile
       in (case k_unpack K data' of
             None \<Rightarrow> fail Not_gzip
           | Some (es, complete) \<Rightarrow>
               and_do (extract_loop E d ratioCeiling es (0, 0)) (\<lambda>_.
                 if complete then return () else fail Bad_archive))) w1 = (Inr u, w')"
    unfolding extractArchive_def and_do_eq or_fail_eq by blast
  have "data' = data" using os_eqs(2) [OF r] assms(5) by simp
  with k assms(6) obtain kk st where "extract_loop E d kk es (0, 0) w1 = (Inr st, w')"
    by (auto simp: Let_def and_do_eq return_eq)
  from extract_loop_file [OF assms(1-4) this] show ?thesis .
qed

section \<open>Copying the items\<close>

text \<open>No item is restored into another one or into the temporary directory.\<close>

definition layout_ok :: "Service \<Rightarrow> string \<Rightarrow> bool" where
  "layout_ok s tmp \<longleftrightarrow> list_all (\<lambda>c. list_all (\<lambda>c'.
     case (restore_target s c, restore_target s c') of
       (Some t, Some t') \<Rightarrow> \<not> under (P tmp) (P t) \<and> (under (P t) (P t') \<longrightarrow> c = c')
     | _ \<Rightarrow> True) item_names) item_names"

lemma layout_okD:
  assumes "layout_ok s tmp" and "c \<in> set item_names" and "c' \<in> set item_names"
    and "restore_target s c = Some t" and "restore_target s c' = Some t'"
  shows "\<not> under (P tmp) (P t)" and "under (P t) (P t') \<Longrightarrow> c = c'"
proof -
  have "case (restore_target s c, restore_target s c') of
       (Some t, Some t') \<Rightarrow> \<not> under (P tmp) (P t) \<and> (under (P t) (P t') \<longrightarrow> c = c') | _ \<Rightarrow> True"
    using assms(1-3) unfolding layout_ok_def list_all_iff by blast
  then show "\<not> under (P tmp) (P t)" "under (P t) (P t') \<Longrightarrow> c = c'" by (simp_all add: assms(4,5))
qed

text \<open>A file can be put at \<open>d\<close>: the directories above it are there and no directory is in its place.\<close>

definition dst_ready :: "path \<Rightarrow> fs \<Rightarrow> bool" where
  "dst_ready d fs \<longleftrightarrow> d \<noteq> [] \<and> (\<forall>q. under q (butlast d) \<longrightarrow> look fs q = Some Dir_node) \<and> look fs d \<noteq> Some Dir_node"

lemma mkdirs_ready: "\<forall>r. under r (q @ cs) \<longrightarrow> look fs r = Some Dir_node \<Longrightarrow> mkdirs fs q cs = Some fs"
proof (induction cs arbitrary: q)
  case (Cons c cs)
  have "look fs (q @ [c]) = Some Dir_node" using Cons.prems by (auto simp: under_iff)
  with Cons.IH [of "q @ [c]"] Cons.prems show ?case by simp
qed simp

lemma ready_os [keep]:
  "\<not> under d p \<Longrightarrow> keeps (dst_ready d) (os_MkdirAll E p)"
  "\<not> under p (butlast d) \<Longrightarrow> keeps (dst_ready d) (os_Create E p)"
  "\<not> under p (butlast d) \<Longrightarrow> keeps (dst_ready d) (io_Copy E c p)"
  by (auto simp: os_MkdirAll_def os_Create_def io_Copy_def keeps_def Let_def sys_def dst_ready_def mkdirs_look
      split: option.splits if_splits sum.splits)

lemma under_butlast: "under p (butlast d) \<Longrightarrow> under p d"
  by (cases d rule: rev_cases) (auto simp: under_iff)

lemma not_under_butlast:
  assumes "p \<noteq> []"
  shows "\<not> under p (butlast p)"
proof
  assume "under p (butlast p)"
  then have "length (take (length p) (butlast p)) = length p" by (simp only: under_def)
  moreover have "length (take (length p) (butlast p)) \<le> length p - 1" by simp
  ultimately show False using assms by (cases p) simp_all
qed

lemma copyFile_ready [keep]:
  "\<not> under d (butlast p) \<Longrightarrow> \<not> under p (butlast d) \<Longrightarrow> keeps (dst_ready d) (copyFile E src p)"
  by (auto simp: copyFile_def intro!: keep split: node.split)

lemma quiet_sys:
  "quiet E \<Longrightarrow> sys E f w = (case f (files w) of Inl e \<Rightarrow> (Inl e, w\<lparr>calls := Suc (calls w)\<rparr>)
     | Inr (a, fs) \<Rightarrow> (Inr a, w\<lparr>calls := Suc (calls w), files := fs\<rparr>))"
  by (simp add: quiet_def sys_def Let_def)

lemma quiet_MkdirAll_ready:
  assumes "quiet E" and "dst_ready d (files w)"
  shows "os_MkdirAll E (butlast d) w = (Inr (), w\<lparr>calls := Suc (calls w)\<rparr>)"
proof -
  have "mkdirs (files w) [] (butlast d) = Some (files w)"
    using assms(2) by (intro mkdirs_ready) (simp add: dst_ready_def)
  with assms(1) show ?thesis by (simp add: os_MkdirAll_def quiet_sys)
qed

lemma copyFile_succeeds:
  assumes "quiet E" and "has_file src y (files w)" and "dst_ready d (files w)" and "src \<noteq> d"
  shows "\<exists>w'. copyFile E src d w = (Inr (), w') \<and> has_file d y (files w')"
proof -
  let ?w = "\<lambda>n. w\<lparr>calls := n\<rparr>"
  have "os_Stat E src w = (Inr (File_node y), ?w (Suc (calls w)))" using assms(1,2) by (simp add: quiet_Stat)
  moreover have "os_MkdirAll E (butlast d) (?w (Suc (calls w))) = (Inr (), ?w (Suc (Suc (calls w))))"
    using quiet_MkdirAll_ready [of E d "?w (Suc (calls w))"] assms(1,3) by simp
  moreover have "look (files w) d \<noteq> Some Dir_node" "look (files w) (butlast d) = Some Dir_node" "d \<noteq> []"
    using assms(3) by (auto simp: dst_ready_def)
  ultimately show ?thesis
    using assms(1,2,4) by (simp add: copyFile_def and_do_def os_Create_def io_Copy_def quiet_sys quiet_Stat
        quiet_def Let_def return_def)
qed

lemma item_targets:
  assumes "c \<in> set item_names"
  shows "\<exists>t. restore_target s c = Some t"
proof -
  have "list_all (\<lambda>c. restore_target s c \<noteq> None) item_names"
    by (simp add: item_names_def restore_target_def)
  with assms show ?thesis by (auto simp: list_all_iff)
qed

lemma restore_item_keeps:
  assumes "restore_target s c = Some t" and "q \<noteq> P t"
  shows "keeps (has_file q y) (restore_item E s x c n)"
  using assms by (auto simp: restore_item_def Let_def intro!: keep split: sum.split)

lemma restore_item_ready:
  assumes "restore_target s c = Some t" and "\<not> under d (butlast (P t))" and "\<not> under (P t) (butlast d)"
  shows "keeps (dst_ready d) (restore_item E s x c n)"
  using assms by (auto simp: restore_item_def Let_def intro!: keep split: sum.split)

lemma restore_item_file:
  assumes "quiet E" and "restore_target s c = Some t" and "has_file (P (path_join [x, c])) y (files w)"
    and "dst_ready (P t) (files w)" and "P (path_join [x, c]) \<noteq> P t" and "restore_item E s x c n w = (Inr m, w')"
  shows "has_file (P t) y (files w')"
proof -
  let ?w1 = "w\<lparr>calls := Suc (calls w)\<rparr>" and ?w2 = "w\<lparr>calls := Suc (Suc (calls w))\<rparr>"
  have "os_Stat E (P (path_join [x, c])) w = (Inr (File_node y), ?w1)" using assms(1,3) by (simp add: quiet_Stat)
  moreover have "os_MkdirAll E (butlast (P t)) ?w1 = (Inr (), ?w2)"
    using quiet_MkdirAll_ready [of E "P t" ?w1] assms(1,4) by simp
  moreover obtain w3 where "copyFile E (P (path_join [x, c])) (P t) ?w2 = (Inr (), w3)" "has_file (P t) y (files w3)"
    using copyFile_succeeds [where w = ?w2 and d = "P t" and y = y, OF assms(1)] assms(3-5) by auto
  ultimately show ?thesis
    using assms(6) by (simp add: restore_item_def assms(2) Let_def on_result_def return_def)
qed

lemma layout_ready:
  assumes "layout_ok s tmp" and "c \<in> set item_names" and "n \<in> set item_names"
    and "restore_target s c = Some tc" and "restore_target s n = Some t" and "P t \<noteq> []"
  shows "\<not> under (P t) (butlast (P tc))" and "\<not> under (P tc) (butlast (P t))"
proof -
  have "c = n" if "under (P t) (P tc) \<or> under (P tc) (P t)"
    using that layout_okD(2) [OF assms(1,2,3,4,5)] layout_okD(2) [OF assms(1,3,2,5,4)] by blast
  then show "\<not> under (P t) (butlast (P tc))" "\<not> under (P tc) (butlast (P t))"
    using assms(4-6) under_butlast not_under_butlast by (metis option.inject)+
qed

lemma restore_items_file:
  assumes "quiet E" and "layout_ok s tmp" and "n \<in> set item_names" and "restore_target s n = Some t"
    and "under (P tmp) (P (path_join [x, n]))"
  shows "set cs \<subseteq> set item_names \<Longrightarrow> has_file (P (path_join [x, n])) y (files w) \<Longrightarrow>
     n \<in> set cs \<or> has_file (P t) y (files w) \<Longrightarrow> dst_ready (P t) (files w) \<Longrightarrow>
     restore_items E s x cs k w = (Inr k', w') \<Longrightarrow> has_file (P t) y (files w')"
proof (induction cs arbitrary: k w)
  case (Cons c cs)
  from Cons.prems(5) obtain k1 w1 where c1: "restore_item E s x c k w = (Inr k1, w1)"
    "restore_items E s x cs k1 w1 = (Inr k', w')" by (auto simp: and_do_eq)
  have cn: "c \<in> set item_names" using Cons.prems(1) by simp
  obtain tc where tc: "restore_target s c = Some tc" using item_targets [OF cn] by blast
  have out: "P (path_join [x, n]) \<noteq> P tc" using layout_okD(1) [OF assms(2) cn cn tc tc] assms(5) by auto
  have src: "has_file (P (path_join [x, n])) y (files w1)"
    by (rule keepsE [where I = "has_file (P (path_join [x, n])) y", OF restore_item_keeps [OF tc out] c1(1) Cons.prems(2)])
  have "P t \<noteq> []" using Cons.prems(4) by (simp add: dst_ready_def)
  note lay = layout_ready [OF assms(2) cn assms(3) tc assms(4) this]
  have ready: "dst_ready (P t) (files w1)"
    by (rule keepsE [where I = "dst_ready (P t)", OF restore_item_ready [OF tc lay] c1(1) Cons.prems(4)])
  have "n \<in> set cs \<or> has_file (P t) y (files w1)"
  proof (cases "c = n")
    case True
    then show ?thesis using restore_item_file [OF assms(1,4) Cons.prems(2,4)] out c1(1) tc assms(4) by simp
  next
    case False
    then have "P t \<noteq> P tc" using layout_okD(2) [OF assms(2) cn assms(3) tc assms(4)] by auto
    then show ?thesis
      using Cons.prems(3) False keepsE [where I = "has_file (P t) y", OF restore_item_keeps [OF tc] c1(1)] by auto
  qed
  with Cons.IH [OF _ src _ ready c1(2)] Cons.prems(1) show ?case by simp
qed (simp add: return_eq)

section \<open>Restoring an archive that was created\<close>

text \<open>Neither path is below the other.\<close>

definition apart :: "path \<Rightarrow> path \<Rightarrow> bool" where
  "apart d p \<longleftrightarrow> \<not> under d p \<and> \<not> under p d"

lemma apart_below: "apart d p \<Longrightarrow> apart d (p @ r)"
  using prefix_of_inside [of d p r] under_trans [of p "p @ r" d] by (auto simp: apart_def)

lemma apart_butlast: "apart d p \<Longrightarrow> \<not> under p (butlast d) \<and> \<not> under d (butlast p) \<and> \<not> under d p"
  using under_butlast by (auto simp: apart_def)

lemma apart_ready [keep]:
  "apart d p \<Longrightarrow> keeps (dst_ready d) (os_MkdirAll E p)" "apart d p \<Longrightarrow> keeps (dst_ready d) (os_MkdirAll E (butlast p))"
  "apart d p \<Longrightarrow> keeps (dst_ready d) (os_Create E p)" "apart d p \<Longrightarrow> keeps (dst_ready d) (io_Copy E c p)"
  "apart d p \<Longrightarrow> keeps (dst_ready d) (os_WriteFile E p c)"
  using apart_butlast [of d p] by (auto simp: os_WriteFile_def intro!: keep)

lemma apart_MkdirTemp [keep]: "apart d p \<Longrightarrow> keeps (dst_ready d) (os_MkdirTemp E p)"
  by (auto simp: os_MkdirTemp_def apart_def dst_ready_def intro!: keeps_sys split: if_splits)

lemma apart_RemoveAll [keep]:
  assumes "apart d p"
  shows "keeps (dst_ready d) (os_RemoveAll E p)"
  unfolding os_RemoveAll_def
proof (rule keeps_sys)
  fix fs a fs'
  assume "Inr ((), drop_tree fs p) = (Inr (a, fs') :: os_error + unit \<times> fs)" and r: "dst_ready d fs"
  then have fs': "fs' = drop_tree fs p" by simp
  have same: "look fs' q = look fs q" if "\<not> under p q" for q using that by (simp add: fs' look_drop_tree)
  show "dst_ready d fs'"
    unfolding dst_ready_def
  proof (intro conjI allI impI)
    show "d \<noteq> []" using r unfolding dst_ready_def by (rule conjunct1)
    have "look fs d \<noteq> Some Dir_node" "\<not> under p d" using r assms unfolding dst_ready_def apart_def by blast+
    then show "look fs' d \<noteq> Some Dir_node" using same by simp
    fix q assume q: "under q (butlast d)"
    then have "\<not> under p q" "look fs q = Some Dir_node"
      using assms under_trans [of p q d] under_butlast [OF q] r unfolding dst_ready_def apart_def by blast+
    then show "look fs' q = Some Dir_node" using same by simp
  qed
qed

lemma extract_loop_ready [keep]:
  assumes "IsAbs x" and "apart d (P x)"
  shows "keeps (dst_ready d) (extract_loop E x k hs st)"
proof (induction hs arbitrary: st)
  case (Cons h hs)
  have "keeps (dst_ready d) (extract_entry E x k h st)"
  proof (cases "inside x (path_join [x, te_Name h])")
    case True
    then obtain r where r: "P (path_join [x, te_Name h]) = P x @ r" using inside_under [OF assms(1)] by blast
    note a = apart_below [OF assms(2), of r]
    show ?thesis by (auto simp: extract_entry_def Let_def r intro!: keep a split: typeflag.split)
  qed (auto simp: extract_entry_def Let_def intro!: keep)
  with Cons show ?case by (auto intro!: keep)
qed (auto intro!: keep)

lemma verify_loop_ready [keep]:
  assumes "IsAbs x" and "apart d (P x)"
  shows "keeps (dst_ready d) (verify_loop E x hs n)"
proof (induction hs arbitrary: n)
  case (Cons h hs)
  have "keeps (dst_ready d) (verify_entry E x h n)"
  proof (cases "inside x (path_join [x, te_Name h])")
    case True
    then obtain r where r: "P (path_join [x, te_Name h]) = P x @ r" using inside_under [OF assms(1)] by blast
    note a = apart_below [OF assms(2), of r]
    show ?thesis by (auto simp: verify_entry_def Let_def r intro!: keep a split: typeflag.split)
  qed (auto simp: verify_entry_def Let_def intro!: keep)
  with Cons show ?case by (auto intro!: keep)
qed (auto intro!: keep)

lemma extractArchive_keeps:
  assumes "IsAbs x"
  shows "apart d (P x) \<Longrightarrow> keeps (dst_ready d) (extractArchive E K a x)"
  using assms by (auto simp: extractArchive_def Let_def intro!: keep split: option.split)

lemma verify_content_ready [keep]:
  "IsAbs x \<Longrightarrow> apart d (P x) \<Longrightarrow> keeps (dst_ready d) (verify_content E K C a x)"
  by (auto simp: verify_content_def verifyAndExtractArchive_def intro!: keep
      split: option.split sum.split node.split)

lemma DecryptFile_ready:
  assumes "IsAbs d" and "IsAbs v" and "plain_comp (x @ ''.enc'')" and "plain_comp x" and "apart q (P v)"
  shows "keeps (dst_ready q) (DecryptFile E C (path_join [d, x @ ''.enc'']) pw v)"
proof -
  have b: "(if length b > 4 \<and> drop (length b - 4) b = ''.enc'' then take (length b - 4) b else b) = x"
    if "b = x @ ''.enc''" for b
    using that assms(4) by (intro decrypted_base) (auto simp: plain_comp_def)
  have a: "apart q (P (path_join [v, x]))" using apart_below [OF assms(5)] P_join(1) [OF assms(2,4)] by simp
  show ?thesis
    unfolding DecryptFile_def Base_join [OF assms(1,3)] Let_def b [OF refl]
    by (auto intro!: keep a split: sum.split)
qed

lemma DecryptFile_result:
  assumes "IsAbs d" and "IsAbs v" and "plain_comp (x @ ''.enc'')" and "plain_comp x"
    and "has_file (P (path_join [d, x @ ''.enc''])) data (files w)" and "DecryptData C data pw = Inr plain"
    and "DecryptFile E C (path_join [d, x @ ''.enc'']) pw v w = (Inr out, w')"
  shows "P out = P v @ [x] \<and> has_file (P out) plain (files w')"
proof -
  have b: "(if length b > 4 \<and> drop (length b - 4) b = ''.enc'' then take (length b - 4) b else b) = x"
    if "b = x @ ''.enc''" for b
    using that assms(4) by (intro decrypted_base) (auto simp: plain_comp_def)
  from assms(7) obtain data' w1 where r: "os_ReadFile E (P (path_join [d, x @ ''.enc''])) w = (Inr data', w1)"
    and k: "(case DecryptData C data' pw of Inl e \<Rightarrow> fail (Backup_crypt e)
      | Inr plaintext \<Rightarrow> and_do (or_fail (os_WriteFile E (P (path_join [v, x])) plaintext) Backup_os)
                          (\<lambda>_. return (path_join [v, x]))) w1 = (Inr out, w')"
    unfolding DecryptFile_def Base_join [OF assms(1,3)] Let_def b [OF refl] and_do_eq or_fail_eq by blast
  have d: "DecryptData C data' pw = Inr plain" using os_eqs(2) [OF r] assms(5,6) by simp
  obtain u where "os_WriteFile E (P (path_join [v, x])) plain w1 = (Inr u, w')" "out = path_join [v, x]"
    using k unfolding d sum.case and_do_eq or_fail_eq return_eq by blast
  with os_WriteFile_file P_join(1) [OF assms(2,4)] show ?thesis by simp
qed

lemma Verify_ready:
  assumes "IsAbs d" and "IsAbs v" and "plain_comp (f @ ''.tar.gz'')" and "plain_comp (final_name opts f)" and "apart q (P v)"
  shows "keeps (dst_ready q) (Verify E K C v (path_join [d, final_name opts f]) pw)"
proof -
  have px: "plain_comp ''extracted''" by code_simp
  have ext: "IsAbs (path_join [v, ''extracted''])" "apart q (P (path_join [v, ''extracted'']))"
    using P_join [OF assms(2) px] apart_below [OF assms(5)] by auto
  have dec: "keeps (dst_ready q) (DecryptFile E C (path_join [d, final_name opts f]) pw v)"
    if "has_suffix (path_join [d, final_name opts f]) ''.enc''"
  proof -
    have "final_name opts f = (f @ ''.tar.gz'') @ ''.enc''"
      using that final_name_suffix [OF assms(1,4)] by (simp add: final_name_def)
    then show ?thesis using DecryptFile_ready [OF assms(1,2) _ assms(3,5)] assms(4) by simp
  qed
  show ?thesis
    unfolding Verify_def
    by (auto intro!: keep ext dec assms(5) split: sum.split)
qed

lemma LoadManifest_result:
  assumes "has_file p c (files w)" and "LoadManifest E K p w = (Inr m, w')"
  shows "k_unjson K c = Some m \<and> files w' = files w"
proof -
  from assms(2) obtain c' w1 where r: "os_ReadFile E p w = (Inr c', w1)"
    and k: "(case k_unjson K c' of None \<Rightarrow> fail Bad_json | Some m \<Rightarrow> return m) w1 = (Inr m, w')"
    unfolding LoadManifest_def and_do_eq or_fail_eq by blast
  have "c' = c" "files w1 = files w" using os_eqs(2) [OF r] assms(1) by auto
  with k show ?thesis by (auto simp: return_eq fail_eq split: option.splits)
qed

lemma restore_archive_steps:
  assumes "restore_archive E K C V s b opts a w = (Inr r, w')" and "\<not> ro_DryRun opts"
  obtains u1 w1 u2 w2 m w3 n where
    "(if ro_SkipVerify opts then return () else and_do (Verify E K C (xe_verifyDir V) b (ro_Password opts)) (\<lambda>_. return ())) w
       = (Inr u1, w1)"
    "extractArchive E K a (path_join [xe_tempDir V, ''extracted'']) w1 = (Inr u2, w2)"
    "LoadManifest E K (P (path_join [path_join [xe_tempDir V, ''extracted''], ''manifest.json''])) w2 = (Inr m, w3)"
    "restore_items E s (path_join [xe_tempDir V, ''extracted'']) (mf_Contents m) 0 w3 = (Inr n, w')"
  using assms unfolding restore_archive_def Let_def if_not_P [OF assms(2)] and_do_eq return_eq by blast

lemma restore_archive_file:
  assumes "quiet E" and "IsAbs (xe_tempDir V)" and "IsAbs (xe_verifyDir V)" and "IsAbs bd"
    and "plain_comp (f @ ''.tar.gz'')" and "plain_comp (final_name bopts f)"
    and "has_file (P a) data (files w)" and "k_unpack K data = Some (es, True)"
    and "\<not> under (P (xe_verifyDir V)) (P a)" and "wf_entries es" and "carries n y es" and "carries ''manifest.json'' js es"
    and "k_unjson K js = Some m" and "n \<in> set (mf_Contents m)" and "set (mf_Contents m) \<subseteq> set item_names"
    and "plain_comp n" and "n \<in> set item_names"
    and "layout_ok s (xe_tempDir V)" and "restore_target s n = Some t" and "dst_ready (P t) (files w)"
    and "apart (P t) (P (xe_tempDir V))" and "apart (P t) (P (xe_verifyDir V))"
    and "\<not> ro_DryRun opts" and "restore_archive E K C V s (path_join [bd, final_name bopts f]) opts a w = (Inr r, w')"
  shows "has_file (P t) y (files w')"
proof -
  let ?T = "xe_tempDir V" and ?x = "path_join [xe_tempDir V, ''extracted'']"
  have px: "plain_comp ''extracted''" "plain_comp ''manifest.json''" by code_simp+
  note X = P_join [OF assms(2) px(1)]
  note N = P_join(1) [OF X(2) assms(16)] and M = P_join(1) [OF X(2) px(2)]
  obtain u1 w1 u2 w2 m' w3 k where
    ve: "(if ro_SkipVerify opts then return () else and_do (Verify E K C (xe_verifyDir V) (path_join [bd, final_name bopts f])
         (ro_Password opts)) (\<lambda>_. return ())) w = (Inr u1, w1)"
    and ex: "extractArchive E K a ?x w1 = (Inr u2, w2)"
    and lm: "LoadManifest E K (P (path_join [?x, ''manifest.json''])) w2 = (Inr m', w3)"
    and ri: "restore_items E s ?x (mf_Contents m') 0 w3 = (Inr k, w')"
    by (rule restore_archive_steps [OF assms(24,23)])
  have vk: "keeps (has_file (P a) data) (if ro_SkipVerify opts then return () else and_do (Verify E K C (xe_verifyDir V)
      (path_join [bd, final_name bopts f]) (ro_Password opts)) (\<lambda>_. return ()))"
    by (auto intro!: keep Verify_keeps [OF assms(4,3,5,6,9)])
  have vr: "keeps (dst_ready (P t)) (if ro_SkipVerify opts then return () else and_do (Verify E K C (xe_verifyDir V)
      (path_join [bd, final_name bopts f]) (ro_Password opts)) (\<lambda>_. return ()))"
    by (auto intro!: keep Verify_ready [OF assms(4,3,5,6,22)])
  have a1: "has_file (P a) data (files w1)" by (rule keepsE [where I = "has_file (P a) data", OF vk ve assms(7)])
  have r1: "dst_ready (P t) (files w1)" by (rule keepsE [where I = "dst_ready (P t)", OF vr ve assms(20)])
  have "apart (P t) (P ?x)" using apart_below [OF assms(21)] X(1) by simp
  then have r2: "dst_ready (P t) (files w2)"
    using keepsE [where I = "dst_ready (P t)", OF extractArchive_keeps [OF X(2)] ex r1] by blast
  have n2: "has_file (P (path_join [?x, n])) y (files w2)"
    using extractArchive_file [OF X(2) assms(10,11,16) a1 assms(8) ex] by (simp only: N)
  have "has_file (P (path_join [?x, ''manifest.json''])) js (files w2)"
    using extractArchive_file [OF X(2) assms(10,12) px(2) a1 assms(8) ex] by (simp only: M)
  from LoadManifest_result [OF this lm] assms(13) have m': "m' = m" "files w3 = files w2" by auto
  have "under (P ?T) (P (path_join [?x, n]))" by (simp only: N X(1)) (simp add: under_def)
  from restore_items_file [where y = y and w = w3, OF assms(1,18,17,19) this] ri m' n2 r2 assms(14,15)
  show ?thesis by simp
qed

lemma Restore_file:
  assumes "quiet E" and "IsAbs (xe_tempDir V)" and "IsAbs (xe_verifyDir V)" and "IsAbs bd"
    and "plain_comp (f @ ''.tar.gz'')" and "plain_comp (final_name bopts f)" and "ro_Password opts = bo_Password bopts"
    and "has_file (P (path_join [bd, final_name bopts f])) data (files w)"
    and "seals C (bo_Password bopts) data (k_pack K es)" and "k_unpack K (k_pack K es) = Some (es, True)"
    and "apart (P (xe_verifyDir V)) (P (xe_tempDir V))"
    and "\<not> under (P (xe_verifyDir V)) (P (path_join [bd, final_name bopts f]))"
    and "\<not> under (P (xe_tempDir V)) (P (path_join [bd, final_name bopts f]))"
    and "wf_entries es" and "carries n y es" and "carries ''manifest.json'' js es"
    and "k_unjson K js = Some m" and "n \<in> set (mf_Contents m)" and "set (mf_Contents m) \<subseteq> set item_names"
    and "plain_comp n" and "n \<in> set item_names"
    and "layout_ok s (xe_tempDir V)" and "restore_target s n = Some t" and "dst_ready (P t) (files w)"
    and "apart (P t) (P (xe_tempDir V))" and "apart (P t) (P (xe_verifyDir V))"
    and "\<not> ro_DryRun opts" and "Restore E K C V s (path_join [bd, final_name bopts f]) opts w = (Inr r, w')"
  shows "has_file (P t) y (files w')"
proof -
  let ?b = "path_join [bd, final_name bopts f]" and ?T = "xe_tempDir V"
  let ?enc = "has_suffix ?b ''.enc''"
  have suf: "?enc \<longleftrightarrow> bo_Password bopts \<noteq> []" by (rule final_name_suffix [OF assms(4,6)])
  let ?w1 = "w\<lparr>calls := Suc (calls w)\<rparr>"
  have "os_Stat E (P ?b) w = (Inr (File_node data), ?w1)" using assms(1,8) by (simp add: quiet_Stat)
  with assms(28) have "and_do (or_fail (os_MkdirTemp E (P ?T)) Backup_os) (\<lambda>_.
         deferred (and_do (if ?enc then DecryptFile E C ?b (ro_Password opts) ?T else return ?b)
             (restore_archive E K C V s ?b opts)) (os_RemoveAll E (P ?T))) ?w1 = (Inr r, w')"
    using suf assms(7) by (simp add: Restore_def on_result_def)
  then obtain u w2 a w3 w4 where mt: "os_MkdirTemp E (P ?T) ?w1 = (Inr u, w2)"
    and de: "(if ?enc then DecryptFile E C ?b (ro_Password opts) ?T else return ?b) w2 = (Inr a, w3)"
    and ra: "restore_archive E K C V s ?b opts a w3 = (Inr r, w4)" and w': "w' = snd (os_RemoveAll E (P ?T) w4)"
    unfolding and_do_eq or_fail_eq deferred_eq by blast
  have "P ?b \<noteq> P ?T" using assms(13) by auto
  then have f2: "has_file (P ?b) data (files w2)"
    using keepsE [where I = "has_file (P ?b) data", OF has_file_os(2) mt] assms(8) by simp
  have d2: "dst_ready (P t) (files w2)"
    using keepsE [where I = "dst_ready (P t)", OF apart_MkdirTemp [OF assms(25)] mt] assms(24) by simp
  have "has_file (P a) (k_pack K es) (files w3) \<and> dst_ready (P t) (files w3) \<and> \<not> under (P (xe_verifyDir V)) (P a)"
  proof (cases "bo_Password bopts = []")
    case True
    then show ?thesis using de suf f2 d2 assms(9,12) by (simp add: return_eq seals_def)
  next
    case False
    have fn: "final_name bopts f = (f @ ''.tar.gz'') @ ''.enc''" using False by (simp add: final_name_def)
    have de': "DecryptFile E C (path_join [bd, (f @ ''.tar.gz'') @ ''.enc'']) (bo_Password bopts) ?T w2 = (Inr a, w3)"
      using de suf False assms(7) unfolding fn by simp
    have pf: "plain_comp ((f @ ''.tar.gz'') @ ''.enc'')" using assms(6) unfolding fn .
    have "DecryptData C data (bo_Password bopts) = Inr (k_pack K es)" using assms(9) False by (simp add: seals_def)
    from DecryptFile_result [OF assms(4,2) pf assms(5) f2 [unfolded fn] this de']
    have a: "P a = P ?T @ [f @ ''.tar.gz'']" "has_file (P a) (k_pack K es) (files w3)" by auto
    moreover have "dst_ready (P t) (files w3)"
      by (rule keepsE [where I = "dst_ready (P t)", OF DecryptFile_ready [OF assms(4,2) pf assms(5,25)] de' d2])
    moreover have "\<not> under (P (xe_verifyDir V)) (P a)"
      using apart_below [OF assms(11)] a(1) by (simp add: apart_def)
    ultimately show ?thesis by blast
  qed
  then have w4: "has_file (P t) y (files w4)"
    using restore_archive_file [OF assms(1-6) _ assms(10) _ assms(14-23) _ assms(25-27) ra] by blast
  have "\<not> under (P ?T) (P t)" using assms(25) by (simp add: apart_def)
  then show ?thesis
    using keepsD [where I = "has_file (P t) y", OF has_file_os(5) w4] unfolding w' by blast
qed

end
