(* ===== verification/Sample_Codec.thy ===== *)
theory Sample_Codec
  imports Backups
begin

text \<open>
  Concrete codecs and ciphers with the documented laws, for the examples: archives and manifests are
  written as fields, dots and dashes after a dash and each field ended by a dot.
\<close>

definition enc_char :: "char \<Rightarrow> string" where
  "enc_char c = (if c = CHR ''.'' \<or> c = CHR ''-'' then [CHR ''-'', c] else [c])"

definition enc_field :: "string \<Rightarrow> string" where
  "enc_field f = concat (map enc_char f) @ ''.''"

definition enc_fields :: "string list \<Rightarrow> string" where
  "enc_fields fs = concat (map enc_field fs)"

fun dec_from :: "string \<Rightarrow> string \<Rightarrow> string list option" where
  "dec_from cur [] = (if cur = [] then Some [] else None)"
| "dec_from cur (x # r) =
     (if x = CHR ''.'' then map_option ((#) (rev cur)) (dec_from [] r)
      else if x = CHR ''-'' then (case r of [] \<Rightarrow> None | c # r' \<Rightarrow> dec_from (c # cur) r')
      else dec_from (x # cur) r)"

definition dec_fields :: "string \<Rightarrow> string list option" where
  "dec_fields s = dec_from [] s"

lemma dec_from_field: "dec_from cur (enc_field f @ r) = map_option ((#) (rev cur @ f)) (dec_from [] r)"
  by (induction f arbitrary: cur) (simp_all add: enc_field_def enc_char_def)

lemma dec_enc_fields: "dec_fields (enc_fields fs) = Some fs"
  by (induction fs) (simp_all add: dec_fields_def enc_fields_def dec_from_field)

definition entry_fields :: "tar_entry \<Rightarrow> string list" where
  "entry_fields h = [case te_Typeflag h of TypeReg \<Rightarrow> ''f'' | TypeDir \<Rightarrow> ''d'' | Type_other n \<Rightarrow> ''o'', te_Name h, te_body h]"

fun entries_of :: "string list \<Rightarrow> tar_entry list option" where
  "entries_of [] = Some []"
| "entries_of (k # n # b # rest) =
     map_option (\<lambda>es. \<lparr>te_Name = n, te_Typeflag = (if k = ''f'' then TypeReg else if k = ''d'' then TypeDir else Type_other 0),
       te_Size = int (length b), te_body = b\<rparr> # es) (entries_of rest)"
| "entries_of _ = None"

definition sample_pack :: "tar_entry list \<Rightarrow> string" where
  "sample_pack es = enc_fields (''tar'' # concat (map entry_fields es))"

definition sample_unpack :: "string \<Rightarrow> (tar_entry list \<times> bool) option" where
  "sample_unpack s =
     (case dec_fields s of
        Some (k # fs) \<Rightarrow> if k = ''tar'' then map_option (\<lambda>es. (es, True)) (entries_of fs) else None
      | _ \<Rightarrow> None)"

lemma entries_of_fields:
  "list_all written_entry es \<Longrightarrow> entries_of (concat (map entry_fields es)) = Some es"
proof (induction es)
  case (Cons h es)
  then show ?case by (cases h) (auto simp: entry_fields_def written_entry_def)
qed simp

lemma sample_unpack_pack: "list_all written_entry es \<Longrightarrow> sample_unpack (sample_pack es) = Some (es, True)"
  by (simp add: sample_unpack_def sample_pack_def dec_enc_fields entries_of_fields)

definition sample_json :: "Manifest \<Rightarrow> string" where
  "sample_json m = enc_fields ([mf_Version m, show_int (mf_CreatedAt m), mf_CreatedBy m, mf_AppVersion m,
     if mf_Encrypted m then ''t'' else ''f'', mf_Checksum m] @ mf_Contents m)"

definition sample_unjson :: "string \<Rightarrow> Manifest option" where
  "sample_unjson s =
     (case dec_fields s of
        Some (v # t # b # a # e # c # contents) \<Rightarrow>
          (case parse_int t of
             Inl _ \<Rightarrow> None
           | Inr now \<Rightarrow> Some \<lparr>mf_Version = v, mf_CreatedAt = now, mf_CreatedBy = b, mf_AppVersion = a,
               mf_Contents = contents, mf_Encrypted = (e = ''t''), mf_Checksum = c\<rparr>)
      | _ \<Rightarrow> None)"

lemma sample_unjson_json: "in_int64 (mf_CreatedAt m) \<Longrightarrow> sample_unjson (sample_json m) = Some m"
  by (simp add: sample_unjson_def sample_json_def dec_enc_fields parse_int_show_int)

definition sample_codecs :: codecs where
  "sample_codecs = \<lparr>k_pack = sample_pack, k_unpack = sample_unpack, k_json = sample_json,
     k_unjson = sample_unjson, k_intact = (\<lambda>c. c \<noteq> ''broken'')\<rparr>"

definition sample_ciphers :: ciphers where
  "sample_ciphers = \<lparr>c_argon = (\<lambda>p s. p @ s), c_seal = (\<lambda>k n p. k @ n @ p),
     c_open = (\<lambda>k n c. if has_prefix c (k @ n) then Some (drop (length (k @ n)) c) else None), c_sha256 = take 1\<rparr>"

lemma sample_opens: "opens_sealed sample_ciphers"
  by (simp add: opens_sealed_def sample_ciphers_def has_prefix_def)

definition no_faults :: faults where
  "no_faults = \<lparr>io_fails = (\<lambda>n. False), io_written = (\<lambda>n. 0)\<rparr>"

end
