(* ===== verification/Backup_Laws.thy ===== *)
theory Backup_Laws
  imports Backup_Restore Sample_Codec
begin

text \<open>
  What backups promise: extraction stays in its directory and within its limits, which the
  verification before it does not have; what was staged as a file comes back, and what was staged as a
  directory does not.
\<close>

section \<open>Extraction\<close>


lemma and_do_Inr: "fst (and_do m k w) = Inr b \<longleftrightarrow> (\<exists>a w'. m w = (Inr a, w') \<and> fst (k a w') = Inr b)"
  by (auto simp: and_do_def split: prod.split sum.split)

lemma or_fail_Inr: "fst (or_fail m f w) = Inr b \<longleftrightarrow> fst (m w) = Inr b"
  by (auto simp: or_fail_def split: prod.split sum.split)

definition reg_bytes :: "tar_entry \<Rightarrow> int" where
  "reg_bytes h = (if te_Typeflag h = TypeReg then int (length (te_body h)) else 0)"

lemma extract_entry_Inr:
  assumes "fst (extract_entry E d k h st w) = Inr st'"
  shows "fst st' = fst st + 1 \<and> fst st' \<le> maxExtractFiles \<and> snd st' = snd st + reg_bytes h
     \<and> reg_bytes h \<le> maxExtractSingleFile
     \<and> (te_Typeflag h = TypeReg \<longrightarrow> snd st' \<le> maxExtractTotalSize \<and> snd st' \<le> k)
     \<and> te_Typeflag h \<in> {TypeReg, TypeDir} \<and> te_Name h \<noteq> [] \<and> \<not> contains_str (te_Name h) ''..''"
proof -
  have lim: "nat (maxExtractSingleFile + 1) = 4294967297" by (simp add: maxExtractSingleFile_def)
  show ?thesis
    using assms
    by (cases "te_Typeflag h")
      (auto simp: extract_entry_def Let_def and_do_Inr return_def fail_def reg_bytes_def lim
        maxExtractSingleFile_def at_most_def split: if_splits)
qed

lemma extract_loop_Inr:
  "fst (extract_loop E d k es st w) = Inr st' \<Longrightarrow> 0 \<le> snd st \<Longrightarrow> snd st \<le> maxExtractTotalSize \<Longrightarrow> snd st \<le> k \<Longrightarrow>
   0 \<le> fst st \<Longrightarrow> fst st \<le> maxExtractFiles \<Longrightarrow>
     fst st' = fst st + int (length es) \<and> fst st' \<le> maxExtractFiles \<and> snd st' = snd st + sum_list (map reg_bytes es)
   \<and> snd st' \<le> maxExtractTotalSize \<and> snd st' \<le> k
   \<and> (\<forall>h \<in> set es. reg_bytes h \<le> maxExtractSingleFile \<and> te_Typeflag h \<in> {TypeReg, TypeDir}
        \<and> te_Name h \<noteq> [] \<and> \<not> contains_str (te_Name h) ''..'')"
proof (induction es arbitrary: st w)
  case (Cons h es)
  from Cons.prems(1) obtain s1 w1 where s1: "extract_entry E d k h st w = (Inr s1, w1)"
    "fst (extract_loop E d k es s1 w1) = Inr st'" by (auto simp: and_do_Inr)
  then have "fst (extract_entry E d k h st w) = Inr s1" by simp
  from extract_entry_Inr [OF this] have e: "fst s1 = fst st + 1" "fst s1 \<le> maxExtractFiles"
    "snd s1 = snd st + reg_bytes h" "reg_bytes h \<le> maxExtractSingleFile"
    "te_Typeflag h = TypeReg \<Longrightarrow> snd s1 \<le> maxExtractTotalSize \<and> snd s1 \<le> k"
    "te_Typeflag h \<in> {TypeReg, TypeDir}" "te_Name h \<noteq> []" "\<not> contains_str (te_Name h) ''..''" by auto
  have "snd s1 \<le> maxExtractTotalSize \<and> snd s1 \<le> k \<and> 0 \<le> snd s1"
    using e(3,5) Cons.prems(2-4) by (cases "te_Typeflag h = TypeReg") (auto simp: reg_bytes_def)
  with Cons.IH [OF s1(2)] e Cons.prems(5) show ?case by auto
qed (auto simp: return_def)

text \<open>
  Restoring is bounded: an archive that is extracted without an error has at most 200000 entries,
  all of them files and directories with no \<open>..\<close> in their name, no file of more than 4 GiB, and in
  total not more than 20 GiB and, if that is more than 4 GiB, 200 times its own size.
\<close>

theorem extraction_bounded:
  assumes "fst (extractArchive E K a d w) = Inr ()"
  shows "\<exists>c es. look (files w) (P a) = Some (File_node c) \<and> k_unpack K c = Some (es, True)
     \<and> int (length es) \<le> maxExtractFiles
     \<and> (\<forall>h \<in> set es. te_Typeflag h \<in> {TypeReg, TypeDir} \<and> \<not> contains_str (te_Name h) ''..''
          \<and> reg_bytes h \<le> maxExtractSingleFile)
     \<and> sum_list (map reg_bytes es) \<le> maxExtractTotalSize
     \<and> sum_list (map reg_bytes es) \<le> max (int64 (int (length c) * maxCompressionRatio)) maxExtractSingleFile"
proof -
  obtain c w1 where c: "or_fail (os_ReadFile E (P a)) Backup_os w = (Inr c, w1)"
    and rest: "fst ((\<lambda>data. let k = max (int64 (int (length data) * maxCompressionRatio)) maxExtractSingleFile
       in (case k_unpack K data of
             None \<Rightarrow> fail Not_gzip
           | Some (es, complete) \<Rightarrow>
               and_do (extract_loop E d k es (0, 0)) (\<lambda>_.
                 if complete then return () else fail Bad_archive))) c w1) = Inr ()"
    using assms unfolding extractArchive_def and_do_Inr by blast
  have src: "look (files w) (P a) = Some (File_node c)"
    using c by (auto simp: or_fail_def os_ReadFile_def sys_def Let_def split: if_splits option.splits node.splits)
  from rest obtain es st w2 where es: "k_unpack K c = Some (es, True)"
    and loop: "extract_loop E d (max (int64 (int (length c) * maxCompressionRatio)) maxExtractSingleFile) es (0, 0) w1 = (Inr st, w2)"
    by (auto simp: Let_def and_do_Inr return_def fail_def split: option.splits if_splits)
  have "fst (extract_loop E d (max (int64 (int (length c) * maxCompressionRatio)) maxExtractSingleFile) es (0, 0) w1) = Inr st"
    using loop by simp
  note bounds = extract_loop_Inr [OF this]
  have "0 \<le> maxExtractTotalSize" "0 \<le> maxExtractFiles" "0 \<le> maxExtractSingleFile"
    by (simp_all add: maxExtractTotalSize_def maxExtractFiles_def maxExtractSingleFile_def)
  with bounds have "int (length es) \<le> maxExtractFiles \<and> (\<forall>h \<in> set es. te_Typeflag h \<in> {TypeReg, TypeDir}
      \<and> \<not> contains_str (te_Name h) ''..'' \<and> reg_bytes h \<le> maxExtractSingleFile)
     \<and> sum_list (map reg_bytes es) \<le> maxExtractTotalSize
     \<and> sum_list (map reg_bytes es) \<le> max (int64 (int (length c) * maxCompressionRatio)) maxExtractSingleFile"
    by (auto simp: le_max_iff_disj)
  with src es show ?thesis by blast
qed

definition ex_entry :: tar_entry where
  "ex_entry = \<lparr>te_Name = ''users.db'', te_Typeflag = TypeReg, te_Size = 1, te_body = ''U''\<rparr>"

definition ex_archive :: world where
  "ex_archive = \<lparr>files = [([''t''], Dir_node), ([''t'', ''a''], File_node (sample_pack [ex_entry]))], calls = 0\<rparr>"


theorem extraction_bounded_witness:
  "\<exists>c es. look (files ex_archive) (P ''/t/a'') = Some (File_node c) \<and> k_unpack sample_codecs c = Some (es, True)
     \<and> int (length es) \<le> maxExtractFiles
     \<and> (\<forall>h \<in> set es. te_Typeflag h \<in> {TypeReg, TypeDir} \<and> \<not> contains_str (te_Name h) ''..''
          \<and> reg_bytes h \<le> maxExtractSingleFile)
     \<and> sum_list (map reg_bytes es) \<le> maxExtractTotalSize
     \<and> sum_list (map reg_bytes es) \<le> max (int64 (int (length c) * maxCompressionRatio)) maxExtractSingleFile"
proof -
  have "fst (extractArchive no_faults sample_codecs ''/t/a'' ''/t/x'' ex_archive) = Inr ()" by code_simp
  from extraction_bounded [OF this] show ?thesis .
qed

section \<open>The round trip\<close>

text \<open>What the documentation of the codecs promises.\<close>

definition lawful :: "codecs \<Rightarrow> bool" where
  "lawful K \<longleftrightarrow> (\<forall>es. list_all written_entry es \<longrightarrow> k_unpack K (k_pack K es) = Some (es, True))
     \<and> (\<forall>m. in_int64 (mf_CreatedAt m) \<longrightarrow> k_unjson K (k_json K m) = Some m)"

text \<open>Absolute directories, a plain file name, and temporary directories that are new.\<close>

definition create_ready :: "Service \<Rightarrow> create_env \<Rightarrow> BackupOptions \<Rightarrow> fs \<Rightarrow> bool" where
  "create_ready s V opts fs \<longleftrightarrow>
     IsAbs (ce_tempDir V) \<and> IsAbs (ce_verifyDir V) \<and> IsAbs (sv_backupDir s)
   \<and> plain_comp (backup_name V opts @ ''.tar.gz'') \<and> plain_comp (final_name opts (backup_name V opts))
   \<and> plain_fs fs \<and> in_int64 (ce_now V)
   \<and> list_all (\<lambda>(n, src). \<not> under (P (ce_tempDir V)) (P src)) (main_files s)
   \<and> \<not> under (P (ce_tempDir V)) (P (sv_backupDir s))
   \<and> \<not> under (P (ce_verifyDir V)) (P (sv_backupDir s) @ [final_name opts (backup_name V opts)])"

definition restore_ready :: "Service \<Rightarrow> restore_env \<Rightarrow> string \<Rightarrow> string \<Rightarrow> bool" where
  "restore_ready s X dir name \<longleftrightarrow>
     IsAbs (xe_tempDir X) \<and> IsAbs (xe_verifyDir X) \<and> IsAbs dir \<and> apart (P (xe_verifyDir X)) (P (xe_tempDir X))
   \<and> \<not> under (P (xe_verifyDir X)) (P (path_join [dir, name])) \<and> \<not> under (P (xe_tempDir X)) (P (path_join [dir, name]))
   \<and> layout_ok s (xe_tempDir X)
   \<and> list_all (\<lambda>(n, t). apart (P t) (P (xe_tempDir X)) \<and> apart (P t) (P (xe_verifyDir X))) (main_files s)"

lemma main_file_facts:
  assumes "(n, t) \<in> set (main_files s)"
  shows "restore_target s n = Some t" and "n \<in> set item_names" and "plain_comp n"
proof -
  show "restore_target s n = Some t" using assms by (auto simp: main_files_def restore_target_def)
  show "n \<in> set item_names" using assms by (auto simp: main_files_def item_names_def)
  show "plain_comp n" using assms item_names_plain by (auto simp: main_files_def)
qed


text \<open>One server that backs up, and a new one that restores.\<close>

definition ex_service :: Service where
  "ex_service = NewService ''/c'' ''/d'' ''/b'' ''1''"

definition ex_world :: world where
  "ex_world = \<lparr>files = [([''t''], Dir_node), ([''c''], Dir_node), ([''c'', ''server.yml''], File_node ''Y'')], calls = 0\<rparr>"

definition ex_retention :: "int retention_env" where
  "ex_retention = \<lparr>re_sort = sort_key, re_float = int_float, re_disk = None, re_mtime = (\<lambda>p. 0)\<rparr>"

definition ex_create :: create_env where
  "ex_create = \<lparr>ce_timestamp = ''2025-01-07_020000'', ce_now = 5, ce_hostname = ''h'', ce_tempDir = ''/t/s'',
     ce_verifyDir = ''/t/v'', ce_salt = None, ce_nonce = None\<rparr>"

definition ex_options :: BackupOptions where
  "ex_options = \<lparr>bo_IncludeSSL = False, bo_IncludeUploads = False, bo_Password = [], bo_CustomFilename = ''x''\<rparr>"

definition ex_created :: "(backup_error + BackupResult) \<times> world" where
  "ex_created = Create no_faults sample_codecs sample_ciphers ex_retention ex_create ex_service ex_options ex_world"

definition ex_file :: string where
  "ex_file = ''tar.f.manifest-.json.1---.0---.0-.5-.h-.1-.f-.sha256:73-.server---.yml-..f.server-.yml.Y.''"

definition ex_restore :: restore_env where
  "ex_restore = \<lparr>xe_tempDir = ''/t/r'', xe_verifyDir = ''/t/v'', xe_token_bytes = Some ''ab'', xe_clock = []\<rparr>"

definition ex_new :: world where
  "ex_new = \<lparr>files = [([''t''], Dir_node), ([''c''], Dir_node), ([''m''], Dir_node),
     ([''m'', ''x.tar.gz''], File_node ex_file)], calls = 0\<rparr>"

definition ex_path :: string where
  "ex_path = path_join [''/m'', final_name ex_options (backup_name ex_create ex_options)]"

definition ex_ropts :: RestoreOptions where
  "ex_ropts = \<lparr>ro_Password = [], ro_SkipVerify = False, ro_DryRun = False\<rparr>"

definition ex_restored :: "(backup_error + RestoreResult) \<times> world" where
  "ex_restored = Restore no_faults sample_codecs sample_ciphers ex_restore ex_service ex_path ex_ropts ex_new"

lemma ex_created_facts:
  "map_sum id br_FilePath (fst ex_created) = Inr ''/b/x.tar.gz''
 \<and> look (files (snd ex_created)) [''b'', ''x.tar.gz''] = Some (File_node ex_file)"
  by code_simp

lemma ex_restored_facts: "map_sum id rr_FilesRestored (fst ex_restored) = Inr 1"
  by code_simp

lemma sample_lawful: "lawful sample_codecs" "quiet no_faults" "crypt_ok sample_ciphers ex_create"
  by (simp_all add: lawful_def sample_codecs_def sample_unpack_pack sample_unjson_json quiet_def no_faults_def
      crypt_ok_def sample_opens ex_create_def)

lemma run_Inr:
  assumes "r = m" and "map_sum id f (fst r) = Inr x"
  obtains y where "m = (Inr y, snd r)" and "f y = x"
  using assms by (cases r; cases "fst r") auto

lemma ex_targets:
  "map (map_option P \<circ> restore_target ex_service) item_names =
     [Some [''c'', ''server.yml''], Some [''d'', ''db'', ''server.db''], Some [''d'', ''db'', ''users.db''],
      Some [''c'', ''template''], Some [''c'', ''theme''], Some [''c'', ''ssl''], Some [''d'', ''uploads'']]"
  by code_simp

lemma layout_of_targets:
  assumes "P tmp = t" and "map (map_option P \<circ> restore_target s) item_names = ts"
    and "list_all (\<lambda>a. case a of None \<Rightarrow> True | Some q \<Rightarrow> \<not> under t q) ts"
    and "sorted_wrt (\<lambda>a b. case (a, b) of (Some q, Some q') \<Rightarrow> \<not> under q q' \<and> \<not> under q' q | _ \<Rightarrow> True) ts"
  shows "layout_ok s tmp"
proof -
  have "\<not> under (P tmp) (P q)" if "c \<in> set item_names" "restore_target s c = Some q" for c q
    using assms(3) that unfolding assms(1) assms(2) [symmetric] by (fastforce simp: list_all_iff)
  moreover have "c = c'" if c: "c \<in> set item_names" "c' \<in> set item_names" and u: "under (P q) (P q')"
    and t: "restore_target s c = Some q" "restore_target s c' = Some q'" for c c' q q'
  proof (rule ccontr)
    assume "c \<noteq> c'"
    obtain i j where ij: "i < length item_names" "j < length item_names" "item_names ! i = c" "item_names ! j = c'"
      using c by (auto simp: in_set_conv_nth)
    with \<open>c \<noteq> c'\<close> have "i < j \<or> j < i" by (cases i j rule: linorder_cases) auto
    with assms(4) ij t u show False
      unfolding assms(2) [symmetric] sorted_wrt_iff_nth_less by (force simp: comp_def)
  qed
  ultimately show ?thesis unfolding layout_ok_def list_all_iff by (auto split: option.split)
qed

lemma ex_layout: "layout_ok ex_service ''/t/r''"
  by (rule layout_of_targets [where t = "[''t'', ''r'']", OF _ ex_targets]; code_simp)

lemma ex_ready_restore:
  "restore_ready ex_service ex_restore ''/m'' (final_name ex_options (backup_name ex_create ex_options))"
proof -
  have *: "xe_tempDir ex_restore = ''/t/r''" by (simp add: ex_restore_def)
  show ?thesis unfolding restore_ready_def * using ex_layout by (intro conjI) (assumption | code_simp)+
qed

lemma ex_ready:
  "(''server.yml'', ''/c/server.yml'') \<in> set (main_files ex_service)"
  "look (files ex_world) (P ''/c/server.yml'') = Some (File_node ''Y'')"
  "look (files ex_new) (P ex_path) = Some (File_node ex_file)"
  "P ''/c/server.yml'' = [''c'', ''server.yml'']"
  "P ''/b/x.tar.gz'' = [''b'', ''x.tar.gz'']"
  by code_simp+

lemma ex_ready_create: "create_ready ex_service ex_create ex_options (files ex_world)"
  unfolding create_ready_def by (intro conjI; code_simp)

lemma ex_dst: "dst_ready (P ''/c/server.yml'') (files ex_new)"
  unfolding ex_ready(4) dst_ready_def by (auto simp: ex_new_def look_def under_iff Cons_eq_append_conv)


section \<open>Directories\<close>

text \<open>
  What was backed up as a directory is not restored: \<open>Create\<close> lists templates, themes, certificates and
  uploads as directories, for which \<open>Restore\<close> calls the copy of a single file, so whatever the archive
  holds, no file below their places is created or changed and they are not among the restored items.
\<close>

theorem directories_not_restored:
  assumes "set cs \<subseteq> set item_names"
    and "\<forall>c \<in> set item_names. \<forall>t. restore_target s c = Some t \<longrightarrow> \<not> under p (P t)"
  shows "look (files (snd (restore_items E s x cs k w))) p = look (files w) p"
proof -
  have "within (\<lambda>q. \<exists>c \<in> set item_names. \<exists>t. restore_target s c = Some t \<and> under q (P t)) (restore_items E s x cs k)"
    using assms(1)
  proof (induction cs arbitrary: k)
    case (Cons c cs)
    then obtain t where t: "restore_target s c = Some t" using item_targets by force
    let ?D = "\<lambda>q. \<exists>c \<in> set item_names. \<exists>t. restore_target s c = Some t \<and> under q (P t)"
    have D: "?D q" if "under q (P t)" for q using Cons.prems t that by auto
    have D': "?D q" if "under q (butlast (P t))" for q using D [OF under_butlast [OF that]] .
    have "within ?D (copyFile E' src (P t))" for E' src
      unfolding copyFile_def by (intro frame D D' under_refl) (auto intro!: frame D split: node.split)
    then have "within ?D (restore_item E s x c k)"
      unfolding restore_item_def t option.case Let_def by (auto intro!: frame D' split: sum.split)
    with Cons show ?case by (auto intro!: frame)
  qed (auto intro!: frame)
  then show ?thesis using assms(2) by (intro withinD) auto
qed

definition ex_extracted :: world where
  "ex_extracted = \<lparr>files = [([''t''], Dir_node), ([''c''], Dir_node), ([''t'', ''x''], Dir_node),
     ([''t'', ''x'', ''template''], Dir_node), ([''t'', ''x'', ''template'', ''i''], File_node ''I'')], calls = 0\<rparr>"

theorem directories_not_restored_witness:
  "look (files (snd (restore_items no_faults ex_service ''/t/x'' [''template/''] 0 ex_extracted)))
     [''c'', ''template'', ''i''] = None"
proof -
  have "set [''template/''] \<subseteq> set item_names" by code_simp
  moreover have "list_all (\<lambda>c. case restore_target ex_service c of
      Some t \<Rightarrow> \<not> under [''c'', ''template'', ''i''] (P t) | None \<Rightarrow> True) item_names" by code_simp
  then have "\<forall>c \<in> set item_names. \<forall>t. restore_target ex_service c = Some t \<longrightarrow>
      \<not> under [''c'', ''template'', ''i''] (P t)"
    by (fastforce simp: list_all_iff split: option.splits)
  ultimately have "look (files (snd (restore_items no_faults ex_service ''/t/x'' [''template/''] 0 ex_extracted)))
      [''c'', ''template'', ''i''] = look (files ex_extracted) [''c'', ''template'', ''i'']"
    by (rule directories_not_restored)
  then show ?thesis by (simp add: ex_extracted_def look_def)
qed

text \<open>An empty file takes the place of the directory.\<close>

lemma template_is_empty_file:
  "map_sum id id (fst (restore_items no_faults ex_service ''/t/x'' [''template/''] 0 ex_extracted)) = Inr 0
 \<and> look (files (snd (restore_items no_faults ex_service ''/t/x'' [''template/''] 0 ex_extracted))) [''c'', ''template'']
   = Some (File_node [])"
  by code_simp

end
