(* ===== verification/Http.thy ===== *)
theory Http
  imports Go_Path Go_Conv Go_Base64
begin

text \<open>
  What the handlers use of \<open>net/http\<close> and \<open>net/url\<close>: requests with their parsed headers, cookies and
  form values, the header map of a response writer, \<open>http.Error\<close> and \<open>http.Redirect\<close>, and percent decoding. A
  handler is a function from a request, the headers set so far and the state of the program to a reply
  and the next state; a panic is a reply of its own. Header names are compared without regard to case.
\<close>

type_synonym headers = "(string \<times> string) list"

record request =
  rq_Method :: string
  rq_Path :: string
  rq_RawQuery :: string
  rq_EscapedPath :: string
  rq_Header :: headers
  rq_Cookies :: "(string \<times> string) list"
  rq_Form :: "(string \<times> string) list"
  rq_Query :: "(string \<times> string) list"
  rq_TLS :: bool
  rq_Host :: string
  rq_RemoteAddr :: string
  rq_csrf :: "string option"
  rq_id :: "string option"

text \<open>
  A reply, or a panic with the headers set before it, the status and body if they have been written,
  and the value.
\<close>

datatype reply = Reply int headers string | Panic headers "(int \<times> string) option" string

type_synonym 's handler = "request \<Rightarrow> headers \<Rightarrow> 's \<Rightarrow> reply \<times> 's"

fun reply_headers :: "reply \<Rightarrow> headers" where
  "reply_headers (Reply st hs b) = hs"
| "reply_headers (Panic hs w v) = hs"

section \<open>Headers, cookies and forms\<close>

definition same_name :: "string \<Rightarrow> string \<Rightarrow> bool" where
  "same_name k k' \<longleftrightarrow> to_lower k = to_lower k'"

text \<open>The first value with the name, and the empty string if there is none.\<close>

definition value_of :: "(string \<times> string) option \<Rightarrow> string" where
  "value_of v = (case v of None \<Rightarrow> [] | Some (k, x) \<Rightarrow> x)"

definition header_get :: "headers \<Rightarrow> string \<Rightarrow> string" where
  "header_get hs k = value_of (find (\<lambda>(k', v). same_name k' k) hs)"

definition header_set :: "string \<Rightarrow> string \<Rightarrow> headers \<Rightarrow> headers" where
  "header_set k v hs = filter (\<lambda>(k', v). \<not> same_name k' k) hs @ [(k, v)]"

definition header_add :: "string \<Rightarrow> string \<Rightarrow> headers \<Rightarrow> headers" where
  "header_add k v hs = hs @ [(k, v)]"

definition form_value :: "(string \<times> string) list \<Rightarrow> string \<Rightarrow> string" where
  "form_value fs k = value_of (find (\<lambda>(k', v). k' = k) fs)"

text \<open>\<open>http.ErrNoCookie\<close> is \<open>None\<close>.\<close>

definition cookie_of :: "request \<Rightarrow> string \<Rightarrow> string option" where
  "cookie_of r name = (if name = [] then None else map_option snd (find (\<lambda>(k, v). k = name) (rq_Cookies r)))"

lemma header_get_Nil [simp]: "header_get [] k = []"
  by (simp add: header_get_def value_of_def)

lemma find_append: "find P (xs @ ys) = (case find P xs of None \<Rightarrow> find P ys | Some x \<Rightarrow> Some x)"
  by (induction xs) auto

lemma header_get_set: "header_get (header_set k v hs) k' = (if same_name k k' then v else header_get hs k')"
proof -
  have gone: "find (\<lambda>(a, b). same_name a k') (filter (\<lambda>(a, b). \<not> same_name a k) hs) =
      (if same_name k k' then None else find (\<lambda>(a, b). same_name a k') hs)"
    by (induction hs) (auto simp: same_name_def)
  show ?thesis
    unfolding header_get_def header_set_def find_append gone
    by (auto simp: value_of_def split: option.split)
qed

lemma same_name_refl [simp]: "same_name k k"
  by (simp add: same_name_def)

section \<open>Replies of the library\<close>

definition http_Error :: "string \<Rightarrow> int \<Rightarrow> headers \<Rightarrow> reply" where
  "http_Error msg code hs =
     Reply code (header_set ''X-Content-Type-Options'' ''nosniff''
       (header_set ''Content-Type'' ''text/plain; charset=utf-8'' hs)) (msg @ [CHR 0x0A])"

text \<open>
  \<open>http.Redirect\<close>: a URL without scheme and host is made absolute and cleaned. \<open>parse\<close> is \<open>url.Parse\<close>,
  reduced to the scheme and the host. The short body for browsers is left out.
\<close>

type_synonym url_parser = "string \<Rightarrow> (string \<times> string) option"

fun last_slash :: "string \<Rightarrow> string" where
  "last_slash [] = []"
| "last_slash (c # s) = (if CHR ''/'' \<in> set (c # s) then c # last_slash s else [])"

definition redirect_target :: "url_parser \<Rightarrow> string \<Rightarrow> string \<Rightarrow> string" where
  "redirect_target parse oldpath url =
     (if parse url = Some ([], []) then
        let oldpath = (if oldpath = [] then ''/'' else oldpath);
            url = (if url = [] \<or> hd url \<noteq> CHR ''/'' then last_slash oldpath @ url else url);
            (path, query) = (case cut url ''?'' of None \<Rightarrow> (url, []) | Some (a, b) \<Rightarrow> (a, CHR ''?'' # b));
            cleaned = Clean path
        in (if has_suffix path ''/'' \<and> \<not> has_suffix cleaned ''/'' then cleaned @ ''/'' else cleaned) @ query
      else url)"

text \<open>The bytes outside ASCII are escaped in the header.\<close>

definition hexEscapeNonASCII :: "string \<Rightarrow> string" where
  "hexEscapeNonASCII s =
     concat (map (\<lambda>c. if byte c < 128 then [c]
       else [CHR ''%'', hex_digit (byte c div 16), hex_digit (byte c mod 16)]) s)"

definition http_Redirect :: "url_parser \<Rightarrow> request \<Rightarrow> string \<Rightarrow> int \<Rightarrow> headers \<Rightarrow> reply" where
  "http_Redirect parse r url code hs =
     (let hs' = header_set ''Location'' (hexEscapeNonASCII (redirect_target parse (rq_Path r) url)) hs
      in Reply code
        (if header_get hs ''Content-Type'' = [] \<and> (rq_Method r = ''GET'' \<or> rq_Method r = ''HEAD'')
         then header_set ''Content-Type'' ''text/html; charset=utf-8'' hs' else hs') [])"

lemma hexEscape_ascii: "ascii_str s \<Longrightarrow> hexEscapeNonASCII s = s"
  by (induction s) (simp_all add: hexEscapeNonASCII_def)

section \<open>Percent decoding\<close>

text \<open>\<open>url.PathUnescape\<close> and, with \<open>pl\<close>, \<open>url.QueryUnescape\<close>.\<close>

fun unescape :: "bool \<Rightarrow> string \<Rightarrow> string option" where
  "unescape pl [] = Some []"
| "unescape pl (c # s) =
     (if c = CHR ''%'' then
        (case s of
           a # b # r \<Rightarrow>
             (case (hex_value a, hex_value b) of
                (Some x, Some y) \<Rightarrow> map_option ((#) (char_of (16 * x + y))) (unescape pl r)
              | _ \<Rightarrow> None)
         | _ \<Rightarrow> None)
      else map_option ((#) (if pl \<and> c = CHR ''+'' then CHR '' '' else c)) (unescape pl s))"

definition PathUnescape :: "string \<Rightarrow> string option" where
  "PathUnescape s = unescape False s"

definition QueryUnescape :: "string \<Rightarrow> string option" where
  "QueryUnescape s = unescape True s"

lemma unescape_plain: "CHR ''%'' \<notin> set s \<Longrightarrow> unescape False s = Some s"
  by (induction s) auto

end
