(* ===== verification/Mux.thy ===== *)
theory Mux
  imports Http
begin

text \<open>
  \<open>http.ServeMux\<close> as the program uses it: the syntax of its patterns, the relation between two patterns
  that decides whether a registration panics, the search for the most specific pattern, the redirections
  to a trailing slash and to a clean path, and \<open>http.StripPrefix\<close>. Patterns name no host here. The
  search is shown to find a pattern exactly if one matches, and to prefer a literal segment.
\<close>

section \<open>Patterns\<close>

text \<open>\<open>Lit ''/''\<close> is the end marker \<open>{$}\<close>; a trailing slash is a nameless \<open>Multi\<close>.\<close>

datatype segment = Lit string | Wild string | Multi string

record pattern =
  pat_method :: string
  pat_segs :: "segment list"

definition segment_unescape :: "string \<Rightarrow> string" where
  "segment_unescape s = (case PathUnescape s of Some t \<Rightarrow> t | None \<Rightarrow> s)"

text \<open>\<open>None\<close> is a malformed pattern. Names of wildcards are checked for being there at all.\<close>

fun parse_segs :: "string list \<Rightarrow> segment list option" where
  "parse_segs [] = Some []"
| "parse_segs [[]] = Some [Multi []]"
| "parse_segs (seg # ss) =
     (if CHR ''{'' \<notin> set seg then map_option ((#) (Lit (segment_unescape seg))) (parse_segs ss)
      else if hd seg \<noteq> CHR ''{'' \<or> last seg \<noteq> CHR ''}'' then None
      else
        let name = butlast (tl seg)
        in if name = ''$'' then (if ss = [] then Some [Lit ''/''] else None)
           else if has_suffix name ''...'' then
             (if ss = [] \<and> name \<noteq> ''...'' then Some [Multi (trim_suffix name ''...'')] else None)
           else if name = [] then None
           else map_option ((#) (Wild name)) (parse_segs ss))"

definition cleanPath :: "string \<Rightarrow> string" where
  "cleanPath p =
     (if p = [] then ''/''
      else
        let p = (if hd p \<noteq> CHR ''/'' then CHR ''/'' # p else p); np = Clean p
        in if last p = CHR ''/'' \<and> np \<noteq> ''/'' then np @ ''/'' else np)"

definition parsePattern :: "string \<Rightarrow> pattern option" where
  "parsePattern s =
     (let (method, rest) =
        (case cut s '' '' of None \<Rightarrow> ([], s) | Some (m, r) \<Rightarrow> (m, dropWhile (\<lambda>c. c = CHR '' '') r))
      in if rest = [] \<or> hd rest \<noteq> CHR ''/'' then None
         else if method \<noteq> [] \<and> method \<noteq> ''CONNECT'' \<and> cleanPath rest \<noteq> rest then None
         else map_option (\<lambda>ss. \<lparr>pat_method = method, pat_segs = ss\<rparr>) (parse_segs (split_char CHR ''/'' (tl rest))))"

section \<open>Conflicts\<close>

datatype relationship = Equivalent | More_general | More_specific | Disjoint | Overlapping

fun inverse_rel :: "relationship \<Rightarrow> relationship" where
  "inverse_rel More_general = More_specific"
| "inverse_rel More_specific = More_general"
| "inverse_rel r = r"

fun combine_rel :: "relationship \<Rightarrow> relationship \<Rightarrow> relationship" where
  "combine_rel Equivalent r = r"
| "combine_rel Disjoint r = Disjoint"
| "combine_rel Overlapping r = (if r = Disjoint then Disjoint else Overlapping)"
| "combine_rel r1 r2 =
     (if r2 = Equivalent then r1 else if r2 = inverse_rel r1 then Overlapping else r2)"

definition compare_methods :: "string \<Rightarrow> string \<Rightarrow> relationship" where
  "compare_methods m1 m2 =
     (if m1 = m2 then Equivalent
      else if m1 = [] then More_general
      else if m2 = [] then More_specific
      else if m1 = ''GET'' \<and> m2 = ''HEAD'' then More_general
      else if m2 = ''GET'' \<and> m1 = ''HEAD'' then More_specific
      else Disjoint)"

fun compare_segment :: "segment \<Rightarrow> segment \<Rightarrow> relationship" where
  "compare_segment (Multi a) (Multi b) = Equivalent"
| "compare_segment (Multi a) s = More_general"
| "compare_segment s (Multi b) = More_specific"
| "compare_segment (Wild a) (Wild b) = Equivalent"
| "compare_segment (Wild a) (Lit l) = (if l = ''/'' then Disjoint else More_general)"
| "compare_segment (Lit l) (Wild b) = (if l = ''/'' then Disjoint else More_specific)"
| "compare_segment (Lit l) (Lit k) = (if l = k then Equivalent else Disjoint)"

fun is_multi :: "segment \<Rightarrow> bool" where
  "is_multi (Multi a) = True"
| "is_multi s = False"

definition ends_multi :: "segment list \<Rightarrow> bool" where
  "ends_multi ss \<longleftrightarrow> ss \<noteq> [] \<and> is_multi (last ss)"

definition compare_paths :: "segment list \<Rightarrow> segment list \<Rightarrow> relationship" where
  "compare_paths s1 s2 =
     (if length s1 \<noteq> length s2 \<and> \<not> ends_multi s1 \<and> \<not> ends_multi s2 then Disjoint
      else
        let rel = foldl combine_rel Equivalent (map (\<lambda>(a, b). compare_segment a b) (zip s1 s2))
        in if rel = Disjoint then Disjoint
           else if length s1 = length s2 then rel
           else if length s1 < length s2 \<and> ends_multi s1 then combine_rel rel More_general
           else if length s2 < length s1 \<and> ends_multi s2 then combine_rel rel More_specific
           else Disjoint)"

definition conflicts :: "pattern \<Rightarrow> pattern \<Rightarrow> bool" where
  "conflicts p q \<longleftrightarrow>
     (let mrel = compare_methods (pat_method p) (pat_method q);
          rel = (if mrel = Disjoint then Disjoint else combine_rel mrel (compare_paths (pat_segs p) (pat_segs q)))
      in rel = Equivalent \<or> rel = Overlapping)"

section \<open>Registration\<close>

text \<open>The panics of \<open>Handle\<close> carry the pattern that is registered.\<close>

datatype mux_panic = Bad_pattern string | Conflict string

type_synonym 'h routes = "(pattern \<times> 'h) list"

definition register :: "'h routes \<Rightarrow> string \<times> 'h \<Rightarrow> mux_panic + 'h routes" where
  "register rs = (\<lambda>(text, h).
     (case parsePattern text of
        None \<Rightarrow> Inl (Bad_pattern text)
      | Some p \<Rightarrow> if list_ex (\<lambda>(q, _). conflicts p q) rs then Inl (Conflict text) else Inr (rs @ [(p, h)])))"

fun register_all :: "'h routes \<Rightarrow> (string \<times> 'h) list \<Rightarrow> mux_panic + 'h routes" where
  "register_all rs [] = Inr rs"
| "register_all rs (x # xs) = and_then (register rs x) (\<lambda>rs'. register_all rs' xs)"

lemma register_all_append:
  "register_all rs (xs @ ys) = and_then (register_all rs xs) (\<lambda>rs'. register_all rs' ys)"
  by (induction xs arbitrary: rs) (auto simp: and_then_def split: sum.splits)

section \<open>Search\<close>

definition first_segment :: "string \<Rightarrow> string \<times> string" where
  "first_segment path =
     (if path = ''/'' then (''/'', [])
      else (segment_unescape (takeWhile (\<lambda>c. c \<noteq> CHR ''/'') (tl path)), dropWhile (\<lambda>c. c \<noteq> CHR ''/'') (tl path)))"

lemma first_segment_shorter: "path \<noteq> [] \<Longrightarrow> length (snd (first_segment path)) < length path"
  using length_dropWhile_le [of "\<lambda>c. c \<noteq> CHR ''/''" "tl path"] by (cases path) (auto simp: first_segment_def)

lemma first_segment_rest: "(seg, rest) = first_segment path \<Longrightarrow> path \<noteq> [] \<Longrightarrow> length rest < length path"
  using first_segment_shorter [of path] by (metis snd_conv)

text \<open>A candidate is the rest of a pattern, the values of its wildcards so far and what it stands for.\<close>

type_synonym 'x candidate = "segment list \<times> (string \<times> string) list \<times> 'x"

fun step_lit :: "string \<Rightarrow> 'x candidate \<Rightarrow> 'x candidate option" where
  "step_lit seg (Lit l # ss, ms, x) = (if l = seg then Some (ss, ms, x) else None)"
| "step_lit seg c = None"

fun step_wild :: "string \<Rightarrow> 'x candidate \<Rightarrow> 'x candidate option" where
  "step_wild seg (Wild n # ss, ms, x) = (if seg = ''/'' then None else Some (ss, ms @ [(n, seg)], x))"
| "step_wild seg c = None"

fun take_multi :: "string \<Rightarrow> 'x candidate \<Rightarrow> ((string \<times> string) list \<times> 'x) option" where
  "take_multi path (Multi n # ss, ms, x) = Some (if n = [] then ms else ms @ [(n, segment_unescape (tl path))], x)"
| "take_multi path c = None"

fun at_end :: "'x candidate \<Rightarrow> ((string \<times> string) list \<times> 'x) option" where
  "at_end ([], ms, x) = Some (ms, x)"
| "at_end c = None"

definition first_of :: "('a \<Rightarrow> 'b option) \<Rightarrow> 'a list \<Rightarrow> 'b option" where
  "first_of f xs = (case List.map_filter f xs of [] \<Rightarrow> None | y # ys \<Rightarrow> Some y)"

function search :: "'x candidate list \<Rightarrow> string \<Rightarrow> ((string \<times> string) list \<times> 'x) option" where
  "search cs path =
     (if path = [] then first_of at_end cs
      else
        let (seg, rest) = first_segment path
        in (case search (List.map_filter (step_lit seg) cs) rest of
              Some r \<Rightarrow> Some r
            | None \<Rightarrow>
                (case search (List.map_filter (step_wild seg) cs) rest of
                   Some r \<Rightarrow> Some r
                 | None \<Rightarrow> first_of (take_multi path) cs)))"
  by pat_completeness auto
termination
  by (relation "measure (\<lambda>(cs, path). length path)") (simp_all only: wf_measure in_measure prod.case first_segment_rest not_False_eq_True)

declare search.simps [simp del]

text \<open>A candidate matches a path if the search could use it.\<close>

fun matches_path :: "segment list \<Rightarrow> string \<Rightarrow> bool" where
  "matches_path [] path \<longleftrightarrow> path = []"
| "matches_path (Lit l # ss) path \<longleftrightarrow>
     path \<noteq> [] \<and> fst (first_segment path) = l \<and> matches_path ss (snd (first_segment path))"
| "matches_path (Wild n # ss) path \<longleftrightarrow>
     path \<noteq> [] \<and> fst (first_segment path) \<noteq> ''/'' \<and> matches_path ss (snd (first_segment path))"
| "matches_path (Multi n # ss) path \<longleftrightarrow> path \<noteq> []"

lemma first_of_Some: "first_of f xs = Some y \<Longrightarrow> \<exists>x \<in> set xs. f x = Some y"
  by (induction xs) (auto simp: first_of_def map_filter_simps split: option.splits list.splits)

lemma first_of_None: "first_of f xs = None \<longleftrightarrow> (\<forall>x \<in> set xs. f x = None)"
  by (induction xs) (auto simp: first_of_def map_filter_simps split: option.splits list.splits)

lemma in_map_filter: "y \<in> set (List.map_filter f xs) \<longleftrightarrow> (\<exists>x \<in> set xs. f x = Some y)"
  by (induction xs) (auto simp: map_filter_simps split: option.splits)

lemma step_lit_Some: "step_lit seg c = Some (ss, ms, x) \<longleftrightarrow> c = (Lit seg # ss, ms, x)"
  by (induction seg c rule: step_lit.induct) auto

lemma step_wild_Some: "step_wild seg c = Some (ss, ms', x) \<longleftrightarrow> seg \<noteq> ''/'' \<and> (\<exists>n ms. c = (Wild n # ss, ms, x) \<and> ms' = ms @ [(n, seg)])"
  by (induction seg c rule: step_wild.induct) auto

lemma take_multi_Some: "take_multi path c = Some (ms', x) \<longleftrightarrow>
    (\<exists>n ss ms. c = (Multi n # ss, ms, x) \<and> ms' = (if n = [] then ms else ms @ [(n, segment_unescape (tl path))]))"
  by (induction path c rule: take_multi.induct) auto

lemma at_end_Some: "at_end c = Some (ms, x) \<longleftrightarrow> c = ([], ms, x)"
  by (induction c rule: at_end.induct) auto

lemma search_sound: "search cs path = Some (ms', x) \<Longrightarrow> \<exists>ss ms. (ss, ms, x) \<in> set cs \<and> matches_path ss path"
proof (induction cs path arbitrary: ms' x rule: search.induct)
  case (1 cs path)
  obtain seg rest where fs: "first_segment path = (seg, rest)" by fastforce
  show ?case
  proof (cases "path = []")
    case True
    then have "([], ms', x) \<in> set cs"
      using 1(3) by (auto simp: search.simps [of cs] at_end_Some dest!: first_of_Some)
    then show ?thesis using True by (intro exI [of _ "[]"] exI [of _ ms']) auto
  next
    case False
    then consider "search (List.map_filter (step_lit seg) cs) rest = Some (ms', x)"
      | "search (List.map_filter (step_lit seg) cs) rest = None" "search (List.map_filter (step_wild seg) cs) rest = Some (ms', x)"
      | "first_of (take_multi path) cs = Some (ms', x)"
      using 1(3) by (auto simp: search.simps [of cs path] fs split: option.splits)
    then show ?thesis
    proof cases
      case 1
      from "1.IH"(1) [OF False fs [symmetric] _ 1] show ?thesis
        using False by (force simp: in_map_filter step_lit_Some fs)
    next
      case 2
      from "1.IH"(2) [OF False fs [symmetric] _ 2] show ?thesis
        using False by (force simp: in_map_filter step_wild_Some fs)
    next
      case 3
      then show ?thesis using False by (fastforce simp: take_multi_Some dest!: first_of_Some)
    qed
  qed
qed

lemma search_complete: "(ss, ms, x) \<in> set cs \<Longrightarrow> matches_path ss path \<Longrightarrow> search cs path \<noteq> None"
proof (induction cs path arbitrary: ss ms rule: search.induct)
  case (1 cs path)
  obtain seg rest where fs: "first_segment path = (seg, rest)" by fastforce
  show ?case
  proof (cases ss)
    case Nil
    with 1(3,4) have "first_of at_end cs \<noteq> None" unfolding first_of_None by fastforce
    with 1(4) Nil show ?thesis by (simp add: search.simps [of cs])
  next
    case (Cons a ss')
    then have False: "path \<noteq> []" using 1(4) by (cases a) auto
    note unfold = search.simps [of cs path] fs
    show ?thesis
    proof (cases a)
      case (Lit l)
      then have "(ss', ms, x) \<in> set (List.map_filter (step_lit seg) cs)" "matches_path ss' rest"
        using 1(3,4) Cons by (auto simp: in_map_filter step_lit_Some fs)
      from "1.IH"(1) [OF False fs [symmetric] _ this] show ?thesis using False by (auto simp: unfold)
    next
      case (Wild n)
      then have "(ss', ms @ [(n, seg)], x) \<in> set (List.map_filter (step_wild seg) cs)" "matches_path ss' rest"
        using 1(3,4) Cons by (force simp: in_map_filter step_wild_Some fs)+
      with "1.IH"(2) [OF False fs [symmetric] _ _ this] False show ?thesis
        by (auto simp: unfold split: option.split)
    next
      case (Multi n)
      with 1(3) Cons have "first_of (take_multi path) cs \<noteq> None" unfolding first_of_None by force
      with False show ?thesis by (auto simp: unfold split: option.split)
    qed
  qed
qed

lemma search_prefers_literal:
  assumes "(Lit l # ss, ms, x) \<in> set cs" and "matches_path (Lit l # ss) path"
  obtains ms' x' ss' ms'' where "search cs path = Some (ms', x')" and "(Lit l # ss', ms'', x') \<in> set cs"
    and "matches_path (Lit l # ss') path"
proof -
  obtain rest where fs: "first_segment path = (l, rest)" and ne: "path \<noteq> []" and m: "matches_path ss rest"
    using assms(2) by (cases "first_segment path") auto
  have "(ss, ms, x) \<in> set (List.map_filter (step_lit l) cs)" using assms(1) by (force simp: in_map_filter step_lit_Some)
  from search_complete [OF this m] obtain ms' x' where r: "search (List.map_filter (step_lit l) cs) rest = Some (ms', x')"
    by fastforce
  from search_sound [OF this] obtain ss' ms'' where "(ss', ms'', x') \<in> set (List.map_filter (step_lit l) cs)" "matches_path ss' rest"
    by auto
  then show ?thesis using r ne that [of ms' x' ss' ms''] by (auto simp: search.simps [of cs path] fs in_map_filter step_lit_Some)
qed

section \<open>Serving\<close>

text \<open>The patterns with the method of the request come first, then, for \<open>HEAD\<close>, those with \<open>GET\<close>, then those without method.\<close>

definition candidates :: "'h routes \<Rightarrow> string \<Rightarrow> (pattern \<times> 'h) candidate list" where
  "candidates rs m = map (\<lambda>(p, h). (pat_segs p, [], (p, h))) (filter (\<lambda>(p, h). pat_method p = m) rs)"

definition match_route :: "'h routes \<Rightarrow> string \<Rightarrow> string \<Rightarrow> ((string \<times> string) list \<times> pattern \<times> 'h) option" where
  "match_route rs m path =
     (case (if m = [] then None else search (candidates rs m) path) of
        Some r \<Rightarrow> Some r
      | None \<Rightarrow>
          (case (if m = ''HEAD'' then search (candidates rs ''GET'') path else None) of
             Some r \<Rightarrow> Some r
           | None \<Rightarrow> search (candidates rs []) path))"

text \<open>A match is not exact if a trailing slash of the pattern stands for more than the slash.\<close>

definition exactMatch :: "((string \<times> string) list \<times> pattern \<times> 'h) option \<Rightarrow> string \<Rightarrow> bool" where
  "exactMatch r path =
     (case r of
        None \<Rightarrow> False
      | Some (ms, p, h) \<Rightarrow>
          if \<not> ends_multi (pat_segs p) then True
          else if path \<noteq> [] \<and> last path \<noteq> CHR ''/'' then False
          else length (pat_segs p) = count_list path (CHR ''/''))"

text \<open>The escaping of a path by \<open>net/url\<close>.\<close>

definition path_char :: "char \<Rightarrow> bool" where
  "path_char c \<longleftrightarrow> is_digit c \<or> (65 \<le> byte c \<and> byte c \<le> 90) \<or> (97 \<le> byte c \<and> byte c \<le> 122)
     \<or> c \<in> set ''-_.~$&+,/:;=@''"

definition upper_hex :: "nat \<Rightarrow> char" where
  "upper_hex d = (if d < 10 then char_of (48 + d) else char_of (55 + d))"

definition escape_path :: "string \<Rightarrow> string" where
  "escape_path s = concat (map (\<lambda>c. if path_char c then [c] else [CHR ''%'', upper_hex (byte c div 16), upper_hex (byte c mod 16)]) s)"

definition with_query :: "request \<Rightarrow> string \<Rightarrow> string" where
  "with_query r path = escape_path path @ (if rq_RawQuery r = [] then [] else CHR ''?'' # rq_RawQuery r)"

datatype 'h served = Serve 'h "(string \<times> string) list" | Redirect_to string | Wrong_method "string list" | Not_found

text \<open>The methods that patterns of the program name, in alphabetical order.\<close>

definition known_methods :: "'h routes \<Rightarrow> string \<Rightarrow> string list" where
  "known_methods rs path =
     (let with_slash = (if has_suffix path ''/'' then path else path @ ''/'');
          ms = map (\<lambda>(p, h). pat_method p)
                 (filter (\<lambda>(p, h). pat_method p \<noteq> [] \<and> (matches_path (pat_segs p) path \<or> matches_path (pat_segs p) with_slash)) rs)
      in filter (\<lambda>m. m \<in> set ms \<or> m = ''HEAD'' \<and> ''GET'' \<in> set ms) [''DELETE'', ''GET'', ''HEAD'', ''PATCH'', ''POST''])"

definition find_handler :: "'h routes \<Rightarrow> request \<Rightarrow> 'h served" where
  "find_handler rs r =
     (let m = rq_Method r;
          path = (if m = ''CONNECT'' then rq_EscapedPath r else cleanPath (rq_EscapedPath r));
          n = match_route rs m path;
          slashed = path @ ''/'';
          n2 = match_route rs m slashed
      in if \<not> exactMatch n path \<and> \<not> has_suffix path ''/'' \<and> exactMatch n2 slashed
         then Redirect_to (with_query r (cleanPath (rq_Path r) @ ''/''))
         else if m \<noteq> ''CONNECT'' \<and> path \<noteq> rq_EscapedPath r then Redirect_to (with_query r path)
         else (case n of
                 Some (ms, p, h) \<Rightarrow> Serve h ms
               | None \<Rightarrow> (case known_methods rs path of [] \<Rightarrow> Not_found | ks \<Rightarrow> Wrong_method ks)))"

definition ServeMux :: "url_parser \<Rightarrow> 'h routes \<Rightarrow> ('h \<Rightarrow> (string \<times> string) list \<Rightarrow> 's handler) \<Rightarrow> 's handler" where
  "ServeMux parse rs handlers r hs s =
     (case find_handler rs r of
        Serve h ms \<Rightarrow> handlers h ms r hs s
      | Redirect_to url \<Rightarrow> (http_Redirect parse r url 301 hs, s)
      | Wrong_method ms \<Rightarrow> (http_Error ''Method Not Allowed'' 405 (header_set ''Allow'' (join '', '' ms) hs), s)
      | Not_found \<Rightarrow> (http_Error ''404 page not found'' 404 hs, s))"

definition StripPrefix :: "string \<Rightarrow> 's handler \<Rightarrow> 's handler" where
  "StripPrefix pre h r hs s =
     (if has_prefix (rq_Path r) pre \<and> has_prefix (rq_EscapedPath r) pre
      then h (r\<lparr>rq_Path := trim_prefix (rq_Path r) pre, rq_EscapedPath := trim_prefix (rq_EscapedPath r) pre\<rparr>) hs s
      else (http_Error ''404 page not found'' 404 hs, s))"

end
