(* ===== verification/Middleware.thy ===== *)
theory Middleware
  imports Http
begin

text \<open>
  The middleware chain of the server (\<open>web/middleware.go\<close>, \<open>web/csrf.go\<close>, composed in
  \<open>server/caspaste.go\<close>). The application is an arbitrary handler. Arguments stand for \<open>url.Parse\<close>, random
  identifiers and tokens, and the existence of the maintenance file; the metrics middleware only counts
  and is left out, as are the audit log and the text of the pages.
\<close>

section \<open>Security headers\<close>

record SecurityHeadersConfig =
  XFrameOptions :: string
  XContentTypeOptions :: string
  XSSProtection :: string
  ContentSecurityPolicy :: string
  ReferrerPolicy :: string
  PermissionsPolicy :: string
  StrictTransportSecurity :: string
  OriginAgentCluster :: bool
  CrossDomainPolicies :: string
  COOP :: string
  COEP :: string
  CORP :: string
  ReportingEnabled :: bool
  NELEnabled :: bool
  APIVersion :: string

definition is_https :: "request \<Rightarrow> bool" where
  "is_https r \<longleftrightarrow> rq_TLS r \<or> header_get (rq_Header r) ''X-Forwarded-Proto'' = ''https''"

definition report_url :: "SecurityHeadersConfig \<Rightarrow> request \<Rightarrow> string" where
  "report_url cfg r =
     (if is_https r then ''https'' else ''http'') @ ''://'' @ rq_Host r @ ''/api/'' @ APIVersion cfg
     @ ''/server/reports/default''"

text \<open>The headers to set, in the order of the code.\<close>

definition security_headers :: "SecurityHeadersConfig \<Rightarrow> request \<Rightarrow> headers" where
  "security_headers cfg r =
     (let opt = (\<lambda>k v. if v \<noteq> [] then [(k, v)] else [])
      in opt ''X-Frame-Options'' (XFrameOptions cfg)
       @ opt ''X-Content-Type-Options'' (XContentTypeOptions cfg)
       @ opt ''X-XSS-Protection'' (XSSProtection cfg)
       @ opt ''Content-Security-Policy'' (ContentSecurityPolicy cfg)
       @ opt ''Referrer-Policy'' (ReferrerPolicy cfg)
       @ opt ''Permissions-Policy'' (PermissionsPolicy cfg)
       @ (if OriginAgentCluster cfg then [(''Origin-Agent-Cluster'', ''?1'')] else [])
       @ opt ''X-Permitted-Cross-Domain-Policies'' (CrossDomainPolicies cfg)
       @ opt ''Cross-Origin-Opener-Policy'' (COOP cfg)
       @ opt ''Cross-Origin-Embedder-Policy'' (COEP cfg)
       @ opt ''Cross-Origin-Resource-Policy'' (CORP cfg)
       @ (if is_https r then opt ''Strict-Transport-Security'' (StrictTransportSecurity cfg) else [])
       @ (if ReportingEnabled cfg \<and> rq_Host r \<noteq> []
          then [(''Reporting-Endpoints'', ''default=\"'' @ report_url cfg r @ ''\"''),
                (''Report-To'', ''{\"group\":\"default\",\"max_age\":10886400,\"endpoints\":[{\"url\":\"''
                   @ report_url cfg r @ ''\"}]}'')]
               @ (if NELEnabled cfg
                  then [(''NEL'', ''{\"report_to\":\"default\",\"max_age\":2592000,\"include_subdomains\":true}'')]
                  else [])
          else []))"

definition SecurityHeadersMiddleware :: "SecurityHeadersConfig \<Rightarrow> 's handler \<Rightarrow> 's handler" where
  "SecurityHeadersMiddleware cfg next r hs s =
     next r (foldl (\<lambda>hs (k, v). header_set k v hs) hs (security_headers cfg r)) s"

section \<open>CORS\<close>

record CORSConfig =
  cors_Enabled :: bool
  cors_AllowedOrigins :: "string list"
  cors_AllowedMethods :: "string list"
  cors_AllowedHeaders :: "string list"
  cors_MaxAge :: int

definition explicit_origins :: "CORSConfig \<Rightarrow> string list" where
  "explicit_origins cfg = filter (\<lambda>o'. o' \<noteq> [] \<and> o' \<noteq> ''*'') (cors_AllowedOrigins cfg)"

definition cors_methods :: "CORSConfig \<Rightarrow> string" where
  "cors_methods cfg =
     (if cors_AllowedMethods cfg \<noteq> [] then join '', '' (cors_AllowedMethods cfg)
      else ''GET, POST, PUT, PATCH, DELETE, OPTIONS'')"

definition cors_headers :: "CORSConfig \<Rightarrow> string" where
  "cors_headers cfg =
     (if cors_AllowedHeaders cfg \<noteq> [] then join '', '' (cors_AllowedHeaders cfg)
      else ''Content-Type, Accept, X-Requested-With, Authorization, X-API-Key, X-Api-Key, API-Key, ApiKey, X-Auth-Token, X-Access-Token, X-Token, Token, X-CSRF-Token, X-XSRF-Token, X-Session-ID, X-Service-Token, X-Internal-Token'')"

definition cors_max_age :: "CORSConfig \<Rightarrow> string" where
  "cors_max_age cfg = (if cors_MaxAge cfg > 0 then show_int (cors_MaxAge cfg) else ''86400'')"

definition cors_origin :: "CORSConfig \<Rightarrow> request \<Rightarrow> headers \<Rightarrow> headers" where
  "cors_origin cfg r hs =
     (let origin = header_get (rq_Header r) ''Origin''
      in if explicit_origins cfg = [] then header_set ''Access-Control-Allow-Origin'' ''*'' hs
         else if list_ex (equal_fold origin) (explicit_origins cfg)
         then header_add ''Vary'' ''Origin''
                (header_set ''Access-Control-Allow-Credentials'' ''true''
                  (header_set ''Access-Control-Allow-Origin'' origin hs))
         else hs)"

definition CORSMiddleware :: "CORSConfig \<Rightarrow> 's handler \<Rightarrow> 's handler" where
  "CORSMiddleware cfg next r hs s =
     (if \<not> cors_Enabled cfg then next r hs s
      else
        let hs' = header_set ''Access-Control-Max-Age'' (cors_max_age cfg)
                    (header_set ''Access-Control-Allow-Headers'' (cors_headers cfg)
                      (header_set ''Access-Control-Allow-Methods'' (cors_methods cfg) (cors_origin cfg r hs)))
        in if rq_Method r = ''OPTIONS'' then (Reply 204 hs' [], s) else next r hs' s)"

section \<open>Maintenance, request identifiers, panics\<close>

definition MaintenanceMiddleware :: "bool \<Rightarrow> string \<Rightarrow> 's handler \<Rightarrow> 's handler" where
  "MaintenanceMiddleware maintenance page next r hs s =
     (if maintenance
      then (Reply 503 (header_set ''Retry-After'' ''3600'' (header_set ''Content-Type'' ''text/html; charset=UTF-8'' hs)) page, s)
      else next r hs s)"

text \<open>The pattern of \<open>uuidRegex\<close>: \<open>0\<close> stands for a hexadecimal digit.\<close>

definition isValidUUID :: "string \<Rightarrow> bool" where
  "isValidUUID s = list_all2 (\<lambda>p c. if p = CHR ''0'' then hex_value c \<noteq> None else c = p)
     ''00000000-0000-0000-0000-000000000000'' s"

definition request_id :: "string \<Rightarrow> request \<Rightarrow> string" where
  "request_id fresh r =
     (let get = header_get (rq_Header r);
          i = get ''X-Request-ID'';
          i = if i = [] then get ''X-Correlation-ID'' else i;
          i = if i = [] then get ''X-Trace-ID'' else i
      in if i = [] \<or> \<not> isValidUUID i then fresh else i)"

definition RequestIDMiddleware :: "string \<Rightarrow> 's handler \<Rightarrow> 's handler" where
  "RequestIDMiddleware fresh next r hs s =
     (let i = request_id fresh r in next (r\<lparr>rq_id := Some i\<rparr>) (header_set ''X-Request-ID'' i hs) s)"

text \<open>The trace of the stack is an argument; after the header was written, only the body grows.\<close>

definition PanicRecoveryMiddleware :: "bool \<Rightarrow> string \<Rightarrow> 's handler \<Rightarrow> 's handler" where
  "PanicRecoveryMiddleware debug stack next r hs s =
     (case next r hs s of
        (Reply st hs' b, s') \<Rightarrow> (Reply st hs' b, s')
      | (Panic hs' written v, s') \<Rightarrow>
          let hs'' = header_set ''X-Content-Type-Options'' ''nosniff''
                       (header_set ''Content-Type'' ''text/plain; charset=utf-8'' hs');
              requestID = (case rq_id r of None \<Rightarrow> [] | Some i \<Rightarrow> i);
              nl = [CHR 0x0A];
              text = (if debug
                      then ''Internal Server Error'' @ nl @ nl @ ''Panic: '' @ v @ nl @ nl @ ''Stack Trace:'' @ nl @ stack @ nl
                           @ (if requestID \<noteq> [] then nl @ ''Request ID: '' @ requestID @ nl else [])
                      else ''An unexpected error occurred'')
          in (case written of
                None \<Rightarrow> (Reply 500 hs'' text, s')
              | Some (st, b) \<Rightarrow> (Reply st hs' (b @ text), s')))"

section \<open>Paths\<close>

definition URLNormalizeMiddleware :: "url_parser \<Rightarrow> 's handler \<Rightarrow> 's handler" where
  "URLNormalizeMiddleware parse next r hs s =
     (let path = rq_Path r
      in if path = ''/'' then next r hs s
         else if length path > 1 \<and> has_suffix path ''/'' then
           let canonical = trim_suffix path ''/'' @ (if rq_RawQuery r \<noteq> [] then CHR ''?'' # rq_RawQuery r else [])
           in (http_Redirect parse r canonical 301 hs, s)
         else next r hs s)"

definition PathSecurityMiddleware :: "'s handler \<Rightarrow> 's handler" where
  "PathSecurityMiddleware next r hs s =
     (let bad = (http_Error ''Bad Request'' 400 hs, s); path = rq_Path r
      in if contains_str path ''..'' then bad
         else (case PathUnescape path of
             None \<Rightarrow> bad
           | Some decoded \<Rightarrow>
               if contains_str decoded ''..'' then bad
               else if contains_str (rq_RawQuery r) ''..''
                 \<and> (case QueryUnescape (rq_RawQuery r) of None \<Rightarrow> False | Some q \<Rightarrow> contains_str q ''..'') then bad
               else next r hs s))"

section \<open>Cross-site requests\<close>

record CSRFConfig =
  csrf_Enabled :: bool
  csrf_TokenLength :: int
  csrf_CookieName :: string
  csrf_HeaderName :: string
  csrf_FieldName :: string
  csrf_Secure :: string
  csrf_ExemptPaths :: "string list"
  csrf_ExemptPrefixes :: "string list"

text \<open>The URL alphabet of base64.\<close>

definition b64url_encode :: "string \<Rightarrow> string" where
  "b64url_encode s = map (\<lambda>c. if c = CHR ''+'' then CHR ''-'' else if c = CHR ''/'' then CHR ''_'' else c) (b64_encode s)"

text \<open>\<open>rnd n\<close> is what \<open>rand.Read\<close> puts into \<open>n\<close> bytes.\<close>

definition generateCSRFToken :: "(nat \<Rightarrow> string option) \<Rightarrow> int \<Rightarrow> string option" where
  "generateCSRFToken rnd n = map_option b64url_encode (rnd (nat n))"

definition isSafeMethod :: "string \<Rightarrow> bool" where
  "isSafeMethod m \<longleftrightarrow> m = ''GET'' \<or> m = ''HEAD'' \<or> m = ''OPTIONS'' \<or> m = ''TRACE''"

definition isCSRFExempt :: "string \<Rightarrow> string list \<Rightarrow> string list \<Rightarrow> bool" where
  "isCSRFExempt path exemptPaths exemptPrefixes \<longleftrightarrow> path \<in> set exemptPaths \<or> list_ex (has_prefix path) exemptPrefixes"

definition extractCSRFToken :: "request \<Rightarrow> CSRFConfig \<Rightarrow> string" where
  "extractCSRFToken r cfg =
     (let a = header_get (rq_Header r) (csrf_HeaderName cfg); b = header_get (rq_Header r) ''X-XSRF-Token''
      in if a \<noteq> [] then a else if b \<noteq> [] then b else form_value (rq_Form r) (csrf_FieldName cfg))"

text \<open>The value of a \<open>Set-Cookie\<close> header, as far as the code chooses it.\<close>

definition set_cookie :: "string \<Rightarrow> string \<Rightarrow> string \<Rightarrow> headers \<Rightarrow> headers" where
  "set_cookie name v attrs hs = header_add ''Set-Cookie'' (name @ ''='' @ v @ attrs) hs"

definition setCSRFCookie :: "request \<Rightarrow> CSRFConfig \<Rightarrow> string \<Rightarrow> headers \<Rightarrow> headers" where
  "setCSRFCookie r cfg token hs =
     (let secure = (if csrf_Secure cfg = ''true'' then True else if csrf_Secure cfg = ''false'' then False else is_https r)
      in set_cookie (csrf_CookieName cfg) token
           (''; Path=/; Max-Age=86400'' @ (if secure then ''; Secure'' else []) @ ''; SameSite=Strict'') hs)"

definition csrf_defaults :: "CSRFConfig \<Rightarrow> CSRFConfig" where
  "csrf_defaults cfg =
     cfg\<lparr>csrf_TokenLength := if csrf_TokenLength cfg = 0 then 32 else csrf_TokenLength cfg,
         csrf_CookieName := if csrf_CookieName cfg = [] then ''csrf_token'' else csrf_CookieName cfg,
         csrf_HeaderName := if csrf_HeaderName cfg = [] then ''X-CSRF-Token'' else csrf_HeaderName cfg,
         csrf_FieldName := if csrf_FieldName cfg = [] then ''csrf_token'' else csrf_FieldName cfg,
         csrf_Secure := if csrf_Secure cfg = [] then ''auto'' else csrf_Secure cfg\<rparr>"

text \<open>A negative length of the token makes \<open>make\<close> panic.\<close>

definition csrf_safe :: "CSRFConfig \<Rightarrow> (nat \<Rightarrow> string option) \<Rightarrow> 's handler \<Rightarrow> 's handler" where
  "csrf_safe cfg rnd next r hs s =
     (let with_token = (\<lambda>token. next (r\<lparr>rq_csrf := Some token\<rparr>)
            (header_set (csrf_HeaderName cfg) token (setCSRFCookie r cfg token hs)) s);
          fresh = (if csrf_TokenLength cfg < 0 then (Panic hs None ''makeslice: len out of range'', s)
                   else (case generateCSRFToken rnd (csrf_TokenLength cfg) of
                           None \<Rightarrow> (http_Error ''Internal Server Error'' 500 hs, s)
                         | Some token \<Rightarrow> with_token token))
      in (case cookie_of r (csrf_CookieName cfg) of
            Some token \<Rightarrow> if token \<noteq> [] then with_token token else fresh
          | None \<Rightarrow> fresh))"

definition CSRFMiddleware :: "CSRFConfig \<Rightarrow> (nat \<Rightarrow> string option) \<Rightarrow> 's handler \<Rightarrow> 's handler" where
  "CSRFMiddleware config rnd next r hs s =
     (let cfg = csrf_defaults config
      in if \<not> csrf_Enabled config then next r hs s
         else if isCSRFExempt (rq_Path r) (csrf_ExemptPaths cfg) (csrf_ExemptPrefixes cfg) then next r hs s
         else if isSafeMethod (rq_Method r) then csrf_safe cfg rnd next r hs s
         else
           let cookieToken = (case cookie_of r (csrf_CookieName cfg) of None \<Rightarrow> [] | Some v \<Rightarrow> v);
               requestToken = extractCSRFToken r cfg
           in if cookieToken = [] then (http_Error ''CSRF token missing'' 403 hs, s)
              else if requestToken = [] then (http_Error ''CSRF token missing'' 403 hs, s)
              else if cookieToken \<noteq> requestToken then (http_Error ''CSRF token invalid'' 403 hs, s)
              else next r hs s)"

text \<open>The error of the generator is ignored, and its token is empty then.\<close>

definition GetCSRFToken :: "request \<Rightarrow> (nat \<Rightarrow> string option) \<Rightarrow> int \<Rightarrow> string" where
  "GetCSRFToken r rnd tokenLength =
     (let last_resort = (case generateCSRFToken rnd tokenLength of None \<Rightarrow> [] | Some t \<Rightarrow> t);
          from_cookie = (case cookie_of r ''csrf_token'' of
             Some v \<Rightarrow> if v \<noteq> [] then v else last_resort | None \<Rightarrow> last_resort)
      in (case rq_csrf r of Some t \<Rightarrow> if t \<noteq> [] then t else from_cookie | None \<Rightarrow> from_cookie))"

section \<open>The chain\<close>

record chain_env =
  ch_parse :: url_parser
  ch_debug :: bool
  ch_stack :: string
  ch_uuid :: string
  ch_headers :: SecurityHeadersConfig
  ch_cors :: CORSConfig
  ch_csrf :: CSRFConfig
  ch_random :: "nat \<Rightarrow> string option"
  ch_maintenance :: bool
  ch_page :: string

definition chain :: "chain_env \<Rightarrow> 's handler \<Rightarrow> 's handler" where
  "chain V app =
     URLNormalizeMiddleware (ch_parse V)
      (PathSecurityMiddleware
       (PanicRecoveryMiddleware (ch_debug V) (ch_stack V)
        (RequestIDMiddleware (ch_uuid V)
         (SecurityHeadersMiddleware (ch_headers V)
          (CORSMiddleware (ch_cors V)
           (CSRFMiddleware (ch_csrf V) (ch_random V)
            (MaintenanceMiddleware (ch_maintenance V) (ch_page V) app)))))))"

end
