(* ===== verification/Routes.thy ===== *)
theory Routes
  imports Mux Middleware
begin

text \<open>
  The routes of the server: the table of the outer router and the three tables of the administration
  (\<open>server/caspaste.go\<close>, \<open>server/debug.go\<close>, \<open>admin/routes.go\<close>), the compatibility middleware that runs
  before the router (\<open>compat/compat.go\<close>), and the pages that \<open>web.Handler\<close> chooses by path
  (\<open>web/web.go\<close>). Each table lists patterns and what they stand for, in the order of registration.
\<close>

section \<open>Administration\<close>

datatype admin_auth_page = Admin_login_page | Admin_login_post | Admin_logout | Admin_invite_accept

definition auth_routes :: "(string \<times> admin_auth_page) list" where
  "auth_routes =
    [(''GET /login'', Admin_login_page), (''POST /login'', Admin_login_post),
     (''GET /logout'', Admin_logout), (''POST /logout'', Admin_logout),
     (''GET /invite/server/{token}'', Admin_invite_accept), (''POST /invite/server/{token}'', Admin_invite_accept)]"

datatype admin_page =
    Setup | Dashboard | Profile | Profile_post | Preferences | Preferences_post | Notifications
  | Config_root | Admin_settings | Admin_settings_post | Ssl | Email | Email_post | Scheduler_page | Scheduler_post
  | Logs | Logs_audit | Backup | Backup_post | Updates | Info | Metrics | Admins | Admins_post
  | Network_root | Network_tor | Network_geoip | Security_root | Security_auth | Security_oidc | Security_ldap
  | Security_tokens | Security_tokens_post | Security_firewall

definition ui_routes :: "(string \<times> admin_page) list" where
  "ui_routes =
    [(''GET /config/setup'', Setup), (''POST /config/setup'', Setup),
     (''GET /'', Dashboard),
     (''GET /{username}/profile'', Profile), (''POST /{username}/profile'', Profile_post),
     (''GET /{username}/preferences'', Preferences), (''POST /{username}/preferences'', Preferences_post),
     (''GET /{username}/notifications'', Notifications),
     (''GET /config/'', Config_root),
     (''GET /config/settings'', Admin_settings), (''POST /config/settings'', Admin_settings_post),
     (''GET /config/ssl'', Ssl), (''GET /config/email'', Email), (''POST /config/email'', Email_post),
     (''GET /config/scheduler'', Scheduler_page), (''POST /config/scheduler'', Scheduler_post),
     (''GET /config/logs'', Logs), (''GET /config/logs/audit'', Logs_audit),
     (''GET /config/backup'', Backup), (''POST /config/backup'', Backup_post),
     (''GET /config/updates'', Updates), (''GET /config/info'', Info), (''GET /config/metrics'', Metrics),
     (''GET /config/admins'', Admins), (''POST /config/admins'', Admins_post),
     (''GET /config/network/'', Network_root), (''GET /config/network/tor'', Network_tor),
     (''GET /config/network/geoip'', Network_geoip),
     (''GET /config/security/'', Security_root), (''GET /config/security/auth'', Security_auth),
     (''GET /config/security/auth/oidc'', Security_oidc), (''GET /config/security/auth/ldap'', Security_ldap),
     (''GET /config/security/tokens'', Security_tokens), (''POST /config/security/tokens'', Security_tokens_post),
     (''GET /config/security/firewall'', Security_firewall)]"

text \<open>Every page but the first is wrapped in \<open>requireAuth\<close>.\<close>

definition needs_admin :: "admin_page \<Rightarrow> bool" where
  "needs_admin p \<longleftrightarrow> p \<noteq> Setup"

datatype admin_api =
    Api_status | Api_get_settings | Api_patch_settings | Api_info | Api_metrics | Api_scheduler | Api_scheduler_run
  | Api_logs | Api_list_backups | Api_create_backup | Api_ssl | Api_email | Api_email_test
  | Api_list_tokens | Api_create_token | Api_revoke_token | Api_tor | Api_geoip | Api_list_admins | Api_invite_admin

definition api_routes :: "(string \<times> admin_api) list" where
  "api_routes =
    [(''GET /config/status'', Api_status), (''GET /config/settings'', Api_get_settings),
     (''PATCH /config/settings'', Api_patch_settings), (''GET /config/info'', Api_info),
     (''GET /config/metrics'', Api_metrics), (''GET /config/scheduler'', Api_scheduler),
     (''POST /config/scheduler/{id}/run'', Api_scheduler_run), (''GET /config/logs'', Api_logs),
     (''GET /config/backup'', Api_list_backups), (''POST /config/backup'', Api_create_backup),
     (''GET /config/ssl'', Api_ssl), (''GET /config/email'', Api_email), (''POST /config/email/test'', Api_email_test),
     (''GET /config/security/tokens'', Api_list_tokens), (''POST /config/security/tokens'', Api_create_token),
     (''DELETE /config/security/tokens'', Api_revoke_token), (''GET /config/network/tor'', Api_tor),
     (''GET /config/network/geoip'', Api_geoip), (''GET /config/admins'', Api_list_admins),
     (''POST /config/admins'', Api_invite_admin)]"

section \<open>The outer router\<close>

datatype outer_page =
    Compat_paste | Web_pages | Raw_pastes | Api_v1 | Admin_auth | Admin_ui | Admin_api
  | Swagger_ui | Swagger_spec | Graphiql | Graphql_query | Prometheus | Debug_page

text \<open>\<open>SetAdminPath\<close> and \<open>SetAPIVersion\<close> are never called, so the paths are the defaults.\<close>

definition APIBasePath :: string where
  "APIBasePath = ''/api/v1''"

definition AdminBasePath :: string where
  "AdminBasePath = ''/server/admin''"

definition AdminAPIPath :: string where
  "AdminAPIPath = ''/api/v1/server/admin''"

definition first_routes :: "(string \<times> outer_page) list" where
  "first_routes =
     map (\<lambda>p. (p, Compat_paste))
       [''/sprunge'', ''/sprunge/'', ''/ix'', ''/ix/'', ''/termbin'', ''/nc'', ''/upload'', ''/p'', ''/compat'', ''/paste'',
        ''/documents'', ''/documents/'']
     @ [(''/'', Web_pages), (''/raw/'', Raw_pastes), (''/api/'', Api_v1)]"

definition last_routes :: "(string \<times> outer_page) list" where
  "last_routes =
     [(''/server/docs/swagger'', Swagger_ui), (''/api/swagger'', Swagger_spec),
      (APIBasePath @ ''/server/swagger'', Swagger_spec), (''/server/docs/graphql'', Graphiql),
      (''/api/graphql'', Graphql_query), (APIBasePath @ ''/server/graphql'', Graphql_query)]"

definition debug_routes :: "(string \<times> outer_page) list" where
  "debug_routes =
     map (\<lambda>p. (p, Debug_page))
       [''/debug/pprof/'', ''/debug/pprof/cmdline'', ''/debug/pprof/profile'', ''/debug/pprof/symbol'', ''/debug/pprof/trace'',
        ''/debug/pprof/heap'', ''/debug/pprof/goroutine'', ''/debug/pprof/allocs'', ''/debug/pprof/block'',
        ''/debug/pprof/mutex'', ''/debug/pprof/threadcreate'', ''/debug/vars'', ''/debug/config'', ''/debug/routes'',
        ''/debug/cache'', ''/debug/db'', ''/debug/scheduler'', ''/debug/memory'', ''/debug/goroutines'']"

definition admin_mounts :: "(string \<times> outer_page) list" where
  "admin_mounts = [(''/server/auth/'', Admin_auth), (AdminBasePath @ ''/'', Admin_ui), (AdminAPIPath @ ''/'', Admin_api)]"

text \<open>The metrics endpoint, if it is enabled, is a setting; \<open>debug\<close> is \<open>mode.IsDebugEnabled\<close>.\<close>

definition outer_list :: "string option \<Rightarrow> bool \<Rightarrow> (string \<times> outer_page) list" where
  "outer_list endpoint debug =
     first_routes @ admin_mounts @ last_routes
     @ (case endpoint of None \<Rightarrow> [] | Some e \<Rightarrow> [(if e = [] then ''/metrics'' else e, Prometheus)])
     @ (if debug then debug_routes else [])"

record tables =
  tb_outer :: "outer_page routes"
  tb_auth :: "admin_auth_page routes"
  tb_ui :: "admin_page routes"
  tb_api :: "admin_api routes"

text \<open>The registrations of \<open>main\<close> in their order: each table of the administration is built before it is mounted.\<close>

definition register_server :: "string option \<Rightarrow> bool \<Rightarrow> mux_panic + tables" where
  "register_server endpoint debug =
     and_then (register_all [] first_routes) (\<lambda>o1.
     and_then (register_all [] auth_routes) (\<lambda>auth.
     and_then (register_all o1 (take 1 admin_mounts)) (\<lambda>o2.
     and_then (register_all [] ui_routes) (\<lambda>ui.
     and_then (register_all o2 (take 1 (drop 1 admin_mounts))) (\<lambda>o3.
     and_then (register_all [] api_routes) (\<lambda>api.
     and_then (register_all o3 (drop 2 admin_mounts)) (\<lambda>o4.
     and_then (register_all o4 (drop (length (first_routes @ admin_mounts)) (outer_list endpoint debug))) (\<lambda>o5.
     Inr \<lparr>tb_outer = o5, tb_auth = auth, tb_ui = ui, tb_api = api\<rparr>))))))))"

section \<open>The compatibility middleware\<close>

datatype Mode = ModeNative | ModeLenpaste | ModeStikked | ModeMicrobin | ModeHastebin | ModePastebin | ModeTermbin

definition normalizeMode :: "string \<Rightarrow> Mode" where
  "normalizeMode s =
     (let s = to_lower (trim_space s) in
      if s \<in> {''lenpaste'', ''lp''} then ModeLenpaste
      else if s \<in> {''stikked'', ''stikq'', ''sk''} then ModeStikked
      else if s \<in> {''microbin'', ''mb''} then ModeMicrobin
      else if s \<in> {''hastebin'', ''haste''} then ModeHastebin
      else if s \<in> {''pastebin'', ''pb''} then ModePastebin
      else if s \<in> {''termbin'', ''tb'', ''nc''} then ModeTermbin
      else ModeNative)"

definition modeFromHost :: "string \<Rightarrow> Mode" where
  "modeFromHost host =
     (let host = (if CHR '':'' \<in> set host then rev (tl (dropWhile (\<lambda>c. c \<noteq> CHR '':'') (rev host))) else host);
          host = to_lower (trim_space host);
          first = takeWhile (\<lambda>c. c \<noteq> CHR ''.'') host
      in if host = [] then ModeNative
         else if first \<in> {''lp'', ''lenpaste''} then ModeLenpaste
         else if first \<in> {''mb'', ''microbin''} then ModeMicrobin
         else if first \<in> {''sk'', ''stikked'', ''stikq''} then ModeStikked
         else if first \<in> {''haste'', ''hastebin''} then ModeHastebin
         else if first \<in> {''pb'', ''pastebin''} then ModePastebin
         else if first \<in> {''tb'', ''termbin'', ''nc''} then ModeTermbin
         else ModeNative)"

text \<open>The two fields that \<open>Load\<close> takes from the environment; an empty mode does not occur after \<open>Load\<close>.\<close>

record compat_data =
  cd_EnvMode :: Mode
  cd_ForceHost :: bool

definition compat_Load :: "string \<Rightarrow> string \<Rightarrow> compat_data" where
  "compat_Load api_mode force_host =
     \<lparr>cd_EnvMode = normalizeMode api_mode,
      cd_ForceHost = (to_lower (trim_space force_host) \<notin> {''no'', ''false'', ''0''})\<rparr>"

definition detectMode :: "compat_data \<Rightarrow> request \<Rightarrow> Mode" where
  "detectMode d r =
     (if cd_ForceHost d then
        (if modeFromHost (rq_Host r) \<noteq> ModeNative then modeFromHost (rq_Host r) else cd_EnvMode d)
      else if cd_EnvMode d \<noteq> ModeNative then cd_EnvMode d
      else modeFromHost (rq_Host r))"

text \<open>\<open>shim m\<close> is the handler of a mode; \<open>None\<close> if the path is not its own.\<close>

definition compat_Middleware :: "compat_data \<Rightarrow> (Mode \<Rightarrow> request \<Rightarrow> headers \<Rightarrow> 's \<Rightarrow> (reply \<times> 's) option) \<Rightarrow> 's handler \<Rightarrow> 's handler" where
  "compat_Middleware d shim next r hs s =
     (if detectMode d r = ModeNative then next r hs s
      else (case shim (detectMode d r) r hs s of Some res \<Rightarrow> res | None \<Rightarrow> next r hs s))"

section \<open>The pages of the site\<close>

datatype web_page =
    Healthz | Robots | Sitemap | Favicon | Security_txt | Style_css | Main_js | Toast_js | Nav_js | Settings_js
  | History_js | Code_js | Paste_js | Manifest | Service_worker | About | Privacy | Contact | Terms_of_use | Consent
  | Authors | License | Source_code | Security_policy | Docs | Docs_apiv1 | Docs_libraries | Docs_customize | Docs_cli
  | Login_page | Login_submit | Logout | New_paste | List_pastes | Settings | Download | Embedded | Embedded_help
  | Url_redirect | Qr_code | Edit_paste | Get_paste | Go_to string int

definition exact_pages :: "(string \<times> web_page) list" where
  "exact_pages =
    [(''/server/healthz'', Healthz), (''/robots.txt'', Robots), (''/sitemap.xml'', Sitemap), (''/favicon.ico'', Favicon),
     (''/.well-known/security.txt'', Security_txt), (''/.well-known/change-password'', Go_to ''/auth/login'' 302),
     (''/style.css'', Style_css), (''/main.js'', Main_js), (''/toast.js'', Toast_js), (''/nav.js'', Nav_js),
     (''/settings.js'', Settings_js), (''/history.js'', History_js), (''/code.js'', Code_js), (''/paste.js'', Paste_js),
     (''/manifest.json'', Manifest), (''/sw.js'', Service_worker),
     (''/server'', Go_to ''/server/about'' 301), (''/server/about'', About), (''/server/privacy'', Privacy),
     (''/server/contact'', Contact), (''/server/terms'', Terms_of_use), (''/server/consent'', Consent),
     (''/server/about/authors'', Authors), (''/server/about/license'', License),
     (''/server/about/source_code'', Source_code), (''/server/about/security'', Security_policy), (''/server/help'', Docs),
     (''/about'', Go_to ''/server/about'' 301), (''/about/authors'', Go_to ''/server/about/authors'' 301),
     (''/about/license'', Go_to ''/server/about/license'' 301),
     (''/about/source_code'', Go_to ''/server/about/source_code'' 301),
     (''/about/security'', Go_to ''/server/about/security'' 301),
     (''/docs'', Docs), (''/docs/apiv1'', Docs_apiv1), (''/docs/libraries'', Docs_libraries),
     (''/docs/api_libs'', Go_to ''/docs/libraries'' 301), (''/docs/customize'', Docs_customize), (''/docs/cli'', Docs_cli),
     (''/server/auth/logout'', Logout), (''/login'', Go_to ''/server/auth/login'' 301),
     (''/logout'', Go_to ''/server/auth/logout'' 301),
     (''/'', New_paste), (''/list'', List_pastes), (''/settings'', Settings), (''/terms'', Go_to ''/server/terms'' 301)]"

definition prefix_pages :: "(string \<times> web_page) list" where
  "prefix_pages =
    [(''/dl/'', Download), (''/emb/'', Embedded), (''/emb_help/'', Embedded_help), (''/u/'', Url_redirect),
     (''/qr/'', Qr_code), (''/edit/'', Edit_paste)]"

definition page_of :: "bool \<Rightarrow> string \<Rightarrow> string \<Rightarrow> web_page" where
  "page_of healthzRoot meth path =
     (if path = ''/healthz'' then (if healthzRoot then Healthz else Get_paste)
      else if path = ''/server/auth/login'' then (if meth = ''POST'' then Login_submit else Login_page)
      else (case map_of exact_pages path of
              Some p \<Rightarrow> p
            | None \<Rightarrow> (case find (\<lambda>(pre, p). has_prefix path pre) prefix_pages of Some (pre, p) \<Rightarrow> p | None \<Rightarrow> Get_paste)))"

text \<open>What runs behind the chain: the compatibility middleware in front of the router.\<close>

definition site ::
    "url_parser \<Rightarrow> compat_data \<Rightarrow> (Mode \<Rightarrow> request \<Rightarrow> headers \<Rightarrow> 's \<Rightarrow> (reply \<times> 's) option) \<Rightarrow> outer_page routes \<Rightarrow>
     (outer_page \<Rightarrow> (string \<times> string) list \<Rightarrow> 's handler) \<Rightarrow> 's handler" where
  "site parse cd shim rs handlers = compat_Middleware cd shim (ServeMux parse rs handlers)"

end
