(* ===== verification/Web_Auth.thy ===== *)
theory Web_Auth
  imports Routes Brute_Force
begin

text \<open>
  Sessions of the site and the pages they protect: \<open>web/auth.go\<close>, \<open>web/redirect.go\<close> and \<open>web.Handler\<close>
  (\<open>web/web.go\<close>). HMAC-SHA256 and the RFC 3339 format of times are functions of a record; a time is a
  number of nanoseconds. A page is an arbitrary handler. The existence of the password file is read twice
  by a protected request, so it is two arguments.
\<close>

section \<open>Session tokens\<close>

definition b64url_decode :: "string \<Rightarrow> string option" where
  "b64url_decode s =
     (if CHR ''+'' \<in> set s \<or> CHR ''/'' \<in> set s then None
      else b64_decode (map (\<lambda>c. if c = CHR ''-'' then CHR ''+'' else if c = CHR ''_'' then CHR ''/'' else c) s))"

record session_env =
  se_secret :: string
  se_hmac :: "string \<Rightarrow> string \<Rightarrow> string"
  se_format :: "int \<Rightarrow> string"
  se_parse :: "string \<Rightarrow> int option"

definition seconds :: "int \<Rightarrow> int" where
  "seconds t = t div 1000000000"

definition session_data :: "string \<Rightarrow> int \<Rightarrow> string" where
  "session_data username t = username @ '':'' @ show_int (seconds t)"

definition signature :: "session_env \<Rightarrow> string \<Rightarrow> int \<Rightarrow> string" where
  "signature V username t = b64url_encode (se_hmac V (se_secret V) (session_data username t))"

text \<open>The clock is read twice: for the signature and for the text of the token.\<close>

definition generateSessionToken :: "session_env \<Rightarrow> string \<Rightarrow> int \<Rightarrow> int \<Rightarrow> string" where
  "generateSessionToken V username now1 now2 =
     b64url_encode username @ ''.'' @ b64url_encode (se_format V now2) @ ''.'' @ signature V username now1"

definition sessionDuration :: int where
  "sessionDuration = 86400000000000"

definition validateSessionToken :: "session_env \<Rightarrow> int \<Rightarrow> string \<Rightarrow> string option" where
  "validateSessionToken V now token =
     (case split_char CHR ''.'' token of
        [user, time, sig] \<Rightarrow>
          (case b64url_decode user of
             None \<Rightarrow> None
           | Some username \<Rightarrow>
               (case b64url_decode time of
                  None \<Rightarrow> None
                | Some text \<Rightarrow>
                    (case se_parse V text of
                       None \<Rightarrow> None
                     | Some timestamp \<Rightarrow>
                         if now - timestamp > sessionDuration then None
                         else if sig \<noteq> signature V username timestamp then None
                         else Some username)))
      | _ \<Rightarrow> None)"

definition isAuthenticated :: "session_env \<Rightarrow> int \<Rightarrow> request \<Rightarrow> bool" where
  "isAuthenticated V now r =
     (case cookie_of r ''caspaste_session'' of
        None \<Rightarrow> False
      | Some token \<Rightarrow> validateSessionToken V now token \<noteq> None)"

section \<open>Logging in and out\<close>

definition writeRedirect :: "request \<Rightarrow> string \<Rightarrow> int \<Rightarrow> headers \<Rightarrow> reply" where
  "writeRedirect r newURL code hs =
     (let newURL = (if newURL = [] then ''/'' else newURL);
          newURL = (if rq_RawQuery r \<noteq> [] then newURL @ ''?'' @ rq_RawQuery r else newURL)
      in Reply code (header_set ''Location'' newURL hs) [])"

definition setSessionCookie :: "session_env \<Rightarrow> request \<Rightarrow> string \<Rightarrow> int \<Rightarrow> int \<Rightarrow> headers \<Rightarrow> headers" where
  "setSessionCookie V r username now1 now2 hs =
     set_cookie ''caspaste_session'' (generateSessionToken V username now1 now2)
       (''; Path=/; Max-Age=86400; HttpOnly'' @ (if is_https r then ''; Secure'' else []) @ ''; SameSite=Strict'') hs"

definition clearSessionCookie :: "headers \<Rightarrow> headers" where
  "clearSessionCookie hs = set_cookie ''caspaste_session'' [] ''; Path=/; Max-Age=0; HttpOnly'' hs"

text \<open>\<open>form err redirect\<close> renders the login page.\<close>

definition handleLoginPage :: "session_env \<Rightarrow> int \<Rightarrow> (bool \<Rightarrow> string \<Rightarrow> string) \<Rightarrow> request \<Rightarrow> headers \<Rightarrow> reply" where
  "handleLoginPage V now form r hs =
     (if isAuthenticated V now r then writeRedirect r ''/'' 302 hs
      else
        let redirect = form_value (rq_Query r) ''redirect''
        in Reply 200 (header_set ''Content-Type'' ''text/html; charset=utf-8'' hs)
             (form False (if redirect = [] then ''/'' else redirect)))"

text \<open>
  The reply to a submitted login form: the decision is \<open>handleLoginSubmit\<close>. The rehash of an old password
  runs in the background.
\<close>

definition login_reply ::
    "session_env \<Rightarrow> int \<Rightarrow> int \<Rightarrow> (bool \<Rightarrow> string \<Rightarrow> string) \<Rightarrow> request \<Rightarrow> headers \<Rightarrow> login_result \<Rightarrow> reply" where
  "login_reply V now1 now2 form r hs res =
     (case res of
        Login_error redirect retry \<Rightarrow>
          Reply 401 (header_set ''Content-Type'' ''text/html; charset=utf-8''
            (case retry of None \<Rightarrow> hs | Some s \<Rightarrow> header_set ''Retry-After'' (show_int s) hs)) (form True redirect)
      | Logged_in redirect rehash \<Rightarrow>
          writeRedirect r redirect 302 (setSessionCookie V r (form_value (rq_Form r) ''username'') now1 now2 hs)
      | Login_panic \<Rightarrow> Panic hs None ''password check'')"

definition handleLogout :: "request \<Rightarrow> headers \<Rightarrow> reply" where
  "handleLogout r hs =
     writeRedirect r ''/'' 302
       (header_set ''Clear-Site-Data'' ''\"cache\", \"cookies\", \"storage\"'' (clearSessionCookie hs))"

section \<open>Protected pages\<close>

definition IsAuthRequired :: "bool \<Rightarrow> string \<Rightarrow> bool \<Rightarrow> bool" where
  "IsAuthRequired public passwdFile exists \<longleftrightarrow> \<not> public \<and> passwdFile \<noteq> [] \<and> exists"

definition IsPublicPath :: "string \<Rightarrow> bool" where
  "IsPublicPath path \<longleftrightarrow>
     path \<in> set [''/login'', ''/logout'', ''/server/auth/login'', ''/server/auth/logout'', ''/healthz'', ''/style.css'',
       ''/main.js'', ''/toast.js'', ''/nav.js'', ''/history.js'', ''/code.js'', ''/paste.js'', ''/manifest.json'', ''/sw.js'',
       ''/robots.txt'', ''/sitemap.xml'', ''/favicon.ico'', ''/.well-known/security.txt'', ''/openapi'', ''/openapi.json'']
     \<or> list_ex (\<lambda>pre. path = pre \<or> has_prefix path (pre @ ''/''))
         [''/server/auth'', ''/auth'', ''/server/about'', ''/about'', ''/docs'', ''/terms'']"

record web_data =
  wd_Version :: string
  wd_Public :: bool
  wd_CasPasswdFile :: string
  wd_HealthzRootEnabled :: bool
  wd_session :: session_env

text \<open>\<open>None\<close> lets the request pass.\<close>

definition requireAuth :: "web_data \<Rightarrow> bool \<Rightarrow> int \<Rightarrow> request \<Rightarrow> headers \<Rightarrow> reply option" where
  "requireAuth d exists now r hs =
     (if \<not> IsAuthRequired (wd_Public d) (wd_CasPasswdFile d) exists then None
      else if isAuthenticated (wd_session d) now r then None
      else
        let redirect = rq_Path r @ (if rq_RawQuery r \<noteq> [] then ''?'' @ rq_RawQuery r else [])
        in Some (writeRedirect r (''/server/auth/login?redirect='' @ redirect) 302 hs))"

definition web_Handler ::
    "web_data \<Rightarrow> url_parser \<Rightarrow> bool \<times> bool \<Rightarrow> int \<Rightarrow> (web_page \<Rightarrow> 's handler) \<Rightarrow> 's handler" where
  "web_Handler d parse stats now pages r hs s =
     (let hs = header_set ''Server'' (''CasPaste/'' @ wd_Version d) hs;
          run = (case page_of (wd_HealthzRootEnabled d) (rq_Method r) (rq_Path r) of
                   Go_to url code \<Rightarrow> (http_Redirect parse r url code hs, s)
                 | page \<Rightarrow> pages page r hs s)
      in if IsAuthRequired (wd_Public d) (wd_CasPasswdFile d) (fst stats) \<and> \<not> IsPublicPath (rq_Path r)
         then (case requireAuth d (snd stats) now r hs of Some rep \<Rightarrow> (rep, s) | None \<Rightarrow> run)
         else run)"

end
