(* ===== verification/Chain_Laws.thy ===== *)
theory Chain_Laws
  imports Middleware
begin

text \<open>
  What the chain guarantees whatever the application does: which requests reach it, that a forged
  request changes nothing, and which headers every reply carries.
\<close>

lemmas chain_defs = chain_def URLNormalizeMiddleware_def PathSecurityMiddleware_def PanicRecoveryMiddleware_def
  RequestIDMiddleware_def SecurityHeadersMiddleware_def CORSMiddleware_def CSRFMiddleware_def csrf_safe_def
  MaintenanceMiddleware_def

section \<open>Who reaches the application\<close>

definition canonical_path :: "string \<Rightarrow> bool" where
  "canonical_path p \<longleftrightarrow> p = ''/'' \<or> \<not> (length p > 1 \<and> has_suffix p ''/'')"

text \<open>No \<open>..\<close> in the path or in its decoding, nor twice in the query.\<close>

definition no_traversal :: "request \<Rightarrow> bool" where
  "no_traversal r \<longleftrightarrow> \<not> contains_str (rq_Path r) ''..''
     \<and> (\<exists>d. PathUnescape (rq_Path r) = Some d \<and> \<not> contains_str d ''..'')
     \<and> \<not> (contains_str (rq_RawQuery r) ''..'' \<and> (\<exists>q. QueryUnescape (rq_RawQuery r) = Some q \<and> contains_str q ''..''))"

text \<open>The same non-empty token in the cookie and in a header or the form.\<close>

definition double_submit :: "CSRFConfig \<Rightarrow> request \<Rightarrow> bool" where
  "double_submit cfg r \<longleftrightarrow>
     (\<exists>t. t \<noteq> [] \<and> cookie_of r (csrf_CookieName (csrf_defaults cfg)) = Some t \<and> extractCSRFToken r (csrf_defaults cfg) = t)"

definition csrf_exempt :: "CSRFConfig \<Rightarrow> request \<Rightarrow> bool" where
  "csrf_exempt cfg r \<longleftrightarrow> isCSRFExempt (rq_Path r) (csrf_ExemptPaths cfg) (csrf_ExemptPrefixes cfg)"

lemma csrf_defaults_exempt [simp]:
  "csrf_ExemptPaths (csrf_defaults cfg) = csrf_ExemptPaths cfg"
  "csrf_ExemptPrefixes (csrf_defaults cfg) = csrf_ExemptPrefixes cfg"
  by (simp_all add: csrf_defaults_def)

lemma csrf_blocks:
  assumes "csrf_Enabled cfg" and "\<not> csrf_exempt cfg r" and "\<not> isSafeMethod (rq_Method r)" and "\<not> double_submit cfg r"
  shows "\<exists>e. CSRFMiddleware cfg rnd next r hs s = (http_Error e 403 hs, s)"
  using assms
  by (auto simp: CSRFMiddleware_def Let_def csrf_exempt_def double_submit_def split: option.splits)

lemma cookie_of_id [simp]: "cookie_of (r\<lparr>rq_id := i\<rparr>) n = cookie_of r n"
  by (simp add: cookie_of_def)

lemma extract_id [simp]: "extractCSRFToken (r\<lparr>rq_id := i\<rparr>) cfg = extractCSRFToken r cfg"
  by (simp add: extractCSRFToken_def Let_def)

lemma csrf_id [simp]:
  "csrf_exempt cfg (r\<lparr>rq_id := i\<rparr>) = csrf_exempt cfg r" "double_submit cfg (r\<lparr>rq_id := i\<rparr>) = double_submit cfg r"
  by (simp_all add: csrf_exempt_def double_submit_def)

text \<open>A stage answers by itself when neither the reply nor the state depends on the application.\<close>

definition answers :: "('s handler \<Rightarrow> 's handler) \<Rightarrow> request \<Rightarrow> 's \<Rightarrow> bool" where
  "answers m r s \<longleftrightarrow> (\<forall>hs app. snd (m app r hs s) = s \<and> (\<forall>app'. m app r hs s = m app' r hs s))"

lemma answersE:
  assumes "answers m r s"
  obtains f where "\<And>app hs. m app r hs s = (f hs, s)"
proof
  show "m app r hs s = (fst (m undefined r hs s), s)" for app hs
    using assms unfolding answers_def by (metis prod.collapse)
qed

lemma answers_panic:
  assumes "answers m r s"
  shows "answers (\<lambda>app. PanicRecoveryMiddleware debug stack (m app)) r s"
  using assms
  by (rule answersE) (auto simp: answers_def PanicRecoveryMiddleware_def Let_def split: reply.split option.split)

lemma answers_id:
  assumes "answers m (r\<lparr>rq_id := Some (request_id fresh r)\<rparr>) s"
  shows "answers (\<lambda>app. RequestIDMiddleware fresh (m app)) r s"
  using assms by (rule answersE) (auto simp: answers_def RequestIDMiddleware_def Let_def)

lemma answers_security:
  assumes "answers m r s"
  shows "answers (\<lambda>app. SecurityHeadersMiddleware cfg (m app)) r s"
  using assms by (rule answersE) (auto simp: answers_def SecurityHeadersMiddleware_def)

lemma answers_cors:
  assumes "answers m r s"
  shows "answers (\<lambda>app. CORSMiddleware cfg (m app)) r s"
  using assms by (rule answersE) (auto simp: answers_def CORSMiddleware_def Let_def)

lemma answers_preflight: "cors_Enabled cfg \<Longrightarrow> rq_Method r = ''OPTIONS'' \<Longrightarrow> answers (\<lambda>app. CORSMiddleware cfg (m app)) r s"
  by (auto simp: answers_def CORSMiddleware_def Let_def)

lemma answers_maintenance: "answers (\<lambda>app. MaintenanceMiddleware True page app) r s"
  by (auto simp: answers_def MaintenanceMiddleware_def)

lemma answers_csrf:
  assumes "\<And>r. answers m r s"
  shows "answers (\<lambda>app. CSRFMiddleware cfg rnd (m app)) r s"
proof -
  have "\<exists>f. \<forall>app hs. m app r' hs s = (f hs, s)" for r' using answersE [OF assms] by metis
  then obtain f where f: "\<And>app r' hs. m app r' hs s = (f r' hs, s)" by metis
  show ?thesis
    by (auto simp: answers_def CSRFMiddleware_def csrf_safe_def Let_def f split: option.split)
qed

lemma answers_forged:
  assumes "csrf_Enabled cfg" and "\<not> csrf_exempt cfg r" and "\<not> isSafeMethod (rq_Method r)" and "\<not> double_submit cfg r"
  shows "answers (\<lambda>app. CSRFMiddleware cfg rnd (m app)) r s"
  using assms
  by (auto simp: answers_def CSRFMiddleware_def Let_def csrf_exempt_def double_submit_def split: option.splits)

lemma answers_traversal: "\<not> no_traversal r \<Longrightarrow> answers (\<lambda>app. PathSecurityMiddleware (m app)) r s"
  by (auto simp: answers_def PathSecurityMiddleware_def Let_def no_traversal_def split: option.split)

lemma answers_path:
  assumes "answers m r s"
  shows "answers (\<lambda>app. PathSecurityMiddleware (m app)) r s"
  using assms by (rule answersE) (auto simp: answers_def PathSecurityMiddleware_def Let_def split: option.split)

lemma answers_slash: "\<not> canonical_path (rq_Path r) \<Longrightarrow> answers (\<lambda>app. URLNormalizeMiddleware parse (m app)) r s"
  by (auto simp: answers_def URLNormalizeMiddleware_def Let_def canonical_path_def)

lemma answers_normalize:
  assumes "answers m r s"
  shows "answers (\<lambda>app. URLNormalizeMiddleware parse (m app)) r s"
  using assms by (rule answersE) (auto simp: answers_def URLNormalizeMiddleware_def Let_def)

lemmas answers_outer = answers_normalize answers_path answers_panic answers_id answers_security answers_cors

text \<open>
  C9: A request that changes the state of the server, or whose reply depends on the application at all,
  has a canonical path without path traversal, even after decoding, comes outside of maintenance, is no
  preflight, and, if cross-site protection is on and it is neither exempt nor of a safe method, carries in
  its cookie and its header or form the same non-empty token.
\<close>

theorem application_is_gated:
  assumes "snd (chain V app r hs s) \<noteq> s \<or> (\<exists>app'. chain V app' r hs s \<noteq> chain V app r hs s)"
  shows "canonical_path (rq_Path r) \<and> no_traversal r \<and> \<not> ch_maintenance V
     \<and> (cors_Enabled (ch_cors V) \<longrightarrow> rq_Method r \<noteq> ''OPTIONS'')
     \<and> (csrf_Enabled (ch_csrf V) \<longrightarrow> csrf_exempt (ch_csrf V) r \<or> isSafeMethod (rq_Method r) \<or> double_submit (ch_csrf V) r)"
proof (rule ccontr)
  assume "\<not> ?thesis"
  then consider "\<not> canonical_path (rq_Path r)" | "\<not> no_traversal r" | "ch_maintenance V"
    | "cors_Enabled (ch_cors V)" "rq_Method r = ''OPTIONS''"
    | "csrf_Enabled (ch_csrf V)" "\<not> csrf_exempt (ch_csrf V) r" "\<not> isSafeMethod (rq_Method r)" "\<not> double_submit (ch_csrf V) r"
    by blast
  then have "answers (chain V) r s"
  proof cases
    case 1
    then show ?thesis unfolding chain_def by (rule answers_slash)
  next
    case 2
    then show ?thesis unfolding chain_def by (intro answers_normalize answers_traversal)
  next
    case 3
    then show ?thesis unfolding chain_def by (simp only: answers_outer answers_csrf answers_maintenance)
  next
    case 4
    then show ?thesis unfolding chain_def
      by (intro answers_normalize answers_path answers_panic answers_id answers_security answers_preflight) simp_all
  next
    case 5
    then show ?thesis unfolding chain_def by (intro answers_outer answers_forged) simp_all
  qed
  with assms show False unfolding answers_def by metis
qed


section \<open>Redirects\<close>

text \<open>
  The redirect of a trailing slash leaves the site: the path of a request may start with two
  slashes, and \<open>//host/\<close> is answered with a permanent redirect to \<open>//host\<close>, which a browser takes for another
  host.
\<close>

theorem trailing_slash_leaves_site:
  assumes "rq_Path r = ''//'' @ h @ ''/''" and "rq_RawQuery r = []" and "ascii_str h" and "h \<noteq> []"
    and "ch_parse V (''//'' @ h) = Some ([], h)"
  shows "\<exists>hs'. chain V app r hs s = (Reply 301 hs' [], s) \<and> header_get hs' ''Location'' = ''//'' @ h"
proof -
  have "trim_suffix (''//'' @ h @ ''/'') ''/'' = ''//'' @ h"
    by (simp add: trim_suffix_def has_suffix_iff)
  moreover have "has_suffix (rq_Path r) ''/''" "rq_Path r \<noteq> ''/''" "length (rq_Path r) > 1"
    using assms(1) by (auto simp: has_suffix_iff)
  moreover have "redirect_target (ch_parse V) (rq_Path r) (''//'' @ h) = ''//'' @ h"
    using assms(4,5) by (simp add: redirect_target_def)
  moreover have "hexEscapeNonASCII (''//'' @ h) = ''//'' @ h"
    using assms(3) by (intro hexEscape_ascii) simp
  moreover have "\<not> same_name ''Content-Type'' ''Location''" by code_simp
  ultimately show ?thesis
    using assms(1,2) by (auto simp: chain_def URLNormalizeMiddleware_def Let_def http_Redirect_def header_get_set)
qed

section \<open>Cross-site protection works for the site itself\<close>

lemma b64url_not_Nil: "bs \<noteq> [] \<Longrightarrow> b64url_encode bs \<noteq> []"
  by (cases bs rule: b64_encode.cases) (auto simp: b64url_encode_def)

text \<open>
  C10: The double submit works: a page that is loaded without a token cookie gets a fresh non-empty
  token, the form on it carries the same token that the cookie is set to, and any request that sends the
  cookie back and the token in its form is handed to the application unchanged.
\<close>

theorem csrf_round_trip:
  assumes "csrf_Enabled cfg" and "\<not> csrf_exempt cfg r" and "isSafeMethod (rq_Method r)"
    and "cookie_of r (csrf_CookieName (csrf_defaults cfg)) = None" and "csrf_TokenLength (csrf_defaults cfg) > 0"
    and "rnd (nat (csrf_TokenLength (csrf_defaults cfg))) = Some bs" and "bs \<noteq> []"
    and "\<not> same_name ''Set-Cookie'' (csrf_HeaderName (csrf_defaults cfg))"
  shows "\<exists>t hs'. t \<noteq> [] \<and> CSRFMiddleware cfg rnd app r hs s = app (r\<lparr>rq_csrf := Some t\<rparr>) hs' s
     \<and> (\<exists>attrs. (''Set-Cookie'', csrf_CookieName (csrf_defaults cfg) @ ''='' @ t @ attrs) \<in> set hs')
     \<and> GetCSRFToken (r\<lparr>rq_csrf := Some t\<rparr>) rnd' n = t
     \<and> (\<forall>r2 app2 hs2 s2. \<not> isSafeMethod (rq_Method r2) \<and> cookie_of r2 (csrf_CookieName (csrf_defaults cfg)) = Some t
          \<and> extractCSRFToken r2 (csrf_defaults cfg) = t \<longrightarrow> CSRFMiddleware cfg rnd app2 r2 hs2 s2 = app2 r2 hs2 s2)"
proof -
  let ?t = "b64url_encode bs"
  let ?cfg = "csrf_defaults cfg"
  let ?hs = "header_set (csrf_HeaderName ?cfg) ?t (setCSRFCookie r ?cfg ?t hs)"
  have t: "?t \<noteq> []" by (rule b64url_not_Nil [OF assms(7)])
  have "CSRFMiddleware cfg rnd app r hs s = app (r\<lparr>rq_csrf := Some ?t\<rparr>) ?hs s"
    using assms by (auto simp: CSRFMiddleware_def csrf_safe_def Let_def csrf_exempt_def generateCSRFToken_def)
  moreover have "GetCSRFToken (r\<lparr>rq_csrf := Some ?t\<rparr>) rnd' n = ?t" using t by (simp add: GetCSRFToken_def Let_def)
  moreover have "\<exists>attrs. (''Set-Cookie'', csrf_CookieName ?cfg @ ''='' @ ?t @ attrs) \<in> set ?hs"
    using assms(8) by (simp only: header_set_def setCSRFCookie_def set_cookie_def header_add_def Let_def) auto
  moreover have "CSRFMiddleware cfg rnd app2 r2 hs2 s2 = app2 r2 hs2 s2"
    if "\<not> isSafeMethod (rq_Method r2)" "cookie_of r2 (csrf_CookieName ?cfg) = Some ?t" "extractCSRFToken r2 ?cfg = ?t"
    for r2 app2 hs2 and s2 :: 'b
    using that t assms(1) by (auto simp: CSRFMiddleware_def Let_def)
  ultimately show ?thesis using t by blast
qed

section \<open>Headers of replies\<close>

text \<open>A handler leaves a header alone when it is in the reply what it was before.\<close>

definition leaves :: "string \<Rightarrow> 's handler \<Rightarrow> bool" where
  "leaves k m \<longleftrightarrow> (\<forall>r hs s. header_get (reply_headers (fst (m r hs s))) k = header_get hs k)"

lemma header_get_add: "header_get (header_add k v hs) k' = (if same_name k k' \<and> find (\<lambda>(a, b). same_name a k') hs = None
     then v else header_get hs k')"
  unfolding header_get_def header_add_def find_append by (auto simp: value_of_def split: option.split)

lemma header_get_add_other: "\<not> same_name k k' \<Longrightarrow> header_get (header_add k v hs) k' = header_get hs k'"
  by (simp add: header_get_add)

text \<open>None of the headers that the inner stages set.\<close>

definition foreign :: "CSRFConfig \<Rightarrow> string \<Rightarrow> bool" where
  "foreign cfg k \<longleftrightarrow> list_all (\<lambda>n. \<not> same_name n k)
     (csrf_HeaderName (csrf_defaults cfg) # [''Set-Cookie'', ''Content-Type'', ''X-Content-Type-Options'', ''Retry-After'',
      ''Access-Control-Max-Age'', ''Access-Control-Allow-Headers'', ''Access-Control-Allow-Methods'', ''Vary'',
      ''Access-Control-Allow-Credentials'', ''Access-Control-Allow-Origin''])"

lemma leaves_inner:
  assumes "foreign cfg k" and "leaves k app"
  shows "leaves k (CORSMiddleware cors (CSRFMiddleware cfg rnd (MaintenanceMiddleware mt page app)))"
proof -
  have m: "leaves k (MaintenanceMiddleware mt page app)"
    using assms by (auto simp: leaves_def MaintenanceMiddleware_def foreign_def header_get_set)
  have "leaves k (CSRFMiddleware cfg rnd (MaintenanceMiddleware mt page app))"
    using m assms(1)
    by (auto simp: leaves_def CSRFMiddleware_def csrf_safe_def Let_def foreign_def header_get_set setCSRFCookie_def
        set_cookie_def header_get_add_other http_Error_def split: option.split)
  then show ?thesis
    using assms(1)
    by (auto simp: leaves_def CORSMiddleware_def cors_origin_def Let_def foreign_def header_get_set header_get_add_other)
qed

lemma leaves_panic:
  assumes "foreign cfg k" and "leaves k m"
  shows "leaves k (PanicRecoveryMiddleware debug stack m)"
proof -
  have "header_get (reply_headers (fst (PanicRecoveryMiddleware debug stack m r hs s))) k = header_get hs k" for r hs s
    using assms unfolding leaves_def
    by (cases "m r hs s"; cases "fst (m r hs s)")
      (auto simp: PanicRecoveryMiddleware_def Let_def foreign_def header_get_set leaves_def split: option.split
        dest!: spec [of _ r] spec [of _ hs] spec [of _ s])
  then show ?thesis by (simp add: leaves_def)
qed

lemma header_get_sets:
  "header_get (foldl (\<lambda>hs (k, v). header_set k v hs) hs kvs) k'
   = (case find (\<lambda>(k, v). same_name k k') (rev kvs) of None \<Rightarrow> header_get hs k' | Some (k, v) \<Rightarrow> v)"
  by (induction kvs rule: rev_induct) (auto simp: header_get_set)


definition security_names :: "string list" where
  "security_names =[''X-Frame-Options'', ''X-Content-Type-Options'', ''X-XSS-Protection'',
     ''Content-Security-Policy'', ''Referrer-Policy'', ''Permissions-Policy'', ''Origin-Agent-Cluster'',
     ''X-Permitted-Cross-Domain-Policies'', ''Cross-Origin-Opener-Policy'', ''Cross-Origin-Embedder-Policy'',
     ''Cross-Origin-Resource-Policy'', ''Strict-Transport-Security'', ''Reporting-Endpoints'', ''Report-To'', ''NEL'']"

lemma security_header_names:
  "fst ` set (security_headers cfg r) \<subseteq> set security_names"
  by (auto simp: security_names_def security_headers_def Let_def split: if_splits)

lemma one_name:
  assumes "(k, v) \<in> set kvs" and "\<And>k' v'. (k', v') \<in> set kvs \<Longrightarrow> same_name k' k \<Longrightarrow> v' = v"
  shows "header_get (foldl (\<lambda>hs (k, v). header_set k v hs) hs kvs) k = v"
proof -
  have "find (\<lambda>(a, b). same_name a k) (rev kvs) \<noteq> None"
    using assms(1) unfolding find_None_iff_ball by force
  then obtain k' v' where f: "find (\<lambda>(a, b). same_name a k) (rev kvs) = Some (k', v')" by auto
  then have "(k', v') \<in> set kvs \<and> same_name k' k" using find_Some_props [OF f] by auto
  with assms(2) f show ?thesis by (auto simp: header_get_sets)
qed

lemma no_name:
  assumes "\<And>k' v'. (k', v') \<in> set kvs \<Longrightarrow> \<not> same_name k' k"
  shows "header_get (foldl (\<lambda>hs (k, v). header_set k v hs) hs kvs) k = header_get hs k"
proof -
  have "find (\<lambda>(a, b). same_name a k) (rev kvs) = None"
    using assms by (auto simp: find_None_iff_ball)
  then show ?thesis by (simp add: header_get_sets)
qed

lemma lower_names:
  "to_lower ''X-Frame-Options'' = ''x-frame-options''"
  "to_lower ''X-Content-Type-Options'' = ''x-content-type-options''"
  "to_lower ''X-XSS-Protection'' = ''x-xss-protection''"
  "to_lower ''Content-Security-Policy'' = ''content-security-policy''"
  "to_lower ''Referrer-Policy'' = ''referrer-policy''"
  "to_lower ''Permissions-Policy'' = ''permissions-policy''"
  "to_lower ''Origin-Agent-Cluster'' = ''origin-agent-cluster''"
  "to_lower ''X-Permitted-Cross-Domain-Policies'' = ''x-permitted-cross-domain-policies''"
  "to_lower ''Cross-Origin-Opener-Policy'' = ''cross-origin-opener-policy''"
  "to_lower ''Cross-Origin-Embedder-Policy'' = ''cross-origin-embedder-policy''"
  "to_lower ''Cross-Origin-Resource-Policy'' = ''cross-origin-resource-policy''"
  "to_lower ''Strict-Transport-Security'' = ''strict-transport-security''"
  "to_lower ''Reporting-Endpoints'' = ''reporting-endpoints''"
  "to_lower ''Report-To'' = ''report-to''"
  "to_lower ''NEL'' = ''nel''"
  "to_lower ''X-Request-ID'' = ''x-request-id''"
  by code_simp+

lemma security_name_values:
  assumes "(k', v') \<in> set (security_headers cfg r)" and "same_name k' k" and "k \<in> {''Content-Security-Policy'', ''X-Frame-Options''}"
  shows "k' = k"
proof -
  have "k' \<in> fst ` set (security_headers cfg r)" using assms(1) by force
  then have "k' \<in> set security_names"
    using security_header_names by blast
  moreover have "list_all (\<lambda>k'. list_all (\<lambda>k. same_name k' k \<longrightarrow> k' = k) [''Content-Security-Policy'', ''X-Frame-Options''])
     security_names"
    unfolding security_names_def same_name_def list.pred_inject lower_names by simp
  ultimately show ?thesis using assms(2,3) unfolding list_all_iff by auto
qed

lemma not_request_id:
  assumes "(k, v) \<in> set (security_headers cfg r)"
  shows "\<not> same_name k ''X-Request-ID''"
proof -
  have "k \<in> fst ` set (security_headers cfg r)" using assms by force
  moreover have "list_all (\<lambda>k. \<not> same_name k ''X-Request-ID'') security_names"
    unfolding security_names_def same_name_def list.pred_inject lower_names by simp
  ultimately show ?thesis using security_header_names [of cfg r] unfolding list_all_iff by blast
qed

lemma security_value:
  assumes "(k, v) \<in> set (security_headers cfg r)" and "k \<in> {''Content-Security-Policy'', ''X-Frame-Options''}"
  shows "header_get (foldl (\<lambda>hs (k, v). header_set k v hs) hs (security_headers cfg r)) k = v"
proof (rule one_name [OF assms(1)])
  fix k' v' assume k': "(k', v') \<in> set (security_headers cfg r)" "same_name k' k"
  then have "k' = k" by (rule security_name_values [OF _ _ assms(2)])
  with k'(1) assms show "v' = v" by (auto simp: security_headers_def Let_def split: if_splits)
qed

lemma normalize_passes: "canonical_path (rq_Path r) \<Longrightarrow> URLNormalizeMiddleware parse m r hs s = m r hs s"
  by (auto simp: URLNormalizeMiddleware_def Let_def canonical_path_def)

lemma path_passes: "no_traversal r \<Longrightarrow> PathSecurityMiddleware m r hs s = m r hs s"
  by (auto simp: PathSecurityMiddleware_def Let_def no_traversal_def split: option.split)

text \<open>What reaches the stage of the request identifier.\<close>

lemma chain_run:
  assumes "canonical_path (rq_Path r)" and "no_traversal r"
  shows "chain V app r hs s = PanicRecoveryMiddleware (ch_debug V) (ch_stack V) (RequestIDMiddleware (ch_uuid V)
     (SecurityHeadersMiddleware (ch_headers V) (CORSMiddleware (ch_cors V) (CSRFMiddleware (ch_csrf V) (ch_random V)
      (MaintenanceMiddleware (ch_maintenance V) (ch_page V) app))))) r hs s"
  by (simp add: chain_def normalize_passes [OF assms(1)] path_passes [OF assms(2)])

lemma panic_keeps:
  "foreign cfg k \<Longrightarrow> header_get (reply_headers (fst (m r hs s))) k = v \<Longrightarrow>
   header_get (reply_headers (fst (PanicRecoveryMiddleware debug stack m r hs s))) k = v"
  by (cases "m r hs s"; cases "fst (m r hs s)")
    (auto simp: PanicRecoveryMiddleware_def Let_def foreign_def header_get_set split: option.split)

lemma request_id_valid: "isValidUUID fresh \<Longrightarrow> isValidUUID (request_id fresh r)"
  by (simp add: request_id_def Let_def)


section \<open>Credentials across origins\<close>

lemma cors_names:
  "list_all (\<lambda>n. \<not> same_name n ''Access-Control-Allow-Credentials'' \<and> \<not> same_name n ''Access-Control-Allow-Origin'')
     [''Access-Control-Max-Age'', ''Access-Control-Allow-Headers'', ''Access-Control-Allow-Methods'', ''Vary'']"
  "\<not> same_name ''Access-Control-Allow-Origin'' ''Access-Control-Allow-Credentials''"
  "\<not> same_name ''Access-Control-Allow-Credentials'' ''Access-Control-Allow-Origin''"
  by code_simp+

text \<open>
  C12: A browser is told to send credentials across origins only for an origin that the configuration
  lists by name: never with the wildcard, and the allowed origin of the reply is then the very origin of the
  request.
\<close>

theorem credentials_need_listed_origin:
  assumes "leaves ''Access-Control-Allow-Credentials'' app" and "leaves ''Access-Control-Allow-Origin'' app"
    and "header_get hs ''Access-Control-Allow-Credentials'' = []"
    and "header_get (reply_headers (fst (CORSMiddleware cfg app r hs s))) ''Access-Control-Allow-Credentials'' \<noteq> []"
  shows "\<exists>allowed \<in> set (cors_AllowedOrigins cfg). allowed \<noteq> ''*'' \<and> allowed \<noteq> []
     \<and> equal_fold (header_get (rq_Header r) ''Origin'') allowed
     \<and> header_get (reply_headers (fst (CORSMiddleware cfg app r hs s))) ''Access-Control-Allow-Origin''
         = header_get (rq_Header r) ''Origin''"
proof -
  let ?origin = "header_get (rq_Header r) ''Origin''"
  note names = cors_names
  have en: "cors_Enabled cfg"
  proof (rule ccontr)
    assume "\<not> cors_Enabled cfg"
    then show False using assms(1,3,4) by (simp add: CORSMiddleware_def leaves_def)
  qed
  have out: "header_get (reply_headers (fst (CORSMiddleware cfg app r hs s))) k = header_get (cors_origin cfg r hs) k"
    if "k = ''Access-Control-Allow-Credentials'' \<or> k = ''Access-Control-Allow-Origin''" for k
    using that en names(1) assms(1,2) by (auto simp: CORSMiddleware_def Let_def leaves_def header_get_set)
  have listed: "list_ex (equal_fold ?origin) (explicit_origins cfg)"
    using assms(3,4) names(2) unfolding out [OF disjI1 [OF refl]]
    by (auto simp: cors_origin_def Let_def header_get_set split: if_splits)
  then have "explicit_origins cfg \<noteq> []" by auto
  then have "header_get (cors_origin cfg r hs) ''Access-Control-Allow-Origin'' = ?origin"
    using listed names by (simp add: cors_origin_def Let_def header_get_set header_get_add_other)
  with listed out show ?thesis by (auto simp: list_ex_iff explicit_origins_def)
qed

section \<open>Concrete runs\<close>

definition ex_env :: chain_env where
  "ex_env = \<lparr>ch_parse = (\<lambda>u. if u = ''//e.x'' then Some ([], ''e.x'') else Some ([], [])), ch_debug = False, ch_stack = [],
     ch_uuid = ''0f8fad5b-d9cb-469f-a165-70867728950e'',
     ch_headers = \<lparr>XFrameOptions = ''DENY'', XContentTypeOptions = ''nosniff'', XSSProtection = [],
       ContentSecurityPolicy = [], ReferrerPolicy = [], PermissionsPolicy = [],
       StrictTransportSecurity = [], OriginAgentCluster = False, CrossDomainPolicies = [], COOP = [], COEP = [],
       CORP = [], ReportingEnabled = False, NELEnabled = False, APIVersion = ''v1''\<rparr>,
     ch_cors = \<lparr>cors_Enabled = False, cors_AllowedOrigins = [''https://a.b''], cors_AllowedMethods = [],
       cors_AllowedHeaders = [], cors_MaxAge = 0\<rparr>,
     ch_csrf = \<lparr>csrf_Enabled = True, csrf_TokenLength = 0, csrf_CookieName = [], csrf_HeaderName = [],
       csrf_FieldName = [], csrf_Secure = [], csrf_ExemptPaths = [], csrf_ExemptPrefixes = [''/api/'']\<rparr>,
     ch_random = (\<lambda>n. Some (replicate n CHR ''r'')), ch_maintenance = False, ch_page = []\<rparr>"

definition ex_cors :: CORSConfig where
  "ex_cors = (ch_cors ex_env)\<lparr>cors_Enabled := True\<rparr>"

definition ex_request :: "string \<Rightarrow> string \<Rightarrow> (string \<times> string) list \<Rightarrow> (string \<times> string) list \<Rightarrow> request" where
  "ex_request method path hs cookies = \<lparr>rq_Method = method, rq_Path = path, rq_RawQuery = [], rq_EscapedPath = path,
     rq_Header = hs, rq_Cookies = cookies, rq_Form = [], rq_Query = [], rq_TLS = False, rq_Host = ''a.b'',
     rq_RemoteAddr = ''1.2.3.4:5'', rq_csrf = None, rq_id = None\<rparr>"

text \<open>An application that counts its requests.\<close>

definition ex_app :: "nat handler" where
  "ex_app r hs n = (Reply 200 hs ''ok'', n + 1)"

definition ex_post :: request where
  "ex_post = ex_request ''POST'' ''/edit/x'' [(''X-CSRF-Token'', ''t''), (''Origin'', ''https://a.b'')] [(''csrf_token'', ''t'')]"

lemma ex_app_leaves: "leaves k ex_app"
  by (simp add: leaves_def ex_app_def)

theorem application_is_gated_witness:
  "snd (chain ex_env ex_app ex_post [] 0) = 1 \<and> canonical_path (rq_Path ex_post) \<and> no_traversal ex_post
   \<and> double_submit (ch_csrf ex_env) ex_post"
proof -
  have run: "snd (chain ex_env ex_app ex_post [] 0) = 1" by code_simp
  have "\<not> csrf_exempt (ch_csrf ex_env) ex_post" "\<not> isSafeMethod (rq_Method ex_post)" "csrf_Enabled (ch_csrf ex_env)" by code_simp+
  with run application_is_gated [where V = ex_env and app = ex_app and r = ex_post and hs = "[]" and s = 0]
  show ?thesis by auto
qed

theorem trailing_slash_leaves_site_witness:
  "\<exists>hs'. chain ex_env ex_app (ex_request ''GET'' ''//e.x/'' [] []) [] 0 = (Reply 301 hs' [], 0)
     \<and> header_get hs' ''Location'' = ''//e.x''"
  using trailing_slash_leaves_site [where V = ex_env and r = "ex_request ''GET'' ''//e.x/'' [] []" and h = "''e.x''"
      and app = ex_app and hs = "[]" and s = 0]
  by (simp add: ex_env_def ex_request_def)

theorem csrf_round_trip_witness:
  "\<exists>t hs'. t \<noteq> [] \<and> CSRFMiddleware (ch_csrf ex_env) (ch_random ex_env) ex_app (ex_request ''GET'' ''/'' [] []) [] 0
       = ex_app ((ex_request ''GET'' ''/'' [] [])\<lparr>rq_csrf := Some t\<rparr>) hs' 0"
proof -
  let ?r = "ex_request ''GET'' ''/'' [] []"
  let ?cfg = "ch_csrf ex_env"
  have cfg: "csrf_TokenLength (csrf_defaults ?cfg) = 32" "csrf_HeaderName (csrf_defaults ?cfg) = ''X-CSRF-Token''"
    "csrf_Enabled ?cfg"
    by (simp_all add: ex_env_def csrf_defaults_def)
  have req: "\<not> csrf_exempt ?cfg ?r" "isSafeMethod (rq_Method ?r)" "cookie_of ?r c = None" for c
    by (simp_all add: ex_env_def ex_request_def csrf_exempt_def isCSRFExempt_def isSafeMethod_def cookie_of_def)
  have rnd: "ch_random ex_env (nat (csrf_TokenLength (csrf_defaults ?cfg))) = Some (replicate 32 CHR ''r'')"
    unfolding cfg by (simp add: ex_env_def)
  have bs: "replicate 32 CHR ''r'' \<noteq> []" by simp
  have n: "csrf_TokenLength (csrf_defaults ?cfg) > 0" unfolding cfg by simp
  have "\<not> same_name ''Set-Cookie'' ''X-CSRF-Token''" by code_simp
  then have name: "\<not> same_name ''Set-Cookie'' (csrf_HeaderName (csrf_defaults ?cfg))" unfolding cfg .
  from csrf_round_trip [where app = ex_app and hs = "[]" and s = 0 and rnd' = "ch_random ex_env" and n = 32
      and cfg = ?cfg and r = ?r and rnd = "ch_random ex_env", OF cfg(3) req n rnd bs name]
  show ?thesis by (elim exE conjE) (intro exI conjI)
qed


theorem credentials_need_listed_origin_witness:
  "header_get (reply_headers (fst (CORSMiddleware ex_cors ex_app ex_post [] 0))) ''Access-Control-Allow-Origin''
   = ''https://a.b''"
proof -
  have o': "header_get (rq_Header ex_post) ''Origin'' = ''https://a.b''" by code_simp
  moreover have "explicit_origins ex_cors = [''https://a.b'']" "cors_Enabled ex_cors" "rq_Method ex_post = ''POST''"
    by code_simp+
  ultimately have "header_get (reply_headers (fst (CORSMiddleware ex_cors ex_app ex_post [] 0)))
      ''Access-Control-Allow-Credentials'' \<noteq> []"
    using cors_names
    by (simp only: CORSMiddleware_def Let_def ex_app_def cors_origin_def list.pred_inject)
      (simp add: header_get_set header_get_add_other del: to_lower.simps)
  from credentials_need_listed_origin [OF ex_app_leaves ex_app_leaves header_get_Nil this] o' show ?thesis by auto
qed

end
