(* ===== verification/Site_Laws.thy ===== *)
theory Site_Laws
  imports Web_Auth Chain_Laws
begin

text \<open>
  What the routes and the sessions of the site guarantee: which tokens are accepted, what a private
  instance protects and what it does not, and which registered routes can never be served.
\<close>

section \<open>Tokens\<close>

lemma b64_encode_dot: "c \<in> set (b64_encode s) \<Longrightarrow> c \<noteq> CHR ''.'' \<and> c \<noteq> CHR ''-'' \<and> c \<noteq> CHR ''_''"
proof -
  have d: "b64_digit d \<noteq> CHR ''.'' \<and> b64_digit d \<noteq> CHR ''-'' \<and> b64_digit d \<noteq> CHR ''_''" for d
  proof -
    have "byte (b64_digit d) \<noteq> 46 \<and> byte (b64_digit d) \<noteq> 45 \<and> byte (b64_digit d) \<noteq> 95" if "d < 64"
      using that byte_b64_digit [OF that] by (auto split: if_splits)
    moreover have "b64_digit d = CHR ''/''" if "\<not> d < 64" using that by (simp add: b64_digit_def)
    ultimately show ?thesis by (cases "d < 64") auto
  qed
  show "c \<in> set (b64_encode s) \<Longrightarrow> ?thesis"
    by (induction s rule: b64_encode.induct) (auto simp: d)
qed

lemma b64url_chars: "CHR ''.'' \<notin> set (b64url_encode s)" "CHR ''+'' \<notin> set (b64url_encode s)" "CHR ''/'' \<notin> set (b64url_encode s)"
  by (auto simp: b64url_encode_def dest: b64_encode_dot split: if_splits)

lemma b64url_decode_encode [simp]: "b64url_decode (b64url_encode s) = Some s"
proof -
  have "map (\<lambda>c. if c = CHR ''-'' then CHR ''+'' else if c = CHR ''_'' then CHR ''/'' else c) (b64url_encode s) = b64_encode s"
    unfolding b64url_encode_def map_map by (rule map_idI) (auto dest: b64_encode_dot)
  then show ?thesis using b64url_chars(2,3) [of s] by (simp add: b64url_decode_def)
qed

lemma b64url_encode_inject: "b64url_encode s = b64url_encode t \<longleftrightarrow> s = t"
  by (metis b64url_decode_encode option.inject)

lemma show_int_injective: "show_int a = show_int b \<Longrightarrow> a = b"
proof -
  have nat: "show_nat m = show_nat n \<Longrightarrow> m = n" for m n by (metis option.inject parse_nat_show_nat)
  have "show_nat m \<noteq> CHR ''-'' # s" for m s
    using show_nat_digits [of "CHR ''-''" m] by (auto simp: is_digit_def)
  then show "show_int a = show_int b \<Longrightarrow> a = b"
    by (auto simp: show_int_def dest!: nat split: if_splits) metis
qed

lemma split_at_first:
  assumes "a @ c # b = a' @ c # b'" and "c \<notin> set a" and "c \<notin> set a'"
  shows "a = a' \<and> b = b'"
proof -
  have *: "takeWhile (\<lambda>x. x \<noteq> c) (xs @ c # ys) = xs" if "c \<notin> set xs" for xs ys
    using that by (induction xs) auto
  from arg_cong [OF assms(1), of "takeWhile (\<lambda>x. x \<noteq> c)"] have "a = a'" by (simp only: * [OF assms(2)] * [OF assms(3)])
  with assms(1) show ?thesis by simp
qed

lemma session_data_inject: "session_data u t = session_data u' t' \<longleftrightarrow> u = u' \<and> seconds t = seconds t'"
proof
  have no: "CHR '':'' \<notin> set (rev (show_int z))" for z
    using show_int_chars [of "CHR '':''" z] by (auto simp: is_digit_def)
  assume "session_data u t = session_data u' t'"
  then have "rev (show_int (seconds t)) @ CHR '':'' # rev u = rev (show_int (seconds t')) @ CHR '':'' # rev u'"
    unfolding session_data_def by (subst (asm) rev_is_rev_conv [symmetric]) simp
  then have "rev (show_int (seconds t)) = rev (show_int (seconds t')) \<and> rev u = rev u'"
    using no by (intro split_at_first)
  then show "u = u' \<and> seconds t = seconds t'" using show_int_injective by auto
qed (simp add: session_data_def)

lemma validate_parts:
  "validateSessionToken V now token = Some u \<longleftrightarrow>
     (\<exists>user time text timestamp. split_char CHR ''.'' token = [user, time, signature V u timestamp]
        \<and> b64url_decode user = Some u \<and> b64url_decode time = Some text \<and> se_parse V text = Some timestamp
        \<and> now - timestamp \<le> sessionDuration)"
  by (auto simp: validateSessionToken_def split: list.split option.split)

text \<open>
  C14: A session token is accepted exactly if the two clock readings of its creation fell into the same
  second and at most 24 hours have passed since that second; then it yields the user it was made for.
  A token whose creation straddles the end of a second is never accepted: the signature is made of the
  first reading and the time in the token of the second. (The format of times, read back, gives the time
  cut to the second, and the two signed texts do not collide.)
\<close>

theorem issued_token_valid_iff:
  assumes "se_parse V (se_format V t2) = Some (seconds t2 * 1000000000)"
    and "seconds t1 \<noteq> seconds t2 \<Longrightarrow>
           se_hmac V (se_secret V) (session_data u t1) \<noteq> se_hmac V (se_secret V) (session_data u t2)"
  shows "validateSessionToken V now (generateSessionToken V u t1 t2) =
    (if seconds t1 = seconds t2 \<and> now - seconds t2 * 1000000000 \<le> sessionDuration then Some u else None)"
proof -
  have dots: "split_char CHR ''.'' (generateSessionToken V u t1 t2) =
      [b64url_encode u, b64url_encode (se_format V t2), signature V u t1]"
    by (simp add: generateSessionToken_def signature_def split_char_append split_char_absent b64url_chars)
  have data: "session_data u (seconds t2 * 1000000000) = session_data u t2"
    by (simp add: session_data_inject) (simp add: seconds_def)
  have "signature V u t1 = signature V u (seconds t2 * 1000000000) \<longleftrightarrow> seconds t1 = seconds t2"
    using assms(2) session_data_inject by (metis b64url_encode_inject data signature_def)
  then show ?thesis by (simp add: validateSessionToken_def dots assms(1))
qed


section \<open>Which handler a path reaches\<close>

lemma register_all_parses:
  "register_all rs xs = Inr rs' \<Longrightarrow>
     \<exists>ps. rs' = rs @ ps \<and> list_all2 (\<lambda>(t, h) (p, h'). parsePattern t = Some p \<and> h = h') xs ps"
proof (induction xs arbitrary: rs)
  case (Cons x xs)
  obtain t h where x: "x = (t, h)" by fastforce
  from Cons.prems obtain p where p: "parsePattern t = Some p" and rest: "register_all (rs @ [(p, h)]) xs = Inr rs'"
    by (auto simp: x register_def and_then_Inr_iff split: option.splits if_splits)
  from Cons.IH [OF rest] obtain ps where "rs' = (rs @ [(p, h)]) @ ps"
    "list_all2 (\<lambda>(t, h) (p, h'). parsePattern t = Some p \<and> h = h') xs ps" by blast
  then show ?case using p x by (intro exI [of _ "(p, h) # ps"]) simp
qed simp

lemma register_all_set:
  assumes "register_all [] xs = Inr rs"
  shows "(p, h) \<in> set rs \<longleftrightarrow> (\<exists>t. (t, h) \<in> set xs \<and> parsePattern t = Some p)"
proof -
  from register_all_parses [OF assms] have l: "list_all2 (\<lambda>(t, h) (p, h'). parsePattern t = Some p \<and> h = h') xs rs" by auto
  show ?thesis
  proof
    assume "(p, h) \<in> set rs"
    then obtain i where "i < length rs" "rs ! i = (p, h)" by (auto simp: in_set_conv_nth)
    with list_all2_nthD2 [OF l this(1)] list_all2_lengthD [OF l] show "\<exists>t. (t, h) \<in> set xs \<and> parsePattern t = Some p"
      by (auto simp: in_set_conv_nth split: prod.splits)
  next
    assume "\<exists>t. (t, h) \<in> set xs \<and> parsePattern t = Some p"
    then obtain t i where "i < length xs" "xs ! i = (t, h)" "parsePattern t = Some p" by (auto simp: in_set_conv_nth)
    with list_all2_nthD [OF l this(1)] list_all2_lengthD [OF l] show "(p, h) \<in> set rs"
      by (auto simp: in_set_conv_nth split: prod.splits)
  qed
qed

lemma web_pages_pattern: "(t, Web_pages) \<in> set (outer_list e d) \<Longrightarrow> t = ''/''"
  by (auto simp: outer_list_def first_routes_def admin_mounts_def last_routes_def debug_routes_def split: option.splits if_splits)

lemma root_pattern: "parsePattern ''/'' = Some \<lparr>pat_method = [], pat_segs = [Multi []]\<rparr>"
  by code_simp

lemma served_path:
  "find_handler rs r = Serve h ms \<Longrightarrow> \<exists>p. match_route rs (rq_Method r) (rq_EscapedPath r) = Some (ms, p, h)"
  by (auto simp: find_handler_def Let_def split: if_splits option.splits list.splits)

lemma candidates_sound:
  assumes "search (candidates rs m) path = Some (ms, p, h)"
  shows "(p, h) \<in> set rs" "pat_method p = m"
  using search_sound [OF assms] by (auto simp: candidates_def)

lemma literal_route_wins:
  assumes reg: "register_all [] (outer_list e d) = Inr rs" and t: "(t, h) \<in> set (outer_list e d)"
    and p: "parsePattern t = Some \<lparr>pat_method = [], pat_segs = Lit l # ss\<rparr>" and m: "matches_path (Lit l # ss) path"
  shows "match_route rs meth path \<noteq> Some (ms, q, Web_pages)"
proof
  assume found: "match_route rs meth path = Some (ms, q, Web_pages)"
  have web: "(q', Web_pages) \<in> set rs \<Longrightarrow> q' = \<lparr>pat_method = [], pat_segs = [Multi []]\<rparr>" for q'
    using register_all_set [OF reg] web_pages_pattern root_pattern by fastforce
  have "search (candidates rs meth') path \<noteq> Some (ms, q, Web_pages)" if "meth' \<noteq> []" for meth'
    using candidates_sound [of rs meth' path ms q Web_pages] web [of q] that by auto
  with found have s: "search (candidates rs []) path = Some (ms, q, Web_pages)"
    by (auto simp: match_route_def split: option.splits if_splits)
  have "(Lit l # ss, [], (\<lparr>pat_method = [], pat_segs = Lit l # ss\<rparr>, h)) \<in> set (candidates rs [])"
    using register_all_set [OF reg] t p by (force simp: candidates_def)
  from search_prefers_literal [OF this m] s obtain ss' ms'' where
    "(Lit l # ss', ms'', (q, Web_pages)) \<in> set (candidates rs [])" by (metis option.inject prod.inject)
  then show False using web [of q] by (auto simp: candidates_def)
qed

definition serves :: "'s handler \<Rightarrow> (outer_page \<Rightarrow> (string \<times> string) list \<Rightarrow> 's handler) \<Rightarrow> outer_page \<Rightarrow> (string \<times> string) list \<Rightarrow> 's handler" where
  "serves web others page ms = (if page = Web_pages then web else others page ms)"

lemma site_ignores_web:
  assumes "\<And>ms. find_handler rs r \<noteq> Serve Web_pages ms"
  shows "site parse cd shim rs (serves web others) r hs s = site parse cd shim rs (serves web' others) r hs s"
  using assms by (auto simp: site_def compat_Middleware_def ServeMux_def serves_def split: served.split option.split)

lemma not_web:
  assumes "register_all [] (outer_list e d) = Inr rs" and "(t, h) \<in> set (outer_list e d)"
    and "parsePattern t = Some \<lparr>pat_method = [], pat_segs = Lit l # ss\<rparr>" and "matches_path (Lit l # ss) (rq_EscapedPath r)"
  shows "find_handler rs r \<noteq> Serve Web_pages ms"
  using served_path [of rs r Web_pages ms] literal_route_wins [OF assms] by auto

lemma first_segment_slash:
  "CHR ''/'' \<notin> set a \<Longrightarrow> a \<noteq> [] \<Longrightarrow> first_segment (CHR ''/'' # a @ CHR ''/'' # b) = (segment_unescape a, CHR ''/'' # b)"
proof -
  assume "CHR ''/'' \<notin> set a" "a \<noteq> []"
  moreover have "takeWhile (\<lambda>c. c \<noteq> CHR ''/'') (a @ CHR ''/'' # b) = a" "dropWhile (\<lambda>c. c \<noteq> CHR ''/'') (a @ CHR ''/'' # b) = CHR ''/'' # b"
    using \<open>CHR ''/'' \<notin> set a\<close> by (induction a) auto
  ultimately show ?thesis by (cases a) (simp_all add: first_segment_def)
qed

lemma raw_path: "has_prefix path ''/raw/'' \<Longrightarrow> matches_path [Lit ''raw'', Multi []] path"
  using first_segment_slash [of "''raw''"] by (auto simp: has_prefix_iff segment_unescape_def PathUnescape_def)

lemma api_path: "has_prefix path ''/api/'' \<Longrightarrow> matches_path [Lit ''api'', Multi []] path"
  using first_segment_slash [of "''api''"] by (auto simp: has_prefix_iff segment_unescape_def PathUnescape_def)

lemma raw_route: "(''/raw/'', Raw_pastes) \<in> set (outer_list e d)"
    "parsePattern ''/raw/'' = Some \<lparr>pat_method = [], pat_segs = [Lit ''raw'', Multi []]\<rparr>"
  by (simp add: outer_list_def first_routes_def) code_simp

lemma api_route: "(''/api/'', Api_v1) \<in> set (outer_list e d)"
    "parsePattern ''/api/'' = Some \<lparr>pat_method = [], pat_segs = [Lit ''api'', Multi []]\<rparr>"
  by (simp add: outer_list_def first_routes_def) code_simp

lemma auth_route: "(''/server/auth/'', Admin_auth) \<in> set (outer_list e d)"
    "parsePattern ''/server/auth/'' = Some \<lparr>pat_method = [], pat_segs = [Lit ''server'', Lit ''auth'', Multi []]\<rparr>"
  by (simp add: outer_list_def admin_mounts_def) code_simp

text \<open>
  C15: A private instance with a password file shows its pages only to sessions: a request for a page
  that is not public, without a valid session cookie, is answered by a redirect to the login page and
  reaches no page, whatever the pages are. The redirect repeats the query of the request twice.
\<close>

theorem private_pages_need_session:
  assumes "\<not> wd_Public d" and "wd_CasPasswdFile d \<noteq> []" and "\<not> IsPublicPath (rq_Path r)"
    and "\<not> isAuthenticated (wd_session d) now r"
  shows "\<exists>hs'. web_Handler d parse (True, True) now pages r hs s = (Reply 302 hs' [], s)
    \<and> header_get hs' ''Location'' = ''/server/auth/login?redirect='' @ rq_Path r
        @ (if rq_RawQuery r = [] then [] else ''?'' @ rq_RawQuery r @ ''?'' @ rq_RawQuery r)"
  using assms
  by (auto simp: web_Handler_def requireAuth_def IsAuthRequired_def writeRedirect_def Let_def header_get_set)


lemma login_paths:
  "page_of hz m path \<in> {Login_page, Login_submit, Logout} \<Longrightarrow> path = ''/server/auth/login'' \<or> path = ''/server/auth/logout''"
proof -
  have "(path, p) \<in> set exact_pages \<Longrightarrow> p \<in> {Login_page, Login_submit, Logout} \<Longrightarrow> path = ''/server/auth/logout''" for p
    by (auto simp: exact_pages_def)
  moreover have "(pre, p) \<in> set prefix_pages \<Longrightarrow> p \<notin> {Login_page, Login_submit, Logout}" for pre p
    by (auto simp: prefix_pages_def)
  ultimately show "page_of hz m path \<in> {Login_page, Login_submit, Logout} \<Longrightarrow> ?thesis"
    by (auto simp: page_of_def dest!: map_of_SomeD find_Some_props split: if_splits option.splits)
qed

lemma login_route_matches:
  "matches_path [Lit ''server'', Lit ''auth'', Multi []] ''/server/auth/login''"
  "matches_path [Lit ''server'', Lit ''auth'', Multi []] ''/server/auth/logout''"
  by code_simp+

text \<open>
  The login and logout pages of the site are never served to a request whose path has no escaped
  characters: the router sends /server/auth/ to the administration, so the three handlers may be
  replaced by any others. No such request can obtain a session of the site, and a private instance with
  a password file shows its protected pages to nobody.
\<close>

theorem site_login_unreachable:
  assumes "register_all [] (outer_list e debug) = Inr rs" and "rq_EscapedPath r = rq_Path r"
    and "\<And>page. page \<notin> {Login_page, Login_submit, Logout} \<Longrightarrow> pages page = pages' page"
  shows "site parse cd shim rs (serves (web_Handler d parse stats now pages) others) r hs s =
    site parse cd shim rs (serves (web_Handler d parse stats now pages') others) r hs s"
proof (cases "page_of (wd_HealthzRootEnabled d) (rq_Method r) (rq_Path r) \<in> {Login_page, Login_submit, Logout}")
  case True
  then have "matches_path [Lit ''server'', Lit ''auth'', Multi []] (rq_EscapedPath r)"
    using login_paths login_route_matches assms(2) by metis
  from not_web [OF assms(1) auth_route this] show ?thesis by (rule site_ignores_web)
next
  case False
  then have "web_Handler d parse stats now pages r hs s = web_Handler d parse stats now pages' r hs s" for hs
    using assms(3) by (auto simp: web_Handler_def Let_def split: web_page.splits option.splits)
  then show ?thesis
    by (auto simp: site_def compat_Middleware_def ServeMux_def serves_def split: served.split option.split)
qed

text \<open>
  C16: The server cannot start: whatever its settings are, registering the routes of the administration
  panics at the pattern GET /config/, because it conflicts with GET /{username}/profile (both match
  /config/profile and neither is more specific). Without that one pattern the table would register.
\<close>

theorem admin_routes_panic:
  "register_server endpoint debug = Inl (Conflict ''GET /config/'')
   \<and> (\<exists>rs. register_all [] (filter (\<lambda>(t, p). t \<noteq> ''GET /config/'') ui_routes) = Inr rs)"
proof
  show "register_server endpoint debug = Inl (Conflict ''GET /config/'')" unfolding register_server_def by code_simp
  have "case register_all [] (filter (\<lambda>(t, p). t \<noteq> ''GET /config/'') ui_routes) of Inl p \<Rightarrow> False | Inr rs \<Rightarrow> True" by code_simp
  then show "\<exists>rs. register_all [] (filter (\<lambda>(t, p). t \<noteq> ''GET /config/'') ui_routes) = Inr rs" by (auto split: sum.splits)
qed

definition outer_table :: "bool \<Rightarrow> outer_page routes" where
  "outer_table debug = (case register_all [] (outer_list None debug) of Inr rs \<Rightarrow> rs | Inl p \<Rightarrow> [])"

lemma outer_table_registers: "register_all [] (outer_list None debug) = Inr (outer_table debug)"
proof -
  have "case register_all [] (outer_list None True) of Inl p \<Rightarrow> False | Inr rs \<Rightarrow> True"
    "case register_all [] (outer_list None False) of Inl p \<Rightarrow> False | Inr rs \<Rightarrow> True" by code_simp+
  then have "case register_all [] (outer_list None debug) of Inl p \<Rightarrow> False | Inr rs \<Rightarrow> True" by (cases debug) simp_all
  then show ?thesis by (auto simp: outer_table_def split: sum.splits)
qed

lemma admin_matches:
  "\<not> exactMatch (match_route (outer_table debug) ''GET'' ''/server/admin'') ''/server/admin''"
  "exactMatch (match_route (outer_table debug) ''GET'' ''/server/admin/'') ''/server/admin/''"
proof -
  have "\<not> exactMatch (match_route (outer_table True) ''GET'' ''/server/admin'') ''/server/admin''"
    "exactMatch (match_route (outer_table True) ''GET'' ''/server/admin/'') ''/server/admin/''"
    "\<not> exactMatch (match_route (outer_table False) ''GET'' ''/server/admin'') ''/server/admin''"
    "exactMatch (match_route (outer_table False) ''GET'' ''/server/admin/'') ''/server/admin/''" by code_simp+
  then show "\<not> exactMatch (match_route (outer_table debug) ''GET'' ''/server/admin'') ''/server/admin''"
    "exactMatch (match_route (outer_table debug) ''GET'' ''/server/admin/'') ''/server/admin/''"
    by (cases debug; simp)+
qed

text \<open>
  C18: The address of the administration sends a browser in circles: the router answers the path
  /server/admin by a redirect to /server/admin/, and the chain in front of it answers that path by a
  redirect back, whatever is behind it. The login of an administrator ends at this address.
\<close>

theorem admin_address_loops:
  assumes "rq_Method r = ''GET''" and "rq_Path r = ''/server/admin''" and "rq_EscapedPath r = rq_Path r" and "rq_RawQuery r = []"
    and "rq_Path r' = ''/server/admin/''" and "rq_RawQuery r' = []"
    and "parse ''/server/admin'' = Some ([], [])" and "parse ''/server/admin/'' = Some ([], [])" and "ch_parse V = parse"
  shows "header_get (reply_headers (fst (ServeMux parse (outer_table debug) handlers r hs s))) ''Location'' = ''/server/admin/''
    \<and> header_get (reply_headers (fst (chain V app r' hs s))) ''Location'' = ''/server/admin''"
proof
  have clean: "cleanPath ''/server/admin'' = ''/server/admin''" by code_simp
  have "find_handler (outer_table debug) r = Redirect_to ''/server/admin/''"
  proof -
    have "escape_path ''/server/admin/'' = ''/server/admin/''" "\<not> has_suffix ''/server/admin'' ''/''" by code_simp+
    then show ?thesis
      using admin_matches [of debug] assms(1-4) clean by (simp add: find_handler_def Let_def with_query_def)
  qed
  moreover have "hexEscapeNonASCII (redirect_target parse (rq_Path r) ''/server/admin/'') = ''/server/admin/''"
  proof -
    have "cut ''/server/admin/'' ''?'' = None" "Go_Path.Clean ''/server/admin/'' = ''/server/admin''" by code_simp+
    moreover have "hexEscapeNonASCII ''/server/admin/'' = ''/server/admin/''" by code_simp
    ultimately show ?thesis using assms(8) by (simp add: redirect_target_def Let_def has_suffix_def)
  qed
  ultimately show "header_get (reply_headers (fst (ServeMux parse (outer_table debug) handlers r hs s))) ''Location'' = ''/server/admin/''"
    by (simp add: ServeMux_def http_Redirect_def Let_def header_get_set same_name_def)
next
  have "hexEscapeNonASCII (redirect_target parse (rq_Path r') ''/server/admin'') = ''/server/admin''"
  proof -
    have "cut ''/server/admin'' ''?'' = None" "Go_Path.Clean ''/server/admin'' = ''/server/admin''" by code_simp+
    moreover have "hexEscapeNonASCII ''/server/admin'' = ''/server/admin''" by code_simp
    ultimately show ?thesis using assms(7) by (simp add: redirect_target_def Let_def has_suffix_def)
  qed
  moreover have "trim_suffix ''/server/admin/'' ''/'' = ''/server/admin''" "has_suffix ''/server/admin/'' ''/''" by code_simp+
  ultimately show "header_get (reply_headers (fst (chain V app r' hs s))) ''Location'' = ''/server/admin''"
    using assms(5,6,9)
    by (simp add: chain_def URLNormalizeMiddleware_def http_Redirect_def Let_def header_get_set same_name_def)
qed

text \<open>A private instance whose password file is missing behaves as a public one.\<close>

lemma missing_file_opens:
  "web_Handler d parse (False, b) now pages r hs s = web_Handler (d\<lparr>wd_Public := True\<rparr>) parse (False, b) now pages r hs s"
  by (simp add: web_Handler_def IsAuthRequired_def Let_def)

text \<open>The health check, which is documented as always served, needs a session on a private instance.\<close>

lemma health_check_not_public: "page_of hz m ''/server/healthz'' = Healthz \<and> \<not> IsPublicPath ''/server/healthz''"
proof -
  have "map_of exact_pages ''/server/healthz'' = Some Healthz" "\<not> IsPublicPath ''/server/healthz''" by code_simp+
  then show ?thesis by (simp add: page_of_def)
qed

section \<open>Examples\<close>

definition ex_session :: session_env where
  "ex_session = \<lparr>se_secret = ''key'', se_hmac = (\<lambda>k d. k @ d), se_format = (\<lambda>t. show_int (seconds t)),
     se_parse = (\<lambda>s. map_option (\<lambda>n. int n * 1000000000) (parse_nat s))\<rparr>"

definition ex_site :: web_data where
  "ex_site = \<lparr>wd_Version = ''1'', wd_Public = False, wd_CasPasswdFile = ''pw'', wd_HealthzRootEnabled = False,
     wd_session = ex_session\<rparr>"

definition ex_get :: "string \<Rightarrow> request" where
  "ex_get path = \<lparr>rq_Method = ''GET'', rq_Path = path, rq_RawQuery = [], rq_EscapedPath = path, rq_Header = [], rq_Cookies = [],
     rq_Form = [], rq_Query = [], rq_TLS = False, rq_Host = ''h'', rq_RemoteAddr = ''1.2.3.4:5'', rq_csrf = None, rq_id = None\<rparr>"

definition ex_parse :: url_parser where
  "ex_parse u = Some ([], [])"

definition ex_pages :: "string \<Rightarrow> web_page \<Rightarrow> nat handler" where
  "ex_pages login page r hs n = (Reply 200 hs (if page = Login_submit then login else ''page''), n + 1)"

definition ex_others :: "outer_page \<Rightarrow> (string \<times> string) list \<Rightarrow> nat handler" where
  "ex_others page ms r hs n = (Reply 200 hs ''other'', n)"

definition ex_compat :: compat_data where
  "ex_compat = \<lparr>cd_EnvMode = ModeNative, cd_ForceHost = True\<rparr>"

theorem issued_token_valid_iff_witness:
  "validateSessionToken ex_session 90000000000 (generateSessionToken ex_session ''bob'' 5000000003 5000000007) = Some ''bob''
   \<and> validateSessionToken ex_session 90000000000 (generateSessionToken ex_session ''bob'' 4999999999 5000000001) = None"
proof -
  have law: "se_parse ex_session (se_format ex_session 5000000007) = Some (seconds 5000000007 * 1000000000)"
    "se_parse ex_session (se_format ex_session 5000000001) = Some (seconds 5000000001 * 1000000000)" by code_simp+
  have differ: "seconds t1 \<noteq> seconds t2 \<Longrightarrow>
      se_hmac ex_session (se_secret ex_session) (session_data u t1) \<noteq> se_hmac ex_session (se_secret ex_session) (session_data u t2)"
    for u t1 t2 by (simp add: ex_session_def session_data_inject)
  show ?thesis
    by (subst issued_token_valid_iff [OF law(1) differ], assumption, subst issued_token_valid_iff [OF law(2) differ], assumption)
      (simp add: seconds_def sessionDuration_def)
qed


theorem private_pages_need_session_witness:
  "\<exists>hs'. web_Handler ex_site ex_parse (True, True) 0 (ex_pages ''x'') ((ex_get ''/list'')\<lparr>rq_RawQuery := ''a=b''\<rparr>) [] 0 = (Reply 302 hs' [], 0)
    \<and> header_get hs' ''Location'' = ''/server/auth/login?redirect=/list?a=b?a=b''"
proof -
  let ?r = "(ex_get ''/list'')\<lparr>rq_RawQuery := ''a=b''\<rparr>"
  have "\<not> wd_Public ex_site" "wd_CasPasswdFile ex_site \<noteq> []" "\<not> IsPublicPath (rq_Path ?r)"
    "\<not> isAuthenticated (wd_session ex_site) 0 ?r" by code_simp+
  from private_pages_need_session [OF this, of ex_parse "ex_pages ''x''" "[]" 0] show ?thesis by (simp add: ex_get_def)
qed


theorem site_login_unreachable_witness:
  "site ex_parse ex_compat (\<lambda>m r hs s. None) (outer_table False) (serves (web_Handler ex_site ex_parse (True, True) 0 (ex_pages ''x'')) ex_others)
     ((ex_get ''/server/auth/login'')\<lparr>rq_Method := ''POST''\<rparr>) [] 0 =
   site ex_parse ex_compat (\<lambda>m r hs s. None) (outer_table False) (serves (web_Handler ex_site ex_parse (True, True) 0 (ex_pages ''y'')) ex_others)
     ((ex_get ''/server/auth/login'')\<lparr>rq_Method := ''POST''\<rparr>) [] 0"
proof (rule site_login_unreachable [OF outer_table_registers])
  show "rq_EscapedPath ((ex_get ''/server/auth/login'')\<lparr>rq_Method := ''POST''\<rparr>) = rq_Path ((ex_get ''/server/auth/login'')\<lparr>rq_Method := ''POST''\<rparr>)"
    by (simp add: ex_get_def)
  show "ex_pages ''x'' page = ex_pages ''y'' page" if "page \<notin> {Login_page, Login_submit, Logout}" for page
    using that by (intro ext) (simp add: ex_pages_def)
qed

theorem admin_address_loops_witness:
  "header_get (reply_headers (fst (ServeMux ex_parse (outer_table False) ex_others (ex_get ''/server/admin'') [] 0))) ''Location'' = ''/server/admin/''
   \<and> header_get (reply_headers (fst (chain (ex_env\<lparr>ch_parse := ex_parse\<rparr>) ex_app (ex_get ''/server/admin/'') [] 0))) ''Location'' = ''/server/admin''"
  by (rule admin_address_loops) (simp_all add: ex_get_def ex_parse_def)

end
