(* ===== verification/Admin.thy ===== *)
theory Admin
  imports Routes Tables Passwd
begin

text \<open>
  The administration panel (\<open>admin/db.go\<close>, \<open>session.go\<close>, \<open>setup.go\<close>, \<open>middleware.go\<close> and the handlers
  of \<open>handlers.go\<close> and \<open>api.go\<close> that change state): its four tables, the setup token kept in memory, and
  one definition per operation. SHA-256, Argon2 and bcrypt are functions of a record; random bytes,
  clock readings in nanoseconds and the outcome of each statement are arguments. The pool is there, as
  \<open>main\<close> passes it. Pages are reduced to what they say.
\<close>

section \<open>Tables\<close>

record adminRecord =
  ad_ID :: int
  ad_Username :: string
  ad_PasswordHash :: string
  ad_Email :: string
  ad_Role :: string
  ad_Enabled :: bool
  ad_CreatedAt :: int
  ad_LastLogin :: "int option"

record sessionRow =
  sr_AdminID :: int
  sr_TokenHash :: string
  sr_IPAddress :: string
  sr_UserAgent :: string
  sr_ExpiresAt :: int

record tokenRecord =
  tk_ID :: int
  tk_AdminID :: int
  tk_Name :: string
  tk_Prefix :: string
  tk_TokenHash :: string
  tk_ExpiresAt :: "int option"
  tk_CreatedAt :: int

record inviteRecord =
  inv_ID :: int
  inv_TokenHash :: string
  inv_CreatedBy :: int
  inv_ExpiresAt :: int
  inv_UsedAt :: "int option"

text \<open>The next identifiers are those the database hands out.\<close>

record panel =
  pn_admins :: "adminRecord list"
  pn_sessions :: "sessionRow list"
  pn_tokens :: "tokenRecord list"
  pn_invites :: "inviteRecord list"
  pn_next_admin :: int
  pn_next_token :: int
  pn_next_invite :: int
  pn_setupDone :: bool
  pn_setupToken :: string
  pn_setupExpiry :: int

record admin_env =
  ae_hash :: "string \<Rightarrow> string"
  ae_argon :: argon2
  ae_bcrypt :: "string \<Rightarrow> string \<Rightarrow> bool"

datatype admin_error = Admin_sql | Admin_rand | Admin_panic

definition unix_time :: "int \<Rightarrow> int" where
  "unix_time ns = ns div 1000000000"

section \<open>Administrators\<close>

definition insert_admin :: "bool \<Rightarrow> int \<Rightarrow> string \<Rightarrow> string \<Rightarrow> string \<Rightarrow> panel \<Rightarrow> (admin_error + unit) \<times> panel" where
  "insert_admin ok created username hash email p =
     (let r = \<lparr>ad_ID = pn_next_admin p, ad_Username = username, ad_PasswordHash = hash, ad_Email = email, ad_Role = ''admin'',
               ad_Enabled = True, ad_CreatedAt = created, ad_LastLogin = None\<rparr>
      in case (if ok then tbl_insert ad_Username r (pn_admins p) else None) of
           None \<Rightarrow> (Inl Admin_sql, p)
         | Some rows \<Rightarrow> (Inr (), p\<lparr>pn_admins := rows, pn_next_admin := pn_next_admin p + 1\<rparr>))"

text \<open>\<open>salt\<close> are the random bytes of the hash; \<open>created\<close> is the default of the column.\<close>

definition CreateAdmin ::
    "admin_env \<Rightarrow> string option \<Rightarrow> bool \<Rightarrow> int \<Rightarrow> string \<Rightarrow> string \<Rightarrow> string \<Rightarrow> panel \<Rightarrow> (admin_error + unit) \<times> panel" where
  "CreateAdmin E salt ok created username password email p =
     (case HashPassword (ae_argon E) salt password of
        None \<Rightarrow> (Inl Admin_rand, p)
      | Some hash \<Rightarrow> insert_admin ok created username hash email p)"

definition getAdmin :: "bool \<Rightarrow> string \<Rightarrow> panel \<Rightarrow> admin_error + adminRecord option" where
  "getAdmin ok username p =
     (if \<not> ok then Inl Admin_sql else Inr (find (\<lambda>a. ad_Username a = username \<and> ad_Enabled a) (pn_admins p)))"

definition getAdminByID :: "bool \<Rightarrow> int \<Rightarrow> panel \<Rightarrow> admin_error + adminRecord option" where
  "getAdminByID ok i p = (if \<not> ok then Inl Admin_sql else Inr (tbl_find ad_ID i (pn_admins p)))"

text \<open>The check of a malformed hash panics as it does for the password file.\<close>

definition VerifyPassword :: "admin_env \<Rightarrow> bool \<Rightarrow> string \<Rightarrow> string \<Rightarrow> panel \<Rightarrow> admin_error + adminRecord option" where
  "VerifyPassword E ok username password p =
     (case getAdmin ok username p of
        Inl e \<Rightarrow> Inl e
      | Inr None \<Rightarrow> Inr None
      | Inr (Some a) \<Rightarrow>
          (case Check (ae_argon E) (ae_bcrypt E) [(ad_Username a, ad_PasswordHash a)] (ad_Username a) password of
             None \<Rightarrow> Inl Admin_panic
           | Some good \<Rightarrow> Inr (if good then Some a else None)))"

definition CountAdmins :: "bool \<Rightarrow> panel \<Rightarrow> admin_error + nat" where
  "CountAdmins ok p = (if \<not> ok then Inl Admin_sql else Inr (tbl_count ad_Enabled (pn_admins p)))"

definition updateLastLogin :: "bool \<Rightarrow> int \<Rightarrow> int \<Rightarrow> panel \<Rightarrow> panel" where
  "updateLastLogin ok now i p =
     (if ok then p\<lparr>pn_admins := tbl_update (\<lambda>a. ad_ID a = i) (\<lambda>a. a\<lparr>ad_LastLogin := Some (unix_time now)\<rparr>) (pn_admins p)\<rparr> else p)"

section \<open>API tokens of the panel\<close>

definition listTokens :: "bool \<Rightarrow> panel \<Rightarrow> admin_error + tokenRecord list" where
  "listTokens ok p = (if \<not> ok then Inl Admin_sql else Inr (sort_key (\<lambda>t. - tk_CreatedAt t) (pn_tokens p)))"

text \<open>The random part is not returned. \<open>AddDate\<close> is taken as days of 24 hours, as in UTC.\<close>

definition createToken ::
    "admin_env \<Rightarrow> string option \<Rightarrow> bool \<Rightarrow> int \<Rightarrow> int \<Rightarrow> int \<Rightarrow> string \<Rightarrow> int \<Rightarrow> panel \<Rightarrow> (admin_error + unit) \<times> panel" where
  "createToken E bytes ok now created adminID name expireDays p =
     (case bytes of
        None \<Rightarrow> (Inl Admin_rand, p)
      | Some raw \<Rightarrow>
          let rawHex = hex_encode raw;
              r = \<lparr>tk_ID = pn_next_token p, tk_AdminID = adminID, tk_Name = name, tk_Prefix = ''adm_'' @ take 8 rawHex,
                   tk_TokenHash = ae_hash E rawHex,
                   tk_ExpiresAt = (if expireDays > 0 then Some (unix_time now + expireDays * 86400) else None),
                   tk_CreatedAt = created\<rparr>
          in case (if ok then tbl_insert tk_TokenHash r (pn_tokens p) else None) of
               None \<Rightarrow> (Inl Admin_sql, p)
             | Some rows \<Rightarrow> (Inr (), p\<lparr>pn_tokens := rows, pn_next_token := pn_next_token p + 1\<rparr>))"

definition revokeToken :: "bool \<Rightarrow> int \<Rightarrow> panel \<Rightarrow> (admin_error + unit) \<times> panel" where
  "revokeToken ok tokenID p =
     (if \<not> ok then (Inl Admin_sql, p) else (Inr (), p\<lparr>pn_tokens := tbl_delete (\<lambda>t. tk_ID t = tokenID) (pn_tokens p)\<rparr>))"

section \<open>Invitations\<close>

definition createAdminInvite ::
    "admin_env \<Rightarrow> string option \<Rightarrow> bool \<Rightarrow> int \<Rightarrow> int \<Rightarrow> int \<Rightarrow> panel \<Rightarrow> (admin_error + string) \<times> panel" where
  "createAdminInvite E bytes ok now createdByID expireHours p =
     (case bytes of
        None \<Rightarrow> (Inl Admin_rand, p)
      | Some raw \<Rightarrow>
          let rawHex = hex_encode raw;
              r = \<lparr>inv_ID = pn_next_invite p, inv_TokenHash = ae_hash E rawHex, inv_CreatedBy = createdByID,
                   inv_ExpiresAt = unix_time (now + int64 (expireHours * 3600000000000)), inv_UsedAt = None\<rparr>
          in case (if ok then tbl_insert inv_TokenHash r (pn_invites p) else None) of
               None \<Rightarrow> (Inl Admin_sql, p)
             | Some rows \<Rightarrow> (Inr rawHex, p\<lparr>pn_invites := rows, pn_next_invite := pn_next_invite p + 1\<rparr>))"

definition active_invite :: "string \<Rightarrow> int \<Rightarrow> inviteRecord \<Rightarrow> bool" where
  "active_invite hash now i \<longleftrightarrow> inv_TokenHash i = hash \<and> inv_ExpiresAt i > now \<and> inv_UsedAt i = None"

definition getAdminInviteByToken :: "admin_env \<Rightarrow> bool \<Rightarrow> int \<Rightarrow> string \<Rightarrow> panel \<Rightarrow> admin_error + inviteRecord option" where
  "getAdminInviteByToken E ok now rawToken p =
     (if \<not> ok then Inl Admin_sql else Inr (find (active_invite (ae_hash E rawToken) (unix_time now)) (pn_invites p)))"

text \<open>The first statement of \<open>acceptAdminInvite\<close>: the number of rows it changed, unless it or the count fails.\<close>

definition mark_invite_used :: "admin_env \<Rightarrow> outcome \<Rightarrow> int \<Rightarrow> string \<Rightarrow> panel \<Rightarrow> (admin_error + nat) \<times> panel" where
  "mark_invite_used E oc now rawToken p =
     (let P = active_invite (ae_hash E rawToken) (unix_time now);
          p' = p\<lparr>pn_invites := tbl_update P (\<lambda>i. i\<lparr>inv_UsedAt := Some (unix_time now)\<rparr>) (pn_invites p)\<rparr>
      in case oc of
           Failed \<Rightarrow> (Inl Admin_sql, p)
         | Uncounted \<Rightarrow> (Inl Admin_sql, p')
         | Written \<Rightarrow> (Inr (tbl_count P (pn_invites p)), p'))"

definition acceptAdminInvite ::
    "admin_env \<Rightarrow> string option \<Rightarrow> outcome \<Rightarrow> int \<Rightarrow> bool \<Rightarrow> int \<Rightarrow> string \<Rightarrow> string \<Rightarrow> string \<Rightarrow> string \<Rightarrow> panel \<Rightarrow>
     (admin_error + bool) \<times> panel" where
  "acceptAdminInvite E salt oc now ok created rawToken username password email p =
     (case HashPassword (ae_argon E) salt password of
        None \<Rightarrow> (Inl Admin_rand, p)
      | Some hash \<Rightarrow>
          (case mark_invite_used E oc now rawToken p of
             (Inl e, p') \<Rightarrow> (Inl e, p')
           | (Inr n, p') \<Rightarrow>
               if n = 0 then (Inr False, p')
               else (case insert_admin ok created username hash email p' of
                       (Inl e, p'') \<Rightarrow> (Inl e, p'')
                     | (Inr _, p'') \<Rightarrow> (Inr True, p''))))"

section \<open>Sessions\<close>

definition adminSessionDuration :: int where
  "adminSessionDuration = 30 * 24 * 3600 * 1000000000"

text \<open>The value of the cookie, whose path is the address of the panel.\<close>

definition createAdminSession ::
    "admin_env \<Rightarrow> string option \<Rightarrow> bool \<Rightarrow> int \<Rightarrow> request \<Rightarrow> int \<Rightarrow> panel \<Rightarrow> (admin_error + string) \<times> panel" where
  "createAdminSession E bytes ok now r adminID p =
     (case bytes of
        None \<Rightarrow> (Inl Admin_rand, p)
      | Some raw \<Rightarrow>
          let token = hex_encode raw; fwd = header_get (rq_Header r) ''X-Forwarded-For'';
              row = \<lparr>sr_AdminID = adminID, sr_TokenHash = ae_hash E token, sr_IPAddress = (if fwd \<noteq> [] then fwd else rq_RemoteAddr r),
                     sr_UserAgent = header_get (rq_Header r) ''User-Agent'', sr_ExpiresAt = unix_time (now + adminSessionDuration)\<rparr>
          in case (if ok then tbl_insert sr_TokenHash row (pn_sessions p) else None) of
               None \<Rightarrow> (Inl Admin_sql, p)
             | Some rows \<Rightarrow> (Inr token, p\<lparr>pn_sessions := rows\<rparr>))"

definition drop_session :: "bool \<Rightarrow> string \<Rightarrow> panel \<Rightarrow> panel" where
  "drop_session ok hash p = (if ok then p\<lparr>pn_sessions := tbl_delete (\<lambda>s. sr_TokenHash s = hash) (pn_sessions p)\<rparr> else p)"

text \<open>0 is no administrator. \<open>okd\<close> is the outcome of the deletion of an expired session.\<close>

definition validateAdminSession :: "admin_env \<Rightarrow> bool \<Rightarrow> bool \<Rightarrow> int \<Rightarrow> request \<Rightarrow> panel \<Rightarrow> int \<times> panel" where
  "validateAdminSession E ok okd now r p =
     (case cookie_of r ''caspaste_admin'' of
        None \<Rightarrow> (0, p)
      | Some v \<Rightarrow>
          (case (if ok then tbl_find sr_TokenHash (ae_hash E v) (pn_sessions p) else None) of
             None \<Rightarrow> (0, p)
           | Some s \<Rightarrow> if unix_time now > sr_ExpiresAt s then (0, drop_session okd (ae_hash E v) p) else (sr_AdminID s, p)))"

definition deleteAdminSession :: "admin_env \<Rightarrow> bool \<Rightarrow> request \<Rightarrow> panel \<Rightarrow> panel" where
  "deleteAdminSession E ok r p =
     (case cookie_of r ''caspaste_admin'' of None \<Rightarrow> p | Some v \<Rightarrow> drop_session ok (ae_hash E v) p)"

definition CleanupExpiredSessions :: "bool \<Rightarrow> int \<Rightarrow> panel \<Rightarrow> (admin_error + unit) \<times> panel" where
  "CleanupExpiredSessions ok now p =
     (if \<not> ok then (Inl Admin_sql, p)
      else (Inr (), p\<lparr>pn_sessions := tbl_delete (\<lambda>s. sr_ExpiresAt s < unix_time now) (pn_sessions p)\<rparr>))"

definition countOnlineAdmins :: "bool \<Rightarrow> int \<Rightarrow> panel \<Rightarrow> admin_error + nat" where
  "countOnlineAdmins ok now p =
     (if \<not> ok then Inl Admin_sql
      else Inr (length (remdups (map sr_AdminID (filter (\<lambda>s. sr_ExpiresAt s > unix_time now) (pn_sessions p))))))"

end
