(* ===== verification/Admin_Panel.thy ===== *)
theory Admin_Panel
  imports Admin
begin

text \<open>
  The handlers of the administration that change its state, with the setup wizard and the guard of its
  pages (\<open>admin/setup.go\<close>, \<open>middleware.go\<close>, \<open>handlers.go\<close>, \<open>api.go\<close>, \<open>admin.go\<close>). A reply says
  which page is rendered with which message, or where the browser is sent; the cookie of the panel is a
  separate part of it; the text of a database error at the end of a message is left out.
\<close>

datatype admin_reply =
    Login_form string string          \<comment> \<open>the message and the address to continue at\<close>
  | Setup_form string string          \<comment> \<open>the token and the message\<close>
  | Invite_form string string
  | Error_page string
  | Invite_created string             \<comment> \<open>the link\<close>
  | See_other string
  | Json_error int string
  | Created
  | Json_invite string
  | No_body
  | Method_not_allowed
  | Panicked

datatype cookie_change = Keep_cookie | Set_cookie string | Clear_cookie

text \<open>The bytes of the two dashes in the messages.\<close>

abbreviation en_dash :: string where "en_dash \<equiv> [CHR 0xE2, CHR 0x80, CHR 0x93]"
abbreviation em_dash :: string where "em_dash \<equiv> [CHR 0xE2, CHR 0x80, CHR 0x94]"

type_synonym answer = "admin_reply \<times> cookie_change \<times> panel"

section \<open>Setup\<close>

text \<open>The token is printed; a failed count is taken for an empty table. The result says whether setup is needed.\<close>

definition MaybeGenerateSetupToken :: "bool \<Rightarrow> string option \<Rightarrow> int \<Rightarrow> panel \<Rightarrow> bool \<times> panel" where
  "MaybeGenerateSetupToken ok bytes now p =
     (case CountAdmins ok p of
        Inr (Suc n) \<Rightarrow> (False, p\<lparr>pn_setupDone := True\<rparr>)
      | _ \<Rightarrow>
          (case bytes of
             None \<Rightarrow> (True, p)
           | Some raw \<Rightarrow> (True, p\<lparr>pn_setupToken := hex_encode raw, pn_setupExpiry := now + 3600000000000, pn_setupDone := False\<rparr>)))"

definition isSetupNeeded :: "panel \<Rightarrow> bool" where
  "isSetupNeeded p \<longleftrightarrow> \<not> pn_setupDone p \<and> pn_setupToken p \<noteq> []"

definition consumeSetupToken :: "int \<Rightarrow> string \<Rightarrow> panel \<Rightarrow> bool \<times> panel" where
  "consumeSetupToken now token p =
     (if token = [] \<or> pn_setupToken p = [] then (False, p)
      else if pn_setupToken p \<noteq> token then (False, p)
      else if now > pn_setupExpiry p then (False, p)
      else (True, p\<lparr>pn_setupToken := [], pn_setupDone := True\<rparr>))"

definition peekSetupToken :: "int \<Rightarrow> string \<Rightarrow> panel \<Rightarrow> bool" where
  "peekSetupToken now token p \<longleftrightarrow> token \<noteq> [] \<and> pn_setupToken p \<noteq> [] \<and> pn_setupToken p = token \<and> now < pn_setupExpiry p"

text \<open>The checks of the form, in their order; \<open>None\<close> accepts it.\<close>

definition setup_problem :: "string \<Rightarrow> string \<Rightarrow> string \<Rightarrow> string option" where
  "setup_problem username password confirm =
     (if username = [] then Some ''Username is required''
      else if length username < 3 \<or> length username > 64 then Some ''Username must be 3-64 characters''
      else if password = [] then Some ''Password is required''
      else if length password < 8 then Some ''Password must be at least 8 characters''
      else if password \<noteq> confirm then Some ''Passwords do not match''
      else None)"

text \<open>
  A posted form until it is accepted: the answer to an unacceptable one, or what is to be inserted. The
  body is \<open>None\<close> if it cannot be parsed. Nothing is changed so far.
\<close>

definition setup_check :: "int \<Rightarrow> (string \<Rightarrow> string) option \<Rightarrow> panel \<Rightarrow> admin_reply + (string \<times> string \<times> string \<times> string)" where
  "setup_check now form p =
     (if \<not> isSetupNeeded p then Inl (See_other (AdminBasePath @ ''/''))
      else case form of
          None \<Rightarrow> Inl (Setup_form [] ''Failed to parse form'')
        | Some f \<Rightarrow>
            let token = f ''setup_token''; username = trim_space (f ''username''); password = f ''password''
            in if \<not> peekSetupToken now token p then Inl (Setup_form token ''Invalid or expired setup token'')
               else (case setup_problem username password (f ''password_confirm'') of
                       Some msg \<Rightarrow> Inl (Setup_form token msg)
                     | None \<Rightarrow> Inr (token, username, password, trim_space (f ''email''))))"

definition setup_finish :: "int \<Rightarrow> string \<Rightarrow> panel \<Rightarrow> admin_reply \<times> panel" where
  "setup_finish now token p =
     (case consumeSetupToken now token p of
        (False, p') \<Rightarrow> (Setup_form token ''Setup token was already used'', p')
      | (True, p') \<Rightarrow> (See_other (AdminBasePath @ ''/''), p'))"

definition handleSetup_post ::
    "admin_env \<Rightarrow> int \<Rightarrow> string option \<Rightarrow> bool \<Rightarrow> int \<Rightarrow> int \<Rightarrow> (string \<Rightarrow> string) option \<Rightarrow> panel \<Rightarrow> admin_reply \<times> panel" where
  "handleSetup_post E now1 salt ok created now2 form p =
     (case setup_check now1 form p of
        Inl rep \<Rightarrow> (rep, p)
      | Inr (token, username, password, email) \<Rightarrow>
          (case CreateAdmin E salt ok created username password email p of
             (Inl e, p') \<Rightarrow> (Setup_form token ''Failed to create admin account'', p')
           | (Inr _, p') \<Rightarrow> setup_finish now2 token p'))"

definition handleSetup_get :: "int \<Rightarrow> string \<Rightarrow> panel \<Rightarrow> admin_reply" where
  "handleSetup_get now token p =
     (if \<not> isSetupNeeded p then See_other (AdminBasePath @ ''/'')
      else if \<not> peekSetupToken now token p then Error_page (''Invalid or expired setup token '' @ em_dash @ '' check the server log for the current token.'')
      else Setup_form token [])"

text \<open>\<open>qtoken\<close> is the token of the query, which only a GET reads.\<close>

definition handleSetup ::
    "admin_env \<Rightarrow> int \<Rightarrow> string option \<Rightarrow> bool \<Rightarrow> int \<Rightarrow> int \<Rightarrow> string \<Rightarrow> string \<Rightarrow> (string \<Rightarrow> string) option \<Rightarrow> panel \<Rightarrow>
     admin_reply \<times> panel" where
  "handleSetup E now1 salt ok created now2 meth qtoken form p =
     (if \<not> isSetupNeeded p then (See_other (AdminBasePath @ ''/''), p)
      else if meth = ''GET'' then (handleSetup_get now1 qtoken p, p)
      else if meth \<noteq> ''POST'' then (Method_not_allowed, p)
      else handleSetup_post E now1 salt ok created now2 form p)"

section \<open>Login\<close>

definition handleLoginPost ::
    "admin_env \<Rightarrow> bool \<Rightarrow> string option \<Rightarrow> bool \<Rightarrow> int \<Rightarrow> bool \<Rightarrow> int \<Rightarrow> (string \<Rightarrow> string) option \<Rightarrow> request \<Rightarrow> panel \<Rightarrow> answer" where
  "handleLoginPost E ok bytes oks now okl now2 form r p =
     (case form of
        None \<Rightarrow> (Login_form ''Failed to parse form'' [], Keep_cookie, p)
      | Some f \<Rightarrow>
          let username = trim_space (f ''username''); password = f ''password''; next = f ''next''
          in if username = [] \<or> password = [] then (Login_form ''Username and password are required'' next, Keep_cookie, p)
             else (case VerifyPassword E ok username password p of
                 Inl Admin_panic \<Rightarrow> (Panicked, Keep_cookie, p)
               | Inl e \<Rightarrow> (Login_form (''Authentication error '' @ em_dash @ '' please try again'') next, Keep_cookie, p)
               | Inr None \<Rightarrow> (Login_form ''Invalid username or password'' next, Keep_cookie, p)
               | Inr (Some a) \<Rightarrow>
                   (case createAdminSession E bytes oks now r (ad_ID a) p of
                      (Inl e, p') \<Rightarrow> (Login_form (''Failed to create session '' @ em_dash @ '' please try again'') next, Keep_cookie, p')
                    | (Inr token, p') \<Rightarrow>
                        (See_other (if next \<noteq> [] \<and> has_prefix next ''/'' then next else AdminBasePath @ ''/''),
                         Set_cookie token, updateLastLogin okl now2 (ad_ID a) p'))))"

definition handleLogout :: "admin_env \<Rightarrow> bool \<Rightarrow> request \<Rightarrow> panel \<Rightarrow> answer" where
  "handleLogout E ok r p = (See_other ''/server/auth/login'', Clear_cookie, deleteAdminSession E ok r p)"

section \<open>The guard\<close>

text \<open>
  \<open>uri\<close> is the path and query of the request. The protected handler gets the identifier and the name of
  the administrator.
\<close>

definition requireAuth ::
    "admin_env \<Rightarrow> bool \<times> bool \<times> int \<Rightarrow> bool \<Rightarrow> bool \<Rightarrow> (int \<Rightarrow> string \<Rightarrow> request \<Rightarrow> panel \<Rightarrow> answer) \<Rightarrow> string \<Rightarrow> request \<Rightarrow> panel \<Rightarrow> answer" where
  "requireAuth E sess ok okd next uri r p =
     (case sess of (oks, oke, now) \<Rightarrow>
      case validateAdminSession E oks oke now r p of (adminID, p') \<Rightarrow>
        if adminID = 0 then (See_other (''/server/auth/login?next='' @ uri), Keep_cookie, p')
        else (case getAdminByID ok adminID p' of
                Inr (Some a) \<Rightarrow> next adminID (ad_Username a) r p'
              | _ \<Rightarrow> (See_other ''/server/auth/login'', Clear_cookie, deleteAdminSession E okd r p')))"

section \<open>Protected handlers\<close>

text \<open>An administrator edits only the own pages; the forms change nothing.\<close>

definition handleProfilePost :: "string \<Rightarrow> int \<Rightarrow> string \<Rightarrow> request \<Rightarrow> panel \<Rightarrow> answer" where
  "handleProfilePost pathUser adminID current r p =
     (if pathUser \<noteq> current then (Error_page ''You can only edit your own profile'', Keep_cookie, p)
      else (See_other (AdminBasePath @ ''/'' @ pathUser @ ''/profile''), Keep_cookie, p))"

definition handlePreferencesPost :: "string \<Rightarrow> int \<Rightarrow> string \<Rightarrow> request \<Rightarrow> panel \<Rightarrow> answer" where
  "handlePreferencesPost pathUser adminID current r p =
     (if pathUser \<noteq> current then (Error_page ''You can only edit your own preferences'', Keep_cookie, p)
      else (See_other (AdminBasePath @ ''/'' @ pathUser @ ''/preferences''), Keep_cookie, p))"

text \<open>The lifetime of the token is not read from the form, and revoking does nothing.\<close>

definition handleSecurityTokensPost ::
    "admin_env \<Rightarrow> string option \<Rightarrow> bool \<Rightarrow> int \<Rightarrow> int \<Rightarrow> (string \<Rightarrow> string) option \<Rightarrow> int \<Rightarrow> string \<Rightarrow> request \<Rightarrow> panel \<Rightarrow> answer" where
  "handleSecurityTokensPost E bytes ok now created form adminID current r p =
     (case form of
        None \<Rightarrow> (Error_page ''Bad request'', Keep_cookie, p)
      | Some f \<Rightarrow>
          let name = trim_space (f ''token_name'');
              back = See_other (AdminBasePath @ ''/config/security/tokens'')
          in if f ''action'' = ''create'' \<and> name \<noteq> []
             then (back, Keep_cookie, snd (createToken E bytes ok now created adminID name 0 p))
             else (back, Keep_cookie, p))"

definition invite_hours :: "string \<Rightarrow> int" where
  "invite_hours s = (if s = ''1'' then 1 else if s = ''6'' then 6 else if s = ''48'' then 48 else if s = ''168'' then 168 else 24)"

definition invite_url :: "string \<Rightarrow> string \<Rightarrow> string" where
  "invite_url fqdn token =
     (let url = ''/server/auth/invite/server/'' @ token in if fqdn \<noteq> [] then ''https://'' @ fqdn @ url else url)"

definition handleAdminsPost ::
    "admin_env \<Rightarrow> string \<Rightarrow> string option \<Rightarrow> bool \<Rightarrow> int \<Rightarrow> (string \<Rightarrow> string) option \<Rightarrow> int \<Rightarrow> string \<Rightarrow> request \<Rightarrow> panel \<Rightarrow> answer" where
  "handleAdminsPost E fqdn bytes ok now form adminID current r p =
     (case form of
        None \<Rightarrow> (Error_page ''Bad request'', Keep_cookie, p)
      | Some f \<Rightarrow>
          if f ''action'' \<noteq> ''invite'' then (See_other (AdminBasePath @ ''/config/admins''), Keep_cookie, p)
          else (case createAdminInvite E bytes ok now adminID (invite_hours (f ''invite_expires'')) p of
                  (Inl e, p') \<Rightarrow> (Error_page ''Failed to create invite'', Keep_cookie, p')
                | (Inr token, p') \<Rightarrow> (Invite_created (invite_url fqdn token), Keep_cookie, p')))"

text \<open>The JSON body, \<open>None\<close> if it is malformed.\<close>

definition apiCreateToken ::
    "admin_env \<Rightarrow> string option \<Rightarrow> bool \<Rightarrow> int \<Rightarrow> int \<Rightarrow> (string \<times> int) option \<Rightarrow> int \<Rightarrow> string \<Rightarrow> request \<Rightarrow> panel \<Rightarrow> answer" where
  "apiCreateToken E bytes ok now created body adminID current r p =
     (case body of
        None \<Rightarrow> (Json_error 400 ''invalid JSON body'', Keep_cookie, p)
      | Some (name, expireDays) \<Rightarrow>
          if trim_space name = [] then (Json_error 400 ''name is required'', Keep_cookie, p)
          else (case createToken E bytes ok now created adminID (trim_space name) expireDays p of
                  (Inl e, p') \<Rightarrow> (Json_error 500 [], Keep_cookie, p')
                | (Inr _, p') \<Rightarrow> (Created, Keep_cookie, p')))"

definition apiRevokeToken :: "bool \<Rightarrow> int \<Rightarrow> string \<Rightarrow> request \<Rightarrow> panel \<Rightarrow> answer" where
  "apiRevokeToken ok adminID current r p =
     (let idStr = form_value (rq_Query r) ''id''
      in if idStr = [] then (Json_error 400 ''id query parameter required'', Keep_cookie, p)
         else (case parse_int idStr of
                 Inl e \<Rightarrow> (Json_error 400 ''invalid id'', Keep_cookie, p)
               | Inr i \<Rightarrow>
                   (case revokeToken ok i p of
                      (Inl e, p') \<Rightarrow> (Json_error 500 [], Keep_cookie, p')
                    | (Inr _, p') \<Rightarrow> (No_body, Keep_cookie, p'))))"

definition apiInviteAdmin ::
    "admin_env \<Rightarrow> string \<Rightarrow> string option \<Rightarrow> bool \<Rightarrow> int \<Rightarrow> int option \<Rightarrow> int \<Rightarrow> string \<Rightarrow> request \<Rightarrow> panel \<Rightarrow> answer" where
  "apiInviteAdmin E fqdn bytes ok now body adminID current r p =
     (case body of
        None \<Rightarrow> (Json_error 400 ''invalid JSON body'', Keep_cookie, p)
      | Some hours \<Rightarrow>
          (case createAdminInvite E bytes ok now adminID (if hours \<le> 0 then 24 else hours) p of
             (Inl e, p') \<Rightarrow> (Json_error 500 [], Keep_cookie, p')
           | (Inr token, p') \<Rightarrow> (Json_invite (invite_url fqdn token), Keep_cookie, p')))"

section \<open>Accepting an invitation\<close>

definition invite_problem :: "string \<Rightarrow> string \<Rightarrow> string \<Rightarrow> string option" where
  "invite_problem username password confirm =
     (if username = [] \<or> password = [] then Some ''Username and password are required.''
      else if length username < 3 \<or> length username > 64 then Some (''Username must be 3'' @ en_dash @ ''64 characters.'')
      else if length password < 8 then Some ''Password must be at least 8 characters.''
      else if password \<noteq> confirm then Some ''Passwords do not match.''
      else None)"

text \<open>What a request shows before an invitation is accepted, or the user name, password and address to insert.\<close>

definition invite_check ::
    "admin_env \<Rightarrow> bool \<Rightarrow> int \<Rightarrow> string \<Rightarrow> string \<Rightarrow> (string \<Rightarrow> string) option \<Rightarrow> panel \<Rightarrow> admin_reply + (string \<times> string \<times> string)" where
  "invite_check E ok now meth token form p =
     (if token = [] then Inl (Error_page ''Invalid invite link.'')
      else case getAdminInviteByToken E ok now token p of
          Inl e \<Rightarrow> Inl (Error_page ''Database error. Please try again.'')
        | Inr None \<Rightarrow> Inl (Error_page ''This invite link is invalid or has already been used.'')
        | Inr (Some iv) \<Rightarrow>
            if meth = ''GET'' then Inl (Invite_form token [])
            else (case form of
                    None \<Rightarrow> Inl (Invite_form token ''Failed to parse form.'')
                  | Some f \<Rightarrow>
                      let username = trim_space (f ''username''); password = f ''password''
                      in (case invite_problem username password (f ''password_confirm'') of
                            Some msg \<Rightarrow> Inl (Invite_form token msg)
                          | None \<Rightarrow> Inr (username, password, trim_space (f ''email'')))))"

definition invite_answer :: "string \<Rightarrow> admin_error + bool \<Rightarrow> admin_reply" where
  "invite_answer token res =
     (case res of
        Inl e \<Rightarrow> Invite_form token ''Failed to create account. Username may already be taken.''
      | Inr False \<Rightarrow> Invite_form token ''This invite link has already been used.''
      | Inr True \<Rightarrow> See_other ''/server/auth/login'')"

definition handleAdminInviteAccept ::
    "admin_env \<Rightarrow> bool \<Rightarrow> int \<Rightarrow> string option \<Rightarrow> outcome \<Rightarrow> int \<Rightarrow> bool \<Rightarrow> int \<Rightarrow> string \<Rightarrow> string \<Rightarrow> (string \<Rightarrow> string) option \<Rightarrow>
     panel \<Rightarrow> admin_reply \<times> panel" where
  "handleAdminInviteAccept E okg now1 salt oc now2 ok created meth token form p =
     (case invite_check E okg now1 meth token form p of
        Inl rep \<Rightarrow> (rep, p)
      | Inr (username, password, email) \<Rightarrow>
          (case acceptAdminInvite E salt oc now2 ok created token username password email p of
             (res, p') \<Rightarrow> (invite_answer token res, p')))"

section \<open>The address of the panel\<close>

definition reserved_paths :: "string list" where
  "reserved_paths =
     [''api'', ''static'', ''assets'', ''health'', ''healthz'', ''version'', ''metrics'', ''.well-known'', ''graphql'', ''openapi'',
      ''auth'', ''security'', ''docs'', ''about'', ''privacy'', ''contact'', ''help'', ''terms'']"

datatype path_error = Bad_length | Bad_character | Bad_hyphen | Reserved

definition ValidateAdminPath :: "string \<Rightarrow> path_error + unit" where
  "ValidateAdminPath path =
     (let path = to_lower (trim_space path)
      in if length path < 2 \<or> length path > 32 then Inl Bad_length
         else if \<not> list_all (\<lambda>c. (97 \<le> byte c \<and> byte c \<le> 122) \<or> is_digit c \<or> c = CHR ''-'') path then Inl Bad_character
         else if hd path = CHR ''-'' \<or> last path = CHR ''-'' then Inl Bad_hyphen
         else if path \<in> set reserved_paths then Inl Reserved
         else Inr ())"

end
