(* ===== verification/Admin_System.thy ===== *)
theory Admin_System
  imports Admin_Panel
begin

text \<open>
  The administration as a system: any number of requests are in flight, and each handler that issues
  several statements runs as several steps between which others run. A job is the rest of such a handler.
  The steps are those of the handlers of \<open>Admin_Panel\<close>: run without interruption they are the handler.
\<close>

section \<open>Steps\<close>

datatype job =
    Setup_insert string string string string     \<comment> \<open>token, user name, password, address\<close>
  | Setup_consume string
  | Invite_mark string string string string      \<comment> \<open>token, user name, hash of the password, address\<close>
  | Invite_insert string string string string    \<comment> \<open>hash of the token, user name, hash of the password, address\<close>

text \<open>Which permission an administrator was made with.\<close>

datatype origin = By_setup string | By_invite string

record admin_sys =
  as_panel :: panel
  as_jobs :: "job list"
  as_made :: "origin list"

datatype event =
    Setup_post int "(string \<Rightarrow> string) option"
  | Setup_create nat "string option" bool int
  | Setup_end nat int
  | Invite_post bool int string "(string \<Rightarrow> string) option" "string option"
  | Invite_use nat outcome int
  | Invite_create nat bool int
  | Make_invite "string option" bool int int int
  | Login bool "string option" bool int bool int "(string \<Rightarrow> string) option" request
  | Check_session bool bool int request
  | Drop_session bool request
  | Cleanup bool int
  | Make_token "string option" bool int int int string int
  | Revoke_token bool int

definition without :: "nat \<Rightarrow> 'a list \<Rightarrow> 'a list" where
  "without i xs = take i xs @ drop (Suc i) xs"

definition setup_create :: "admin_env \<Rightarrow> string option \<Rightarrow> bool \<Rightarrow> int \<Rightarrow> nat \<Rightarrow> job \<Rightarrow> admin_sys \<Rightarrow> admin_sys" where
  "setup_create E salt ok created i j S =
     (case j of
        Setup_insert token username password email \<Rightarrow>
          (case CreateAdmin E salt ok created username password email (as_panel S) of
             (Inl e, p) \<Rightarrow> S\<lparr>as_panel := p, as_jobs := without i (as_jobs S)\<rparr>
           | (Inr _, p) \<Rightarrow> S\<lparr>as_panel := p, as_jobs := without i (as_jobs S) @ [Setup_consume token],
                            as_made := as_made S @ [By_setup token]\<rparr>)
      | _ \<Rightarrow> S)"

definition setup_end :: "int \<Rightarrow> nat \<Rightarrow> job \<Rightarrow> admin_sys \<Rightarrow> admin_sys" where
  "setup_end now i j S =
     (case j of
        Setup_consume token \<Rightarrow> S\<lparr>as_panel := snd (setup_finish now token (as_panel S)), as_jobs := without i (as_jobs S)\<rparr>
      | _ \<Rightarrow> S)"

definition invite_use :: "admin_env \<Rightarrow> outcome \<Rightarrow> int \<Rightarrow> nat \<Rightarrow> job \<Rightarrow> admin_sys \<Rightarrow> admin_sys" where
  "invite_use E oc now i j S =
     (case j of
        Invite_mark token username hash email \<Rightarrow>
          (case mark_invite_used E oc now token (as_panel S) of
             (Inr (Suc n), p) \<Rightarrow>
               S\<lparr>as_panel := p, as_jobs := without i (as_jobs S) @ [Invite_insert (ae_hash E token) username hash email]\<rparr>
           | (_, p) \<Rightarrow> S\<lparr>as_panel := p, as_jobs := without i (as_jobs S)\<rparr>)
      | _ \<Rightarrow> S)"

definition invite_create :: "bool \<Rightarrow> int \<Rightarrow> nat \<Rightarrow> job \<Rightarrow> admin_sys \<Rightarrow> admin_sys" where
  "invite_create ok created i j S =
     (case j of
        Invite_insert h username hash email \<Rightarrow>
          (case insert_admin ok created username hash email (as_panel S) of
             (Inl e, p) \<Rightarrow> S\<lparr>as_panel := p, as_jobs := without i (as_jobs S)\<rparr>
           | (Inr _, p) \<Rightarrow> S\<lparr>as_panel := p, as_jobs := without i (as_jobs S), as_made := as_made S @ [By_invite h]\<rparr>)
      | _ \<Rightarrow> S)"

definition on_job :: "nat \<Rightarrow> (job \<Rightarrow> admin_sys \<Rightarrow> admin_sys) \<Rightarrow> admin_sys \<Rightarrow> admin_sys" where
  "on_job i f S = (if i < length (as_jobs S) then f (as_jobs S ! i) S else S)"

definition with_panel :: "(panel \<Rightarrow> panel) \<Rightarrow> admin_sys \<Rightarrow> admin_sys" where
  "with_panel f S = S\<lparr>as_panel := f (as_panel S)\<rparr>"

definition add_job :: "'e + job \<Rightarrow> admin_sys \<Rightarrow> admin_sys" where
  "add_job x S = (case x of Inl e \<Rightarrow> S | Inr j \<Rightarrow> S\<lparr>as_jobs := as_jobs S @ [j]\<rparr>)"

text \<open>The salt of a password hash is drawn before the invitation is marked.\<close>

definition invite_job :: "admin_env \<Rightarrow> string \<Rightarrow> string option \<Rightarrow> string \<times> string \<times> string \<Rightarrow> admin_reply + job" where
  "invite_job E token salt = (\<lambda>(username, password, email).
     (case HashPassword (ae_argon E) salt password of
        None \<Rightarrow> Inl (invite_answer token (Inl Admin_rand))
      | Some hash \<Rightarrow> Inr (Invite_mark token username hash email)))"

primrec step :: "admin_env \<Rightarrow> event \<Rightarrow> admin_sys \<Rightarrow> admin_sys" where
  "step E (Setup_post now form) S =
     add_job (and_then (setup_check now form (as_panel S)) (\<lambda>(t, u, pw, em). Inr (Setup_insert t u pw em))) S"
| "step E (Setup_create i salt ok created) S = on_job i (setup_create E salt ok created i) S"
| "step E (Setup_end i now) S = on_job i (setup_end now i) S"
| "step E (Invite_post ok now token form salt) S =
     add_job (and_then (invite_check E ok now ''POST'' token form (as_panel S)) (invite_job E token salt)) S"
| "step E (Invite_use i oc now) S = on_job i (invite_use E oc now i) S"
| "step E (Invite_create i ok created) S = on_job i (invite_create ok created i) S"
| "step E (Make_invite bytes ok now by hours) S = with_panel (\<lambda>p. snd (createAdminInvite E bytes ok now by hours p)) S"
| "step E (Login ok bytes oks now okl now2 form r) S =
     with_panel (\<lambda>p. snd (snd (handleLoginPost E ok bytes oks now okl now2 form r p))) S"
| "step E (Check_session ok okd now r) S = with_panel (\<lambda>p. snd (validateAdminSession E ok okd now r p)) S"
| "step E (Drop_session ok r) S = with_panel (deleteAdminSession E ok r) S"
| "step E (Cleanup ok now) S = with_panel (\<lambda>p. snd (CleanupExpiredSessions ok now p)) S"
| "step E (Make_token bytes ok now created by name days) S =
     with_panel (\<lambda>p. snd (createToken E bytes ok now created by name days p)) S"
| "step E (Revoke_token ok i) S = with_panel (\<lambda>p. snd (revokeToken ok i p)) S"

definition run :: "admin_env \<Rightarrow> event list \<Rightarrow> admin_sys \<Rightarrow> admin_sys" where
  "run E es S = fold (step E) es S"

lemma run_Nil [simp]: "run E [] S = S"
  by (simp add: run_def)

lemma run_snoc [simp]: "run E (es @ [e]) S = step E e (run E es S)"
  by (simp add: run_def)

definition idle :: "panel \<Rightarrow> admin_sys" where
  "idle p = \<lparr>as_panel = p, as_jobs = [], as_made = []\<rparr>"

section \<open>What the operations leave alone\<close>

named_theorems admin_frame

lemma insert_admin_cases:
  obtains (no) e where "insert_admin ok created u h em p = (Inl e, p)"
  | (yes) rows where "insert_admin ok created u h em p = (Inr (), p\<lparr>pn_admins := rows, pn_next_admin := pn_next_admin p + 1\<rparr>)"
      and "length rows = Suc (length (pn_admins p))"
  by (cases "fst (insert_admin ok created u h em p)")
    (auto simp: insert_admin_def tbl_insert_def Let_def split: option.splits if_splits)

lemma CreateAdmin_cases:
  obtains (no) e where "CreateAdmin E salt ok created u pw em p = (Inl e, p)"
  | (yes) rows where "CreateAdmin E salt ok created u pw em p = (Inr (), p\<lparr>pn_admins := rows, pn_next_admin := pn_next_admin p + 1\<rparr>)"
      and "length rows = Suc (length (pn_admins p))"
proof (cases "HashPassword (ae_argon E) salt pw")
  case None
  then show ?thesis using no by (simp add: CreateAdmin_def)
next
  case (Some h)
  then show ?thesis
    by (cases rule: insert_admin_cases [of ok created u h em p]) (auto simp: CreateAdmin_def intro: no yes)
qed

lemma updateLastLogin_frame [admin_frame]:
  "length (pn_admins (updateLastLogin ok now i p)) = length (pn_admins p)"
  "pn_invites (updateLastLogin ok now i p) = pn_invites p"
  "pn_setupToken (updateLastLogin ok now i p) = pn_setupToken p" "pn_setupDone (updateLastLogin ok now i p) = pn_setupDone p"
  "pn_sessions (updateLastLogin ok now i p) = pn_sessions p"
  by (simp_all add: updateLastLogin_def tbl_update_def)

lemma createAdminSession_frame [admin_frame]:
  "pn_admins (snd (createAdminSession E bytes ok now r i p)) = pn_admins p"
  "pn_invites (snd (createAdminSession E bytes ok now r i p)) = pn_invites p"
  "pn_setupToken (snd (createAdminSession E bytes ok now r i p)) = pn_setupToken p"
  "pn_setupDone (snd (createAdminSession E bytes ok now r i p)) = pn_setupDone p"
  by (auto simp: createAdminSession_def Let_def split: option.split)

text \<open>The part of the panel that decides who may become an administrator.\<close>

definition permissions :: "panel \<Rightarrow> nat \<times> inviteRecord list \<times> string \<times> bool" where
  "permissions p = (length (pn_admins p), pn_invites p, pn_setupToken p, pn_setupDone p)"

lemma drop_session_permissions [admin_frame]: "permissions (drop_session ok h p) = permissions p"
  by (simp add: permissions_def drop_session_def)

lemma createAdminSession_fails: "createAdminSession E bytes ok now r i p = (Inl e, p') \<Longrightarrow> p' = p"
  by (auto simp: createAdminSession_def Let_def split: option.splits)

lemma login_panel:
  obtains (same) "snd (snd (handleLoginPost E ok bytes oks now okl now2 form r p)) = p"
  | (entered) f a token p' where "form = Some f"
      and "VerifyPassword E ok (trim_space (f ''username'')) (f ''password'') p = Inr (Some a)"
      and "createAdminSession E bytes oks now r (ad_ID a) p = (Inr token, p')"
      and "snd (snd (handleLoginPost E ok bytes oks now okl now2 form r p)) = updateLastLogin okl now2 (ad_ID a) p'"
proof (cases form)
  case None
  then show ?thesis using same by (simp add: handleLoginPost_def)
next
  case (Some f)
  let ?check = "VerifyPassword E ok (trim_space (f ''username'')) (f ''password'') p"
  note unfold = Some handleLoginPost_def Let_def
  show ?thesis
  proof (cases "trim_space (f ''username'') = [] \<or> f ''password'' = []")
    case True
    then show ?thesis using same by (auto simp: unfold)
  next
    case False
    note unfold = unfold False
    consider e where "?check = Inl e" | "?check = Inr None" | a where "?check = Inr (Some a)"
      by (metis not_None_eq sum.exhaust_sel)
    then show ?thesis
    proof cases
      case 1
      then show ?thesis using same by (cases e) (auto simp: unfold)
    next
      case 2
      then show ?thesis using same by (simp add: unfold)
    next
      case (3 a)
      obtain res p' where c: "createAdminSession E bytes oks now r (ad_ID a) p = (res, p')" by fastforce
      show ?thesis
      proof (cases res)
        case (Inl e)
        with c createAdminSession_fails have "p' = p" by blast
        with Inl c 3 show ?thesis using same by (auto simp: unfold)
      next
        case (Inr token)
        with c 3 show ?thesis using entered [OF Some 3] by (auto simp: unfold)
      qed
    qed
  qed
qed

lemma login_permissions [admin_frame]:
  "permissions (snd (snd (handleLoginPost E ok bytes oks now okl now2 form r p))) = permissions p"
proof (cases rule: login_panel [of E ok bytes oks now okl now2 form r p])
  case (entered f a token p')
  then show ?thesis using createAdminSession_frame [of E bytes oks now r "ad_ID a" p]
    by (simp add: permissions_def admin_frame)
qed simp

lemma session_permissions [admin_frame]:
  "permissions (snd (validateAdminSession E ok okd now r p)) = permissions p"
  "permissions (deleteAdminSession E ok r p) = permissions p"
  "permissions (snd (CleanupExpiredSessions ok now p)) = permissions p"
  by (auto simp: validateAdminSession_def deleteAdminSession_def CleanupExpiredSessions_def drop_session_def permissions_def
      split: option.split)

lemma token_permissions [admin_frame]:
  "permissions (snd (createToken E bytes ok now created by name days p)) = permissions p"
  "permissions (snd (revokeToken ok i p)) = permissions p"
  by (auto simp: createToken_def revokeToken_def permissions_def Let_def split: option.split)

lemma length_filter_without:
  "i < length xs \<Longrightarrow> length (filter P (without i xs)) = length (filter P xs) - (if P (xs ! i) then 1 else 0)"
proof -
  assume "i < length xs"
  from arg_cong [OF id_take_nth_drop [OF this], of "filter P"]
  have "length (filter P xs) = length (filter P (take i xs)) + (if P (xs ! i) then 1 else 0) + length (filter P (drop (Suc i) xs))"
    by simp
  then show ?thesis by (simp add: without_def)
qed

lemma set_without: "x \<in> set (without i xs) \<Longrightarrow> x \<in> set xs"
  by (auto simp: without_def dest: in_set_takeD in_set_dropD)

end
