(* ===== verification/Admin_Laws.thy ===== *)
theory Admin_Laws
  imports Admin_System
begin

text \<open>
  Who may become an administrator and who may enter the panel, over every interleaving of the requests of
  \<open>Admin_System\<close>.
\<close>

section \<open>Invitations admit one\<close>

fun inserting :: "string \<Rightarrow> job \<Rightarrow> bool" where
  "inserting h (Invite_insert h' u pw em) \<longleftrightarrow> h' = h"
| "inserting h j \<longleftrightarrow> False"

definition used_invite :: "string \<Rightarrow> panel \<Rightarrow> bool" where
  "used_invite h p \<longleftrightarrow> (\<exists>i \<in> set (pn_invites p). inv_TokenHash i = h \<and> inv_UsedAt i \<noteq> None)"

definition spent :: "string \<Rightarrow> admin_sys \<Rightarrow> nat" where
  "spent h S = count_list (as_made S) (By_invite h) + length (filter (inserting h) (as_jobs S))"

text \<open>The invitations and what they were spent on.\<close>

definition invites_inv :: "panel \<Rightarrow> admin_sys \<Rightarrow> bool" where
  "invites_inv p0 S \<longleftrightarrow> tbl_ok inv_TokenHash (pn_invites (as_panel S))
     \<and> (\<forall>h. used_invite h p0 \<longrightarrow> used_invite h (as_panel S))
     \<and> (\<forall>h. spent h S \<le> (if used_invite h (as_panel S) \<and> \<not> used_invite h p0 then 1 else 0))"

text \<open>The setup token, and the administrators in number.\<close>

definition setup_inv :: "panel \<Rightarrow> admin_sys \<Rightarrow> bool" where
  "setup_inv p0 S \<longleftrightarrow> length (pn_admins (as_panel S)) = length (pn_admins p0) + length (as_made S)
     \<and> pn_setupToken (as_panel S) \<in> {pn_setupToken p0, []} \<and> (pn_setupDone p0 \<longrightarrow> pn_setupDone (as_panel S))
     \<and> (\<forall>t u pw em. Setup_insert t u pw em \<in> set (as_jobs S) \<longrightarrow> isSetupNeeded p0 \<and> t = pn_setupToken p0)
     \<and> (\<forall>t. By_setup t \<in> set (as_made S) \<longrightarrow> isSetupNeeded p0 \<and> t = pn_setupToken p0)"

lemma spent_made [simp]: "spent h (S\<lparr>as_panel := p\<rparr>) = spent h S"
  by (simp add: spent_def)

lemma inv_with_panel:
  assumes "permissions (f (as_panel S)) = permissions (as_panel S)"
  shows "invites_inv p0 (with_panel f S) = invites_inv p0 S" "setup_inv p0 (with_panel f S) = setup_inv p0 S"
  using assms by (auto simp: invites_inv_def setup_inv_def with_panel_def permissions_def used_invite_def)

lemma invites_inv_grow:
  assumes "invites_inv p0 S" and "tbl_ok inv_TokenHash (pn_invites (as_panel S'))"
    and "\<And>h. used_invite h (as_panel S) \<Longrightarrow> used_invite h (as_panel S')" and "\<And>h. spent h S' \<le> spent h S"
  shows "invites_inv p0 S'"
  unfolding invites_inv_def
proof (intro conjI allI impI assms(2))
  show "used_invite h p0 \<Longrightarrow> used_invite h (as_panel S')" for h using assms(1,3) by (simp add: invites_inv_def)
  fix h
  have "spent h S' \<le> (if used_invite h (as_panel S) \<and> \<not> used_invite h p0 then 1 else 0)"
    using assms(1,4) unfolding invites_inv_def by (meson le_trans)
  then show "spent h S' \<le> (if used_invite h (as_panel S') \<and> \<not> used_invite h p0 then 1 else 0)"
    using assms(3) [of h] by (auto split: if_splits)
qed

lemma invites_inv_mono:
  assumes "invites_inv p0 S" and "pn_invites (as_panel S') = pn_invites (as_panel S)" and "\<And>h. spent h S' \<le> spent h S"
  shows "invites_inv p0 S'"
  using assms by (intro invites_inv_grow [OF assms(1)]) (auto simp: invites_inv_def used_invite_def)

lemma setup_inv_mono:
  assumes "setup_inv p0 S" and "length (pn_admins (as_panel S')) = length (pn_admins (as_panel S)) + k"
    and "length (as_made S') = length (as_made S) + k" and "pn_setupToken (as_panel S') \<in> {pn_setupToken (as_panel S), []}"
    and "pn_setupDone (as_panel S) \<Longrightarrow> pn_setupDone (as_panel S')"
    and "\<And>t u pw em. Setup_insert t u pw em \<in> set (as_jobs S') \<Longrightarrow> Setup_insert t u pw em \<in> set (as_jobs S)"
    and "\<And>t. By_setup t \<in> set (as_made S') \<Longrightarrow> By_setup t \<in> set (as_made S) \<or> (\<exists>u pw em. Setup_insert t u pw em \<in> set (as_jobs S))"
  shows "setup_inv p0 S'"
proof -
  have "pn_setupToken (as_panel S') \<in> {pn_setupToken p0, []}" using assms(1,4) by (auto simp: setup_inv_def)
  moreover have "pn_setupDone p0 \<longrightarrow> pn_setupDone (as_panel S')" using assms(1,5) by (simp add: setup_inv_def)
  moreover have "Setup_insert t u pw em \<in> set (as_jobs S') \<Longrightarrow> isSetupNeeded p0 \<and> t = pn_setupToken p0" for t u pw em
    using assms(1) assms(6) unfolding setup_inv_def by blast
  moreover have "By_setup t \<in> set (as_made S') \<Longrightarrow> isSetupNeeded p0 \<and> t = pn_setupToken p0" for t
    using assms(1) assms(7) unfolding setup_inv_def by blast
  ultimately show ?thesis using assms(1-3) unfolding setup_inv_def by simp
qed

lemma spent_without: "i < length (as_jobs S) \<Longrightarrow> spent h (S\<lparr>as_panel := p, as_jobs := without i (as_jobs S)\<rparr>) \<le> spent h S"
  by (simp add: spent_def length_filter_without)

lemma createAdminInvite_cases:
  "snd (createAdminInvite E bytes ok now by hours p) = p
   \<or> (\<exists>i. snd (createAdminInvite E bytes ok now by hours p) =
            p\<lparr>pn_invites := pn_invites p @ [i], pn_next_invite := pn_next_invite p + 1\<rparr>
          \<and> inv_UsedAt i = None \<and> inv_TokenHash i \<notin> inv_TokenHash ` set (pn_invites p))"
proof (cases bytes)
  case None
  then show ?thesis by (simp add: createAdminInvite_def)
next
  case (Some raw)
  let ?i = "\<lparr>inv_ID = pn_next_invite p, inv_TokenHash = ae_hash E (hex_encode raw), inv_CreatedBy = by,
    inv_ExpiresAt = unix_time (now + int64 (hours * 3600000000000)), inv_UsedAt = None\<rparr>"
  show ?thesis
  proof (cases "ok \<and> inv_TokenHash ?i \<notin> inv_TokenHash ` set (pn_invites p)")
    case True
    then show ?thesis using Some by (intro disjI2 exI [of _ ?i]) (simp add: createAdminInvite_def tbl_insert_def Let_def)
  qed (use Some in \<open>auto simp: createAdminInvite_def tbl_insert_def Let_def\<close>)
qed

definition marked :: "admin_env \<Rightarrow> int \<Rightarrow> string \<Rightarrow> panel \<Rightarrow> panel" where
  "marked E now token p =
     p\<lparr>pn_invites := tbl_update (active_invite (ae_hash E token) (unix_time now))
         (\<lambda>i. i\<lparr>inv_UsedAt := Some (unix_time now)\<rparr>) (pn_invites p)\<rparr>"

lemma mark_invite_used_cases:
  obtains (no) x where "mark_invite_used E oc now token p = (x, p)" and "\<And>n. x \<noteq> Inr (Suc n)"
  | (uncounted) e where "mark_invite_used E oc now token p = (Inl e, marked E now token p)"
  | (found) n i where "mark_invite_used E oc now token p = (Inr (Suc n), marked E now token p)"
      and "i \<in> set (pn_invites p)" and "active_invite (ae_hash E token) (unix_time now) i"
proof (cases oc)
  case Failed
  then show ?thesis using no [of "Inl Admin_sql"] by (simp add: mark_invite_used_def Let_def)
next
  case Uncounted
  then show ?thesis using uncounted by (simp add: mark_invite_used_def marked_def Let_def)
next
  case Written
  let ?P = "active_invite (ae_hash E token) (unix_time now)"
  have res: "mark_invite_used E oc now token p = (Inr (tbl_count ?P (pn_invites p)), marked E now token p)"
    using Written by (simp add: mark_invite_used_def marked_def Let_def)
  show ?thesis
  proof (cases "tbl_count ?P (pn_invites p)")
    case 0
    then have "tbl_update ?P f (pn_invites p) = pn_invites p" for f
      by (auto simp: tbl_count_zero tbl_update_def intro: map_idI)
    then have "marked E now token p = p" by (simp add: marked_def)
    with 0 res show ?thesis using no [of "Inr 0"] by simp
  next
    case (Suc n)
    then obtain i where "i \<in> set (pn_invites p)" "?P i" by (metis nat.distinct(1) tbl_count_zero)
    with Suc res show ?thesis using found by simp
  qed
qed

lemma marked_invites:
  assumes "tbl_ok inv_TokenHash (pn_invites p)"
  shows "tbl_ok inv_TokenHash (pn_invites (marked E now token p))"
    and "used_invite h (marked E now token p) \<longleftrightarrow>
      used_invite h p \<or> (\<exists>i \<in> set (pn_invites p). active_invite (ae_hash E token) (unix_time now) i \<and> h = ae_hash E token)"
proof -
  show "tbl_ok inv_TokenHash (pn_invites (marked E now token p))"
    using tbl_ok_update [OF assms, of _ "\<lambda>i. i\<lparr>inv_UsedAt := Some (unix_time now)\<rparr>"] by (simp add: marked_def)
  let ?P = "active_invite (ae_hash E token) (unix_time now)"
  have "used_invite h (marked E now token p) \<longleftrightarrow> (\<exists>i \<in> set (pn_invites p). inv_TokenHash i = h \<and> (?P i \<or> inv_UsedAt i \<noteq> None))"
    unfolding used_invite_def marked_def tbl_update_def by (simp del: if_image_distrib, intro bex_cong refl, auto)
  then show "used_invite h (marked E now token p) \<longleftrightarrow> used_invite h p \<or> (\<exists>i \<in> set (pn_invites p). ?P i \<and> h = ae_hash E token)"
    by (auto simp: used_invite_def active_invite_def)
qed

lemma active_not_used:
  assumes "tbl_ok inv_TokenHash (pn_invites p)" and "i \<in> set (pn_invites p)" and "active_invite h now i"
  shows "\<not> used_invite h p"
  using assms by (auto simp: used_invite_def active_invite_def tbl_ok_def distinct_map dest: inj_onD)

lemma add_job_inv:
  assumes "\<And>j h. x = Inr j \<Longrightarrow> \<not> inserting h j"
    and "\<And>t u pw em. x = Inr (Setup_insert t u pw em) \<Longrightarrow> isSetupNeeded (as_panel S) \<and> t = pn_setupToken (as_panel S)"
  shows "invites_inv p0 S \<Longrightarrow> invites_inv p0 (add_job x S)" and "setup_inv p0 S \<Longrightarrow> setup_inv p0 (add_job x S)"
proof -
  show "invites_inv p0 S \<Longrightarrow> invites_inv p0 (add_job x S)"
    by (erule invites_inv_mono) (use assms(1) in \<open>auto simp: add_job_def spent_def split: sum.split\<close>)
  show "setup_inv p0 S \<Longrightarrow> setup_inv p0 (add_job x S)"
  proof (cases x)
    case (Inl e)
    then show "setup_inv p0 S \<Longrightarrow> ?thesis" by (simp add: add_job_def)
  next
    case (Inr j)
    assume I: "setup_inv p0 S"
    have "isSetupNeeded p0 \<and> t = pn_setupToken p0" if "j = Setup_insert t u pw em" for t u pw em
      using assms(2) [OF Inr [unfolded that]] I by (auto simp: setup_inv_def isSetupNeeded_def)
    then show ?thesis using I Inr unfolding setup_inv_def by (simp add: add_job_def) metis
  qed
qed

lemma setup_check_needed: "setup_check now form p = Inr (t, rest) \<Longrightarrow> isSetupNeeded p \<and> t = pn_setupToken p"
  by (auto simp: setup_check_def peekSetupToken_def Let_def split: if_splits option.splits)

lemma setup_create_inv:
  assumes "i < length (as_jobs S)" and "j = as_jobs S ! i"
  shows "invites_inv p0 S \<Longrightarrow> invites_inv p0 (setup_create E salt ok created i j S)"
    and "setup_inv p0 S \<Longrightarrow> setup_inv p0 (setup_create E salt ok created i j S)"
proof -
  have mem: "j \<in> set (as_jobs S)" using assms by simp
  show "invites_inv p0 S \<Longrightarrow> invites_inv p0 (setup_create E salt ok created i j S)"
  proof (cases j)
    case (Setup_insert t u pw em)
    then show "invites_inv p0 S \<Longrightarrow> ?thesis"
      using spent_without [OF assms(1)] assms
      by (cases rule: CreateAdmin_cases [of E salt ok created u pw em "as_panel S"]; elim invites_inv_mono)
        (auto simp: setup_create_def spent_def length_filter_without)
  qed (auto simp: setup_create_def)
  show "setup_inv p0 S \<Longrightarrow> setup_inv p0 (setup_create E salt ok created i j S)"
  proof (cases j)
    case (Setup_insert t u pw em)
    then show "setup_inv p0 S \<Longrightarrow> ?thesis" using mem
      by (cases rule: CreateAdmin_cases [of E salt ok created u pw em "as_panel S"])
        (rule setup_inv_mono [where S = S], auto simp: setup_create_def dest: set_without)+
  qed (auto simp: setup_create_def)
qed

lemma setup_end_inv:
  assumes "i < length (as_jobs S)"
  shows "invites_inv p0 S \<Longrightarrow> invites_inv p0 (setup_end now i j S)"
    and "setup_inv p0 S \<Longrightarrow> setup_inv p0 (setup_end now i j S)"
proof -
  have fin: "pn_invites (snd (setup_finish now t p)) = pn_invites p" "pn_admins (snd (setup_finish now t p)) = pn_admins p"
    "pn_setupToken (snd (setup_finish now t p)) \<in> {pn_setupToken p, []}"
    "pn_setupDone p \<Longrightarrow> pn_setupDone (snd (setup_finish now t p))" for t p
    by (auto simp: setup_finish_def consumeSetupToken_def)
  show "invites_inv p0 S \<Longrightarrow> invites_inv p0 (setup_end now i j S)"
    by (erule invites_inv_mono) (auto simp: setup_end_def fin spent_def length_filter_without assms split: job.split)
  show "setup_inv p0 S \<Longrightarrow> setup_inv p0 (setup_end now i j S)"
    by (rule setup_inv_mono [where S = S and k = 0]) (use fin in \<open>auto simp: setup_end_def split: job.splits dest: set_without\<close>)
qed

lemma invite_use_inv:
  assumes "i < length (as_jobs S)" and "j = as_jobs S ! i"
  shows "invites_inv p0 S \<Longrightarrow> invites_inv p0 (invite_use E oc now i j S)"
    and "setup_inv p0 S \<Longrightarrow> setup_inv p0 (invite_use E oc now i j S)"
proof -
  show "setup_inv p0 S \<Longrightarrow> setup_inv p0 (invite_use E oc now i j S)"
  proof (cases j)
    case (Invite_mark t u h em)
    then show "setup_inv p0 S \<Longrightarrow> ?thesis"
      by (cases rule: mark_invite_used_cases [of E oc now t "as_panel S"]; elim setup_inv_mono [where S = S and k = 0])
        (auto simp: invite_use_def marked_def split: sum.splits nat.splits dest: set_without)
  qed (auto simp: invite_use_def)
  assume I: "invites_inv p0 S"
  then have uniq: "tbl_ok inv_TokenHash (pn_invites (as_panel S))" by (simp add: invites_inv_def)
  show "invites_inv p0 (invite_use E oc now i j S)"
  proof (cases j)
    case (Invite_mark t u h em)
    let ?p = "marked E now t (as_panel S)"
    have grow: "invites_inv p0 (S\<lparr>as_panel := ?p, as_jobs := without i (as_jobs S)\<rparr>)"
      using marked_invites [OF uniq, where E = E and now = now and token = t] spent_without [OF assms(1), of _ ?p]
      by (intro invites_inv_grow [OF I]) simp_all
    show ?thesis
    proof (cases rule: mark_invite_used_cases [of E oc now t "as_panel S"])
      case (no x)
      then have "invite_use E oc now i j S = S\<lparr>as_jobs := without i (as_jobs S)\<rparr>"
        by (auto simp: Invite_mark invite_use_def split: sum.split nat.split)
      then show ?thesis using I by (auto elim!: invites_inv_mono simp: spent_def length_filter_without assms(1))
    next
      case (uncounted e)
      then show ?thesis using grow by (simp add: Invite_mark invite_use_def)
    next
      case (found n k)
      let ?S = "S\<lparr>as_panel := ?p, as_jobs := without i (as_jobs S) @ [Invite_insert (ae_hash E t) u h em]\<rparr>"
      have no: "\<not> used_invite (ae_hash E t) (as_panel S)" using active_not_used [OF uniq found(2,3)] .
      then have "spent (ae_hash E t) S = 0" "\<not> used_invite (ae_hash E t) p0"
        using I unfolding invites_inv_def by (metis le_zero_eq)+
      moreover have "used_invite (ae_hash E t) ?p" using marked_invites(2) [OF uniq] found by blast
      moreover have "spent h' ?S = spent h' (S\<lparr>as_panel := ?p, as_jobs := without i (as_jobs S)\<rparr>) + (if h' = ae_hash E t then 1 else 0)" for h'
        by (simp add: spent_def)
      moreover have "spent (ae_hash E t) (S\<lparr>as_panel := ?p, as_jobs := without i (as_jobs S)\<rparr>) \<le> spent (ae_hash E t) S"
        by (rule spent_without [OF assms(1)])
      ultimately have le: "spent h' ?S \<le> (if used_invite h' ?p \<and> \<not> used_invite h' p0 then 1 else 0)" for h'
        using grow unfolding invites_inv_def by (cases "h' = ae_hash E t") simp_all
      have "invites_inv p0 ?S"
        using le grow unfolding invites_inv_def by simp
      then show ?thesis using found(1) by (simp add: Invite_mark invite_use_def)
    qed
  qed (use I in \<open>auto simp: invite_use_def\<close>)
qed

lemma invite_create_inv:
  assumes "i < length (as_jobs S)" and "j = as_jobs S ! i"
  shows "invites_inv p0 S \<Longrightarrow> invites_inv p0 (invite_create ok created i j S)"
    and "setup_inv p0 S \<Longrightarrow> setup_inv p0 (invite_create ok created i j S)"
proof -
  show "invites_inv p0 S \<Longrightarrow> invites_inv p0 (invite_create ok created i j S)"
  proof (cases j)
    case (Invite_insert h u pw em)
    have one: "Suc 0 \<le> length (filter (inserting h) (as_jobs S))"
    proof -
      have "inserting h j" by (simp add: Invite_insert)
      moreover have "j \<in> set (as_jobs S)" using assms by simp
      ultimately have "j \<in> set (filter (inserting h) (as_jobs S))" by simp
      from length_pos_if_in_set [OF this] show ?thesis by (rule Suc_leI)
    qed
    from Invite_insert show "invites_inv p0 S \<Longrightarrow> ?thesis"
      by (cases rule: insert_admin_cases [of ok created u pw em "as_panel S"]; elim invites_inv_mono)
        (use one assms in \<open>auto simp: invite_create_def spent_def length_filter_without\<close>)
  qed (auto simp: invite_create_def)
  show "setup_inv p0 S \<Longrightarrow> setup_inv p0 (invite_create ok created i j S)"
  proof (cases j)
    case (Invite_insert h u pw em)
    then show "setup_inv p0 S \<Longrightarrow> ?thesis"
      by (cases rule: insert_admin_cases [of ok created u pw em "as_panel S"])
        (rule setup_inv_mono [where S = S], auto simp: invite_create_def dest: set_without)+
  qed (auto simp: invite_create_def)
qed

lemma make_invite_inv:
  shows "invites_inv p0 S \<Longrightarrow> invites_inv p0 (with_panel (\<lambda>p. snd (createAdminInvite E bytes ok now by hours p)) S)"
    and "setup_inv p0 S \<Longrightarrow> setup_inv p0 (with_panel (\<lambda>p. snd (createAdminInvite E bytes ok now by hours p)) S)"
proof -
  let ?p = "snd (createAdminInvite E bytes ok now by hours (as_panel S))"
  note c = createAdminInvite_cases [of E bytes ok now "by" hours "as_panel S"]
  have same: "pn_admins ?p = pn_admins (as_panel S)" "pn_setupToken ?p = pn_setupToken (as_panel S)" "pn_setupDone ?p = pn_setupDone (as_panel S)"
    using c by auto
  then show "setup_inv p0 S \<Longrightarrow> setup_inv p0 (with_panel (\<lambda>p. snd (createAdminInvite E bytes ok now by hours p)) S)"
    by (simp add: setup_inv_def with_panel_def)
  assume I: "invites_inv p0 S"
  have "tbl_ok inv_TokenHash (pn_invites ?p)" using c I by (auto simp: invites_inv_def tbl_ok_def)
  moreover have "used_invite h (as_panel S) \<Longrightarrow> used_invite h ?p" for h using c by (auto simp: used_invite_def)
  ultimately show "invites_inv p0 (with_panel (\<lambda>p. snd (createAdminInvite E bytes ok now by hours p)) S)"
    by (intro invites_inv_grow [OF I]) (simp_all add: with_panel_def spent_def)
qed

lemma invite_job_inserts: "invite_job E token salt x = Inr j \<Longrightarrow> \<not> inserting h j"
  by (auto simp: invite_job_def split: prod.splits option.splits)

lemma invite_job_no_setup [simp]: "invite_job E token salt x \<noteq> Inr (Setup_insert t u pw em)"
  by (auto simp: invite_job_def split: prod.splits option.splits)

lemma step_inv:
  shows "invites_inv p0 S \<Longrightarrow> invites_inv p0 (step E e S)" and "setup_inv p0 S \<Longrightarrow> setup_inv p0 (step E e S)"
proof (induction e)
  case (Setup_post now form)
  case 1
  then show ?case by (auto intro!: add_job_inv simp: and_then_Inr_iff dest: setup_check_needed)
next
  case (Setup_post now form)
  case 2
  then show ?case by (auto intro!: add_job_inv simp: and_then_Inr_iff dest: setup_check_needed)
next
  case (Invite_post ok now token form salt)
  case 1
  then show ?case by (auto intro!: add_job_inv simp: and_then_Inr_iff dest: invite_job_inserts)
next
  case (Invite_post ok now token form salt)
  case 2
  then show ?case by (auto intro!: add_job_inv simp: and_then_Inr_iff dest: invite_job_inserts)
qed (auto simp: on_job_def inv_with_panel admin_frame setup_create_inv setup_end_inv invite_use_inv invite_create_inv make_invite_inv)

text \<open>
  C4: Every administrator was admitted. Whatever requests run in whatever interleaving, the number of
  administrators grows exactly by the permissions spent; an invitation admits at most one, and only if it
  exists, was not used before and is marked as used; the setup form admits somebody only if setup was
  needed at the start, and with the token of the start.
\<close>

theorem every_admin_was_admitted:
  assumes "tbl_ok inv_TokenHash (pn_invites p)"
  shows "length (pn_admins (as_panel (run E es (idle p)))) = length (pn_admins p) + length (as_made (run E es (idle p)))
    \<and> count_list (as_made (run E es (idle p))) (By_invite h) \<le> 1
    \<and> (By_invite h \<in> set (as_made (run E es (idle p))) \<longrightarrow>
         used_invite h (as_panel (run E es (idle p))) \<and> \<not> used_invite h p)
    \<and> (By_setup t \<in> set (as_made (run E es (idle p))) \<longrightarrow> isSetupNeeded p \<and> t = pn_setupToken p)"
proof -
  have I: "invites_inv p (run E es (idle p)) \<and> setup_inv p (run E es (idle p))"
  proof (induction es rule: rev_induct)
    case Nil
    then show ?case using assms by (simp add: idle_def invites_inv_def setup_inv_def spent_def)
  qed (simp add: step_inv)
  let ?S = "run E es (idle p)"
  have "spent h ?S \<le> (if used_invite h (as_panel ?S) \<and> \<not> used_invite h p then 1 else 0)" using I by (simp add: invites_inv_def)
  then have "count_list (as_made ?S) (By_invite h) \<le> 1"
    and "count_list (as_made ?S) (By_invite h) \<noteq> 0 \<Longrightarrow> used_invite h (as_panel ?S) \<and> \<not> used_invite h p"
    by (auto simp: spent_def split: if_splits)
  then show ?thesis using I by (auto simp: setup_inv_def count_list_0_iff)
qed

section \<open>Setup admits more than one\<close>

text \<open>
  C19: The setup token is not single-use. Two requests that post acceptable forms with different user
  names before either has finished both create an administrator: the token is checked before the insertion
  and consumed only after it, and the second consumption fails too late.
\<close>

theorem setup_race_admits_two:
  assumes "setup_check now f p = Inr (t, u, pw, em)" and "setup_check now g p = Inr (t, u', pw', em')" and "u \<noteq> u'"
    and "u \<notin> ad_Username ` set (pn_admins p)" and "u' \<notin> ad_Username ` set (pn_admins p)"
    and "now' \<le> pn_setupExpiry p"
  shows "let S = run E [Setup_post now f, Setup_post now g, Setup_create 0 (Some s) True c, Setup_create 0 (Some s') True c',
              Setup_end 0 now', Setup_end 0 now'] (idle p)
    in as_made S = [By_setup t, By_setup t] \<and> as_jobs S = []
     \<and> map ad_Username (pn_admins (as_panel S)) = map ad_Username (pn_admins p) @ [u, u']
     \<and> \<not> isSetupNeeded (as_panel S)"
proof -
  obtain h h' where h: "HashPassword (ae_argon E) (Some s) pw = Some h" "HashPassword (ae_argon E) (Some s') pw' = Some h'"
    by (simp add: HashPassword_def Let_def)
  have t: "t = pn_setupToken p" "t \<noteq> []"
    using setup_check_needed [OF assms(1)] by (auto simp: isSetupNeeded_def)
  show ?thesis
    using assms t h
    by (simp add: run_def idle_def add_job_def on_job_def setup_create_def setup_end_def CreateAdmin_def insert_admin_def
        tbl_insert_def without_def Let_def setup_finish_def consumeSetupToken_def isSetupNeeded_def)
qed

section \<open>The guard\<close>

lemma CreateAdmin_sessions: "CreateAdmin E salt ok created u pw em p = (x, p') \<Longrightarrow> pn_sessions p' = pn_sessions p"
  by (cases rule: CreateAdmin_cases [of E salt ok created u pw em p]) auto

lemma insert_admin_sessions: "insert_admin ok created u h em p = (x, p') \<Longrightarrow> pn_sessions p' = pn_sessions p"
  by (cases rule: insert_admin_cases [of ok created u h em p]) auto

lemma mark_invite_sessions: "mark_invite_used E oc now token p = (x, p') \<Longrightarrow> pn_sessions p' = pn_sessions p"
  by (cases rule: mark_invite_used_cases [of E oc now token p]) (auto simp: marked_def)

lemmas table_sessions = CreateAdmin_sessions insert_admin_sessions mark_invite_sessions

lemma job_sessions:
  "pn_sessions (as_panel (setup_create E salt ok created i j S)) = pn_sessions (as_panel S)"
  "pn_sessions (as_panel (setup_end now i j S)) = pn_sessions (as_panel S)"
  "pn_sessions (as_panel (invite_use E oc now i j S)) = pn_sessions (as_panel S)"
  "pn_sessions (as_panel (invite_create ok created i j S)) = pn_sessions (as_panel S)"
  by (auto simp: setup_create_def setup_end_def setup_finish_def consumeSetupToken_def invite_use_def invite_create_def
      dest: table_sessions split: job.split prod.split sum.split nat.split)

lemma invite_sessions: "pn_sessions (snd (createAdminInvite E bytes ok now by hours p)) = pn_sessions p"
  using createAdminInvite_cases [of E bytes ok now "by" hours p] by auto

lemma dropped_sessions:
  "set (pn_sessions (drop_session ok h p)) \<subseteq> set (pn_sessions p)"
  "set (pn_sessions (snd (validateAdminSession E ok okd now r p))) \<subseteq> set (pn_sessions p)"
  "set (pn_sessions (deleteAdminSession E ok r p)) \<subseteq> set (pn_sessions p)"
  "set (pn_sessions (snd (CleanupExpiredSessions ok now p))) \<subseteq> set (pn_sessions p)"
  by (auto simp: drop_session_def validateAdminSession_def deleteAdminSession_def CleanupExpiredSessions_def set_tbl_delete
      split: option.splits if_splits)

lemma token_sessions:
  "pn_sessions (snd (createToken E bytes ok now created by name days p)) = pn_sessions p"
  "pn_sessions (snd (revokeToken ok i p)) = pn_sessions p"
  by (auto simp: createToken_def revokeToken_def Let_def split: option.split)

text \<open>A session that a login made.\<close>

definition login_session :: "admin_env \<Rightarrow> event \<Rightarrow> panel \<Rightarrow> sessionRow \<Rightarrow> bool" where
  "login_session E e p s \<longleftrightarrow> (\<exists>ok raw oks t okl t2 f r a. e = Login ok (Some raw) oks t okl t2 (Some f) r
     \<and> VerifyPassword E ok (trim_space (f ''username'')) (f ''password'') p = Inr (Some a)
     \<and> sr_TokenHash s = ae_hash E (hex_encode raw) \<and> sr_AdminID s = ad_ID a
     \<and> sr_ExpiresAt s = unix_time (t + adminSessionDuration))"

lemma createAdminSession_row:
  assumes "createAdminSession E bytes ok now r i p = (Inr token, p')" and "s \<in> set (pn_sessions p')"
  shows "s \<in> set (pn_sessions p) \<or> (\<exists>raw. bytes = Some raw \<and> sr_TokenHash s = ae_hash E (hex_encode raw) \<and> sr_AdminID s = i
    \<and> sr_ExpiresAt s = unix_time (now + adminSessionDuration))"
  using assms by (auto simp: createAdminSession_def tbl_insert_def Let_def split: option.splits if_splits)

lemma step_sessions:
  assumes "s \<in> set (pn_sessions (as_panel (step E e S)))"
  shows "s \<in> set (pn_sessions (as_panel S)) \<or> login_session E e (as_panel S) s"
proof (cases e)
  case (Login ok bytes oks now okl now2 form r)
  show ?thesis
  proof (cases rule: login_panel [of E ok bytes oks now okl now2 form r "as_panel S"])
    case same
    then show ?thesis using assms Login by (simp add: with_panel_def)
  next
    case (entered f a token p')
    then have "s \<in> set (pn_sessions p')" using assms Login by (simp add: with_panel_def admin_frame)
    from createAdminSession_row [OF entered(3) this] show ?thesis
      using entered Login unfolding login_session_def by blast
  qed
qed (use assms in \<open>auto simp: on_job_def with_panel_def add_job_def job_sessions invite_sessions token_sessions
    dest: dropped_sessions [THEN subsetD] split: sum.splits if_splits\<close>)

lemma sessions_come_from_logins:
  assumes "pn_sessions p = []" and "s \<in> set (pn_sessions (as_panel (run E es (idle p))))"
  obtains es1 e es2 where "es = es1 @ e # es2" and "login_session E e (as_panel (run E es1 (idle p))) s"
  using assms(2)
proof (induction es arbitrary: thesis rule: rev_induct)
  case Nil
  then show ?case using assms(1) by (simp add: idle_def)
next
  case (snoc e es)
  from step_sessions [of s E e "run E es (idle p)"] snoc.prems(2)
  consider "s \<in> set (pn_sessions (as_panel (run E es (idle p))))" | "login_session E e (as_panel (run E es (idle p))) s" by auto
  then show ?case
  proof cases
    case 1
    then obtain es1 e' es2 where "es = es1 @ e' # es2" "login_session E e' (as_panel (run E es1 (idle p))) s"
      using snoc.IH by blast
    then show ?thesis using snoc.prems(1) [of es1 e' "es2 @ [e]"] by simp
  next
    case 2
    then show ?thesis using snoc.prems(1) [of es e "[]"] by simp
  qed
qed

lemma validateAdminSession_live:
  assumes "validateAdminSession E ok okd now r p = (i, p')" and "i \<noteq> 0"
  obtains v s where "cookie_of r ''caspaste_admin'' = Some v" and "s \<in> set (pn_sessions p)" and "sr_TokenHash s = ae_hash E v"
    and "sr_AdminID s = i" and "unix_time now \<le> sr_ExpiresAt s" and "p' = p"
proof -
  from assms obtain v where v: "cookie_of r ''caspaste_admin'' = Some v"
    by (cases "cookie_of r ''caspaste_admin''") (auto simp: validateAdminSession_def)
  from assms v have ok by (cases ok) (auto simp: validateAdminSession_def)
  from assms v \<open>ok\<close> obtain s where s: "tbl_find sr_TokenHash (ae_hash E v) (pn_sessions p) = Some s"
    by (cases "tbl_find sr_TokenHash (ae_hash E v) (pn_sessions p)") (auto simp: validateAdminSession_def)
  have "\<not> unix_time now > sr_ExpiresAt s" using assms v \<open>ok\<close> s by (auto simp: validateAdminSession_def)
  with assms v \<open>ok\<close> s have "i = sr_AdminID s" "p' = p" by (simp_all add: validateAdminSession_def)
  with tbl_find_Some [OF s] \<open>\<not> unix_time now > sr_ExpiresAt s\<close> show ?thesis by (intro that [OF v, of s]) simp_all
qed

text \<open>
  C5: The panel is entered only by those who logged in. If the guard lets a request through to the
  protected handler, after any run that started without sessions, then at some point of the run a login
  gave the right password of an enabled administrator, the cookie of the request has the hash of the
  token that this login was given, the 30 days since then are not over, and the protected handler runs as
  that administrator.
\<close>

theorem guard_needs_login:
  assumes "pn_sessions p = []" and "S = as_panel (run E es (idle p))"
    and "requireAuth E (oks, oke, now) ok okd next uri r S \<noteq> requireAuth E (oks, oke, now) ok okd next' uri r S"
  shows "\<exists>es1 es2 okl raw oki t okt t2 f r' a b v. es = es1 @ Login okl (Some raw) oki t okt t2 (Some f) r' # es2
    \<and> VerifyPassword E okl (trim_space (f ''username'')) (f ''password'') (as_panel (run E es1 (idle p))) = Inr (Some a)
    \<and> cookie_of r ''caspaste_admin'' = Some v \<and> ae_hash E v = ae_hash E (hex_encode raw)
    \<and> unix_time now \<le> unix_time (t + adminSessionDuration)
    \<and> b \<in> set (pn_admins S) \<and> ad_ID b = ad_ID a
    \<and> requireAuth E (oks, oke, now) ok okd next uri r S = next (ad_ID a) (ad_Username b) r S"
proof -
  obtain i S' where val: "validateAdminSession E oks oke now r S = (i, S')" by fastforce
  with assms(3) have "i \<noteq> 0" by (auto simp: requireAuth_def)
  from validateAdminSession_live [OF val this] obtain v s where v: "cookie_of r ''caspaste_admin'' = Some v"
    and s: "s \<in> set (pn_sessions S)" "sr_TokenHash s = ae_hash E v" "sr_AdminID s = i" "unix_time now \<le> sr_ExpiresAt s"
    and S': "S' = S" by blast
  from assms(3) val \<open>i \<noteq> 0\<close> obtain b where b: "getAdminByID ok i S = Inr (Some b)"
    by (auto simp: requireAuth_def S' split: sum.splits option.splits)
  then have "b \<in> set (pn_admins S)" "ad_ID b = i" by (auto simp: getAdminByID_def dest!: tbl_find_Some split: if_splits)
  moreover have "requireAuth E (oks, oke, now) ok okd next uri r S = next i (ad_Username b) r S"
    using val \<open>i \<noteq> 0\<close> b by (simp add: requireAuth_def S')
  moreover obtain es1 e es2 where "es = es1 @ e # es2" "login_session E e (as_panel (run E es1 (idle p))) s"
    using sessions_come_from_logins [OF assms(1)] s(1) assms(2) by metis
  ultimately show ?thesis using v s unfolding login_session_def by metis
qed

lemma VerifyPassword_enabled:
  "VerifyPassword E ok u pw p = Inr (Some a) \<Longrightarrow> a \<in> set (pn_admins p) \<and> ad_Username a = u \<and> ad_Enabled a
     \<and> Check (ae_argon E) (ae_bcrypt E) [(u, ad_PasswordHash a)] u pw = Some True"
  by (auto simp: VerifyPassword_def getAdmin_def dest!: find_Some_props split: if_splits option.splits)

section \<open>What the panel does not do\<close>

text \<open>
  The session of an administrator who was disabled meanwhile still passes the guard, although a login
  would be refused.
\<close>

lemma disabled_admin_passes:
  assumes "validateAdminSession E oks oke now r p = (i, p')" and "i \<noteq> 0" and "tbl_find ad_ID i (pn_admins p') = Some a"
  shows "requireAuth E (oks, oke, now) True okd next uri r p = next i (ad_Username a) r p'"
  using assms by (simp add: requireAuth_def getAdminByID_def)

text \<open>A failed count at the start opens the setup wizard although there are administrators.\<close>

lemma setup_opened_by_error: "raw \<noteq> [] \<Longrightarrow> isSetupNeeded (snd (MaybeGenerateSetupToken False (Some raw) now p))"
  by (cases raw) (simp_all add: MaybeGenerateSetupToken_def CountAdmins_def isSetupNeeded_def)

text \<open>
  The answer to the creation of an API token does not depend on its random bytes, so nobody learns the
  token; revoking from the page does nothing.
\<close>

lemma created_token_unknown:
  assumes "ae_hash E (hex_encode raw) \<notin> tk_TokenHash ` set (pn_tokens p)" and "ae_hash E (hex_encode raw') \<notin> tk_TokenHash ` set (pn_tokens p)"
  shows "fst (handleSecurityTokensPost E (Some raw) ok now created form i u r p) = fst (handleSecurityTokensPost E (Some raw') ok now created form i u r p)"
    and "fst (apiCreateToken E (Some raw) ok now created body i u r p) = fst (apiCreateToken E (Some raw') ok now created body i u r p)"
  using assms by (auto simp: handleSecurityTokensPost_def apiCreateToken_def createToken_def tbl_insert_def Let_def split: option.split)

lemma page_revoke_does_nothing:
  "f ''action'' = ''revoke'' \<Longrightarrow> snd (snd (handleSecurityTokensPost E bytes ok now created (Some f) i u r p)) = p"
  by (simp add: handleSecurityTokensPost_def Let_def)

text \<open>
  Accepting an invitation is not atomic: if the user name is taken, the form says that the account
  was not created, and the invitation is used up all the same, so it admits nobody.
\<close>

theorem taken_name_burns_invite:
  assumes "invite_check E True now1 ''POST'' token form p = Inr (u, pw, em)" and "u \<in> ad_Username ` set (pn_admins p)"
    and "unix_time now2 \<le> unix_time now1" and "tbl_ok inv_TokenHash (pn_invites p)"
  shows "\<exists>msg p'. handleAdminInviteAccept E True now1 (Some salt) Written now2 True created ''POST'' token form p = (Invite_form token msg, p')
    \<and> pn_admins p' = pn_admins p \<and> getAdminInviteByToken E True now token p' = Inr None"
proof -
  from assms(1) have "find (active_invite (ae_hash E token) (unix_time now1)) (pn_invites p) \<noteq> None"
    by (auto simp: invite_check_def getAdminInviteByToken_def split: if_splits sum.splits option.splits)
  then obtain i where i: "i \<in> set (pn_invites p)" "active_invite (ae_hash E token) (unix_time now2) i"
    using assms(3) by (auto simp: active_invite_def find_None_iff_ball)
  obtain n where mark: "mark_invite_used E Written now2 token p = (Inr (Suc n), marked E now2 token p)"
    using i tbl_count_zero [of "active_invite (ae_hash E token) (unix_time now2)" "pn_invites p"]
    by (auto simp: mark_invite_used_def marked_def Let_def gr0_conv_Suc)
  obtain h where h: "HashPassword (ae_argon E) (Some salt) pw = Some h" by (simp add: HashPassword_def Let_def)
  let ?p = "marked E now2 token p"
  have "insert_admin True created u h em ?p = (Inl Admin_sql, ?p)"
    using assms(2) by (simp add: insert_admin_def tbl_insert_def marked_def Let_def)
  then have "handleAdminInviteAccept E True now1 (Some salt) Written now2 True created ''POST'' token form p =
      (Invite_form token ''Failed to create account. Username may already be taken.'', ?p)"
    by (simp add: handleAdminInviteAccept_def assms(1) acceptAdminInvite_def h mark invite_answer_def)
  moreover have "find (active_invite (ae_hash E token) (unix_time now)) (pn_invites ?p) = None"
    using active_not_used [OF marked_invites(1) [OF assms(4), of E now2 token]] marked_invites(2) [OF assms(4), of "ae_hash E token" E now2 token] i
    by (auto simp: find_None_iff_ball)
  ultimately show ?thesis by (auto simp: getAdminInviteByToken_def marked_def)
qed

section \<open>A panel with an administrator and an invitation\<close>

definition ex_admin_env :: admin_env where
  "ex_admin_env = \<lparr>ae_hash = (\<lambda>s. s), ae_argon = sample_argon, ae_bcrypt = (\<lambda>h pw. pw = ''secret99'')\<rparr>"

definition ex_admin :: adminRecord where
  "ex_admin = \<lparr>ad_ID = 7, ad_Username = ''root'', ad_PasswordHash = ''$2a$10$x'', ad_Email = [], ad_Role = ''admin'',
     ad_Enabled = True, ad_CreatedAt = 0, ad_LastLogin = None\<rparr>"

definition ex_panel :: panel where
  "ex_panel = \<lparr>pn_admins = [ex_admin], pn_sessions = [], pn_tokens = [],
     pn_invites = [\<lparr>inv_ID = 1, inv_TokenHash = ''ab12'', inv_CreatedBy = 7, inv_ExpiresAt = 100, inv_UsedAt = None\<rparr>],
     pn_next_admin = 8, pn_next_token = 1, pn_next_invite = 2, pn_setupDone = True, pn_setupToken = [], pn_setupExpiry = 0\<rparr>"

definition ex_fields :: "string \<Rightarrow> string \<Rightarrow> string" where
  "ex_fields u k = (if k = ''username'' then u else if k = ''setup_token'' then ''f0'' else if k = ''email'' then [] else ''secret99'')"

definition ex_request :: "(string \<times> string) list \<Rightarrow> request" where
  "ex_request cookies = \<lparr>rq_Method = ''GET'', rq_Path = ''/'', rq_RawQuery = [], rq_EscapedPath = ''/'', rq_Header = [], rq_Cookies = cookies,
     rq_Form = [], rq_Query = [], rq_TLS = False, rq_Host = [], rq_RemoteAddr = [], rq_csrf = None, rq_id = None\<rparr>"

theorem every_admin_was_admitted_witness:
  "let es = [Invite_post True 0 ''ab12'' (Some (ex_fields ''anna'')) (Some ''salt''), Invite_post True 0 ''ab12'' (Some (ex_fields ''bert'')) (Some ''salt''),
             Invite_use 0 Written 0, Invite_use 0 Written 0, Invite_create 0 True 0, Invite_create 0 True 0];
       S = run ex_admin_env es (idle ex_panel)
   in length (pn_admins (as_panel S)) = 1 + length (as_made S) \<and> count_list (as_made S) (By_invite ''ab12'') \<le> 1
      \<and> By_setup ''f0'' \<notin> set (as_made S)"
proof -
  have "tbl_ok inv_TokenHash (pn_invites ex_panel)" by (simp add: tbl_ok_def ex_panel_def)
  from every_admin_was_admitted [OF this, of ex_admin_env _ "''ab12''" "''f0''"] show ?thesis
    unfolding Let_def by (simp add: isSetupNeeded_def) (simp add: ex_panel_def)
qed

theorem setup_race_admits_two_witness:
  "let p = ex_panel\<lparr>pn_setupDone := False, pn_setupToken := ''f0'', pn_setupExpiry := 9\<rparr>;
       S = run ex_admin_env [Setup_post 0 (Some (ex_fields ''anna'')), Setup_post 0 (Some (ex_fields ''bert'')), Setup_create 0 (Some ''s'') True 0,
             Setup_create 0 (Some ''s'') True 0, Setup_end 0 1, Setup_end 0 1] (idle p)
   in map ad_Username (pn_admins (as_panel S)) = [''root'', ''anna'', ''bert'']"
proof -
  let ?p = "ex_panel\<lparr>pn_setupDone := False, pn_setupToken := ''f0'', pn_setupExpiry := 9\<rparr>"
  have "setup_check 0 (Some (ex_fields ''anna'')) ?p = Inr (''f0'', ''anna'', ''secret99'', [])"
    "setup_check 0 (Some (ex_fields ''bert'')) ?p = Inr (''f0'', ''bert'', ''secret99'', [])" by code_simp+
  from setup_race_admits_two [OF this, of 1 ex_admin_env "''s''" 0 "''s''" 0] show ?thesis
    unfolding Let_def by (simp add: ex_panel_def ex_admin_def)
qed

theorem guard_needs_login_witness:
  "let S = as_panel (run ex_admin_env [Login True (Some ''k'') True 0 True 0 (Some (ex_fields ''root'')) (ex_request [])] (idle ex_panel))
   in \<exists>b. b \<in> set (pn_admins S) \<and> ad_ID b = 7
      \<and> requireAuth ex_admin_env (True, True, 5) True True (\<lambda>i u r p. (Created, Keep_cookie, p)) [] (ex_request [(''caspaste_admin'', ''6b'')]) S
        = (Created, Keep_cookie, S)"
proof -
  let ?e = "Login True (Some ''k'') True 0 True 0 (Some (ex_fields ''root'')) (ex_request [])"
  let ?S = "as_panel (run ex_admin_env [?e] (idle ex_panel))"
  let ?g = "\<lambda>rep. requireAuth ex_admin_env (True, True, 5) True True (\<lambda>i u r p. (rep, Keep_cookie, p)) [] (ex_request [(''caspaste_admin'', ''6b'')]) ?S"
  have no_sessions: "pn_sessions ex_panel = []" by (simp add: ex_panel_def)
  have "fst (?g Created) = Created" "fst (?g No_body) = No_body" by code_simp+
  then have "?g Created \<noteq> ?g No_body" by auto
  from guard_needs_login [OF no_sessions refl this] obtain es1 es2 okl raw oki t okt t2 f r' a b where
    "[?e] = es1 @ Login okl (Some raw) oki t okt t2 (Some f) r' # es2"
    and "VerifyPassword ex_admin_env okl (trim_space (f ''username'')) (f ''password'') (as_panel (run ex_admin_env es1 (idle ex_panel))) = Inr (Some a)"
    and b: "b \<in> set (pn_admins ?S)" "ad_ID b = ad_ID a" "?g Created = (Created, Keep_cookie, ?S)" by blast
  then have "VerifyPassword ex_admin_env True (trim_space (ex_fields ''root'' ''username'')) (ex_fields ''root'' ''password'') ex_panel = Inr (Some a)"
    by (auto simp: Cons_eq_append_conv idle_def)
  moreover have "VerifyPassword ex_admin_env True (trim_space (ex_fields ''root'' ''username'')) (ex_fields ''root'' ''password'') ex_panel = Inr (Some ex_admin)"
    by code_simp
  ultimately have "a = ex_admin" by simp
  then have "ad_ID a = 7" by (simp add: ex_admin_def)
  with b show ?thesis unfolding Let_def by auto
qed

theorem taken_name_burns_invite_witness:
  "\<exists>msg p'. handleAdminInviteAccept ex_admin_env True 0 (Some ''s'') Written 0 True 0 ''POST'' ''ab12'' (Some (ex_fields ''root'')) ex_panel
       = (Invite_form ''ab12'' msg, p')
    \<and> pn_admins p' = [ex_admin] \<and> getAdminInviteByToken ex_admin_env True 0 ''ab12'' p' = Inr None"
proof -
  have "invite_check ex_admin_env True 0 ''POST'' ''ab12'' (Some (ex_fields ''root'')) ex_panel = Inr (''root'', ''secret99'', [])" by code_simp
  moreover have "''root'' \<in> ad_Username ` set (pn_admins ex_panel)" by (simp add: ex_panel_def ex_admin_def)
  moreover have "tbl_ok inv_TokenHash (pn_invites ex_panel)" by (simp add: tbl_ok_def ex_panel_def)
  ultimately obtain msg p' where "handleAdminInviteAccept ex_admin_env True 0 (Some ''s'') Written 0 True 0 ''POST'' ''ab12''
      (Some (ex_fields ''root'')) ex_panel = (Invite_form ''ab12'' msg, p')"
    and "pn_admins p' = pn_admins ex_panel" "getAdminInviteByToken ex_admin_env True 0 ''ab12'' p' = Inr None"
    using taken_name_burns_invite [of ex_admin_env 0 "''ab12''" "Some (ex_fields ''root'')" ex_panel "''root''" "''secret99''" "[]" 0 "''s''" 0 0]
    by auto
  then show ?thesis by (auto simp: ex_panel_def)
qed

end
