(* ===== verification/Cli.thy ===== *)
theory Cli
  imports Durations
begin

text \<open>
  The parser of environment variables and command line flags (\<open>cli/cli.go\<close>). A variable of the source
  is a pointer to one of five types; here it carries a value, whose constructor is that type. Printing the
  version or the help and every failure end the process: they are the left side of a sum.
\<close>

section \<open>Variables\<close>

datatype cli_type = String_var | Int_var | Bool_var | Uint_var | Duration_var

datatype cli_value = Vstring string | Vint int | Vbool bool | Vuint nat | Vduration int

fun type_of :: "cli_value \<Rightarrow> cli_type" where
  "type_of (Vstring s) = String_var"
| "type_of (Vint i) = Int_var"
| "type_of (Vbool b) = Bool_var"
| "type_of (Vuint n) = Uint_var"
| "type_of (Vduration d) = Duration_var"

type_synonym hook = "string \<Rightarrow> string + string"

record cli_variable =
  v_name :: string
  v_cliFlagName :: string
  v_preHook :: "hook option"
  v_value :: cli_value
  v_default :: string
  v_required :: bool
  v_usage :: string

record FlagOptions =
  o_Required :: bool
  o_PreHook :: "hook option"

type_synonym cli = "cli_variable list"

datatype cli_panic = Empty_name | Empty_usage | Bad_default

definition addVar :: "string \<Rightarrow> cli_value \<Rightarrow> string \<Rightarrow> string \<Rightarrow> FlagOptions option \<Rightarrow> cli \<Rightarrow> cli_panic + cli" where
  "addVar name val def usage opts c =
     (if name = [] then Inl Empty_name
      else if usage = [] then Inl Empty_usage
      else let opts = (case opts of None \<Rightarrow> \<lparr>o_Required = False, o_PreHook = None\<rparr> | Some o' \<Rightarrow> o')
        in Inr (c @ [\<lparr>v_name = name, v_cliFlagName = ''-'' @ name, v_preHook = o_PreHook opts, v_value = val,
                      v_default = def, v_required = o_Required opts, v_usage = usage\<rparr>]))"

definition hooked :: "FlagOptions option \<Rightarrow> string \<Rightarrow> string + string" where
  "hooked opts s = (case Option.bind opts o_PreHook of None \<Rightarrow> Inr s | Some h \<Rightarrow> h s)"

definition AddStringVar :: "string \<Rightarrow> string \<Rightarrow> string \<Rightarrow> FlagOptions option \<Rightarrow> cli \<Rightarrow> cli_panic + cli" where
  "AddStringVar name def usage opts c =
     (case hooked opts def of Inl e \<Rightarrow> Inl Bad_default | Inr def \<Rightarrow> addVar name (Vstring def) def usage opts c)"

definition AddBoolVar :: "string \<Rightarrow> string \<Rightarrow> cli \<Rightarrow> cli_panic + cli" where
  "AddBoolVar name usage c = addVar name (Vbool False) [] usage None c"

definition AddIntVar :: "string \<Rightarrow> int \<Rightarrow> string \<Rightarrow> FlagOptions option \<Rightarrow> cli \<Rightarrow> cli_panic + cli" where
  "AddIntVar name def usage opts c = addVar name (Vint def) (show_int def) usage opts c"

definition AddUintVar :: "string \<Rightarrow> nat \<Rightarrow> string \<Rightarrow> FlagOptions option \<Rightarrow> cli \<Rightarrow> cli_panic + cli" where
  "AddUintVar name def usage opts c = addVar name (Vuint def) (show_nat def) usage opts c"

definition AddDurationVar :: "string \<Rightarrow> string \<Rightarrow> string \<Rightarrow> FlagOptions option \<Rightarrow> cli \<Rightarrow> cli_panic + cli" where
  "AddDurationVar name def usage opts c =
     (case hooked opts def of
        Inl e \<Rightarrow> Inl Bad_default
      | Inr def \<Rightarrow>
          (case ParseDuration def of Inl e \<Rightarrow> Inl Bad_default | Inr d \<Rightarrow> addVar name (Vduration d) def usage opts c))"

section \<open>Reading a value\<close>

datatype read_error = Hook_error string | Number_error num_error | Duration_error duration_error

text \<open>\<open>strconv.ParseUint\<close> with base 10 and 64 bits: digits only.\<close>

definition parse_uint :: "string \<Rightarrow> num_error + nat" where
  "parse_uint s =
     (case parse_nat s of
        None \<Rightarrow> Inl Bad_syntax
      | Some n \<Rightarrow> if n < 18446744073709551616 then Inr n else Inl Out_of_range)"

text \<open>The type of the old value says how the text is read; a Boolean becomes true whatever the text.\<close>

definition read_as :: "cli_value \<Rightarrow> string \<Rightarrow> read_error + cli_value" where
  "read_as old s =
     (case old of
        Vstring _ \<Rightarrow> Inr (Vstring s)
      | Vint _ \<Rightarrow> (case parse_int s of Inl e \<Rightarrow> Inl (Number_error e) | Inr i \<Rightarrow> Inr (Vint i))
      | Vbool _ \<Rightarrow> Inr (Vbool True)
      | Vuint _ \<Rightarrow> (case parse_uint s of Inl e \<Rightarrow> Inl (Number_error e) | Inr n \<Rightarrow> Inr (Vuint n))
      | Vduration _ \<Rightarrow> (case ParseDuration s of Inl e \<Rightarrow> Inl (Duration_error e) | Inr d \<Rightarrow> Inr (Vduration d)))"

definition writeVar :: "string \<Rightarrow> cli_value \<Rightarrow> hook option \<Rightarrow> read_error + cli_value" where
  "writeVar val old preHook =
     (case preHook of
        None \<Rightarrow> read_as old val
      | Some h \<Rightarrow> (case h val of Inl e \<Rightarrow> Inl (Hook_error e) | Inr val \<Rightarrow> read_as old val))"

definition write_variable :: "string \<Rightarrow> cli_variable \<Rightarrow> read_error + cli_variable" where
  "write_variable val v =
     (case writeVar val (v_value v) (v_preHook v) of Inl e \<Rightarrow> Inl e | Inr w \<Rightarrow> Inr (v\<lparr>v_value := w\<rparr>))"

section \<open>Parsing\<close>

datatype cli_exit =
    Version_printed
  | Help_printed
  | Bad_environment string read_error
  | Occurs_twice string
  | Unknown_flag string
  | Bad_flag string read_error
  | No_value string
  | Missing_flag string

text \<open>\<open>env\<close> is the environment of the process, with an empty text for a variable that is not set.\<close>

definition getEnvVar :: "(string \<Rightarrow> string) \<Rightarrow> string \<Rightarrow> string option" where
  "getEnvVar env name =
     (let val = env (''CASPASTE_'' @ to_upper (replace_all name ''-'' ''_'')) in if val \<noteq> [] then Some val else None)"

fun read_environment :: "(string \<Rightarrow> string) \<Rightarrow> cli \<Rightarrow> cli_exit + (cli \<times> string list)" where
  "read_environment env [] = Inr ([], [])"
| "read_environment env (v # vs) =
     (case (case getEnvVar env (v_name v) of
              None \<Rightarrow> Inr (v, [])
            | Some val \<Rightarrow>
                (case write_variable val v of
                   Inl e \<Rightarrow> Inl (Bad_environment (v_name v) e)
                 | Inr v' \<Rightarrow> Inr (v', [v_name v]))) of
        Inl x \<Rightarrow> Inl x
      | Inr (v', r) \<Rightarrow>
          (case read_environment env vs of Inl x \<Rightarrow> Inl x | Inr (vs', rs) \<Rightarrow> Inr (v' # vs', r @ rs)))"

definition normalizeFlag :: "string \<Rightarrow> string" where
  "normalizeFlag arg = (if has_prefix arg ''--'' then trim_prefix arg ''-'' else arg)"

fun find_flag :: "string \<Rightarrow> cli \<Rightarrow> nat option" where
  "find_flag f [] = None"
| "find_flag f (v # vs) = (if v_cliFlagName v = f then Some 0 else map_option Suc (find_flag f vs))"

text \<open>
  The loop over the arguments: the variable that waits for its value, the flags seen so far and the names
  of the variables read.
\<close>

fun read_args :: "string list \<Rightarrow> nat option \<Rightarrow> string list \<Rightarrow> cli \<Rightarrow> string list \<Rightarrow> cli_exit + (cli \<times> string list)" where
  "read_args [] None seen vs rs = Inr (vs, rs)"
| "read_args [] (Some i) seen vs rs = Inl (No_value (v_cliFlagName (vs ! i)))"
| "read_args (arg # args) (Some i) seen vs rs =
     (case write_variable arg (vs ! i) of
        Inl e \<Rightarrow> Inl (Bad_flag (v_cliFlagName (vs ! i)) e)
      | Inr v \<Rightarrow> read_args args None seen (vs[i := v]) rs)"
| "read_args (arg # args) None seen vs rs =
     (let f = normalizeFlag arg
      in if f \<in> {''-version'', ''-v''} then Inl Version_printed
         else if f \<in> {''-help'', ''-h''} then Inl Help_printed
         else if f \<in> set seen then Inl (Occurs_twice f)
         else (case find_flag f vs of
                 None \<Rightarrow> Inl (Unknown_flag arg)
               | Some i \<Rightarrow>
                   if type_of (v_value (vs ! i)) = Bool_var
                   then read_args args None (f # seen) (vs[i := (vs ! i)\<lparr>v_value := Vbool True\<rparr>]) (v_name (vs ! i) # rs)
                   else read_args args (Some i) (f # seen) vs (v_name (vs ! i) # rs)))"

definition check_required :: "string list \<Rightarrow> cli \<Rightarrow> cli_exit + cli" where
  "check_required rs vs =
     (case find (\<lambda>v. v_required v \<and> v_name v \<notin> set rs) vs of
        None \<Rightarrow> Inr vs
      | Some v \<Rightarrow> Inl (Missing_flag (v_cliFlagName v)))"

definition Parse :: "(string \<Rightarrow> string) \<Rightarrow> string list \<Rightarrow> cli \<Rightarrow> cli_exit + cli" where
  "Parse env args c =
     and_then (read_environment env c) (\<lambda>(vs, rs).
     and_then (read_args args None [] vs rs) (\<lambda>(vs, rs). check_required rs vs))"

section \<open>Variables keep their type\<close>

fun value_ok :: "cli_value \<Rightarrow> bool" where
  "value_ok (Vint i) \<longleftrightarrow> in_int64 i"
| "value_ok (Vuint n) \<longleftrightarrow> n < 18446744073709551616"
| "value_ok (Vduration d) \<longleftrightarrow> in_int64 d"
| "value_ok _ \<longleftrightarrow> True"

text \<open>The second is the first with another value of the same type.\<close>

definition alike :: "cli_variable \<Rightarrow> cli_variable \<Rightarrow> bool" where
  "alike v w \<longleftrightarrow> w = v\<lparr>v_value := v_value w\<rparr> \<and> type_of (v_value w) = type_of (v_value v)"

lemma alike_refl [simp]: "alike v v"
  by (simp add: alike_def)

lemma alike_trans: "alike u v \<Longrightarrow> alike v w \<Longrightarrow> alike u w"
  unfolding alike_def by (cases u; cases v; cases w) auto

lemma alike_parts:
  assumes "alike v w"
  shows "v_name w = v_name v" "v_cliFlagName w = v_cliFlagName v" "v_preHook w = v_preHook v" "v_required w = v_required v"
  using assms unfolding alike_def by (metis cli_variable.ext_inject cli_variable.surjective cli_variable.update_convs(4))+

lemma duration_loop_range: "duration_loop w out tmp s = Inr d \<Longrightarrow> in_int64 d"
  by (induction s arbitrary: out tmp) (auto split: if_splits sum.splits option.splits)

lemma read_as_type: "read_as old s = Inr w \<Longrightarrow> type_of w = type_of old \<and> value_ok w"
  by (auto simp: read_as_def parse_uint_def ParseDuration_def parse_int_in_int64 duration_loop_range
      split: cli_value.splits sum.splits option.splits if_splits)

lemma writeVar_type: "writeVar val old h = Inr w \<Longrightarrow> type_of w = type_of old \<and> value_ok w"
  by (auto simp: writeVar_def dest: read_as_type split: option.splits sum.splits)

lemma write_variable_alike: "write_variable t v = Inr w \<Longrightarrow> alike v w \<and> value_ok (v_value w)"
  by (auto simp: write_variable_def alike_def dest: writeVar_type split: sum.splits)

lemma read_as_cong: "type_of old = type_of old' \<Longrightarrow> read_as old s = read_as old' s"
  by (cases old; cases old') (simp_all add: read_as_def)

lemma write_variable_again:
  assumes "alike v w"
  shows "write_variable t w = write_variable t v"
proof -
  have "w = v\<lparr>v_value := v_value w\<rparr>" "type_of (v_value w) = type_of (v_value v)" using assms by (auto simp: alike_def)
  then obtain x where w: "w = v\<lparr>v_value := x\<rparr>" and "type_of x = type_of (v_value v)" by auto
  then have "read_as x = read_as (v_value v)" by (intro ext read_as_cong)
  then show ?thesis by (simp add: w write_variable_def writeVar_def split: option.split sum.split)
qed

definition well_typed :: "cli \<Rightarrow> cli \<Rightarrow> bool" where
  "well_typed c c' \<longleftrightarrow> list_all2 (\<lambda>v w. alike v w \<and> (value_ok (v_value v) \<longrightarrow> value_ok (v_value w))) c c'"

lemma well_typed_refl [simp]: "well_typed c c"
  by (simp add: well_typed_def list_all2_refl)

lemma well_typed_trans: "well_typed a b \<Longrightarrow> well_typed b c \<Longrightarrow> well_typed a c"
  unfolding well_typed_def list_all2_conv_all_nth by (metis alike_trans)

lemma well_typed_update:
  "well_typed c vs \<Longrightarrow> i < length vs \<Longrightarrow> alike (vs ! i) w \<Longrightarrow> value_ok (v_value w) \<Longrightarrow> well_typed c (vs[i := w])"
  by (auto simp: well_typed_def list_all2_conv_all_nth nth_list_update intro: alike_trans)

lemma well_typed_nth: "well_typed c vs \<Longrightarrow> i < length c \<Longrightarrow> alike (c ! i) (vs ! i)"
  by (simp add: well_typed_def list_all2_conv_all_nth)

lemma well_typed_length: "well_typed c vs \<Longrightarrow> length vs = length c"
  by (simp add: well_typed_def list_all2_lengthD)

lemma find_flag_Some: "find_flag f vs = Some i \<Longrightarrow> i < length vs \<and> v_cliFlagName (vs ! i) = f"
  by (induction vs arbitrary: i) (auto split: if_splits)

lemma read_environment_typed: "read_environment env c = Inr (vs, rs) \<Longrightarrow> well_typed c vs"
proof (induction c arbitrary: vs rs)
  case (Cons v c)
  then show ?case
    by (auto simp: well_typed_def split: sum.splits option.splits prod.splits dest: write_variable_alike)
qed simp

lemma set_bool_alike: "type_of (v_value v) = Bool_var \<Longrightarrow> alike v (v\<lparr>v_value := Vbool True\<rparr>)"
  by (simp add: alike_def)

lemma read_args_typed:
  assumes "read_args args p seen vs rs = Inr (ws, rs')" and "\<And>i. p = Some i \<Longrightarrow> i < length vs"
  shows "well_typed vs ws"
  using assms
proof (induction args p seen vs rs rule: read_args.induct)
  case (3 arg args i seen vs rs)
  from 3(2) obtain v where v: "write_variable arg (vs ! i) = Inr v" by (auto split: sum.splits)
  with 3(2) have "read_args args None seen (vs[i := v]) rs = Inr (ws, rs')" by simp
  from 3(1) [OF v this] have "well_typed (vs[i := v]) ws" by simp
  moreover have "well_typed vs (vs[i := v])"
    using write_variable_alike [OF v] 3(3) by (intro well_typed_update) simp_all
  ultimately show ?case by (rule well_typed_trans [rotated])
next
  case (4 arg args seen vs rs)
  let ?f = "normalizeFlag arg"
  from 4(3) have no: "\<not> ?f \<in> {''-version'', ''-v''}" "\<not> ?f \<in> {''-help'', ''-h''}" "\<not> ?f \<in> set seen"
    by (auto simp: Let_def split: if_splits)
  from 4(3) no obtain i where i: "find_flag ?f vs = Some i" by (auto simp: Let_def split: option.splits)
  then have "i < length vs" by (simp add: find_flag_Some)
  show ?case
  proof (cases "type_of (v_value (vs ! i)) = Bool_var")
    case True
    let ?vs = "vs[i := (vs ! i)\<lparr>v_value := Vbool True\<rparr>]"
    have "well_typed ?vs ws" using 4(1) [OF refl no i True] 4(3) no i True by (simp add: Let_def)
    moreover have "well_typed vs ?vs" using \<open>i < length vs\<close> True by (intro well_typed_update) (simp_all add: set_bool_alike)
    ultimately show ?thesis by (rule well_typed_trans [rotated])
  next
    case False
    with 4(2) [OF refl no i False] 4(3) no i \<open>i < length vs\<close> show ?thesis by (simp add: Let_def)
  qed
qed simp_all

lemma Parse_parts:
  assumes "Parse env args c = Inr c'"
  shows "\<exists>vs rs rs'. read_environment env c = Inr (vs, rs) \<and> read_args args None [] vs rs = Inr (c', rs')"
  using assms by (auto simp: Parse_def and_then_Inr_iff check_required_def split: option.splits)

lemma Parse_typed: "Parse env args c = Inr c' \<Longrightarrow> well_typed c c'"
proof -
  assume "Parse env args c = Inr c'"
  then obtain vs rs rs' where "read_environment env c = Inr (vs, rs)" and "read_args args None [] vs rs = Inr (c', rs')"
    using Parse_parts by blast
  then show ?thesis using well_typed_trans [OF read_environment_typed [of env c vs rs] read_args_typed] by blast
qed

lemma well_typed_names: "well_typed c c' \<Longrightarrow> map v_name c' = map v_name c"
proof (rule nth_equalityI)
  assume w: "well_typed c c'"
  then show "length (map v_name c') = length (map v_name c)" by (simp add: well_typed_length)
  fix i assume "i < length (map v_name c')"
  then have "i < length c" "i < length c'" using w by (simp_all add: well_typed_length)
  then show "map v_name c' ! i = map v_name c ! i" using well_typed_nth [OF w] by (simp add: alike_parts)
qed


section \<open>Where a value comes from\<close>

text \<open>
  What an argument list is meant to say: for some variables a text, each flag written with one dash or
  with two. A Boolean flag has no text.
\<close>

type_synonym settings = "(nat \<times> (bool \<times> string)) list"

definition is_switch :: "cli_variable \<Rightarrow> bool" where
  "is_switch v \<longleftrightarrow> type_of (v_value v) = Bool_var"

definition show_setting :: "cli \<Rightarrow> nat \<times> (bool \<times> string) \<Rightarrow> string list" where
  "show_setting c = (\<lambda>(i, two, text).
     ((if two then ''-'' else []) @ v_cliFlagName (c ! i)) # (if is_switch (c ! i) then [] else [text]))"

definition show_settings :: "cli \<Rightarrow> settings \<Rightarrow> string list" where
  "show_settings c ss = concat (map (show_setting c) ss)"

definition from_flag :: "cli_variable \<Rightarrow> string \<Rightarrow> read_error + cli_variable" where
  "from_flag v t = (if is_switch v then Inr (v\<lparr>v_value := Vbool True\<rparr>) else write_variable t v)"

definition from_environment :: "(string \<Rightarrow> string) \<Rightarrow> cli_variable \<Rightarrow> read_error + cli_variable" where
  "from_environment env v = (case getEnvVar env (v_name v) of None \<Rightarrow> Inr v | Some t \<Rightarrow> write_variable t v)"

text \<open>The rule of precedence: the flag, else the environment, else the default.\<close>

definition resolved :: "(string \<Rightarrow> string) \<Rightarrow> settings \<Rightarrow> nat \<Rightarrow> cli_variable \<Rightarrow> read_error + cli_variable" where
  "resolved env ss i v = (case map_of ss i of None \<Rightarrow> from_environment env v | Some (two, t) \<Rightarrow> from_flag v t)"

definition usable :: "cli \<Rightarrow> bool" where
  "usable c \<longleftrightarrow> distinct (map v_name c) \<and> (\<forall>v \<in> set c. v_cliFlagName v = ''-'' @ v_name v \<and> \<not> has_prefix (v_name v) ''-'')"

text \<open>These are answered by the parser itself.\<close>

definition built_in :: "string list" where
  "built_in = [''version'', ''v'', ''help'', ''h'']"

lemma read_environment_each:
  assumes "\<forall>v \<in> set c. \<exists>w. from_environment env v = Inr w"
  shows "\<exists>vs. read_environment env c = Inr (vs, map v_name (filter (\<lambda>v. getEnvVar env (v_name v) \<noteq> None) c))
    \<and> length vs = length c \<and> (\<forall>i < length c. from_environment env (c ! i) = Inr (vs ! i))"
  using assms
proof (induction c)
  case (Cons v c)
  then obtain w where w: "from_environment env v = Inr w" by auto
  from Cons obtain vs where vs: "read_environment env c = Inr (vs, map v_name (filter (\<lambda>v. getEnvVar env (v_name v) \<noteq> None) c))"
    "length vs = length c" "\<forall>i < length c. from_environment env (c ! i) = Inr (vs ! i)" by auto
  have "read_environment env (v # c) = Inr (w # vs, map v_name (filter (\<lambda>v. getEnvVar env (v_name v) \<noteq> None) (v # c)))"
    using w vs(1) by (auto simp: from_environment_def split: option.splits sum.splits)
  then show ?case using vs(2,3) w by (intro exI [of _ "w # vs"]) (auto simp: less_Suc_eq_0_disj)
qed simp

lemma read_flag:
  assumes "normalizeFlag arg = f" and "f \<notin> {''-version'', ''-v'', ''-help'', ''-h''}" and "f \<notin> set seen" and "find_flag f vs = Some i"
  shows "read_args (arg # args) None seen vs rs =
    (if is_switch (vs ! i) then read_args args None (f # seen) (vs[i := (vs ! i)\<lparr>v_value := Vbool True\<rparr>]) (v_name (vs ! i) # rs)
     else read_args args (Some i) (f # seen) vs (v_name (vs ! i) # rs))"
  using assms by (simp add: is_switch_def Let_def)

lemma read_environment_Cons:
  "read_environment env (v # c) = Inr (vs, rs) \<Longrightarrow>
    \<exists>w ws r. from_environment env v = Inr w \<and> read_environment env c = Inr (ws, r) \<and> vs = w # ws"
  by (auto simp: from_environment_def split: option.splits sum.splits)

lemma read_environment_nth:
  "read_environment env c = Inr (vs, rs) \<Longrightarrow> i < length c \<Longrightarrow> from_environment env (c ! i) = Inr (vs ! i)"
proof (induction c arbitrary: vs rs i)
  case (Cons v c)
  from read_environment_Cons [OF Cons.prems(1)] obtain w ws r where
    w: "from_environment env v = Inr w" "read_environment env c = Inr (ws, r)" "vs = w # ws" by blast
  with Cons.IH [OF w(2)] Cons.prems(2) show ?case by (cases i) simp_all
qed simp

text \<open>A switch that is on stays on.\<close>

lemma read_as_true: "type_of old = Bool_var \<Longrightarrow> read_as old s = Inr w \<Longrightarrow> w = Vbool True"
  by (cases old) (auto simp: read_as_def)

lemma write_switch: "is_switch v \<Longrightarrow> write_variable t v = Inr w \<Longrightarrow> v_value w = Vbool True"
  by (auto simp: is_switch_def write_variable_def writeVar_def dest: read_as_true split: option.splits sum.splits)

lemma read_args_stays_on:
  "read_args args p seen vs rs = Inr (ws, rs') \<Longrightarrow> i < length vs \<Longrightarrow> v_value (vs ! i) = Vbool True \<Longrightarrow> v_value (ws ! i) = Vbool True"
proof (induction args p seen vs rs rule: read_args.induct)
  case (3 arg args j seen vs rs)
  then obtain v where v: "write_variable arg (vs ! j) = Inr v" by (auto split: sum.splits)
  have "v_value (vs[j := v] ! i) = Vbool True"
    using 3(3,4) write_switch [OF _ v] by (cases "i = j") (auto simp: is_switch_def)
  with 3 v show ?case by simp
next
  case (4 arg args seen vs rs)
  let ?f = "normalizeFlag arg"
  from 4(3) have no: "\<not> ?f \<in> {''-version'', ''-v''}" "\<not> ?f \<in> {''-help'', ''-h''}" "\<not> ?f \<in> set seen"
    by (auto simp: Let_def split: if_splits)
  from 4(3) no obtain j where j: "find_flag ?f vs = Some j" by (auto simp: Let_def split: option.splits)
  show ?case
  proof (cases "type_of (v_value (vs ! j)) = Bool_var")
    case True
    have "v_value (vs[j := (vs ! j)\<lparr>v_value := Vbool True\<rparr>] ! i) = Vbool True"
      using 4(4,5) by (cases "i = j") auto
    with 4(1) [OF refl no j True] 4(3,4) no j True show ?thesis by (simp add: Let_def)
  next
    case False
    with 4(2) [OF refl no j False] 4(3-5) no j show ?thesis by (simp add: Let_def)
  qed
qed simp_all

lemma find_flag_nth:
  assumes "distinct (map v_cliFlagName vs)" and "i < length vs"
  shows "find_flag (v_cliFlagName (vs ! i)) vs = Some i"
  using assms
proof (induction vs arbitrary: i)
  case (Cons v vs)
  then show ?case by (cases i) (auto simp: image_iff)
qed simp

lemma usable_flags: "usable c \<Longrightarrow> distinct (map v_cliFlagName c)"
proof -
  assume u: "usable c"
  then have "map v_cliFlagName c = map (\<lambda>v. ''-'' @ v_name v) c" by (auto simp: usable_def)
  also have "\<dots> = map (\<lambda>n. ''-'' @ n) (map v_name c)" by simp
  finally show ?thesis using u by (simp add: usable_def distinct_map inj_on_def)
qed

lemma from_flag_alike: "from_flag v t = Inr w \<Longrightarrow> alike v w"
  by (auto simp: from_flag_def is_switch_def set_bool_alike dest: write_variable_alike split: if_splits)

lemma from_flag_again:
  assumes "alike v w" and "from_flag v t = Inr u"
  shows "from_flag w t = Inr u"
proof -
  have "is_switch w = is_switch v" using assms(1) by (simp add: is_switch_def alike_def)
  moreover have "w\<lparr>v_value := x\<rparr> = v\<lparr>v_value := x\<rparr>" for x
    using assms(1) unfolding alike_def by (metis cli_variable.update_convs(4) cli_variable.surjective)
  ultimately show ?thesis using assms(2) write_variable_again [OF assms(1), of t] by (auto simp: from_flag_def split: if_splits)
qed

lemma normalize_setting:
  assumes "usable c" and "v \<in> set c"
  shows "normalizeFlag ((if two then ''-'' else []) @ v_cliFlagName v) = v_cliFlagName v"
    and "v_name v \<notin> set built_in \<Longrightarrow> v_cliFlagName v \<notin> {''-version'', ''-v'', ''-help'', ''-h''}"
  using assms by (auto simp: built_in_def usable_def normalizeFlag_def trim_prefix_def has_prefix_def)

definition alike_all :: "cli \<Rightarrow> cli \<Rightarrow> bool" where
  "alike_all c vs \<longleftrightarrow> length vs = length c \<and> (\<forall>i < length c. alike (c ! i) (vs ! i))"

lemma alike_all_flags: "alike_all c vs \<Longrightarrow> map v_cliFlagName vs = map v_cliFlagName c"
  by (auto simp: alike_all_def alike_parts intro: nth_equalityI)

lemma read_setting:
  assumes "usable c" and "alike_all c vs" and "i < length c" and "from_flag (c ! i) t = Inr w" and "v_cliFlagName (c ! i) \<notin> set seen"
    and "v_name (c ! i) \<notin> set built_in"
  shows "read_args (show_setting c (i, two, t) @ args) None seen vs rs =
    read_args args None (v_cliFlagName (c ! i) # seen) (vs[i := w]) (v_name (c ! i) # rs)"
proof -
  let ?f = "v_cliFlagName (c ! i)"
  have mem: "c ! i \<in> set c" using assms(3) by simp
  note norm = normalize_setting(1) [OF assms(1) mem, of two] normalize_setting(2) [OF assms(1) mem assms(6)]
  have like: "alike (c ! i) (vs ! i)" using assms(2,3) by (simp add: alike_all_def)
  have len: "length vs = length c" using assms(2) by (simp add: alike_all_def)
  have "?f = v_cliFlagName (vs ! i)" using like by (simp add: alike_parts)
  moreover have "distinct (map v_cliFlagName vs)" using usable_flags [OF assms(1)] alike_all_flags [OF assms(2)] by simp
  ultimately have flag: "find_flag ?f vs = Some i" using find_flag_nth [of vs i] assms(3) len by simp
  have sw: "is_switch (vs ! i) \<longleftrightarrow> is_switch (c ! i)" using like by (simp add: alike_def is_switch_def)
  have fl: "from_flag (vs ! i) t = Inr w" by (rule from_flag_again [OF like assms(4)])
  have nm: "v_name (vs ! i) = v_name (c ! i)" using like by (simp add: alike_parts)
  note flag_step = read_flag [OF norm(1) norm(2) assms(5) flag]
  show ?thesis
  proof (cases "is_switch (c ! i)")
    case True
    with fl sw have "w = (vs ! i)\<lparr>v_value := Vbool True\<rparr>" by (simp add: from_flag_def)
    with flag_step [of args rs] True sw nm show ?thesis by (simp add: show_setting_def)
  next
    case False
    with fl sw have "write_variable t (vs ! i) = Inr w" by (simp add: from_flag_def)
    with flag_step [of "t # args" rs] False sw nm show ?thesis by (simp add: show_setting_def)
  qed
qed

lemma read_settings:
  assumes "usable c" and "alike_all c vs" and "\<forall>(i, two, t) \<in> set ss. i < length c \<and> v_name (c ! i) \<notin> set built_in \<and> (\<exists>w. from_flag (c ! i) t = Inr w)"
    and "distinct (map fst ss)" and "\<forall>i \<in> fst ` set ss. v_cliFlagName (c ! i) \<notin> set seen"
  shows "\<exists>ws rs'. read_args (show_settings c ss) None seen vs rs = Inr (ws, rs') \<and> length ws = length c
    \<and> (\<forall>i < length c. case map_of ss i of None \<Rightarrow> ws ! i = vs ! i | Some (two, t) \<Rightarrow> from_flag (c ! i) t = Inr (ws ! i))
    \<and> set rs' = set rs \<union> (\<lambda>i. v_name (c ! i)) ` fst ` set ss"
  using assms(2-)
proof (induction ss arbitrary: seen vs rs)
  case Nil
  then show ?case by (auto simp: show_settings_def alike_all_def)
next
  case (Cons s ss)
  obtain i two t where s: "s = (i, two, t)" by (metis surj_pair)
  from Cons.prems(2) obtain w where w: "from_flag (c ! i) t = Inr w" and i: "i < length c"
    and name: "v_name (c ! i) \<notin> set built_in" by (auto simp: s)
  let ?seen = "v_cliFlagName (c ! i) # seen" and ?vs = "vs[i := w]" and ?rs = "v_name (c ! i) # rs"
  have "alike_all c ?vs" using Cons.prems(1) from_flag_alike [OF w] i by (auto simp: alike_all_def nth_list_update)
  moreover have "v_cliFlagName (c ! j) \<noteq> v_cliFlagName (c ! i)" if "j \<in> fst ` set ss" for j
  proof -
    from that Cons.prems(2,3) have "j < length c" "j \<noteq> i" by (auto simp: s)
    then show ?thesis using usable_flags [OF assms(1)] i by (simp add: distinct_conv_nth)
  qed
  ultimately have "\<exists>ws rs'. read_args (show_settings c ss) None ?seen ?vs ?rs = Inr (ws, rs') \<and> length ws = length c
    \<and> (\<forall>j < length c. case map_of ss j of None \<Rightarrow> ws ! j = ?vs ! j | Some (two, t) \<Rightarrow> from_flag (c ! j) t = Inr (ws ! j))
    \<and> set rs' = set ?rs \<union> (\<lambda>i. v_name (c ! i)) ` fst ` set ss"
    using Cons.prems by (intro Cons.IH) (auto simp: s)
  then obtain ws rs' where r: "read_args (show_settings c ss) None ?seen ?vs ?rs = Inr (ws, rs')" "length ws = length c"
    "\<And>j. j < length c \<Longrightarrow> case map_of ss j of None \<Rightarrow> ws ! j = ?vs ! j | Some (two, t) \<Rightarrow> from_flag (c ! j) t = Inr (ws ! j)"
    "set rs' = set ?rs \<union> (\<lambda>i. v_name (c ! i)) ` fst ` set ss" by blast
  have "read_args (show_settings c (s # ss)) None seen vs rs = Inr (ws, rs')"
    using read_setting [OF assms(1) Cons.prems(1) i w _ name, of seen two "show_settings c ss" rs] Cons.prems(4) r(1)
    by (simp add: s show_settings_def)
  moreover have "map_of ss i = None" using Cons.prems(3) by (simp add: s map_of_eq_None_iff)
  then have "ws ! i = w" using r(3) [OF i] i Cons.prems(1) by (simp add: alike_all_def)
  then have "case map_of (s # ss) j of None \<Rightarrow> ws ! j = vs ! j | Some (two, t) \<Rightarrow> from_flag (c ! j) t = Inr (ws ! j)"
    if "j < length c" for j
    using r(3) [OF that] w by (cases "j = i") (auto simp: s split: option.splits)
  ultimately show ?case using r(2,4) by (intro exI [of _ ws] exI [of _ rs']) (auto simp: s)
qed

text \<open>
  C22: Flags override the environment, which overrides the defaults. If the declared flags are distinct, every
  set environment variable is readable, the arguments spell acceptable values for some variables, each
  with one dash or two, and every required variable is given either way, then \<open>Parse\<close> returns, and each
  variable has the value of its flag, or else that of its environment variable, or else its default.
\<close>

theorem Parse_precedence:
  assumes "usable c" and "\<forall>v \<in> set c. \<exists>w. from_environment env v = Inr w"
    and "distinct (map fst ss)" and "\<forall>(i, two, t) \<in> set ss. i < length c \<and> v_name (c ! i) \<notin> set built_in \<and> (\<exists>w. from_flag (c ! i) t = Inr w)"
    and "\<forall>i < length c. v_required (c ! i) \<longrightarrow> i \<in> fst ` set ss \<or> getEnvVar env (v_name (c ! i)) \<noteq> None"
  shows "\<exists>c'. Parse env (show_settings c ss) c = Inr c' \<and> length c' = length c
    \<and> (\<forall>i < length c. resolved env ss i (c ! i) = Inr (c' ! i))"
proof -
  let ?rs = "map v_name (filter (\<lambda>v. getEnvVar env (v_name v) \<noteq> None) c)"
  obtain vs where vs: "read_environment env c = Inr (vs, ?rs)" "length vs = length c"
    "\<forall>i < length c. from_environment env (c ! i) = Inr (vs ! i)"
    using read_environment_each [OF assms(2)] by blast
  have like: "alike_all c vs"
    using well_typed_nth [OF read_environment_typed [OF vs(1)]] vs(2) by (simp add: alike_all_def)
  obtain ws rs' where r: "read_args (show_settings c ss) None [] vs ?rs = Inr (ws, rs')" "length ws = length c"
    "\<And>i. i < length c \<Longrightarrow> case map_of ss i of None \<Rightarrow> ws ! i = vs ! i | Some (two, t) \<Rightarrow> from_flag (c ! i) t = Inr (ws ! i)"
    "set rs' = set ?rs \<union> (\<lambda>i. v_name (c ! i)) ` fst ` set ss"
    using read_settings [OF assms(1) like assms(4,3), of "[]" ?rs] by auto
  have res: "resolved env ss i (c ! i) = Inr (ws ! i)" if "i < length c" for i
    using r(3) [OF that] vs(3) that by (auto simp: resolved_def split: option.splits)
  have "well_typed vs ws" using read_args_typed [OF r(1)] by simp
  then have like': "alike (c ! i) (ws ! i)" if "i < length c" for i
    using well_typed_nth [of vs ws i] like that by (auto simp: alike_all_def intro: alike_trans)
  have "find (\<lambda>v. v_required v \<and> v_name v \<notin> set rs') ws = None"
    unfolding find_None_iff_ball
  proof
    fix w assume "w \<in> set ws"
    then obtain i where i: "i < length c" "w = ws ! i" using r(2) by (auto simp: in_set_conv_nth)
    have "v_name (c ! i) \<in> set ?rs \<or> i \<in> fst ` set ss" if "v_required (c ! i)"
      using assms(5) i(1) that by auto
    then show "\<not> (v_required w \<and> v_name w \<notin> set rs')"
      using r(4) alike_parts [OF like' [OF i(1)]] i(2) by auto
  qed
  then have "Parse env (show_settings c ss) c = Inr ws" using vs(1) r(1) by (simp add: Parse_def check_required_def)
  with res r(2) show ?thesis by blast
qed

text \<open>
  A switch cannot be turned off from the environment: any text that is set, \<open>false\<close> and \<open>0\<close> among them,
  turns it on.
\<close>

lemma false_is_true:
  assumes "v_value v = Vbool False" and "v_preHook v = None" and "env (''CASPASTE_'' @ to_upper (replace_all (v_name v) ''-'' ''_'')) = ''false''"
  shows "from_environment env v = Inr (v\<lparr>v_value := Vbool True\<rparr>)"
  using assms by (simp add: from_environment_def getEnvVar_def write_variable_def writeVar_def read_as_def)

text \<open>The flags \<open>help\<close> and \<open>version\<close> that the server declares are never set by an argument.\<close>

lemma declared_help_unreachable: "read_args (''--help'' # args) None seen vs rs = Inl Help_printed"
  by (simp add: normalizeFlag_def has_prefix_def trim_prefix_def)

section \<open>Examples\<close>

lemma not_isl: "\<not> isl x \<Longrightarrow> \<exists>y. x = Inr y"
  by (cases x) simp_all

definition ex_cli :: cli where
  "ex_cli = (case and_then (AddIntVar ''port'' 80 ''Port'' (Some \<lparr>o_Required = True, o_PreHook = None\<rparr>) []) (\<lambda>c.
     and_then (AddBoolVar ''quiet'' ''Quiet'' c) (AddDurationVar ''wait'' ''1m'' ''Wait'' None)) of Inl e \<Rightarrow> [] | Inr c \<Rightarrow> c)"

definition ex_variables :: "string \<Rightarrow> string" where
  "ex_variables n = (if n = ''CASPASTE_PORT'' then ''81'' else if n = ''CASPASTE_WAIT'' then ''2m'' else [])"


theorem Parse_precedence_witness:
  "\<exists>c'. Parse ex_variables [''--port'', ''82'', ''-quiet''] ex_cli = Inr c' \<and> length c' = 3
     \<and> map v_value c' = [Vint 82, Vbool True, Vduration 120000000000]"
proof -
  let ?ss = "[(0, True, ''82''), (1, False, [])] :: settings"
  have u: "usable ex_cli" by code_simp
  have env: "\<forall>v \<in> set ex_cli. \<exists>w. from_environment ex_variables v = Inr w"
  proof -
    have "list_all (\<lambda>v. \<not> isl (from_environment ex_variables v)) ex_cli" by code_simp
    then show ?thesis by (auto simp: list_all_iff dest!: not_isl)
  qed
  have "list_all (\<lambda>(i, two, t). i < length ex_cli \<and> v_name (ex_cli ! i) \<notin> set built_in \<and> \<not> isl (from_flag (ex_cli ! i) t)) ?ss" by code_simp
  then have flags: "\<forall>(i, two, t) \<in> set ?ss. i < length ex_cli \<and> v_name (ex_cli ! i) \<notin> set built_in \<and> (\<exists>w. from_flag (ex_cli ! i) t = Inr w)"
    by (auto simp: list_all_iff dest!: not_isl)
  have len: "length ex_cli = 3" by code_simp
  have "list_all (\<lambda>i. v_required (ex_cli ! i) \<longrightarrow> i \<in> fst ` set ?ss) [0, 1, 2]" by code_simp
  then have "\<forall>i < length ex_cli. v_required (ex_cli ! i) \<longrightarrow> i \<in> fst ` set ?ss \<or> getEnvVar ex_variables (v_name (ex_cli ! i)) \<noteq> None"
    by (auto simp: len numeral_3_eq_3 less_Suc_eq numeral_2_eq_2)
  from Parse_precedence [OF u env _ flags this] obtain c' where
    p: "Parse ex_variables (show_settings ex_cli ?ss) ex_cli = Inr c'" "length c' = length ex_cli"
    "\<forall>i < length ex_cli. resolved ex_variables ?ss i (ex_cli ! i) = Inr (c' ! i)" by auto
  have "show_settings ex_cli ?ss = [''--port'', ''82'', ''-quiet'']" by code_simp
  moreover have r: "(case resolved ex_variables ?ss 0 (ex_cli ! 0) of Inr v \<Rightarrow> v_value v = Vint 82 | _ \<Rightarrow> False)"
    "(case resolved ex_variables ?ss 1 (ex_cli ! 1) of Inr v \<Rightarrow> v_value v = Vbool True | _ \<Rightarrow> False)"
    "(case resolved ex_variables ?ss 2 (ex_cli ! 2) of Inr v \<Rightarrow> v_value v = Vduration 120000000000 | _ \<Rightarrow> False)" by code_simp+
  moreover obtain a b d where "c' = [a, b, d]" using p(2) len by (auto simp: numeral_3_eq_3 length_Suc_conv)
  ultimately show ?thesis using p by (auto simp: len numeral_3_eq_3 numeral_2_eq_2 less_Suc_eq)
qed

end
