(* ===== verification/Config.thy ===== *)
theory Config
  imports Cli Validation Go_Net
begin

text \<open>
  The configuration that environment variables change (\<open>config/env.go\<close>) and the normal forms of
  \<open>config/config.go\<close>. Of the YAML file only the settings that this code reads or writes are kept: texts,
  numbers and the flag \<open>server.public\<close>. The list of public suffixes is third-party code: \<open>psl\<close> says
  whether a name has a registrable domain.
\<close>

section \<open>Settings\<close>

datatype text_setting =
    Server_FQDN | Server_Listen | Server_Port | Server_Title | Server_APIMode
  | Administrator_Name | Administrator_Email | Administrator_From
  | Contact_Email | Contact_Name | Robots_Allow | Robots_Deny | Branding_Logo | Branding_Favicon
  | Database_Driver | Database_Source | Database_CleanupPeriod
  | Security_PasswordFile | TLS_MinVersion | Limits_MaxPasteLifetime
  | UI_DefaultLifetime | UI_DefaultTheme | UI_ThemesDir
  | Content_About | Content_Rules | Content_Terms | Content_Security
  | Directories_Cache | Directories_Logs | Directories_Data | Directories_Config | Web_BaseURL

datatype number_setting =
    Database_MaxOpenConns | Database_MaxIdleConns | Limits_TitleMaxLength | Limits_BodyMaxLength
  | Get_Per5Min | Get_Per15Min | Get_Per1Hour | New_Per5Min | New_Per15Min | New_Per1Hour

record YAMLConfig =
  y_text :: "text_setting \<Rightarrow> string"
  y_number :: "number_setting \<Rightarrow> int"
  y_Public :: bool

definition set_text :: "text_setting \<Rightarrow> string \<Rightarrow> YAMLConfig \<Rightarrow> YAMLConfig" where
  "set_text k v y = y\<lparr>y_text := (y_text y)(k := v)\<rparr>"

definition set_number :: "number_setting \<Rightarrow> int \<Rightarrow> YAMLConfig \<Rightarrow> YAMLConfig" where
  "set_number k v y = y\<lparr>y_number := (y_number y)(k := v)\<rparr>"

section \<open>Addresses\<close>

definition isValidDomain :: "(string \<Rightarrow> bool) \<Rightarrow> string \<Rightarrow> bool" where
  "isValidDomain psl s \<longleftrightarrow> s \<noteq> [] \<and> ParseIP s = None \<and> contains_str s ''.'' \<and> psl s"

text \<open>The name, the address to listen on and the port, empty where the text says nothing.\<close>

definition parseAddress :: "(string \<Rightarrow> bool) \<Rightarrow> string \<Rightarrow> string \<times> string \<times> string" where
  "parseAddress psl addr =
     (let addr = trim_space addr
      in if addr = [] then ([], [], [])
         else if has_prefix addr ''['' then
           (case cut addr '']'' of
              None \<Rightarrow> ([], [], [])
            | Some (a, rest) \<Rightarrow> ([], drop 1 a, (if has_prefix rest '':'' then drop 1 rest else [])))
         else if has_prefix addr '':'' then ([], [], drop 1 addr)
         else
           let (host, port) = (case SplitHostPort addr of None \<Rightarrow> (addr, []) | Some (h, p) \<Rightarrow> (h, p))
           in if host = [] then ([], [], port)
              else if ParseIP host \<noteq> None then ([], host, port)
              else if isValidDomain psl host then (host, [], port)
              else if host = ''localhost'' then ([], host, port)
              else ([], [], port))"

section \<open>Overrides\<close>

text \<open>What a set variable does.\<close>

datatype env_action = To_text text_setting | To_int number_setting | To_uint number_setting | Deny_robots

definition parse_uint32 :: "string \<Rightarrow> num_error + nat" where
  "parse_uint32 s = and_then (parse_uint s) (\<lambda>n. if n < 4294967296 then Inr n else Inl Out_of_range)"

fun take_action :: "env_action \<Rightarrow> string \<Rightarrow> YAMLConfig \<Rightarrow> YAMLConfig" where
  "take_action (To_text k) v y = set_text k v y"
| "take_action (To_int k) v y = (case parse_int v of Inl e \<Rightarrow> y | Inr i \<Rightarrow> set_number k i y)"
| "take_action (To_uint k) v y = (case parse_uint32 v of Inl e \<Rightarrow> y | Inr n \<Rightarrow> set_number k (int n) y)"
| "take_action Deny_robots v y = (if IsTruthy v then set_text Robots_Deny ''/'' y else y)"

definition getEnv :: "(string \<Rightarrow> string) \<Rightarrow> string \<Rightarrow> string" where
  "getEnv env name = env (''CASPASTE_'' @ name)"

definition override :: "(string \<Rightarrow> string) \<Rightarrow> string \<times> env_action \<Rightarrow> YAMLConfig \<Rightarrow> YAMLConfig" where
  "override env = (\<lambda>(name, a) y. if getEnv env name \<noteq> [] then take_action a (getEnv env name) y else y)"

text \<open>In the order of the source: a later variable wins over an earlier one for the same setting.\<close>

definition env_overrides :: "(string \<times> env_action) list" where
  "env_overrides =
     [(''FQDN'', To_text Server_FQDN), (''LISTEN'', To_text Server_Listen), (''BIND'', To_text Server_Listen),
      (''PORT'', To_text Server_Port), (''SERVER_TITLE'', To_text Server_Title), (''TITLE'', To_text Server_Title),
      (''ADMIN_NAME'', To_text Administrator_Name), (''SERVER_ADMINISTRATOR_NAME'', To_text Administrator_Name),
      (''ADMIN_EMAIL'', To_text Administrator_Email), (''ADMIN_MAIL'', To_text Administrator_Email),
      (''SERVER_ADMINISTRATOR_EMAIL'', To_text Administrator_Email), (''SERVER_ADMINISTRATOR_FROM'', To_text Administrator_From),
      (''WEB_SECURITY_CONTACT_EMAIL'', To_text Contact_Email), (''WEB_SECURITY_CONTACT_NAME'', To_text Contact_Name),
      (''SITE_ROBOTS_ALLOW'', To_text Robots_Allow), (''SITE_ROBOTS_DENY'', To_text Robots_Deny), (''ROBOTS_DISALLOW'', Deny_robots),
      (''BRANDING_LOGO'', To_text Branding_Logo), (''BRANDING_FAVICON'', To_text Branding_Favicon),
      (''DB_DRIVER'', To_text Database_Driver), (''DB_SOURCE'', To_text Database_Source),
      (''DB_MAX_OPEN_CONNS'', To_int Database_MaxOpenConns), (''DB_MAX_IDLE_CONNS'', To_int Database_MaxIdleConns),
      (''DB_CLEANUP_PERIOD'', To_text Database_CleanupPeriod),
      (''PASSWORD_FILE'', To_text Security_PasswordFile), (''CASPASSWD_FILE'', To_text Security_PasswordFile),
      (''TITLE_MAX_LENGTH'', To_int Limits_TitleMaxLength), (''BODY_MAX_LENGTH'', To_int Limits_BodyMaxLength),
      (''MAX_PASTE_LIFETIME'', To_text Limits_MaxPasteLifetime),
      (''GET_PASTES_PER_5MIN'', To_uint Get_Per5Min), (''GET_PASTES_PER_15MIN'', To_uint Get_Per15Min),
      (''GET_PASTES_PER_1HOUR'', To_uint Get_Per1Hour),
      (''NEW_PASTES_PER_5MIN'', To_uint New_Per5Min), (''NEW_PASTES_PER_15MIN'', To_uint New_Per15Min),
      (''NEW_PASTES_PER_1HOUR'', To_uint New_Per1Hour),
      (''UI_DEFAULT_LIFETIME'', To_text UI_DefaultLifetime), (''UI_DEFAULT_THEME'', To_text UI_DefaultTheme),
      (''UI_THEMES_DIR'', To_text UI_ThemesDir),
      (''CONTENT_ABOUT'', To_text Content_About), (''SERVER_ABOUT'', To_text Content_About),
      (''CONTENT_RULES'', To_text Content_Rules), (''SERVER_RULES'', To_text Content_Rules),
      (''CONTENT_TERMS'', To_text Content_Terms), (''SERVER_TERMS'', To_text Content_Terms),
      (''CONTENT_SECURITY'', To_text Content_Security),
      (''CACHE_DIR'', To_text Directories_Cache), (''LOGS_DIR'', To_text Directories_Logs),
      (''API_MODE'', To_text Server_APIMode), (''BASE_URL'', To_text Web_BaseURL)]"

definition set_unless_empty :: "text_setting \<Rightarrow> string \<Rightarrow> YAMLConfig \<Rightarrow> YAMLConfig" where
  "set_unless_empty k v y = (if v \<noteq> [] then set_text k v y else y)"

definition address_override :: "(string \<Rightarrow> bool) \<Rightarrow> (string \<Rightarrow> string) \<Rightarrow> YAMLConfig \<Rightarrow> YAMLConfig" where
  "address_override psl env y =
     (if getEnv env ''ADDRESS'' \<noteq> [] then
        let (fqdn, listen, port) = parseAddress psl (getEnv env ''ADDRESS'')
        in set_unless_empty Server_Port port (set_unless_empty Server_Listen listen (set_unless_empty Server_FQDN fqdn y))
      else y)"

definition ApplyEnvironmentOverrides :: "(string \<Rightarrow> bool) \<Rightarrow> (string \<Rightarrow> string) \<Rightarrow> YAMLConfig \<Rightarrow> YAMLConfig" where
  "ApplyEnvironmentOverrides psl env y = fold (override env) env_overrides (address_override psl env y)"

definition critical_overrides :: "(string \<times> env_action) list" where
  "critical_overrides =
     [(''PASSWORD_FILE'', To_text Security_PasswordFile), (''CASPASSWD_FILE'', To_text Security_PasswordFile),
      (''TLS_MIN_VERSION'', To_text TLS_MinVersion)]"

definition ApplyCriticalOverrides :: "(string \<Rightarrow> string) \<Rightarrow> YAMLConfig \<Rightarrow> YAMLConfig" where
  "ApplyCriticalOverrides env y =
     (let y = (if getEnv env ''PUBLIC'' \<noteq> [] then y\<lparr>y_Public := IsTruthy (getEnv env ''PUBLIC'')\<rparr> else y)
      in fold (override env) critical_overrides y)"

section \<open>Languages and the base URL\<close>

definition SupportedLanguages :: "string list" where
  "SupportedLanguages = [''en'', ''es'', ''zh'', ''fr'', ''ar'', ''de'', ''ja'']"

definition NormalizeLang :: "string \<Rightarrow> string" where
  "NormalizeLang code =
     (let code = to_lower (trim_space code);
          sub = takeWhile (\<lambda>c. c \<noteq> CHR ''-'' \<and> c \<noteq> CHR ''_'') code;
          code = (if sub \<noteq> [] then sub else code)
      in if code \<in> set SupportedLanguages then code else ''en'')"

definition trim_right_char :: "char \<Rightarrow> string \<Rightarrow> string" where
  "trim_right_char c s = rev (dropWhile (\<lambda>x. x = c) (rev s))"

definition NormalizeBaseURL :: "string \<Rightarrow> string" where
  "NormalizeBaseURL p =
     (let p = trim_space p
      in if p = [] \<or> p = ''/'' then ''/''
         else let p = trim_right_char (CHR ''/'') (if has_prefix p ''/'' then p else ''/'' @ p)
           in if p = [] then ''/'' else p)"

section \<open>Which variable decides\<close>

definition decides :: "(string \<Rightarrow> string) \<Rightarrow> text_setting \<Rightarrow> string \<times> env_action \<Rightarrow> bool" where
  "decides env k na \<longleftrightarrow> snd na = To_text k \<and> getEnv env (fst na) \<noteq> []"

lemma take_action_text:
  "k \<noteq> Robots_Deny \<Longrightarrow> y_text (take_action a v y) k = (if a = To_text k then v else y_text y k)"
  by (cases a) (auto simp: set_text_def set_number_def split: sum.split)

lemma override_text:
  "k \<noteq> Robots_Deny \<Longrightarrow> y_text (override env na y) k = (if decides env k na then getEnv env (fst na) else y_text y k)"
  by (cases na) (simp add: override_def decides_def take_action_text set_text_def)

lemma fold_override_text:
  assumes "k \<noteq> Robots_Deny"
  shows "y_text (fold (override env) xs y) k =
    (case find (decides env k) (rev xs) of None \<Rightarrow> y_text y k | Some na \<Rightarrow> getEnv env (fst na))"
  by (induction xs arbitrary: y rule: rev_induct) (auto simp: override_text assms)


lemma critical_text:
  "k \<noteq> Robots_Deny \<Longrightarrow> y_text (ApplyCriticalOverrides env y) k =
    (case find (decides env k) (rev critical_overrides) of None \<Rightarrow> y_text y k | Some na \<Rightarrow> getEnv env (fst na))"
  by (simp add: ApplyCriticalOverrides_def Let_def fold_override_text split: option.split)

lemma trim_right_char_last: "trim_right_char c s \<noteq> [] \<Longrightarrow> last (trim_right_char c s) \<noteq> c"
  using hd_dropWhile [of "\<lambda>x. x = c" "rev s"] by (auto simp: trim_right_char_def last_rev)

text \<open>The base URL is the root, or begins with a slash and does not end with one.\<close>

lemma NormalizeBaseURL_shape:
  "NormalizeBaseURL p = ''/'' \<or> (has_prefix (NormalizeBaseURL p) ''/'' \<and> last (NormalizeBaseURL p) \<noteq> CHR ''/'')"
proof -
  have pre: "has_prefix (trim_right_char (CHR ''/'') q) ''/''" if p: "has_prefix q ''/''" and ne: "trim_right_char (CHR ''/'') q \<noteq> []" for q
  proof -
    have "q = trim_right_char (CHR ''/'') q @ rev (takeWhile (\<lambda>x. x = CHR ''/'') (rev q))"
      unfolding trim_right_char_def rev_append [symmetric] by simp
    moreover obtain c t where ct: "trim_right_char (CHR ''/'') q = c # t" using ne by (cases "trim_right_char (CHR ''/'') q") auto
    ultimately have "q = c # t @ rev (takeWhile (\<lambda>x. x = CHR ''/'') (rev q))" by simp
    with p have "c = CHR ''/''" by (cases q) auto
    with ct show ?thesis by simp
  qed
  let ?q = "if has_prefix (trim_space p) ''/'' then trim_space p else ''/'' @ trim_space p"
  have "has_prefix ?q ''/''" by simp
  then show ?thesis
    using pre [of ?q] trim_right_char_last [of "CHR ''/''" ?q] by (simp add: NormalizeBaseURL_def Let_def del: append.simps)
qed

lemma NormalizeLang_supported: "NormalizeLang code \<in> set SupportedLanguages"
  by (simp add: NormalizeLang_def Let_def SupportedLanguages_def)


end
