(* ===== verification/Startup.thy ===== *)
theory Startup
  imports Config Go_Path
begin

text \<open>
  What \<open>main\<close> in \<open>server/caspaste.go\<close> makes of its flags, the environment and the configuration file: the
  mode, the settings, and the addresses it listens on. Reading and writing the file, creating directories
  and credentials, and binding the sockets are left out; the random ports and the ports that are free are
  arguments.
\<close>

section \<open>The flags of the server\<close>

definition address_hook :: hook where
  "address_hook s =
     (if s = [] then Inr s
      else if \<not> contains_str s '':'' then (if contains_str s ''.'' then Inr '':80'' else Inr (s @ '':80''))
      else let parts = split_char CHR '':'' s
        in if length parts = 2 \<and> contains_str (parts ! 0) ''.'' then Inr ('':'' @ parts ! 1) else Inr s)"

definition address_options :: FlagOptions where
  "address_options = \<lparr>o_Required = False, o_PreHook = Some address_hook\<rparr>"

datatype flag_decl = Text string string string "FlagOptions option" | Switch string string

definition server_flags :: "flag_decl list" where
  "server_flags = [
      Text ''address'' '':80'' ''HTTP server ADDRESS:PORT (use FQDN for reverse proxy setups).'' (Some address_options),
      Switch ''help'' ''Show help message and exit'',
      Switch ''version'' ''Show version information and exit'',
      Switch ''daemon'' ''Start in background (daemon mode)'',
      Switch ''debug'' ''Enable debug logging to debug.log'',
      Switch ''status'' ''Check server health and database connectivity. Exit codes: 0=healthy, 1=unhealthy, 2=error'',
      Text ''service'' [] ''Service management: start, stop, restart, reload, install, uninstall, disable, help'' None,
      Text ''maintenance'' [] ''Maintenance mode: backup [filename], restore [filename], mode {enabled|disabled}'' None,
      Text ''port'' [] ''Port to listen on (alternative to specifying in --address). Examples: 80, 8080, 443.'' None,
      Text ''log'' [] ''Log directory for access.log and debug.log. Default: /var/log/webappsgo/caspaste'' None,
      Text ''data'' [] ''Data directory. Examples: /var/lib/webappsgo/caspaste, ~/.local/share/webappsgo/caspaste'' None,
      Text ''config'' [] ''Configuration directory. Examples: /etc/webappsgo/caspaste, ~/.config/webappsgo/caspaste'' None,
      Text ''cache'' [] ''Cache directory. Examples: /var/cache/caspaste, ~/.cache/caspaste'' None,
      Text ''logs'' [] ''Logs directory (alias for --log). Examples: /var/log/webappsgo/caspaste, ~/.local/log/webappsgo/caspaste'' None,
      Text ''backup'' [] ''Backup directory. Default: /mnt/Backups/webappsgo/caspaste or ~/.local/share/Backups/webappsgo/caspaste'' None,
      Text ''pid'' [] ''PID file path. Default: /var/run/webappsgo/caspaste.pid or ~/.local/share/webappsgo/caspaste/caspaste.pid'' None,
      Text ''mode'' [] ''Application mode: production, development, or debug (default: production)'' None,
      Text ''update'' [] ''Update management: check, yes, branch {stable|beta|daily}, --help'' None,
      Text ''color'' ''auto'' ''Color output: auto, yes, no (default: auto, respects NO_COLOR)'' None,
      Text ''lang'' [] ''UI/CLI language code (en, es, zh, fr, ar, de, ja). Unsupported values fall back to en.'' None,
      Text ''baseurl'' [] ''Base URL path prefix for reverse-proxy sub-path hosting (default: /).'' None]"

fun declare_flag :: "flag_decl \<Rightarrow> cli \<Rightarrow> cli_panic + cli" where
  "declare_flag (Text name def usage opts) c = AddStringVar name def usage opts c"
| "declare_flag (Switch name usage) c = AddBoolVar name usage c"

definition server_cli :: "cli_panic + cli" where
  "server_cli = fold (\<lambda>d r. and_then r (declare_flag d)) server_flags (Inr [])"

definition flag_value :: "cli \<Rightarrow> string \<Rightarrow> cli_value option" where
  "flag_value c name = map_option v_value (find (\<lambda>v. v_name v = name) c)"

definition flag_text :: "cli \<Rightarrow> string \<Rightarrow> string" where
  "flag_text c name = (case flag_value c name of Some (Vstring s) \<Rightarrow> s | _ \<Rightarrow> [])"

definition flag_on :: "cli \<Rightarrow> string \<Rightarrow> bool" where
  "flag_on c name \<longleftrightarrow> flag_value c name = Some (Vbool True)"

section \<open>The mode\<close>

datatype start_error =
    Invalid_mode string | Unknown_driver | No_source | Invalid_PORT port_error | Invalid_port port_error | No_unused_port port_error

definition resolve_mode :: "(string \<Rightarrow> string) \<Rightarrow> cli \<Rightarrow> mode_state \<Rightarrow> start_error + mode_state" where
  "resolve_mode env c m =
     (let m = FromEnv (env ''MODE'') (env ''DEBUG'') m; f = flag_text c ''mode''
      in and_then
        (if f = [] then Inr m
         else if to_lower f \<in> {''dev'', ''devel'', ''development'', ''prod'', ''production'', ''debug''} then
           let m = SetAppMode f m
           in Inr (case ParseBool (env ''DEBUG'') of (val, wasSet) \<Rightarrow> if wasSet then SetDebugEnabled val m else m)
         else Inl (Invalid_mode f))
        (\<lambda>m. Inr (if flag_on c ''debug'' then SetDebugEnabled True m else m)))"

section \<open>The settings\<close>

definition resolve_base_url :: "(string \<Rightarrow> string) \<Rightarrow> cli \<Rightarrow> YAMLConfig \<Rightarrow> YAMLConfig" where
  "resolve_base_url env c y =
     (let b = y_text y Web_BaseURL;
          b = (if env ''BASE_URL'' \<noteq> [] then env ''BASE_URL'' else b);
          b = (if flag_text c ''baseurl'' \<noteq> [] then flag_text c ''baseurl'' else b)
      in set_text Web_BaseURL (NormalizeBaseURL b) y)"

definition default_password_file :: "cli \<Rightarrow> YAMLConfig \<Rightarrow> YAMLConfig" where
  "default_password_file c y =
     (if \<not> y_Public y \<and> y_text y Security_PasswordFile = []
      then set_text Security_PasswordFile (path_join [flag_text c ''config'', ''.auth'']) y else y)"

definition merge_flags :: "cli \<Rightarrow> YAMLConfig \<Rightarrow> YAMLConfig" where
  "merge_flags c y =
     (let y = set_unless_empty Server_Port (flag_text c ''port'') y;
          y = (if flag_text c ''address'' \<noteq> '':80'' then set_text Server_FQDN (flag_text c ''address'') y else y);
          y = set_unless_empty Directories_Data (flag_text c ''data'') y;
          y = set_unless_empty Directories_Config (flag_text c ''config'') y;
          y = set_unless_empty Directories_Cache (flag_text c ''cache'') y;
          y = set_unless_empty Directories_Logs (flag_text c ''logs'') y
      in set_unless_empty Directories_Logs (flag_text c ''log'') y)"

definition resolve_driver :: "YAMLConfig \<Rightarrow> start_error + YAMLConfig" where
  "resolve_driver y =
     and_then
       (if y_text y Database_Driver = [] then
          (case DetectDriver (y_text y Database_Source) of
             None \<Rightarrow> Inl Unknown_driver
           | Some d \<Rightarrow> Inr (set_text Database_Driver d y))
        else Inr y)
       (\<lambda>y. let y = set_text Database_Driver (NormalizeDriver (y_text y Database_Driver)) y;
                y = set_text Database_Source (NormalizeConnectionString (y_text y Database_Driver) (y_text y Database_Source)) y
            in if y_text y Database_Source = [] then Inl No_source else Inr y)"

text \<open>\<open>first\<close>: the configuration file was made just now.\<close>

definition configure :: "(string \<Rightarrow> bool) \<Rightarrow> (string \<Rightarrow> string) \<Rightarrow> bool \<Rightarrow> cli \<Rightarrow> YAMLConfig \<Rightarrow> start_error + YAMLConfig" where
  "configure psl env first c y =
     (let y = (if first then ApplyEnvironmentOverrides psl env y else y);
          y = resolve_base_url env c (ApplyCriticalOverrides env y);
          y = default_password_file c y;
          y = (if first then merge_flags c y else y)
      in resolve_driver y)"

section \<open>Addresses\<close>

definition JoinHostPort :: "string \<Rightarrow> string \<Rightarrow> string" where
  "JoinHostPort host port =
     (if CHR '':'' \<in> set host then ''['' @ host @ '']:'' @ port else host @ '':'' @ port)"

text \<open>The address that is shown: of the flag or the file, without its port, with the port that was chosen.\<close>

definition shown_address :: "bool \<Rightarrow> cli \<Rightarrow> YAMLConfig \<Rightarrow> int \<Rightarrow> string" where
  "shown_address first c y httpPort =
     (let a = (if y_text y Server_FQDN \<noteq> [] \<and> \<not> first then y_text y Server_FQDN else flag_text c ''address'');
          port = flag_text c ''port'';
          a = (if first \<and> port \<noteq> [] then
                 let host = (if contains_str a '':'' then split_char CHR '':'' a ! 0 else a)
                 in if \<not> has_prefix port '':'' then host @ '':'' @ port else host @ port
               else a);
          host = (if contains_str a '':'' then split_char CHR '':'' a ! 0 else a)
      in JoinHostPort (if host = [] then ''::'' else host) (show_int httpPort))"

definition resolve_ports ::
    "(nat \<Rightarrow> int) \<Rightarrow> (nat \<Rightarrow> int \<Rightarrow> bool) \<Rightarrow> (string \<Rightarrow> string) \<Rightarrow> YAMLConfig \<Rightarrow> start_error + (int \<times> int \<times> YAMLConfig)" where
  "resolve_ports rand can_listen env y =
     (if env ''CASPASTE_PORT'' \<noteq> [] then
        (case ParsePorts (env ''CASPASTE_PORT'') of Inl e \<Rightarrow> Inl (Invalid_PORT e) | Inr (h, s) \<Rightarrow> Inr (h, s, y))
      else if y_text y Server_Port \<noteq> [] then
        (case ParsePorts (y_text y Server_Port) of Inl e \<Rightarrow> Inl (Invalid_port e) | Inr (h, s) \<Rightarrow> Inr (h, s, y))
      else (case FindUnusedPort rand can_listen 64000 64999 of
              Inl e \<Rightarrow> Inl (No_unused_port e)
            | Inr h \<Rightarrow> Inr (h, 0, set_text Server_Port (show_int h) y)))"

definition sockets :: "YAMLConfig \<Rightarrow> int \<Rightarrow> int \<Rightarrow> string list" where
  "sockets y httpPort httpsPort =
     (let listen = y_text y Server_Listen;
          listen = (if listen = ''all'' \<or> listen = [] then ''::'' else listen)
      in JoinHostPort listen (show_int httpPort) # (if httpsPort > 0 then [JoinHostPort listen (show_int httpsPort)] else []))"

record startup =
  su_config :: YAMLConfig
  su_address :: string
  su_sockets :: "string list"

definition start ::
    "(string \<Rightarrow> bool) \<Rightarrow> (nat \<Rightarrow> int) \<Rightarrow> (nat \<Rightarrow> int \<Rightarrow> bool) \<Rightarrow> (string \<Rightarrow> string) \<Rightarrow> bool \<Rightarrow> cli \<Rightarrow> YAMLConfig \<Rightarrow> start_error + startup" where
  "start psl rand can_listen env first c y =
     and_then (configure psl env first c y) (\<lambda>y.
     and_then (resolve_ports rand can_listen env y) (\<lambda>(http, https, y').
       Inr \<lparr>su_config = y', su_address = shown_address first c y http, su_sockets = sockets y' http https\<rparr>))"

section \<open>Facts about the flags\<close>

fun declared :: "flag_decl \<Rightarrow> cli_variable" where
  "declared (Text name def usage opts) =
     \<lparr>v_name = name, v_cliFlagName = ''-'' @ name, v_preHook = Option.bind opts o_PreHook, v_value = Vstring def,
      v_default = def, v_required = (case opts of None \<Rightarrow> False | Some op \<Rightarrow> o_Required op), v_usage = usage\<rparr>"
| "declared (Switch name usage) =
     \<lparr>v_name = name, v_cliFlagName = ''-'' @ name, v_preHook = None, v_value = Vbool False,
      v_default = [], v_required = False, v_usage = usage\<rparr>"

fun proper_decl :: "flag_decl \<Rightarrow> bool" where
  "proper_decl (Text name def usage opts) \<longleftrightarrow> name \<noteq> [] \<and> usage \<noteq> [] \<and> hooked opts def = Inr def"
| "proper_decl (Switch name usage) \<longleftrightarrow> name \<noteq> [] \<and> usage \<noteq> []"

lemma declare_flag_proper: "proper_decl d \<Longrightarrow> declare_flag d c = Inr (c @ [declared d])"
  by (cases d) (auto simp: AddStringVar_def AddBoolVar_def addVar_def Let_def split: option.split)

lemma declare_all: "\<forall>d \<in> set ds. proper_decl d \<Longrightarrow> fold (\<lambda>d r. and_then r (declare_flag d)) ds (Inr c) = Inr (c @ map declared ds)"
  by (induction ds arbitrary: c) (simp_all add: declare_flag_proper)

lemma server_cli_eq: "server_cli = Inr (map declared server_flags)"
proof -
  have "list_all proper_decl server_flags" by code_simp
  then show ?thesis using declare_all [of server_flags "[]"] by (simp add: server_cli_def list_all_iff)
qed

definition server_names :: "string list" where
  "server_names = [''address'', ''help'', ''version'', ''daemon'', ''debug'', ''status'', ''service'', ''maintenance'', ''port'', ''log'',
     ''data'', ''config'', ''cache'', ''logs'', ''backup'', ''pid'', ''mode'', ''update'', ''color'', ''lang'', ''baseurl'']"

lemma server_names: "map v_name (map declared server_flags) = server_names"
  by code_simp

lemma distinct_server_names: "distinct server_names"
  by code_simp

lemma declared_flag: "v_cliFlagName (declared d) = ''-'' @ v_name (declared d)"
  by (cases d) simp_all

lemma usable_server: "usable (map declared server_flags)"
proof -
  have "\<not> has_prefix n ''-''" if "n \<in> set server_names" for n
    using that by (auto simp: server_names_def)
  moreover have "v_name v \<in> set server_names" if "v \<in> set (map declared server_flags)" for v
    using that arg_cong [OF server_names, of set] by auto
  ultimately show ?thesis
    using distinct_server_names unfolding usable_def server_names by (auto simp: declared_flag)
qed

lemma server_debug: "declared (server_flags ! 4) = \<lparr>v_name = ''debug'', v_cliFlagName = ''-debug'', v_preHook = None, v_value = Vbool False,
    v_default = [], v_required = False, v_usage = ''Enable debug logging to debug.log''\<rparr>"
  and server_address: "declared (server_flags ! 0) = \<lparr>v_name = ''address'', v_cliFlagName = ''-address'', v_preHook = Some address_hook,
    v_value = Vstring '':80'', v_default = '':80'', v_required = False, v_usage = ''HTTP server ADDRESS:PORT (use FQDN for reverse proxy setups).''\<rparr>"
  by (simp_all add: server_flags_def address_options_def)

lemma length_server: "length server_flags = 21"
  by (simp add: server_flags_def)

lemma find_by_name:
  assumes "distinct (map v_name c)" and "i < length c"
  shows "find (\<lambda>v. v_name v = v_name (c ! i)) c = Some (c ! i)"
  using assms
proof (induction c arbitrary: i)
  case (Cons v c)
  show ?case
  proof (cases i)
    case (Suc j)
    with Cons.prems have "v_name v \<noteq> v_name (c ! j)" by (auto simp: image_iff)
    with Cons Suc show ?thesis by simp
  qed simp
qed simp

lemma flag_value_nth: "distinct (map v_name c) \<Longrightarrow> i < length c \<Longrightarrow> flag_value c (v_name (c ! i)) = Some (v_value (c ! i))"
  by (simp add: flag_value_def find_by_name)

section \<open>Debugging cannot be turned off\<close>

text \<open>
  Any setting of CASPASTE_DEBUG turns debugging on: with CASPASTE_DEBUG=false, and whatever the other
  variables and arguments are, if the flags parse and the mode is valid then the server runs with
  debugging, which mounts the profiler and the pages under /debug.
\<close>

theorem debug_variable_enables:
  assumes "env ''CASPASTE_DEBUG'' \<noteq> []" and "server_cli = Inr c0" and "Parse env args c0 = Inr c"
    and "resolve_mode env c m = Inr m'"
  shows "debugEnabled m'"
proof -
  have c0: "c0 = map declared server_flags" using assms(2) by (simp add: server_cli_eq)
  from Parse_parts [OF assms(3)] obtain vs rs rs' where vs: "read_environment env c0 = Inr (vs, rs)"
    and c: "read_args args None [] vs rs = Inr (c, rs')" by blast
  have len: "length c0 = 21" by (simp add: c0 length_server)
  have dbg: "c0 ! 4 = declared (server_flags ! 4)" by (simp add: c0 length_server)
  have "getEnvVar env ''debug'' = Some (env ''CASPASTE_DEBUG'')"
  proof -
    have "to_upper (replace_all ''debug'' ''-'' ''_'') = ''DEBUG''" by code_simp
    with assms(1) show ?thesis by (simp add: getEnvVar_def)
  qed
  then have "write_variable (env ''CASPASTE_DEBUG'') (c0 ! 4) = Inr (vs ! 4)"
    using read_environment_nth [OF vs, of 4] len by (simp add: dbg server_debug from_environment_def)
  then have "v_value (vs ! 4) = Vbool True"
    by (rule write_switch [rotated]) (simp add: dbg server_debug is_switch_def)
  moreover have "length vs = 21" using read_environment_typed [OF vs] len by (simp add: well_typed_length)
  ultimately have on: "v_value (c ! 4) = Vbool True" using read_args_stays_on [OF c, of 4] by simp
  note t = Parse_typed [OF assms(3)]
  have names: "map v_name c = server_names" using well_typed_names [OF t] server_names by (simp add: c0)
  then have "distinct (map v_name c)" using distinct_server_names by simp
  moreover have "length c = 21" using t len by (simp add: well_typed_length)
  moreover have "v_name (c ! 4) = ''debug''" using names calculation(2) by (simp add: server_names_def list_eq_iff_nth_eq)
  ultimately have "flag_on c ''debug''" using flag_value_nth [of c 4] on by (simp add: flag_on_def)
  then show ?thesis
    using assms(4) by (auto simp: resolve_mode_def and_then_Inr_iff Let_def SetDebugEnabled_def updateAppModeProfilingSettings_def)
qed

section \<open>The address\<close>

lemma configure_first_fqdn:
  assumes "configure psl env True c y = Inr y'" and "flag_text c ''address'' \<noteq> '':80''"
  shows "y_text y' Server_FQDN = flag_text c ''address''"
proof -
  have merged: "y_text (merge_flags c z) Server_FQDN = flag_text c ''address''" for z
    using assms(2) by (simp add: merge_flags_def set_unless_empty_def set_text_def Let_def)
  have "y_text z' Server_FQDN = y_text z Server_FQDN" if "resolve_driver z = Inr z'" for z z'
    using that by (auto simp: resolve_driver_def set_text_def Let_def and_then_Inr_iff split: if_splits option.splits)
  then show ?thesis using assms(1) merged by (auto simp: configure_def Let_def)
qed

lemma parsed_address:
  assumes "server_cli = Inr c0" and "Parse env [] c0 = Inr c" and "env ''CASPASTE_ADDRESS'' \<noteq> []"
    and "address_hook (env ''CASPASTE_ADDRESS'') = Inr a"
  shows "flag_text c ''address'' = a"
proof -
  have c0: "c0 = map declared server_flags" using assms(1) by (simp add: server_cli_eq)
  from Parse_parts [OF assms(2)] obtain rs where vs: "read_environment env c0 = Inr (c, rs)" by auto
  have len: "length c0 = 21" by (simp add: c0 length_server)
  have adr: "c0 ! 0 = declared (server_flags ! 0)" by (simp add: c0 length_server)
  have "to_upper (replace_all ''address'' ''-'' ''_'') = ''ADDRESS''" by code_simp
  with assms(3) have "getEnvVar env ''address'' = Some (env ''CASPASTE_ADDRESS'')" by (simp add: getEnvVar_def)
  then have "write_variable (env ''CASPASTE_ADDRESS'') (c0 ! 0) = Inr (c ! 0)"
    using read_environment_nth [OF vs, of 0] len by (simp add: adr server_address from_environment_def)
  then have val: "v_value (c ! 0) = Vstring a"
    using assms(4) by (auto simp: adr server_address write_variable_def writeVar_def read_as_def dest!: arg_cong [of _ "c ! 0" v_value])
  note t = read_environment_typed [OF vs]
  have names: "map v_name c = server_names" using well_typed_names [OF t] server_names by (simp add: c0)
  then have "distinct (map v_name c)" using distinct_server_names by simp
  moreover have "length c = 21" using t len by (simp add: well_typed_length)
  moreover have "v_name (c ! 0) = ''address''" using names calculation(2) by (simp add: server_names_def list_eq_iff_nth_eq)
  ultimately show ?thesis using flag_value_nth [of c 0] val by (simp add: flag_text_def)
qed

lemma address_hook_name:
  assumes "contains_str host ''.''" and "CHR '':'' \<notin> set host" and "CHR '':'' \<notin> set port"
  shows "address_hook (host @ '':'' @ port) = Inr ('':'' @ port)"
proof -
  have "split_char CHR '':'' (host @ CHR '':'' # port) = [host, port]"
    using assms(2,3) by (simp add: split_char_append split_char_absent)
  moreover have "contains_str (host @ CHR '':'' # port) '':''" by (simp add: contains_char_iff)
  ultimately show ?thesis using assms(1) by (simp add: address_hook_def)
qed

text \<open>
  The documented CASPASTE_ADDRESS=name:port loses the name. The overrides read the name from it, but
  on the first run, with no arguments, the parser of the flags has reduced the same variable to the port,
  and \<open>main\<close> stores that as the name of the server, unless the port is 80.
\<close>

theorem first_run_loses_name:
  assumes "server_cli = Inr c0" and "Parse env [] c0 = Inr c" and "configure psl env True c y = Inr y'"
    and "env ''CASPASTE_ADDRESS'' = host @ '':'' @ port" and "parseAddress psl (env ''CASPASTE_ADDRESS'') = (host, [], port)"
    and "contains_str host ''.''" and "CHR '':'' \<notin> set host" and "CHR '':'' \<notin> set port" and "port \<noteq> ''80''"
  shows "y_text (address_override psl env y) Server_FQDN = host \<and> y_text y' Server_FQDN = '':'' @ port"
proof -
  have ne: "env ''CASPASTE_ADDRESS'' \<noteq> []" "host \<noteq> []" using assms(4,6) by auto
  have "flag_text c ''address'' = '':'' @ port"
    using parsed_address [OF assms(1,2) ne(1)] address_hook_name [OF assms(6-8)] by (simp add: assms(4))
  moreover from this have "flag_text c ''address'' \<noteq> '':80''" using assms(9) by simp
  ultimately have "y_text y' Server_FQDN = '':'' @ port" using configure_first_fqdn [OF assms(3)] by simp
  moreover have "y_text (address_override psl env y) Server_FQDN = host"
    using ne assms(5) by (simp add: address_override_def getEnv_def set_unless_empty_def set_text_def)
  ultimately show ?thesis by simp
qed

definition set_flag :: "string \<Rightarrow> string \<Rightarrow> cli \<Rightarrow> cli" where
  "set_flag name s c = map (\<lambda>v. if v_name v = name then v\<lparr>v_value := Vstring s\<rparr> else v) c"

lemma flag_text_set_flag: "n \<noteq> name \<Longrightarrow> flag_text (set_flag name s c) n = flag_text c n"
proof -
  assume "n \<noteq> name"
  then have "find (\<lambda>v. v_name v = n) (set_flag name s c) = find (\<lambda>v. v_name v = n) c"
    by (induction c) (auto simp: set_flag_def)
  then show ?thesis by (simp add: flag_text_def flag_value_def)
qed

definition but_name :: "YAMLConfig \<Rightarrow> YAMLConfig" where
  "but_name y = set_text Server_FQDN [] y"

lemma but_name_set_text:
  "but_name (set_text k v y) = (if k = Server_FQDN then but_name y else set_text k v (but_name y))"
  by (auto simp: but_name_def set_text_def fun_upd_twist)

lemma text_of_set_text: "y_text (set_text k v y) j = (if j = k then v else y_text y j)"
  by (simp add: set_text_def)

lemma but_name_text: "k \<noteq> Server_FQDN \<Longrightarrow> y_text (but_name y) k = y_text y k"
  by (simp add: but_name_def set_text_def)

lemma but_name_merge: "but_name (merge_flags (set_flag ''address'' a c) y) = but_name (merge_flags c y)"
  by (simp add: merge_flags_def set_unless_empty_def Let_def but_name_set_text flag_text_set_flag)

lemma resolve_driver_but_name:
  "resolve_driver (but_name y) = (case resolve_driver y of Inl e \<Rightarrow> Inl e | Inr y' \<Rightarrow> Inr (but_name y'))"
  by (simp add: resolve_driver_def but_name_set_text but_name_text text_of_set_text Let_def split: option.split)

lemma resolve_ports_but_name:
  "resolve_ports rand can_listen env (but_name y) =
    (case resolve_ports rand can_listen env y of Inl e \<Rightarrow> Inl e | Inr (h, s, y') \<Rightarrow> Inr (h, s, but_name y'))"
  by (auto simp: resolve_ports_def but_name_set_text but_name_text split: sum.split)

lemma sockets_but_name: "sockets (but_name y) h s = sockets y h s"
  by (simp add: sockets_def but_name_text)

definition binds ::
    "(string \<Rightarrow> bool) \<Rightarrow> (nat \<Rightarrow> int) \<Rightarrow> (nat \<Rightarrow> int \<Rightarrow> bool) \<Rightarrow> (string \<Rightarrow> string) \<Rightarrow> bool \<Rightarrow> cli \<Rightarrow> YAMLConfig \<Rightarrow> start_error + string list" where
  "binds psl rand can_listen env first c y =
     (case start psl rand can_listen env first c y of Inl e \<Rightarrow> Inl e | Inr s \<Rightarrow> Inr (su_sockets s))"

definition bound :: "(nat \<Rightarrow> int) \<Rightarrow> (nat \<Rightarrow> int \<Rightarrow> bool) \<Rightarrow> (string \<Rightarrow> string) \<Rightarrow> YAMLConfig \<Rightarrow> start_error + string list" where
  "bound rand can_listen env y =
     and_then (resolve_driver y) (\<lambda>y. and_then (resolve_ports rand can_listen env y) (\<lambda>(h, s, y'). Inr (sockets y' h s)))"

lemma bound_but_name: "bound rand can_listen env (but_name y) = bound rand can_listen env y"
  by (auto simp: bound_def resolve_driver_but_name resolve_ports_but_name sockets_but_name split: sum.split prod.split)


section \<open>Examples\<close>

definition ex_only :: "string \<Rightarrow> string \<Rightarrow> string \<Rightarrow> string" where
  "ex_only n v m = (if m = n then v else [])"

definition ex_yaml :: YAMLConfig where
  "ex_yaml = \<lparr>y_text = (\<lambda>k. if k = Database_Source then ''/data/db/caspaste.db'' else []), y_number = (\<lambda>_. 0), y_Public = True\<rparr>"

theorem debug_variable_enables_witness:
  "\<exists>c m. Parse (ex_only ''CASPASTE_DEBUG'' ''false'') [] (map declared server_flags) = Inr c
     \<and> resolve_mode (ex_only ''CASPASTE_DEBUG'' ''false'') c initial_mode = Inr m \<and> debugEnabled m"
proof -
  let ?env = "ex_only ''CASPASTE_DEBUG'' ''false''"
  let ?c = "projr (Parse ?env [] (map declared server_flags))"
  have "\<not> isl (Parse ?env [] (map declared server_flags))" "\<not> isl (resolve_mode ?env ?c initial_mode)" by code_simp+
  then obtain m where c: "Parse ?env [] (map declared server_flags) = Inr ?c" and m: "resolve_mode ?env ?c initial_mode = Inr m"
    by (auto dest!: not_isl)
  from debug_variable_enables [OF _ server_cli_eq c m] have "debugEnabled m" by (simp add: ex_only_def)
  with c m show ?thesis by blast
qed

theorem first_run_loses_name_witness:
  "\<exists>c y'. Parse (ex_only ''CASPASTE_ADDRESS'' ''a.org:8080'') [] (map declared server_flags) = Inr c
     \<and> configure (\<lambda>d. True) (ex_only ''CASPASTE_ADDRESS'' ''a.org:8080'') True c ex_yaml = Inr y' \<and> y_text y' Server_FQDN = '':8080''"
proof -
  let ?env = "ex_only ''CASPASTE_ADDRESS'' ''a.org:8080''"
  let ?c = "projr (Parse ?env [] (map declared server_flags))" and ?p = "\<lambda>d. True"
  have "\<not> isl (Parse ?env [] (map declared server_flags))" by code_simp
  then have c: "Parse ?env [] (map declared server_flags) = Inr ?c" by simp
  have unset: "fold (override ?env) env_overrides y = y" "ApplyCriticalOverrides ?env y = y" for y
    by (simp_all add: env_overrides_def critical_overrides_def ApplyCriticalOverrides_def override_def getEnv_def ex_only_def)
  have adr: "address_override ?p ?env ex_yaml = set_text Server_Port ''8080'' (set_text Server_FQDN ''a.org'' ex_yaml)"
  proof -
    have "parseAddress ?p ''a.org:8080'' = (''a.org'', [], ''8080'')" by code_simp
    then show ?thesis by (simp add: address_override_def getEnv_def ex_only_def set_unless_empty_def)
  qed
  have "DetectDriver ''/data/db/caspaste.db'' = Some ''sqlite''" "NormalizeDriver ''sqlite'' = ''sqlite''"
    "NormalizeConnectionString ''sqlite'' ''/data/db/caspaste.db'' = ''/data/db/caspaste.db''" by code_simp+
  then have sqlite: "\<exists>y'. resolve_driver y = Inr y'"
    if "y_text y Database_Driver = []" "y_text y Database_Source = ''/data/db/caspaste.db''" for y
    using that by (simp add: resolve_driver_def text_of_set_text Let_def)
  have database: "y_text (merge_flags c y) k = y_text y k" if "k = Database_Driver \<or> k = Database_Source" for c y k
    using that by (auto simp: merge_flags_def set_unless_empty_def text_of_set_text Let_def)
  have "\<exists>y'. configure ?p ?env True c ex_yaml = Inr y'" for c
    by (simp add: configure_def ApplyEnvironmentOverrides_def unset adr Let_def, rule sqlite)
      (simp_all add: database resolve_base_url_def default_password_file_def text_of_set_text ex_yaml_def Let_def)
  then obtain y' where y': "configure ?p ?env True ?c ex_yaml = Inr y'" by blast
  have "?env ''CASPASTE_ADDRESS'' = ''a.org'' @ '':'' @ ''8080''" by code_simp
  moreover have "parseAddress (\<lambda>d. True) (?env ''CASPASTE_ADDRESS'') = (''a.org'', [], ''8080'')" by code_simp
  moreover have "contains_str ''a.org'' ''.''" by code_simp
  ultimately have "y_text y' Server_FQDN = '':'' @ ''8080''"
    using first_run_loses_name [OF server_cli_eq c y', of "''a.org''" "''8080''"] by simp
  with c y' show ?thesis by auto
qed

end
