(* ===== verification/Updater.thy ===== *)
theory Updater
  imports Files Go_Conv
begin

text \<open>
  The self-update (\<open>updater/update.go\<close>, \<open>update_unix.go\<close>): the choice of a release and the installation
  of its binary on the file system of \<open>Files\<close>, any of whose calls may fail. What a request answers, the
  decoders of JSON, SHA-256, the platform and the fresh names of temporary files are arguments.
\<close>

section \<open>Releases\<close>

record UpdateConfig =
  uc_CurrentVersion :: string
  uc_Branch :: string
  uc_GithubOwner :: string
  uc_GithubRepo :: string
  uc_BinaryName :: string

record Asset =
  as_Name :: string
  as_BrowserDownloadURL :: string

record Release =
  re_TagName :: string
  re_Prerelease :: bool
  re_Draft :: bool
  re_Assets :: "Asset list"
  re_PublishedAt :: int

definition DefaultConfig :: "string \<Rightarrow> UpdateConfig" where
  "DefaultConfig version = \<lparr>uc_CurrentVersion = version, uc_Branch = ''stable'', uc_GithubOwner = ''webappsgo'',
     uc_GithubRepo = ''caspaste'', uc_BinaryName = ''caspaste''\<rparr>"

definition normalizeVersion :: "string \<Rightarrow> string" where
  "normalizeVersion v = trim_prefix v ''v''"

definition matchesBranch :: "Release \<Rightarrow> string \<Rightarrow> bool" where
  "matchesBranch r branch =
     (if branch = ''beta'' then has_suffix (re_TagName r) ''-beta''
      else if branch = ''daily'' then length (re_TagName r) = 14 \<and> \<not> contains_str (re_TagName r) ''.''
      else \<not> re_Prerelease r)"

text \<open>A request fails, or answers with a status, a body and whether the body arrived whole.\<close>

datatype http_reply = No_reply | Answer int string bool

datatype update_error =
    Request_error | Status_error int | Decode_error | No_binary | No_checksum | Temp_error | Download_error
  | Empty_checksum | Checksum_mismatch | Read_error | Chmod_error | Executable_error | Replace_error

text \<open>The release that is available, if any.\<close>

type_synonym update_result = "update_error + Release option"

definition releases_url :: "UpdateConfig \<Rightarrow> string" where
  "releases_url cfg = ''https://api.github.com/repos/'' @ uc_GithubOwner cfg @ ''/'' @ uc_GithubRepo cfg @ ''/releases''"

definition differs :: "UpdateConfig \<Rightarrow> Release \<Rightarrow> bool" where
  "differs cfg r \<longleftrightarrow> normalizeVersion (re_TagName r) \<noteq> normalizeVersion (uc_CurrentVersion cfg)"

definition answered :: "http_reply \<Rightarrow> (string \<Rightarrow> update_result) \<Rightarrow> update_result" where
  "answered reply k =
     (case reply of
        No_reply \<Rightarrow> Inl Request_error
      | Answer code body whole \<Rightarrow>
          if code = 404 then Inr None else if code \<noteq> 200 then Inl (Status_error code) else k body)"

definition CheckForUpdate ::
    "(string \<Rightarrow> http_reply) \<Rightarrow> (string \<Rightarrow> Release option) \<Rightarrow> (string \<Rightarrow> Release list option) \<Rightarrow> UpdateConfig \<Rightarrow> update_result" where
  "CheckForUpdate fetch decode_one decode_all cfg =
     (let stable = (uc_Branch cfg = ''stable'')
      in answered (fetch (releases_url cfg @ (if stable then ''/latest'' else []))) (\<lambda>body.
        if stable then
          (case decode_one body of
             None \<Rightarrow> Inl Decode_error
           | Some r \<Rightarrow> Inr (if re_Draft r then None else if \<not> differs cfg r then None else Some r))
        else
          (case decode_all body of
             None \<Rightarrow> Inl Decode_error
           | Some rs \<Rightarrow> Inr (find (\<lambda>r. \<not> re_Draft r \<and> matchesBranch r (uc_Branch cfg) \<and> differs cfg r) rs))))"

text \<open>Seconds; \<open>AddDate\<close> in UTC moves by days of 86400 seconds.\<close>

definition eligible :: "UpdateConfig \<Rightarrow> int \<Rightarrow> int \<Rightarrow> Release \<Rightarrow> bool" where
  "eligible cfg now deferDays r \<longleftrightarrow> \<not> re_Draft r \<and> matchesBranch r (uc_Branch cfg) \<and> differs cfg r
     \<and> \<not> (deferDays > 0 \<and> re_PublishedAt r > now - deferDays * 86400)"

definition CheckForUpdateEligible ::
    "(string \<Rightarrow> http_reply) \<Rightarrow> (string \<Rightarrow> Release list option) \<Rightarrow> int \<Rightarrow> UpdateConfig \<Rightarrow> int \<Rightarrow> update_result" where
  "CheckForUpdateEligible fetch decode_all now cfg deferDays =
     answered (fetch (releases_url cfg)) (\<lambda>body.
       case decode_all body of None \<Rightarrow> Inl Decode_error | Some rs \<Rightarrow> Inr (find (eligible cfg now deferDays) rs))"

section \<open>Installing\<close>

record platform =
  pl_GOOS :: string
  pl_GOARCH :: string

definition getBinaryName :: "platform \<Rightarrow> string \<Rightarrow> string" where
  "getBinaryName P baseName =
     baseName @ ''-'' @ pl_GOOS P @ ''-'' @ pl_GOARCH P @ (if pl_GOOS P = ''windows'' then ''.exe'' else [])"

text \<open>The loop over the assets keeps the last address of a name.\<close>

definition asset_url :: "string \<Rightarrow> Asset list \<Rightarrow> string" where
  "asset_url name as = fold (\<lambda>a url. if as_Name a = name then as_BrowserDownloadURL a else url) as []"

definition os_CreateTemp :: "faults \<Rightarrow> path \<Rightarrow> (os_error, unit) io" where
  "os_CreateTemp E p = sys E (\<lambda>fs.
     if look fs p \<noteq> None then Inl Exist
     else if look fs (butlast p) \<noteq> Some Dir_node then Inl Not_exist
     else Inr ((), put fs p (File_node [])))"

text \<open>Modes are not modelled.\<close>

definition os_Chmod :: "faults \<Rightarrow> path \<Rightarrow> (os_error, unit) io" where
  "os_Chmod E p = and_do (os_Stat E p) (\<lambda>_. return ())"

definition ignored :: "('e, 'a) io \<Rightarrow> ('f, unit) io" where
  "ignored m = on_result m (\<lambda>_. return ())"

definition verifyChecksum :: "faults \<Rightarrow> (string \<Rightarrow> string) \<Rightarrow> path \<Rightarrow> string \<Rightarrow> (update_error, unit) io" where
  "verifyChecksum E sha filePath expectedHash =
     and_do (or_fail (os_ReadFile E filePath) (\<lambda>_. Read_error)) (\<lambda>c.
       if hex_encode (sha c) \<noteq> expectedHash then fail Checksum_mismatch else return ())"

definition verifyChecksumFromURL :: "faults \<Rightarrow> (string \<Rightarrow> string) \<Rightarrow> http_reply \<Rightarrow> path \<Rightarrow> (update_error, unit) io" where
  "verifyChecksumFromURL E sha reply filePath =
     (case reply of
        No_reply \<Rightarrow> fail Request_error
      | Answer code body whole \<Rightarrow>
          if code \<noteq> 200 then fail (Status_error code)
          else if \<not> whole then fail Read_error
          else (case Fields body of
                  [] \<Rightarrow> fail Empty_checksum
                | w # ws \<Rightarrow> verifyChecksum E sha filePath (to_lower w)))"

text \<open>Any failing step removes the staged copy.\<close>

definition or_remove :: "faults \<Rightarrow> path \<Rightarrow> (os_error, 'a) io \<Rightarrow> (update_error, 'a) io" where
  "or_remove E p m = on_result m (\<lambda>r. case r of
     Inr a \<Rightarrow> return a
   | Inl e \<Rightarrow> and_do (ignored (os_Remove E p)) (\<lambda>_. fail Replace_error))"

definition replaceAcrossFilesystems :: "faults \<Rightarrow> path \<Rightarrow> path \<Rightarrow> path \<Rightarrow> (update_error, unit) io" where
  "replaceAcrossFilesystems E staging currentPath newBinaryPath =
     and_do (or_fail (os_CreateTemp E staging) (\<lambda>_. Replace_error)) (\<lambda>_.
     and_do (or_remove E staging (os_ReadFile E newBinaryPath)) (\<lambda>c.
     and_do (or_remove E staging (io_Copy E c staging)) (\<lambda>_.
     and_do (or_remove E staging (os_Chmod E staging)) (\<lambda>_.
     and_do (or_remove E staging (os_Rename E staging currentPath)) (\<lambda>_.
       ignored (os_Remove E newBinaryPath))))))"

text \<open>\<open>exdev\<close>: the two paths are on different file systems, so the rename fails with that error.\<close>

definition ReplaceBinary :: "faults \<Rightarrow> bool \<Rightarrow> path \<Rightarrow> path \<Rightarrow> path \<Rightarrow> (update_error, unit) io" where
  "ReplaceBinary E exdev staging currentPath newBinaryPath =
     and_do (or_fail (os_Stat E currentPath) (\<lambda>_. Replace_error)) (\<lambda>_.
     on_result (if exdev then sys E (\<lambda>fs. Inl Os_fault) else os_Rename E newBinaryPath currentPath) (\<lambda>r.
       case r of
         Inr _ \<Rightarrow> or_fail (os_Chmod E currentPath) (\<lambda>_. Replace_error)
       | Inl e \<Rightarrow> if exdev then replaceAcrossFilesystems E staging currentPath newBinaryPath else fail Replace_error))"

definition download :: "faults \<Rightarrow> http_reply \<Rightarrow> path \<Rightarrow> (update_error, unit) io" where
  "download E reply tmpPath =
     (case reply of
        No_reply \<Rightarrow> fail Download_error
      | Answer code body whole \<Rightarrow>
          if code \<noteq> 200 then fail Download_error
          else and_do (or_fail (io_Copy E body tmpPath) (\<lambda>_. Download_error)) (\<lambda>_.
                 if whole then return () else fail Download_error))"

record update_paths =
  up_tmp :: path
  up_staging :: path
  up_executable :: "path option"
  up_exdev :: bool

definition cleanup_tmp :: "faults \<Rightarrow> path \<Rightarrow> (update_error, unit) io" where
  "cleanup_tmp E p = on_result (os_Stat E p) (\<lambda>r. case r of Inl e \<Rightarrow> return () | Inr n \<Rightarrow> ignored (os_Remove E p))"

definition DoUpdate ::
    "faults \<Rightarrow> (string \<Rightarrow> string) \<Rightarrow> platform \<Rightarrow> (string \<Rightarrow> http_reply) \<Rightarrow> (string \<Rightarrow> http_reply) \<Rightarrow> update_paths \<Rightarrow> UpdateConfig \<Rightarrow>
     Release \<Rightarrow> (update_error, unit) io" where
  "DoUpdate E sha P fetch fetch_sum up cfg r =
     (let name = getBinaryName P (uc_BinaryName cfg);
          downloadURL = asset_url name (re_Assets r);
          checksumURL = asset_url (name @ ''.sha256'') (re_Assets r);
          tmp = up_tmp up
      in if downloadURL = [] then fail No_binary
         else if checksumURL = [] then fail No_checksum
         else
           and_do (or_fail (os_CreateTemp E tmp) (\<lambda>_. Temp_error)) (\<lambda>_. deferred
             (and_do (download E (fetch downloadURL) tmp) (\<lambda>_.
              and_do (verifyChecksumFromURL E sha (fetch_sum checksumURL) tmp) (\<lambda>_.
              and_do (if pl_GOOS P \<noteq> ''windows'' then or_fail (os_Chmod E tmp) (\<lambda>_. Chmod_error) else return ()) (\<lambda>_.
                case up_executable up of
                  None \<Rightarrow> fail Executable_error
                | Some currentPath \<Rightarrow> ReplaceBinary E (up_exdev up) (up_staging up) currentPath tmp))))
             (cleanup_tmp E tmp)))"

section \<open>Conditions before and after\<close>

text \<open>
  From a tree with \<open>A\<close>, \<open>m\<close> leads to a tree with \<open>B a\<close> if it returns \<open>a\<close>, and to one with \<open>C\<close> if it fails.
\<close>

definition leads :: "(fs \<Rightarrow> bool) \<Rightarrow> ('e, 'a) io \<Rightarrow> ('a \<Rightarrow> fs \<Rightarrow> bool) \<Rightarrow> (fs \<Rightarrow> bool) \<Rightarrow> bool" where
  "leads A m B C \<longleftrightarrow> (\<forall>w e w'. A (files w) \<longrightarrow> m w = (Inl e, w') \<longrightarrow> C (files w'))
     \<and> (\<forall>w a w'. A (files w) \<longrightarrow> m w = (Inr a, w') \<longrightarrow> B a (files w'))"

lemma leads_return: "(\<And>fs. A fs \<Longrightarrow> B a fs) \<Longrightarrow> leads A (return a) B C"
  by (simp add: leads_def return_def)

lemma leads_fail: "(\<And>fs. A fs \<Longrightarrow> C fs) \<Longrightarrow> leads A (fail e) B C"
  by (simp add: leads_def fail_def)

lemma leads_and_do:
  assumes "leads A m M C" and "\<And>a. leads (M a) (k a) B C"
  shows "leads A (and_do m k) B C"
  using assms unfolding leads_def and_do_def by (auto split: prod.splits sum.splits)

lemma leads_or_fail: "leads A m B C \<Longrightarrow> leads A (or_fail m f) B C"
  unfolding leads_def or_fail_def by (auto split: prod.splits sum.splits)

lemma leads_on_result:
  assumes "leads A m M N" and "\<And>a. leads (M a) (k (Inr a)) B C" and "\<And>e. leads N (k (Inl e)) B C"
  shows "leads A (on_result m k) B C"
proof -
  have "leads (\<lambda>fs. case r of Inl e \<Rightarrow> N fs | Inr a \<Rightarrow> M a fs) (k r) B C" for r
    using assms(2,3) by (cases r) simp_all
  moreover have "case r of Inl e \<Rightarrow> N (files w') | Inr a \<Rightarrow> M a (files w')" if "A (files w)" "m w = (r, w')" for w r w'
    using assms(1) that by (cases r) (auto simp: leads_def)
  ultimately show ?thesis unfolding leads_def on_result_def by (auto split: prod.splits) blast+
qed

lemma leads_weaken:
  assumes "leads A' m B' C'" and "\<And>fs. A fs \<Longrightarrow> A' fs" and "\<And>a fs. B' a fs \<Longrightarrow> B a fs" and "\<And>fs. C' fs \<Longrightarrow> C fs"
  shows "leads A m B C"
  using assms unfolding leads_def by blast

lemma leads_sys:
  "(\<And>fs a fs'. A fs \<Longrightarrow> f fs = Inr (a, fs') \<Longrightarrow> B a fs') \<Longrightarrow> (\<And>fs. A fs \<Longrightarrow> C fs) \<Longrightarrow> leads A (sys E f) B C"
  unfolding leads_def sys_def by (auto simp: Let_def split: sum.splits if_splits)

lemma keeps_leads: "keeps I m \<Longrightarrow> leads I m (\<lambda>_. I) I"
  unfolding leads_def keeps_def by (metis snd_conv)

lemma leads_deferred:
  assumes "leads A m B C" and "\<And>a. keeps (B a) c" and "keeps C c"
  shows "leads A (deferred m c) B C"
  using assms unfolding leads_def deferred_def keeps_def by (auto split: prod.splits)

section \<open>The binary is the old one or a verified one\<close>

text \<open>The file at a path is one of two.\<close>

definition holds_either :: "path \<Rightarrow> string \<Rightarrow> string \<Rightarrow> fs \<Rightarrow> bool" where
  "holds_either p old new fs \<longleftrightarrow> has_file p old fs \<or> has_file p new fs"

lemma keeps_either:
  "(\<And>c. keeps (has_file p c) m) \<Longrightarrow> keeps (holds_either p old new) m"
  by (auto simp: keeps_def holds_either_def)

lemma keeps_ignored: "keeps I m \<Longrightarrow> keeps I (ignored m)"
  by (auto simp: ignored_def intro: keep)

lemma keeps_Chmod: "keeps I (os_Chmod E p)"
  by (auto simp: os_Chmod_def intro: keep)

lemma CreateTemp_keeps: "q \<noteq> p \<Longrightarrow> keeps (has_file q c) (os_CreateTemp E p)"
  by (auto simp: os_CreateTemp_def intro!: keeps_sys split: if_splits)

lemma keeps_cleanup: "q \<noteq> p \<Longrightarrow> keeps (has_file q c) (cleanup_tmp E p)"
  by (auto simp: cleanup_tmp_def intro!: keep keeps_ignored split: sum.split)

lemma leads_read: "leads (\<lambda>fs. A fs \<and> has_file p c fs) (os_ReadFile E p) (\<lambda>a fs. A fs \<and> a = c) A"
  by (auto simp: os_ReadFile_def intro!: leads_sys)

lemma leads_copy: "leads (has_file q c) (io_Copy E d p) (\<lambda>_ fs. has_file q c fs \<and> has_file p d fs) (has_file q c)" if "q \<noteq> p" "p \<noteq> []"
  using that by (auto simp: leads_def io_Copy_def Let_def split: if_splits)

lemma leads_rename: "leads (\<lambda>fs. has_file q old fs \<and> has_file p d fs) (os_Rename E p q) (\<lambda>_. has_file q d) (has_file q old)" if "p \<noteq> q" "q \<noteq> []"
  using that by (auto simp: os_Rename_def look_drop_path intro!: leads_sys split: option.splits node.splits if_splits)

lemma leads_or_remove:
  assumes "leads A m B (has_file q old)" and "q \<noteq> p"
  shows "leads A (or_remove E p m) B (has_file q old)"
  unfolding or_remove_def
proof (rule leads_on_result [OF assms(1)])
  show "leads (B a) (case Inr a of Inl e \<Rightarrow> and_do (ignored (os_Remove E p)) (\<lambda>_. fail Replace_error) | Inr a \<Rightarrow> return a) B (has_file q old)" for a
    by (simp add: leads_return)
  have "keeps (has_file q old) (ignored (os_Remove E p))" using assms(2) by (intro keeps_ignored keep)
  then show "leads (has_file q old) (case Inl e of Inl e \<Rightarrow> and_do (ignored (os_Remove E p)) (\<lambda>_. fail Replace_error) | Inr a \<Rightarrow> return a) B
      (has_file q old)" for e :: os_error
    by (auto intro!: leads_and_do leads_fail dest: keeps_leads)
qed

lemma replaceAcrossFilesystems_leads:
  assumes "q \<noteq> staging" and "p \<noteq> q" and "p \<noteq> staging" and "q \<noteq> []" and "staging \<noteq> []"
  shows "leads (\<lambda>fs. has_file q old fs \<and> has_file p new fs) (replaceAcrossFilesystems E staging q p) (\<lambda>_. has_file q new) (has_file q old)"
  unfolding replaceAcrossFilesystems_def
proof (intro leads_and_do)
  let ?A = "\<lambda>fs. has_file q old fs \<and> has_file p new fs"
  have "keeps (has_file q old) (os_CreateTemp E staging)" "keeps (has_file p new) (os_CreateTemp E staging)"
    using assms by (auto intro: CreateTemp_keeps)
  then have "keeps ?A (os_CreateTemp E staging)" by (auto simp: keeps_def)
  then show "leads ?A (or_fail (os_CreateTemp E staging) (\<lambda>_. Replace_error)) (\<lambda>_. ?A) (has_file q old)"
    by (intro leads_or_fail) (auto intro: leads_weaken [OF keeps_leads])
  show "leads ?A (or_remove E staging (os_ReadFile E p)) (\<lambda>a fs. has_file q old fs \<and> a = new) (has_file q old)"
    using assms(1) leads_read by (intro leads_or_remove) auto
  show "leads (\<lambda>fs. has_file q old fs \<and> a = new) (or_remove E staging (io_Copy E a staging))
      (\<lambda>_ fs. has_file q old fs \<and> has_file staging new fs) (has_file q old)" for a
  proof (rule leads_or_remove [OF _ assms(1)])
    show "leads (\<lambda>fs. has_file q old fs \<and> a = new) (io_Copy E a staging) (\<lambda>_ fs. has_file q old fs \<and> has_file staging new fs) (has_file q old)"
    proof (cases "a = new")
      case True
      then show ?thesis using leads_copy [OF assms(1,5), of old E a] by (simp only: simp_thms)
    next
      case False
      then show ?thesis by (simp add: leads_def)
    qed
  qed
  have "keeps (\<lambda>fs. has_file q old fs \<and> has_file staging new fs) (os_Chmod E staging)" by (rule keeps_Chmod)
  then show "leads (\<lambda>fs. has_file q old fs \<and> has_file staging new fs) (or_remove E staging (os_Chmod E staging))
      (\<lambda>_ fs. has_file q old fs \<and> has_file staging new fs) (has_file q old)"
    using assms(1) by (intro leads_or_remove) (auto intro: leads_weaken [OF keeps_leads])
  show "leads (\<lambda>fs. has_file q old fs \<and> has_file staging new fs) (or_remove E staging (os_Rename E staging q)) (\<lambda>_. has_file q new) (has_file q old)"
    using assms(1,4) leads_rename [of staging q old new E] by (intro leads_or_remove) auto
  have "keeps (has_file q new) (ignored (os_Remove E p) :: (update_error, unit) io)" using assms(2) by (intro keeps_ignored keep) simp
  then show "leads (has_file q new) (ignored (os_Remove E p) :: (update_error, unit) io) (\<lambda>_. has_file q new) (has_file q old)"
    by (auto simp: leads_def ignored_def on_result_def return_def keeps_def split: prod.splits)
qed

lemma ReplaceBinary_leads:
  assumes "q \<noteq> staging" and "p \<noteq> q" and "p \<noteq> staging" and "q \<noteq> []" and "staging \<noteq> []"
  shows "leads (\<lambda>fs. has_file q old fs \<and> has_file p new fs) (ReplaceBinary E exdev staging q p) (\<lambda>_. has_file q new) (holds_either q old new)"
  unfolding ReplaceBinary_def
proof (intro leads_and_do leads_on_result)
  let ?A = "\<lambda>fs. has_file q old fs \<and> has_file p new fs"
  have "keeps ?A (os_Stat E q)" by (rule keep)
  then show "leads ?A (or_fail (os_Stat E q) (\<lambda>_. Replace_error)) (\<lambda>_. ?A) (holds_either q old new)"
    by (intro leads_or_fail) (auto intro: leads_weaken [OF keeps_leads] simp: holds_either_def)
  show "leads ?A (if exdev then sys E (\<lambda>fs. Inl Os_fault) else os_Rename E p q) (\<lambda>_. has_file q new) ?A"
    using assms(2,4) by (auto simp: os_Rename_def look_drop_path intro!: leads_sys split: option.splits node.splits if_splits)
  have "keeps (has_file q new) (os_Chmod E q)" by (rule keeps_Chmod)
  then show "leads (has_file q new) (case Inr a of Inr _ \<Rightarrow> or_fail (os_Chmod E q) (\<lambda>_. Replace_error)
      | Inl e \<Rightarrow> if exdev then replaceAcrossFilesystems E staging q p else fail Replace_error) (\<lambda>_. has_file q new) (holds_either q old new)" for a
    by (auto intro!: leads_or_fail intro: leads_weaken [OF keeps_leads] simp: holds_either_def)
  show "leads ?A (case Inl e of Inr _ \<Rightarrow> or_fail (os_Chmod E q) (\<lambda>_. Replace_error)
      | Inl e \<Rightarrow> if exdev then replaceAcrossFilesystems E staging q p else fail Replace_error) (\<lambda>_. has_file q new) (holds_either q old new)" for e
  proof (cases exdev)
    case True
    have "leads ?A (replaceAcrossFilesystems E staging q p) (\<lambda>_. has_file q new) (holds_either q old new)"
      by (rule leads_weaken [OF replaceAcrossFilesystems_leads [OF assms]]) (unfold holds_either_def, blast+)
    with True show ?thesis by simp
  qed (auto intro!: leads_fail simp: holds_either_def)
qed

text \<open>What the checksum asset vouches for.\<close>

definition vouched :: "(string \<Rightarrow> string) \<Rightarrow> http_reply \<Rightarrow> string \<Rightarrow> bool" where
  "vouched sha reply c \<longleftrightarrow> (\<exists>body w ws. reply = Answer 200 body True \<and> Fields body = w # ws \<and> hex_encode (sha c) = to_lower w)"

definition delivered :: "http_reply \<Rightarrow> string \<Rightarrow> bool" where
  "delivered reply c \<longleftrightarrow> reply = Answer 200 c True"

lemma download_leads:
  assumes "q \<noteq> p" and "p \<noteq> []"
  shows "leads (has_file q old) (download E reply p) (\<lambda>_ fs. has_file q old fs \<and> (\<exists>c. delivered reply c \<and> has_file p c fs)) (has_file q old)"
proof (cases reply)
  case (Answer code body whole)
  have "leads (has_file q old) (or_fail (io_Copy E body p) (\<lambda>_. Download_error)) (\<lambda>_ fs. has_file q old fs \<and> has_file p body fs) (has_file q old)"
    using assms by (intro leads_or_fail leads_copy)
  then show ?thesis using Answer
    by (auto simp: download_def delivered_def intro!: leads_and_do leads_return leads_fail)
qed (simp add: download_def leads_fail)

lemma verify_leads:
  "leads (\<lambda>fs. has_file q old fs \<and> (\<exists>c. delivered r1 c \<and> has_file p c fs)) (verifyChecksumFromURL E sha reply p)
     (\<lambda>_ fs. has_file q old fs \<and> (\<exists>c. delivered r1 c \<and> vouched sha reply c \<and> has_file p c fs)) (has_file q old)"
proof (cases reply)
  case (Answer code body whole)
  show ?thesis
  proof (cases "Fields body")
    case (Cons w ws)
    have "leads (\<lambda>fs. has_file q old fs \<and> has_file p c fs \<and> delivered r1 c) (verifyChecksum E sha p (to_lower w))
       (\<lambda>_ fs. has_file q old fs \<and> has_file p c fs \<and> delivered r1 c \<and> hex_encode (sha c) = to_lower w) (has_file q old)" for c
    proof -
      have "leads (\<lambda>fs. has_file q old fs \<and> has_file p c fs \<and> delivered r1 c) (or_fail (os_ReadFile E p) (\<lambda>_. Read_error))
          (\<lambda>a fs. has_file q old fs \<and> has_file p c fs \<and> delivered r1 c \<and> a = c) (has_file q old)"
        by (intro leads_or_fail) (auto simp: os_ReadFile_def intro!: leads_sys)
      then show ?thesis
        unfolding verifyChecksum_def by (rule leads_and_do) (auto intro: leads_fail leads_return)
    qed
    then show ?thesis using Answer Cons
      unfolding verifyChecksumFromURL_def vouched_def
      by (auto intro!: leads_fail) (unfold leads_def, blast)
  qed (use Answer in \<open>auto simp: verifyChecksumFromURL_def intro!: leads_fail\<close>)
qed (auto simp: verifyChecksumFromURL_def intro!: leads_fail)


text \<open>
  The scheduled check takes the first release of the list that is published, of the branch, of another
  version than the running one, and old enough; so with a delay the release is at least that old.
\<close>

lemma eligible_release:
  assumes "CheckForUpdateEligible fetch decode_all now cfg deferDays = Inr (Some r)"
  shows "\<exists>body whole rs. fetch (releases_url cfg) = Answer 200 body whole \<and> decode_all body = Some rs \<and> r \<in> set rs
    \<and> eligible cfg now deferDays r \<and> (deferDays > 0 \<longrightarrow> re_PublishedAt r + deferDays * 86400 \<le> now)"
  using assms by (auto simp: CheckForUpdateEligible_def answered_def eligible_def dest!: find_Some_props split: http_reply.splits if_splits option.splits)

text \<open>
  Versions are compared for equality only. If the newest published release is older than the running
  program, the check for the stable branch offers it as an update.
\<close>

lemma downgrade_offered:
  assumes "uc_Branch cfg = ''stable''" and "uc_CurrentVersion cfg = ''2.0.0''"
    and "fetch (releases_url cfg @ ''/latest'') = Answer 200 body whole" and "decode_one body = Some r"
    and "\<not> re_Draft r" and "re_TagName r = ''v1.0.0''"
  shows "CheckForUpdate fetch decode_one decode_all cfg = Inr (Some r)"
  using assms by (simp add: CheckForUpdate_def answered_def differs_def normalizeVersion_def trim_prefix_def)

section \<open>Examples\<close>

definition ex_update_fs :: fs where
  "ex_update_fs = [([''tmp''], Dir_node), ([''bin''], Dir_node), ([''bin'', ''caspaste''], File_node ''old'')]"

definition ex_update_cfg :: UpdateConfig where
  "ex_update_cfg = DefaultConfig ''1.0''"

definition ex_release :: Release where
  "ex_release = \<lparr>re_TagName = ''v1.1'', re_Prerelease = False, re_Draft = False,
     re_Assets = [\<lparr>as_Name = ''caspaste-linux-amd64'', as_BrowserDownloadURL = ''u''\<rparr>,
       \<lparr>as_Name = ''caspaste-linux-amd64.sha256'', as_BrowserDownloadURL = ''s''\<rparr>], re_PublishedAt = 0\<rparr>"

definition ex_paths :: update_paths where
  "ex_paths = \<lparr>up_tmp = [''tmp'', ''x''], up_staging = [''bin'', ''y''], up_executable = Some [''bin'', ''caspaste''], up_exdev = True\<rparr>"


end
