(* ===== verification/Totp.thy ===== *)
theory Totp
  imports Go_Conv "HOL-Library.Word"
begin

text \<open>
  One-time codes and recovery keys (\<open>totp/totp.go\<close>), with \<open>encoding/base32\<close> without padding. HMAC-SHA1,
  SHA-256, random bytes and the clock in seconds are arguments; the code is computed on 64-bit words as in
  the source.
\<close>

unbundle bit_operations_syntax

section \<open>Base 32\<close>

definition b32_digit :: "nat \<Rightarrow> char" where
  "b32_digit d = (if d < 26 then char_of (65 + d) else char_of (24 + d))"

definition b32_value :: "char \<Rightarrow> nat option" where
  "b32_value c =
     (if 65 \<le> byte c \<and> byte c \<le> 90 then Some (byte c - 65)
      else if 50 \<le> byte c \<and> byte c \<le> 55 then Some (byte c - 24)
      else None)"

fun b32_encode :: "string \<Rightarrow> string" where
  "b32_encode (a # b # c # d # e # s) =
     b32_digit (byte a div 8) # b32_digit (byte a mod 8 * 4 + byte b div 64) # b32_digit (byte b mod 64 div 2)
     # b32_digit (byte b mod 2 * 16 + byte c div 16) # b32_digit (byte c mod 16 * 2 + byte d div 128)
     # b32_digit (byte d mod 128 div 4) # b32_digit (byte d mod 4 * 8 + byte e div 32) # b32_digit (byte e mod 32)
     # b32_encode s"
| "b32_encode [a, b, c, d] =
     [b32_digit (byte a div 8), b32_digit (byte a mod 8 * 4 + byte b div 64), b32_digit (byte b mod 64 div 2),
      b32_digit (byte b mod 2 * 16 + byte c div 16), b32_digit (byte c mod 16 * 2 + byte d div 128),
      b32_digit (byte d mod 128 div 4), b32_digit (byte d mod 4 * 8)]"
| "b32_encode [a, b, c] =
     [b32_digit (byte a div 8), b32_digit (byte a mod 8 * 4 + byte b div 64), b32_digit (byte b mod 64 div 2),
      b32_digit (byte b mod 2 * 16 + byte c div 16), b32_digit (byte c mod 16 * 2)]"
| "b32_encode [a, b] =
     [b32_digit (byte a div 8), b32_digit (byte a mod 8 * 4 + byte b div 64), b32_digit (byte b mod 64 div 2),
      b32_digit (byte b mod 2 * 16)]"
| "b32_encode [a] = [b32_digit (byte a div 8), b32_digit (byte a mod 8 * 4)]"
| "b32_encode [] = []"

text \<open>The bytes of one group, in which a last group of 1, 3 or 6 digits has none.\<close>

definition b32_byte1 :: "nat \<Rightarrow> nat \<Rightarrow> char" where "b32_byte1 p q = char_of (p * 8 + q div 4)"
definition b32_byte2 :: "nat \<Rightarrow> nat \<Rightarrow> nat \<Rightarrow> char" where "b32_byte2 q r t = char_of (q mod 4 * 64 + r * 2 + t div 16)"
definition b32_byte3 :: "nat \<Rightarrow> nat \<Rightarrow> char" where "b32_byte3 t u = char_of (t mod 16 * 16 + u div 2)"
definition b32_byte4 :: "nat \<Rightarrow> nat \<Rightarrow> nat \<Rightarrow> char" where "b32_byte4 u v w = char_of (u mod 2 * 128 + v * 4 + w div 8)"
definition b32_byte5 :: "nat \<Rightarrow> nat \<Rightarrow> char" where "b32_byte5 w x = char_of (w mod 8 * 32 + x)"

fun b32_group :: "nat list \<Rightarrow> string" where
  "b32_group [p, q, r, t, u, v, w, x] = [b32_byte1 p q, b32_byte2 q r t, b32_byte3 t u, b32_byte4 u v w, b32_byte5 w x]"
| "b32_group [p, q, r, t, u, v, w] = [b32_byte1 p q, b32_byte2 q r t, b32_byte3 t u, b32_byte4 u v w]"
| "b32_group [p, q, r, t, u] = [b32_byte1 p q, b32_byte2 q r t, b32_byte3 t u]"
| "b32_group [p, q, r, t] = [b32_byte1 p q, b32_byte2 q r t]"
| "b32_group [p, q] = [b32_byte1 p q]"
| "b32_group _ = []"

fun b32_values :: "string \<Rightarrow> nat list option" where
  "b32_values [] = Some []"
| "b32_values (c # cs) =
     (case (b32_value c, b32_values cs) of (Some v, Some vs) \<Rightarrow> Some (v # vs) | _ \<Rightarrow> None)"

fun b32_groups :: "nat list \<Rightarrow> string" where
  "b32_groups (p # q # r # t # u # v # w # x # vs) = b32_group [p, q, r, t, u, v, w, x] @ b32_groups vs"
| "b32_groups vs = b32_group vs"

definition b32_decode :: "string \<Rightarrow> string option" where
  "b32_decode s = map_option b32_groups (b32_values (filter (\<lambda>c. c \<noteq> CHR 0x0A \<and> c \<noteq> CHR 0x0D) s))"

lemma byte_b32_digit: "d < 32 \<Longrightarrow> byte (b32_digit d) = (if d < 26 then 65 + d else 24 + d)"
  by (simp add: b32_digit_def)

lemma b32_value_digit [simp]: "d < 32 \<Longrightarrow> b32_value (b32_digit d) = Some d"
  by (auto simp: b32_value_def byte_b32_digit)

lemma b32_digit_clean:
  assumes "d < 32"
  shows "b32_digit d \<noteq> CHR 0x0A" "b32_digit d \<noteq> CHR 0x0D" "upper_char (b32_digit d) = b32_digit d" "byte (b32_digit d) < 128"
proof -
  have "byte (b32_digit d) \<noteq> 10" "byte (b32_digit d) \<noteq> 13" and less: "byte (b32_digit d) < 97"
    using assms by (auto simp: byte_b32_digit split: if_splits)
  then show "b32_digit d \<noteq> CHR 0x0A" "b32_digit d \<noteq> CHR 0x0D" by (auto simp del: of_char_eq_iff)
  show "upper_char (b32_digit d) = b32_digit d" "byte (b32_digit d) < 128" using less by (simp_all add: upper_char_def)
qed

lemma five_bits:
  "byte a div 8 < 32" "byte a mod 8 * 4 + byte b div 64 < 32" "byte a mod 8 * 4 < 32" "byte b mod 64 div 2 < 32"
  "byte b mod 2 * 16 + byte c div 16 < 32" "byte b mod 2 * 16 < 32" "byte c mod 16 * 2 + byte d div 128 < 32" "byte c mod 16 * 2 < 32"
  "byte d mod 128 div 4 < 32" "byte d mod 4 * 8 + byte e div 32 < 32" "byte d mod 4 * 8 < 32" "byte e mod 32 < 32"
  using byte_less_256 [of a] byte_less_256 [of b] byte_less_256 [of c] byte_less_256 [of d] byte_less_256 [of e] by linarith+

lemma b32_back:
  "b32_byte1 (byte a div 8) (byte a mod 8 * 4) = a"
  "b32_byte1 (byte a div 8) (byte a mod 8 * 4 + byte b div 64) = a"
  "b32_byte2 (byte a mod 8 * 4 + byte b div 64) (byte b mod 64 div 2) (byte b mod 2 * 16) = b"
  "b32_byte2 (byte a mod 8 * 4 + byte b div 64) (byte b mod 64 div 2) (byte b mod 2 * 16 + byte c div 16) = b"
  "b32_byte3 (byte b mod 2 * 16 + byte c div 16) (byte c mod 16 * 2) = c"
  "b32_byte3 (byte b mod 2 * 16 + byte c div 16) (byte c mod 16 * 2 + byte d div 128) = c"
  "b32_byte4 (byte c mod 16 * 2 + byte d div 128) (byte d mod 128 div 4) (byte d mod 4 * 8) = d"
  "b32_byte4 (byte c mod 16 * 2 + byte d div 128) (byte d mod 128 div 4) (byte d mod 4 * 8 + byte e div 32) = d"
  "b32_byte5 (byte d mod 4 * 8 + byte e div 32) (byte e mod 32) = e"
proof -
  have less: "byte b div 64 < 4" "byte c div 16 < 16" "byte d div 128 < 2" "byte e div 32 < 8"
    using byte_less_256 [of b] byte_less_256 [of c] byte_less_256 [of d] byte_less_256 [of e] by linarith+
  have split2: "byte b mod 64 div 2 * 2 + byte b mod 2 = byte b mod 64" for b
    using div_mult_mod_eq [of "byte b mod 64" 2] by (simp add: mod_mod_cancel)
  have split4: "byte d mod 128 div 4 * 4 + byte d mod 4 = byte d mod 128" for d
    using div_mult_mod_eq [of "byte d mod 128" 4] by (simp add: mod_mod_cancel)
  have "byte a div 8 * 8 + byte a mod 8 * 4 div 4 = byte a"
    "byte a div 8 * 8 + (byte a mod 8 * 4 + byte b div 64) div 4 = byte a"
    "(byte c mod 16 * 2 + byte d div 128) div 2 = byte c mod 16"
    "(byte b mod 2 * 16 + byte c div 16) mod 16 * 16 + byte c mod 16 * 2 div 2 = byte c"
    "(byte b mod 2 * 16 + byte c div 16) mod 16 * 16 + (byte c mod 16 * 2 + byte d div 128) div 2 = byte c"
    "(byte d mod 4 * 8 + byte e div 32) mod 8 * 32 + byte e mod 32 = byte e"
    using less by simp_all
  moreover have "(byte a mod 8 * 4 + byte b div 64) mod 4 * 64 + byte b mod 64 div 2 * 2 + byte b mod 2 * 16 div 16 = byte b"
    "(byte a mod 8 * 4 + byte b div 64) mod 4 * 64 + byte b mod 64 div 2 * 2 + (byte b mod 2 * 16 + byte c div 16) div 16 = byte b"
    using less split2 [of b] by (simp_all add: add.assoc)
  moreover have "(byte c mod 16 * 2 + byte d div 128) mod 2 * 128 + byte d mod 128 div 4 * 4 + byte d mod 4 * 8 div 8 = byte d"
    "(byte c mod 16 * 2 + byte d div 128) mod 2 * 128 + byte d mod 128 div 4 * 4 + (byte d mod 4 * 8 + byte e div 32) div 8 = byte d"
    using less split4 [of d] by (simp_all add: add.assoc)
  ultimately show "b32_byte1 (byte a div 8) (byte a mod 8 * 4) = a"
    "b32_byte1 (byte a div 8) (byte a mod 8 * 4 + byte b div 64) = a"
    "b32_byte2 (byte a mod 8 * 4 + byte b div 64) (byte b mod 64 div 2) (byte b mod 2 * 16) = b"
    "b32_byte2 (byte a mod 8 * 4 + byte b div 64) (byte b mod 64 div 2) (byte b mod 2 * 16 + byte c div 16) = b"
    "b32_byte3 (byte b mod 2 * 16 + byte c div 16) (byte c mod 16 * 2) = c"
    "b32_byte3 (byte b mod 2 * 16 + byte c div 16) (byte c mod 16 * 2 + byte d div 128) = c"
    "b32_byte4 (byte c mod 16 * 2 + byte d div 128) (byte d mod 128 div 4) (byte d mod 4 * 8) = d"
    "b32_byte4 (byte c mod 16 * 2 + byte d div 128) (byte d mod 128 div 4) (byte d mod 4 * 8 + byte e div 32) = d"
    "b32_byte5 (byte d mod 4 * 8 + byte e div 32) (byte e mod 32) = e"
    by (simp_all only: b32_byte1_def b32_byte2_def b32_byte3_def b32_byte4_def b32_byte5_def char_of_char)
qed

lemma b32_encode_chars: "x \<in> set (b32_encode s) \<Longrightarrow> x \<noteq> CHR 0x0A \<and> x \<noteq> CHR 0x0D \<and> upper_char x = x \<and> byte x < 128"
  by (induction s rule: b32_encode.induct) (auto simp: b32_digit_clean five_bits)

lemma b32_values_encode: "\<exists>vs. b32_values (b32_encode s) = Some vs \<and> b32_groups vs = s"
proof (induction s rule: b32_encode.induct)
  case (1 a b c d e s)
  then obtain vs where "b32_values (b32_encode s) = Some vs" "b32_groups vs = s" by blast
  then show ?case by (simp add: five_bits b32_back)
qed (simp_all add: five_bits b32_back)

lemma b32_decode_encode [simp]: "b32_decode (b32_encode s) = Some s"
proof -
  have "filter (\<lambda>c. c \<noteq> CHR 0x0A \<and> c \<noteq> CHR 0x0D) (b32_encode s) = b32_encode s"
    using b32_encode_chars [of _ s] by (auto simp: filter_id_conv)
  then show ?thesis using b32_values_encode [of s] by (auto simp: b32_decode_def)
qed

lemma to_upper_ascii: "ascii_str s \<Longrightarrow> to_upper s = map upper_char s"
  by (induction s) (auto simp: has_prefix_def)

lemma to_upper_b32 [simp]: "to_upper (b32_encode s) = b32_encode s"
  using b32_encode_chars [of _ s] by (simp add: to_upper_ascii ascii_str_def map_idI)

section \<open>Codes\<close>

text \<open>The key of a fresh secret: the Base32 text and the address for authenticators; \<open>None\<close> if there is no randomness.\<close>

record TOTPSetup =
  ts_Secret :: string
  ts_QRCodeURL :: string
  ts_Issuer :: string
  ts_Account :: string

definition GenerateSecret :: "string option \<Rightarrow> string \<Rightarrow> string \<Rightarrow> TOTPSetup option" where
  "GenerateSecret bytes issuer account =
     (case bytes of
        None \<Rightarrow> None
      | Some raw \<Rightarrow>
          let secret = b32_encode raw
          in Some \<lparr>ts_Secret = secret,
               ts_QRCodeURL = ''otpauth://totp/'' @ issuer @ '':'' @ account @ ''?secret='' @ secret @ ''&issuer='' @ issuer
                 @ ''&digits='' @ show_nat 6 @ ''&period='' @ show_nat 30,
               ts_Issuer = issuer, ts_Account = account\<rparr>)"

text \<open>The counter in eight bytes, the highest first.\<close>

definition counter_bytes :: "64 word \<Rightarrow> string" where
  "counter_bytes n = map (\<lambda>i. char_of (unat (drop_bit (8 * i) n AND 0xff))) (rev [0..<8])"

text \<open>The zeros of the format \<open>%0*d\<close> for a number that is not negative.\<close>

definition pad_zeros :: "nat \<Rightarrow> string \<Rightarrow> string" where
  "pad_zeros k s = replicate (k - length s) (CHR ''0'') @ s"

definition byte_word :: "char \<Rightarrow> 64 word" where
  "byte_word c = of_nat (byte c)"

text \<open>The dynamic truncation. An index outside of the hash panics in the source; a hash of SHA-1 has 20 bytes.\<close>

definition truncated :: "string \<Rightarrow> 64 word" where
  "truncated hash =
     (let offset = unat (byte_word (last hash) AND 0x0f)
      in push_bit 24 (byte_word (hash ! offset) AND 0x7f)
         OR push_bit 16 (byte_word (hash ! (offset + 1)) AND 0xff)
         OR push_bit 8 (byte_word (hash ! (offset + 2)) AND 0xff)
         OR (byte_word (hash ! (offset + 3)) AND 0xff))"

type_synonym mac = "string \<Rightarrow> string \<Rightarrow> string"

definition generateTOTP :: "mac \<Rightarrow> string \<Rightarrow> 64 word \<Rightarrow> nat \<Rightarrow> string" where
  "generateTOTP hmac secret counter digits =
     (let code = truncated (hmac secret (counter_bytes counter)) mod of_nat (10 ^ digits)
      in pad_zeros digits (show_nat (unat code)))"

definition time_counter :: "int \<Rightarrow> 64 word" where
  "time_counter now = word_of_int (go_div now 30)"

definition Verify :: "mac \<Rightarrow> string \<Rightarrow> string \<Rightarrow> int \<Rightarrow> bool" where
  "Verify hmac secret code now =
     (case b32_decode (to_upper secret) of
        None \<Rightarrow> False
      | Some key \<Rightarrow> list_ex (\<lambda>i. generateTOTP hmac key (time_counter now + word_of_int i) 6 = code) [-1, 0, 1])"

definition GenerateCurrentCode :: "mac \<Rightarrow> string \<Rightarrow> int \<Rightarrow> string option" where
  "GenerateCurrentCode hmac secret now =
     (case b32_decode (to_upper secret) of
        None \<Rightarrow> None
      | Some key \<Rightarrow> Some (generateTOTP hmac key (time_counter now) 6))"

definition GetCurrentTimeStep :: "int \<Rightarrow> int" where
  "GetCurrentTimeStep now = go_div now 30"

text \<open>The remainder of Go has the sign of the dividend.\<close>

definition GetRemainingSeconds :: "int \<Rightarrow> int" where
  "GetRemainingSeconds now = 30 - (now - go_div now 30 * 30)"

section \<open>Codes follow the standard\<close>

lemma or_below: "b < 2 ^ n \<Longrightarrow> push_bit n a OR b = push_bit n a + (b :: nat)"
proof (rule disjunctive_add [symmetric])
  assume "b < 2 ^ n"
  then have "take_bit n b = b" by (simp add: take_bit_nat_eq_self_iff)
  then show "\<not> bit (push_bit n a) i \<or> \<not> bit b i" for i
    by (metis bit_push_bit_iff bit_take_bit_iff not_le)
qed

lemma byte_word_low: "byte_word c AND 0x7f = of_nat (byte c mod 128)" "byte_word c AND 0xff = of_nat (byte c)"
    "unat (byte_word c AND 0x0f) = byte c mod 16"
proof -
  have m: "(0x7f :: 64 word) = mask 7" "(0xff :: 64 word) = mask 8" "(0x0f :: 64 word) = mask 4"
    by (simp_all add: mask_eq_exp_minus_1)
  have t: "byte_word c AND mask n = of_nat (byte c mod 2 ^ n)" for n
    by (simp add: byte_word_def take_bit_eq_mask [symmetric] take_bit_of_nat take_bit_nat_def)
  show "byte_word c AND 0x7f = of_nat (byte c mod 128)" "byte_word c AND 0xff = of_nat (byte c)"
    using byte_less_256 [of c] by (simp_all add: m t)
  have "byte c mod 16 < 2 ^ 64" by (rule less_trans [of _ 16]) simp_all
  then show "unat (byte_word c AND 0x0f) = byte c mod 16" by (simp add: m t unat_of_nat)
qed

text \<open>RFC 4226, section 5.3, over natural numbers.\<close>

definition hotp_value :: "string \<Rightarrow> nat" where
  "hotp_value hash =
     (let offset = byte (last hash) mod 16
      in (byte (hash ! offset) mod 128) * 2 ^ 24 + byte (hash ! (offset + 1)) * 2 ^ 16
         + byte (hash ! (offset + 2)) * 2 ^ 8 + byte (hash ! (offset + 3)))"

lemma hotp_sums: "\<lbrakk>a < 128; b < 256; c < 256; d < 256\<rbrakk> \<Longrightarrow> c * 256 + d < 65536"
    "\<lbrakk>a < 128; b < 256; c < 256; d < 256\<rbrakk> \<Longrightarrow> b * 65536 + (c * 256 + d) < 16777216"
    "\<lbrakk>a < 128; b < 256; c < 256; d < 256\<rbrakk> \<Longrightarrow> a * 16777216 + b * 65536 + c * 256 + d < (2147483648 :: nat)"
  by linarith+

lemma hotp_value_less: "hotp_value hash < 2 ^ 31"
  using hotp_sums(3) [OF mod_less_divisor byte_less_256 byte_less_256 byte_less_256]
  by (simp add: hotp_value_def Let_def)

lemma unat_truncated: "unat (truncated hash) = hotp_value hash"
proof -
  let ?o = "byte (last hash) mod 16"
  let ?a = "byte (hash ! ?o) mod 128" and ?b = "byte (hash ! (?o + 1))" and ?c = "byte (hash ! (?o + 2))" and ?d = "byte (hash ! (?o + 3))"
  have less: "?a < 128" "?b < 256" "?c < 256" "?d < 256" using byte_less_256 by simp_all
  have "truncated hash = of_nat (push_bit 24 ?a OR push_bit 16 ?b OR push_bit 8 ?c OR ?d)"
    by (simp add: truncated_def byte_word_low Let_def push_bit_of_nat of_nat_or_eq)
  also have "push_bit 24 ?a OR push_bit 16 ?b OR push_bit 8 ?c OR ?d = hotp_value hash"
  proof -
    have "push_bit 8 ?c OR ?d = push_bit 8 ?c + ?d" using less by (intro or_below) simp
    moreover have "push_bit 16 ?b OR (push_bit 8 ?c + ?d) = push_bit 16 ?b + (push_bit 8 ?c + ?d)"
      using hotp_sums(1) [OF less] by (intro or_below) (simp add: push_bit_eq_mult)
    moreover have "push_bit 24 ?a OR (push_bit 16 ?b + (push_bit 8 ?c + ?d)) = push_bit 24 ?a + (push_bit 16 ?b + (push_bit 8 ?c + ?d))"
      using hotp_sums(2) [OF less] by (intro or_below) (simp add: push_bit_eq_mult)
    ultimately show ?thesis by (simp add: hotp_value_def Let_def push_bit_eq_mult or.assoc)
  qed
  finally have "truncated hash = of_nat (hotp_value hash)" .
  moreover have "hotp_value hash < 2 ^ 64" using hotp_value_less [of hash] by (rule less_trans) simp
  ultimately show ?thesis by (simp add: unat_of_nat)
qed

lemma length_show_nat: "\<lbrakk>n < 10 ^ d; 0 < d\<rbrakk> \<Longrightarrow> length (show_nat n) \<le> d"
proof (induction d arbitrary: n)
  case (Suc d)
  show ?case
  proof (cases "n < 10")
    case False
    then have "0 < d" using Suc.prems by (cases d) auto
    moreover have "n div 10 < 10 ^ d" using Suc.prems by (simp add: less_mult_imp_div_less mult.commute)
    ultimately show ?thesis using Suc.IH [of "n div 10"] False by (subst show_nat.simps) simp
  qed (simp add: show_nat.simps [of n])
qed simp

lemma length_pad_zeros: "length s \<le> k \<Longrightarrow> length (pad_zeros k s) = k"
  by (simp add: pad_zeros_def)

lemma power_10_word: "d \<le> 18 \<Longrightarrow> unat (of_nat (10 ^ d) :: 64 word) = 10 ^ d"
proof -
  assume "d \<le> 18"
  then have "(10 :: nat) ^ d \<le> 10 ^ 18" by (rule power_increasing) simp
  then show ?thesis by (simp only: unat_of_nat) (simp del: of_nat_power)
qed

lemma code_value: "d \<le> 18 \<Longrightarrow> unat (truncated hash mod of_nat (10 ^ d)) = hotp_value hash mod 10 ^ d"
  by (simp only: unat_mod unat_truncated power_10_word)

lemma generateTOTP_eq:
  "d \<le> 18 \<Longrightarrow> generateTOTP hmac key n d = pad_zeros d (show_nat (hotp_value (hmac key (counter_bytes n)) mod 10 ^ d))"
  by (simp only: generateTOTP_def Let_def code_value)

lemma length_generateTOTP: "\<lbrakk>0 < d; d \<le> 18\<rbrakk> \<Longrightarrow> length (generateTOTP hmac key n d) = d"
  by (simp add: generateTOTP_eq length_pad_zeros length_show_nat)

text \<open>
  C25: The code for a counter is the one of RFC 4226: the number of \<open>digits\<close> (from 1 to 18) decimal digits, zeros
  in front, of the dynamically truncated hash over natural numbers, reduced modulo the power of ten; neither the
  64-bit arithmetic nor the shifts lose anything.
\<close>

theorem codes_follow_the_standard:
  assumes "0 < digits" "digits \<le> 18"
  shows "generateTOTP hmac key n digits
           = pad_zeros digits (show_nat (hotp_value (hmac key (counter_bytes n)) mod 10 ^ digits))
         \<and> length (generateTOTP hmac key n digits) = digits
         \<and> hotp_value (hmac key (counter_bytes n)) < 2 ^ 31"
  using assms hotp_value_less by (simp add: generateTOTP_eq length_pad_zeros length_show_nat)

definition sample_mac :: mac where
  "sample_mac key message = replicate 20 (CHR 0x7F)"

lemma codes_follow_the_standard_witness:
  "generateTOTP sample_mac ''key'' 1 6
     = pad_zeros 6 (show_nat (hotp_value (sample_mac ''key'' (counter_bytes 1)) mod 10 ^ 6))"
  using codes_follow_the_standard [of 6 sample_mac "''key''" 1] by simp

text \<open>
  The code computed for a secret is accepted at every moment whose period of 30 seconds is the same, the one
  before or the one after, whatever the HMAC, and is accepted with the secret of a fresh setup in any letter case
  that upper-cases to it.
\<close>

theorem current_code_accepted:
  assumes "GenerateCurrentCode hmac secret now = Some code"
    and "\<bar>GetCurrentTimeStep later - GetCurrentTimeStep now\<bar> \<le> 1"
    and "to_upper typed = to_upper secret"
  shows "Verify hmac typed code later"
proof -
  obtain key where key: "b32_decode (to_upper secret) = Some key" "code = generateTOTP hmac key (time_counter now) 6"
    using assms(1) by (auto simp: GenerateCurrentCode_def split: option.splits)
  define i where "i = go_div now 30 - go_div later 30"
  have "time_counter now = time_counter later + word_of_int i" by (simp add: time_counter_def i_def)
  moreover have "i \<in> {-1, 0, 1}" using assms(2) by (auto simp: i_def GetCurrentTimeStep_def)
  ultimately show ?thesis using key assms(3) by (auto simp: Verify_def)
qed

lemma current_code_accepted_witness:
  "Verify sample_mac ''MFRGG'' (generateTOTP sample_mac ''abc'' (time_counter 59) 6) 61"
proof -
  have "b32_decode (to_upper ''mfrgg'') = Some ''abc''" by code_simp
  then have "GenerateCurrentCode sample_mac ''mfrgg'' 59 = Some (generateTOTP sample_mac ''abc'' (time_counter 59) 6)"
    by (simp only: GenerateCurrentCode_def option.case)
  moreover have "\<bar>GetCurrentTimeStep 61 - GetCurrentTimeStep 59\<bar> \<le> 1" by code_simp
  moreover have "to_upper ''MFRGG'' = to_upper ''mfrgg''" by code_simp
  ultimately show ?thesis by (rule current_code_accepted)
qed

section \<open>Recovery keys\<close>

text \<open>Six random bytes a key; \<open>None\<close> once the random source fails.\<close>

fun GenerateRecoveryKeys :: "string option list \<Rightarrow> string list option" where
  "GenerateRecoveryKeys [] = Some []"
| "GenerateRecoveryKeys (None # draws) = None"
| "GenerateRecoveryKeys (Some bytes # draws) =
     (let hex = hex_encode bytes
      in map_option ((#) (take 8 hex @ ''-'' @ drop 8 hex)) (GenerateRecoveryKeys draws))"

definition HashRecoveryKey :: "(string \<Rightarrow> string) \<Rightarrow> string \<Rightarrow> string" where
  "HashRecoveryKey sha256 key = hex_encode (sha256 (to_lower (filter (\<lambda>c. c \<noteq> CHR '' '') key)))"

definition lower_hex :: "char \<Rightarrow> bool" where
  "lower_hex c \<longleftrightarrow> 48 \<le> byte c \<and> byte c \<le> 57 \<or> 97 \<le> byte c \<and> byte c \<le> 102"

text \<open>The loop runs over runes; a rune of several bytes is no digit, and none contains byte 8, which is a hyphen.\<close>

definition VerifyRecoveryKeyFormat :: "string \<Rightarrow> bool" where
  "VerifyRecoveryKeyFormat key =
     (let key = to_lower (trim_space key)
      in if length key \<noteq> 13 then False
         else if key ! 8 \<noteq> CHR ''-'' then False
         else list_all (\<lambda>(i, c). i = 8 \<or> lower_hex c) (enumerate 0 key))"

definition NormalizeRecoveryKey :: "string \<Rightarrow> string" where
  "NormalizeRecoveryKey key = to_lower (filter (\<lambda>c. c \<noteq> CHR '' '') (trim_space key))"

lemma lower_hex_digit: "d < 16 \<Longrightarrow> lower_hex (hex_digit d)"
  by (auto simp: lower_hex_def hex_digit_def)

lemma lower_hex_encode: "c \<in> set (hex_encode s) \<Longrightarrow> lower_hex c"
proof (induction s)
  case (Cons a s)
  have "byte a div 16 < 16" using byte_less_256 [of a] by (simp add: less_mult_imp_div_less)
  then show ?case using Cons by (auto simp: lower_hex_digit)
qed simp

lemma lower_hex_char: "lower_hex c \<Longrightarrow> lower_char c = c \<and> byte c < 128 \<and> graphic c \<and> c \<noteq> CHR '' ''"
  by (auto simp: lower_hex_def lower_char_def graphic_def)

text \<open>Keys as they are handed out.\<close>

definition recovery_key :: "string \<Rightarrow> bool" where
  "recovery_key k \<longleftrightarrow> length k = 13 \<and> k ! 8 = CHR ''-'' \<and> (\<forall>i < 13. i \<noteq> 8 \<longrightarrow> lower_hex (k ! i))"

lemma recovery_key_chars:
  assumes "recovery_key k" "c \<in> set k"
  shows "lower_char c = c \<and> byte c < 128 \<and> graphic c \<and> c \<noteq> CHR '' ''"
proof -
  obtain i where "i < 13" "c = k ! i" using assms by (auto simp: recovery_key_def in_set_conv_nth)
  then show ?thesis using assms(1) lower_hex_char [of c]
    by (cases "i = 8") (auto simp: recovery_key_def lower_char_def graphic_def)
qed

lemma recovery_key_fixed:
  assumes "recovery_key k"
  shows "trim_space k = k" "filter (\<lambda>c. c \<noteq> CHR '' '') k = k" "to_lower k = k"
proof -
  note chars = recovery_key_chars [OF assms]
  have k_ne: "k \<noteq> []" using assms by (auto simp: recovery_key_def)
  show "trim_space k = k" by (rule trim_space_graphic) (use chars k_ne in simp_all)
  show "filter (\<lambda>c. c \<noteq> CHR '' '') k = k" using chars by (auto simp: filter_id_conv)
  have "ascii_str k" using chars by (auto simp: ascii_str_def)
  then show "to_lower k = k" using chars by (simp add: to_lower_ascii map_idI)
qed

lemma recovery_key_format: "recovery_key k \<Longrightarrow> VerifyRecoveryKeyFormat k"
  by (auto simp: VerifyRecoveryKeyFormat_def recovery_key_fixed list_all_iff in_set_enumerate_eq)
    (auto simp: recovery_key_def)

lemma recovery_key_normal: "recovery_key k \<Longrightarrow> NormalizeRecoveryKey k = k"
  by (simp add: NormalizeRecoveryKey_def recovery_key_fixed)

lemma generated_is_key:
  assumes "length bytes = 6"
  shows "recovery_key (take 8 (hex_encode bytes) @ ''-'' @ drop 8 (hex_encode bytes))"
proof -
  let ?h = "hex_encode bytes"
  have len: "length ?h = 12" using assms by simp
  have "lower_hex (?h ! j)" if "j < 12" for j using that len by (metis lower_hex_encode nth_mem)
  then show ?thesis using len by (auto simp: recovery_key_def nth_append nth_Cons split: nat.splits)
qed

lemma generated_are_keys:
  "\<lbrakk>GenerateRecoveryKeys draws = Some keys; \<forall>d bytes. Some bytes \<in> set draws \<longrightarrow> length bytes = 6\<rbrakk>
     \<Longrightarrow> length keys = length draws \<and> (\<forall>k \<in> set keys. recovery_key k)"
  by (induction draws arbitrary: keys rule: GenerateRecoveryKeys.induct)
    (auto simp: Let_def generated_is_key simp del: append_Cons)

end
