(* ===== verification/Recovery.thy ===== *)
theory Recovery
  imports Tables Totp
begin

text \<open>
  The recovery keys of an account (\<open>recovery/recovery.go\<close>): the table \<open>recovery_keys\<close>, whose hash is unique,
  and the service on it. The result of each statement is an argument; a clock reading is in seconds. The keys are
  made and read by \<open>Totp\<close>.
\<close>

section \<open>Service\<close>

record RecoveryKey =
  rk_ID :: int
  rk_UserID :: int
  rk_KeyHash :: string
  rk_UsedAt :: "int option"
  rk_CreatedAt :: int

record recovery_db =
  rd_keys :: "RecoveryKey list"
  rd_next :: int

datatype recovery_error = ErrKeyNotFound | ErrKeyAlreadyUsed | ErrInvalidKeyFormat | Recovery_sql | Recovery_rand

definition DefaultKeyCount :: nat where
  "DefaultKeyCount = 10"

text \<open>The inserts, one statement a key; those before a failing one remain.\<close>

fun store_keys :: "(string \<Rightarrow> string) \<Rightarrow> int \<Rightarrow> int \<Rightarrow> bool list \<Rightarrow> string list \<Rightarrow> recovery_db \<Rightarrow> bool \<times> recovery_db" where
  "store_keys H userID now (ok # oks) (key # keys) d =
     (if \<not> ok then (False, d)
      else
        case tbl_insert rk_KeyHash \<lparr>rk_ID = rd_next d, rk_UserID = userID, rk_KeyHash = HashRecoveryKey H key,
            rk_UsedAt = None, rk_CreatedAt = now\<rparr> (rd_keys d) of
          None \<Rightarrow> (False, d)
        | Some rows \<Rightarrow> store_keys H userID now oks keys (d\<lparr>rd_keys := rows, rd_next := rd_next d + 1\<rparr>))"
| "store_keys H userID now [] (key # keys) d = (False, d)"
| "store_keys H userID now oks [] d = (True, d)"

text \<open>The old keys go first, outside of any transaction; \<open>draws\<close> has one draw of randomness a key.\<close>

definition GenerateKeys ::
    "(string \<Rightarrow> string) \<Rightarrow> bool \<Rightarrow> string option list \<Rightarrow> int \<Rightarrow> bool list \<Rightarrow> int \<Rightarrow> recovery_db \<Rightarrow>
     (recovery_error + string list) \<times> recovery_db" where
  "GenerateKeys H deletes draws now oks userID d =
     (if \<not> deletes then (Inl Recovery_sql, d)
      else
        let d = d\<lparr>rd_keys := tbl_delete (\<lambda>r. rk_UserID r = userID) (rd_keys d)\<rparr>
        in case GenerateRecoveryKeys draws of
            None \<Rightarrow> (Inl Recovery_rand, d)
          | Some keys \<Rightarrow>
              case store_keys H userID now oks keys d of
                (False, d) \<Rightarrow> (Inl Recovery_sql, d)
              | (True, d) \<Rightarrow> (Inr keys, d))"

text \<open>The lookup of \<open>VerifyAndConsumeKey\<close>, up to the number of the row to mark, and the statement that marks it.\<close>

definition check_key :: "(string \<Rightarrow> string) \<Rightarrow> bool \<Rightarrow> int \<Rightarrow> string \<Rightarrow> recovery_db \<Rightarrow> recovery_error + int" where
  "check_key H reads userID key d =
     (if \<not> VerifyRecoveryKeyFormat key then Inl ErrInvalidKeyFormat
      else
        let keyHash = HashRecoveryKey H (NormalizeRecoveryKey key)
        in if \<not> reads then Inl Recovery_sql
           else case find (\<lambda>r. rk_UserID r = userID \<and> rk_KeyHash r = keyHash) (rd_keys d) of
               None \<Rightarrow> Inl ErrKeyNotFound
             | Some r \<Rightarrow> if rk_UsedAt r \<noteq> None then Inl ErrKeyAlreadyUsed else Inr (rk_ID r))"

definition mark_used :: "bool \<Rightarrow> int \<Rightarrow> int \<Rightarrow> recovery_db \<Rightarrow> (recovery_error + unit) \<times> recovery_db" where
  "mark_used writes now keyID d =
     (if \<not> writes then (Inl Recovery_sql, d)
      else (Inr (), d\<lparr>rd_keys := tbl_update (\<lambda>r. rk_ID r = keyID) (\<lambda>r. r\<lparr>rk_UsedAt := Some now\<rparr>) (rd_keys d)\<rparr>))"

definition VerifyAndConsumeKey ::
    "(string \<Rightarrow> string) \<Rightarrow> bool \<Rightarrow> bool \<Rightarrow> int \<Rightarrow> int \<Rightarrow> string \<Rightarrow> recovery_db \<Rightarrow> (recovery_error + unit) \<times> recovery_db" where
  "VerifyAndConsumeKey H reads writes now userID key d =
     (case check_key H reads userID key d of
        Inl e \<Rightarrow> (Inl e, d)
      | Inr keyID \<Rightarrow> mark_used writes now keyID d)"

definition CountRemainingKeys :: "int \<Rightarrow> recovery_db \<Rightarrow> nat" where
  "CountRemainingKeys userID d = tbl_count (\<lambda>r. rk_UserID r = userID \<and> rk_UsedAt r = None) (rd_keys d)"

definition HasKeys :: "int \<Rightarrow> recovery_db \<Rightarrow> bool" where
  "HasKeys userID d \<longleftrightarrow> tbl_count (\<lambda>r. rk_UserID r = userID) (rd_keys d) > 0"

definition DeleteAllKeys :: "bool \<Rightarrow> int \<Rightarrow> recovery_db \<Rightarrow> (recovery_error + unit) \<times> recovery_db" where
  "DeleteAllKeys ok userID d =
     (if \<not> ok then (Inl Recovery_sql, d)
      else (Inr (), d\<lparr>rd_keys := tbl_delete (\<lambda>r. rk_UserID r = userID) (rd_keys d)\<rparr>))"

text \<open>The hash is not selected, so it is empty in the answer.\<close>

definition ListKeys :: "int \<Rightarrow> recovery_db \<Rightarrow> RecoveryKey list" where
  "ListKeys userID d =
     map (\<lambda>r. r\<lparr>rk_KeyHash := []\<rparr>) (sort_key rk_ID (filter (\<lambda>r. rk_UserID r = userID) (rd_keys d)))"

record KeysStatus =
  ks_Total :: nat
  ks_Used :: nat
  ks_Remaining :: int
  ks_HasKeys :: bool

text \<open>\<open>SUM\<close> of no rows is \<open>NULL\<close>, which does not fit into the \<open>int\<close> it is read into.\<close>

definition GetKeysStatus :: "int \<Rightarrow> recovery_db \<Rightarrow> recovery_error + KeysStatus" where
  "GetKeysStatus userID d =
     (let rows = filter (\<lambda>r. rk_UserID r = userID) (rd_keys d);
          summed = (if rows = [] then None else Some (tbl_count (\<lambda>r. rk_UsedAt r \<noteq> None) rows))
      in case summed of
          None \<Rightarrow> Inl Recovery_sql
        | Some used \<Rightarrow>
            Inr \<lparr>ks_Total = length rows, ks_Used = used, ks_Remaining = int (length rows) - int used,
              ks_HasKeys = length rows > 0\<rparr>)"

lemma status_without_keys: "\<not> HasKeys userID d \<Longrightarrow> GetKeysStatus userID d = Inl Recovery_sql"
  by (simp add: HasKeys_def GetKeysStatus_def tbl_count_def Let_def)

section \<open>The table\<close>

text \<open>Hashes and numbers are unique, and numbers are below the next one.\<close>

definition recovery_ok :: "recovery_db \<Rightarrow> bool" where
  "recovery_ok d \<longleftrightarrow> tbl_ok rk_KeyHash (rd_keys d) \<and> tbl_ok rk_ID (rd_keys d) \<and> (\<forall>r \<in> set (rd_keys d). rk_ID r < rd_next d)"

lemma recovery_ok_delete: "recovery_ok d \<Longrightarrow> recovery_ok (d\<lparr>rd_keys := tbl_delete P (rd_keys d)\<rparr>)"
  by (simp add: recovery_ok_def tbl_ok_delete) (simp add: tbl_delete_def)

lemma recovery_ok_mark: "recovery_ok d \<Longrightarrow> recovery_ok (snd (mark_used ok now i d))"
  by (auto simp: recovery_ok_def mark_used_def intro!: tbl_ok_update) (auto simp: tbl_update_def)

lemma recovery_ok_insert:
  assumes "recovery_ok d" "tbl_insert rk_KeyHash r (rd_keys d) = Some rows" "rk_ID r = rd_next d"
  shows "recovery_ok (d\<lparr>rd_keys := rows, rd_next := rd_next d + 1\<rparr>)"
proof -
  have rows: "rows = rd_keys d @ [r]" using assms(2) by (auto simp: tbl_insert_def split: if_splits)
  have "tbl_ok rk_KeyHash rows" using assms(1,2) by (auto simp: recovery_ok_def intro: tbl_ok_insert)
  moreover have "tbl_ok rk_ID rows" using assms(1,3) by (auto simp: rows recovery_ok_def tbl_ok_def)
  ultimately show ?thesis using assms(1,3) by (auto simp: recovery_ok_def rows)
qed

lemma recovery_ok_store: "recovery_ok d \<Longrightarrow> recovery_ok (snd (store_keys H userID now oks keys d))"
proof (induction H userID now oks keys d rule: store_keys.induct)
  case (1 H userID now ok oks key keys d)
  let ?r = "\<lparr>rk_ID = rd_next d, rk_UserID = userID, rk_KeyHash = HashRecoveryKey H key, rk_UsedAt = None, rk_CreatedAt = now\<rparr>"
  have "recovery_ok (d\<lparr>rd_keys := rows, rd_next := rd_next d + 1\<rparr>)" if "tbl_insert rk_KeyHash ?r (rd_keys d) = Some rows" for rows
    using recovery_ok_insert [OF 1(2) that] by simp
  then show ?case using 1 by (auto split: option.splits)
qed simp_all

section \<open>One use\<close>

lemma check_key_eq:
  assumes "recovery_ok d" "r \<in> set (rd_keys d)" "recovery_key k" "rk_UserID r = userID" "rk_KeyHash r = HashRecoveryKey H k"
  shows "check_key H True userID k d = (if rk_UsedAt r \<noteq> None then Inl ErrKeyAlreadyUsed else Inr (rk_ID r))"
proof -
  let ?P = "\<lambda>r. rk_UserID r = userID \<and> rk_KeyHash r = HashRecoveryKey H k"
  obtain r' where r': "find ?P (rd_keys d) = Some r'" using assms(2,4,5) by (cases "find ?P (rd_keys d)") (auto simp: find_None_iff)
  then have "r' \<in> set (rd_keys d)" "rk_KeyHash r' = rk_KeyHash r" using assms(5) by (auto dest: find_Some_props)
  then have "r' = r" using assms(1,2) by (auto simp: recovery_ok_def tbl_ok_def distinct_map dest: inj_onD)
  with r' assms(3) show ?thesis
    unfolding check_key_def recovery_key_normal [OF assms(3)] Let_def by (simp add: recovery_key_format)
qed

definition unused_row :: "int \<Rightarrow> RecoveryKey \<Rightarrow> bool" where
  "unused_row userID r \<longleftrightarrow> rk_UserID r = userID \<and> rk_UsedAt r = None"

lemma store_keys_rows:
  "store_keys H userID now oks keys d = (True, d') \<Longrightarrow>
     \<exists>rows. rd_keys d' = rd_keys d @ rows \<and> map rk_KeyHash rows = map (HashRecoveryKey H) keys \<and> (\<forall>r \<in> set rows. unused_row userID r)"
proof (induction H userID now oks keys d arbitrary: d' rule: store_keys.induct)
  case (1 H userID now ok oks key keys d)
  let ?r = "\<lparr>rk_ID = rd_next d, rk_UserID = userID, rk_KeyHash = HashRecoveryKey H key, rk_UsedAt = None, rk_CreatedAt = now\<rparr>"
  obtain rows where ok: ok "tbl_insert rk_KeyHash ?r (rd_keys d) = Some rows"
    and rest: "store_keys H userID now oks keys (d\<lparr>rd_keys := rows, rd_next := rd_next d + 1\<rparr>) = (True, d')"
    using 1(2) by (auto split: if_splits option.splits)
  have "\<not> \<not> ok" using ok(1) by simp
  from 1(1) [OF this ok(2) rest] obtain more where
    more: "rd_keys d' = rows @ more" "map rk_KeyHash more = map (HashRecoveryKey H) keys" "\<forall>r \<in> set more. unused_row userID r"
    by auto
  have "rows = rd_keys d @ [?r]" using ok(2) by (auto simp: tbl_insert_def split: if_splits)
  then have "rd_keys d' = rd_keys d @ (?r # more)" using more(1) by simp
  moreover have "map rk_KeyHash (?r # more) = map (HashRecoveryKey H) (key # keys)" using more(2) by simp
  moreover have "\<forall>r \<in> set (?r # more). unused_row userID r" using more(3) by (simp add: unused_row_def)
  ultimately show ?case by blast
qed simp_all

lemma fresh_keys:
  assumes "recovery_ok d" "GenerateKeys H deletes draws now oks userID d = (Inr keys, d')"
  shows "recovery_ok d' \<and> GenerateRecoveryKeys draws = Some keys
    \<and> map rk_KeyHash (filter (\<lambda>r. rk_UserID r = userID) (rd_keys d')) = map (HashRecoveryKey H) keys
    \<and> (\<forall>r \<in> set (rd_keys d'). rk_UserID r = userID \<longrightarrow> unused_row userID r)"
proof -
  let ?d = "d\<lparr>rd_keys := tbl_delete (\<lambda>r. rk_UserID r = userID) (rd_keys d)\<rparr>"
  have gen: "GenerateRecoveryKeys draws = Some keys" and store: "store_keys H userID now oks keys ?d = (True, d')"
    using assms(2) by (auto simp: GenerateKeys_def Let_def split: if_splits option.splits prod.splits bool.splits)
  have ok: "recovery_ok d'" using recovery_ok_store [OF recovery_ok_delete [OF assms(1)]] store by (metis snd_conv)
  obtain rows where rows: "rd_keys d' = rd_keys ?d @ rows" "map rk_KeyHash rows = map (HashRecoveryKey H) keys"
      "\<forall>r \<in> set rows. unused_row userID r" using store_keys_rows [OF store] by auto
  have "filter (\<lambda>r. rk_UserID r = userID) (rd_keys ?d) = []" by (simp add: tbl_delete_def)
  moreover have "filter (\<lambda>r. rk_UserID r = userID) rows = rows" using rows(3) by (simp add: filter_id_conv unused_row_def)
  ultimately have "filter (\<lambda>r. rk_UserID r = userID) (rd_keys d') = rows" by (simp add: rows(1))
  then show ?thesis using ok gen rows by (auto simp: tbl_delete_def)
qed

definition row_of :: "(string \<Rightarrow> string) \<Rightarrow> int \<Rightarrow> string \<Rightarrow> recovery_db \<Rightarrow> RecoveryKey \<Rightarrow> bool" where
  "row_of H userID k d r \<longleftrightarrow> r \<in> set (rd_keys d) \<and> rk_UserID r = userID \<and> rk_KeyHash r = HashRecoveryKey H k"

lemma fresh_row:
  assumes "recovery_ok d" "GenerateKeys H deletes draws now oks userID d = (Inr keys, d')" "k \<in> set keys"
  shows "\<exists>r. row_of H userID k d' r \<and> rk_UsedAt r = None"
proof -
  note fresh = fresh_keys [OF assms(1,2)]
  have "HashRecoveryKey H k \<in> set (map rk_KeyHash (filter (\<lambda>r. rk_UserID r = userID) (rd_keys d')))" using fresh assms(3) by simp
  then obtain r where "r \<in> set (rd_keys d')" "rk_UserID r = userID" "rk_KeyHash r = HashRecoveryKey H k" by auto
  then show ?thesis using fresh by (auto simp: row_of_def unused_row_def)
qed

lemma mark_used_row:
  assumes "recovery_ok d" "row_of H userID k d r" "row_of H userID k' d r'" "k \<noteq> k' \<longrightarrow> HashRecoveryKey H k \<noteq> HashRecoveryKey H k'"
  shows "row_of H userID k' (snd (mark_used True now (rk_ID r) d)) (if k' = k then r'\<lparr>rk_UsedAt := Some now\<rparr> else r')"
proof -
  have "(rk_ID r' = rk_ID r) = (r' = r)"
    using assms(1-3) by (auto simp: recovery_ok_def row_of_def tbl_ok_def distinct_map dest: inj_onD)
  moreover have "r' = r" if "k' = k"
    using assms(1-3) that by (intro inj_onD [of rk_KeyHash "set (rd_keys d)"]) (auto simp: recovery_ok_def row_of_def tbl_ok_def distinct_map)
  moreover have "k' = k" if "r' = r" using assms(2-4) that by (auto simp: row_of_def)
  ultimately have same: "(rk_ID r' = rk_ID r) = (k' = k)" by blast
  have "(if k' = k then r'\<lparr>rk_UsedAt := Some now\<rparr> else r')
      = (\<lambda>x. if rk_ID x = rk_ID r then x\<lparr>rk_UsedAt := Some now\<rparr> else x) r'" by (simp add: same)
  moreover have "r' \<in> set (rd_keys d)" using assms(3) by (simp add: row_of_def)
  ultimately have "(if k' = k then r'\<lparr>rk_UsedAt := Some now\<rparr> else r') \<in> set (rd_keys (snd (mark_used True now (rk_ID r) d)))"
    by (simp only: mark_used_def tbl_update_def) simp
  then show ?thesis using assms(3) by (simp add: row_of_def)
qed

lemma consume_fresh:
  assumes "recovery_ok d" "row_of H userID k d r" "rk_UsedAt r = None" "recovery_key k"
  shows "VerifyAndConsumeKey H True True now userID k d = (Inr (), snd (mark_used True now (rk_ID r) d))"
  using check_key_eq [OF assms(1) _ assms(4), of r userID H] assms(2,3)
  by (simp add: VerifyAndConsumeKey_def row_of_def mark_used_def)

text \<open>
  C21: After a generation whose statements succeed the account has exactly the new keys, all unused; each of them
  signs in once: the first use is accepted and marks only it, the second is refused as already used, and the other
  keys of the set are still accepted.
\<close>

theorem recovery_keys_work_once:
  assumes ok: "recovery_ok d"
    and gen: "GenerateKeys H True draws now oks userID d = (Inr keys, d')"
    and six: "\<forall>bytes. Some bytes \<in> set draws \<longrightarrow> length bytes = 6"
    and k: "k \<in> set keys"
  shows "CountRemainingKeys userID d' = length draws
    \<and> (case VerifyAndConsumeKey H True True t userID k d' of (answer, d'') \<Rightarrow>
        answer = Inr ()
        \<and> fst (VerifyAndConsumeKey H True True t' userID k d'') = Inl ErrKeyAlreadyUsed
        \<and> (\<forall>k' \<in> set keys. k' \<noteq> k \<longrightarrow> fst (VerifyAndConsumeKey H True True t' userID k' d'') = Inr ()))"
proof -
  note fresh = fresh_keys [OF ok gen]
  have keys: "length keys = length draws" "\<And>k. k \<in> set keys \<Longrightarrow> recovery_key k"
    using generated_are_keys [of draws keys] fresh six by auto
  let ?rows = "filter (\<lambda>r. rk_UserID r = userID) (rd_keys d')"
  have hashes: "map rk_KeyHash ?rows = map (HashRecoveryKey H) keys" using fresh by blast
  have "filter (\<lambda>r. rk_UserID r = userID \<and> rk_UsedAt r = None) (rd_keys d') = ?rows"
  proof (rule filter_cong [OF refl])
    have "\<forall>r \<in> set (rd_keys d'). rk_UserID r = userID \<longrightarrow> unused_row userID r" using fresh by blast
    then show "(rk_UserID r = userID \<and> rk_UsedAt r = None) = (rk_UserID r = userID)" if "r \<in> set (rd_keys d')" for r
      using that by (auto simp: unused_row_def)
  qed
  then have count: "CountRemainingKeys userID d' = length draws"
    using arg_cong [OF hashes, of length] keys(1) by (simp add: CountRemainingKeys_def tbl_count_def)
  have ok'': "recovery_ok d'" using fresh by blast
  then have "distinct (map rk_KeyHash ?rows)" unfolding recovery_ok_def tbl_ok_def by (blast intro: distinct_map_filter)
  then have inj: "inj_on (HashRecoveryKey H) (set keys)" by (simp add: hashes distinct_map)
  obtain r where r: "row_of H userID k d' r" "rk_UsedAt r = None" using fresh_row [OF ok gen k] by blast
  let ?d = "snd (mark_used True t (rk_ID r) d')"
  have first: "VerifyAndConsumeKey H True True t userID k d' = (Inr (), ?d)"
    using consume_fresh [OF ok'' r keys(2) [OF k]] .
  have ok': "recovery_ok ?d" using ok'' by (rule recovery_ok_mark)
  have "row_of H userID k ?d (r\<lparr>rk_UsedAt := Some t\<rparr>)" using mark_used_row [OF ok'' r(1) r(1)] by simp
  then have "check_key H True userID k ?d = Inl ErrKeyAlreadyUsed"
    using check_key_eq [OF ok' _ keys(2) [OF k], of "r\<lparr>rk_UsedAt := Some t\<rparr>" userID H] by (simp only: row_of_def) simp
  then have "fst (VerifyAndConsumeKey H True True t' userID k ?d) = Inl ErrKeyAlreadyUsed" by (simp add: VerifyAndConsumeKey_def)
  moreover have "fst (VerifyAndConsumeKey H True True t' userID k' ?d) = Inr ()" if k': "k' \<in> set keys" "k' \<noteq> k" for k'
  proof -
    obtain r' where r': "row_of H userID k' d' r'" "rk_UsedAt r' = None" using fresh_row [OF ok gen k'(1)] by blast
    have "HashRecoveryKey H k \<noteq> HashRecoveryKey H k'" using inj k k' by (auto dest: inj_onD)
    then have "row_of H userID k' ?d r'" using mark_used_row [OF ok'' r(1) r'(1), of t] k'(2) by simp
    then show ?thesis using consume_fresh [OF ok' _ r'(2) keys(2) [OF k'(1)]] by simp
  qed
  ultimately show ?thesis using count first by simp
qed

text \<open>Two keys of fixed bytes, on a table that has an old key of the account and a key of another one.\<close>

definition sample_keys :: recovery_db where
  "sample_keys =
     \<lparr>rd_keys = [\<lparr>rk_ID = 1, rk_UserID = 7, rk_KeyHash = ''old'', rk_UsedAt = None, rk_CreatedAt = 0\<rparr>,
        \<lparr>rk_ID = 2, rk_UserID = 8, rk_KeyHash = ''other'', rk_UsedAt = Some 5, rk_CreatedAt = 0\<rparr>], rd_next = 3\<rparr>"

lemma recovery_keys_work_once_witness:
  "CountRemainingKeys 7 (snd (GenerateKeys id True [Some ''abcdef'', Some ''ghijkl''] 9 [True, True] 7 sample_keys)) = 2"
proof -
  have ok: "recovery_ok sample_keys" by (simp add: recovery_ok_def tbl_ok_def sample_keys_def)
  let ?g = "GenerateKeys id True [Some ''abcdef'', Some ''ghijkl''] 9 [True, True] 7 sample_keys"
  have gen: "?g = (Inr [''61626364-6566'', ''6768696a-6b6c''], snd ?g)" by code_simp
  have "''61626364-6566'' \<in> set [''61626364-6566'', ''6768696a-6b6c'']" by simp
  from recovery_keys_work_once [OF ok gen _ this, of 1 2] show ?thesis by simp
qed

section \<open>What is lost\<close>

text \<open>The lookup and the mark are two statements: of two requests with one key, both can be accepted.\<close>

lemma recovery_key_used_twice:
  assumes "check_key H True userID k d = Inr i"
  shows "check_key H True userID k d = Inr i \<and> fst (mark_used True t i d) = Inr ()
    \<and> fst (mark_used True t' i (snd (mark_used True t i d))) = Inr ()"
  using assms by (simp add: mark_used_def)

text \<open>A generation that fails after its first statement leaves the account without its old keys.\<close>

lemma failed_generation_loses_keys: "None \<in> set draws \<Longrightarrow>
  \<exists>d'. GenerateKeys H True draws now oks userID d = (Inl Recovery_rand, d') \<and> \<not> HasKeys userID d'"
proof -
  assume "None \<in> set draws"
  then have "GenerateRecoveryKeys draws = None" by (induction draws rule: GenerateRecoveryKeys.induct) (auto simp: Let_def)
  then show ?thesis by (simp add: GenerateKeys_def HasKeys_def tbl_count_def tbl_delete_def)
qed

end
