(* ===== verification/Spec2Isabelle.thy ===== *)
theory Spec2Isabelle
  imports Line_End Durations Rate_Limit Sql_Text Store_Laws Reader_Laws Scheduler Brute_Force Sessions Tokens Backup_Laws Site_Laws Admin_Laws Startup Updater Recovery
begin

text \<open>
  \<^bold>\<open>CasPaste\<close> is a self-hosted paste service written in Go. A request enters the router of \<open>server\<close>,
  passes the middleware of \<open>web\<close> and reaches a handler of \<open>web\<close>, \<open>apiv1\<close>, \<open>raw\<close>, \<open>graphql\<close> or
  \<open>compat\<close>; creating handlers call \<open>netshare.PasteAddFromForm\<close>; every handler reads and writes the
  pastes table through \<open>storage\<close>, which mirrors it to a SQLite backup. Beside it live the limiters of
  \<open>netshare\<close>, the password file and its protection against guessing (\<open>caspasswd\<close>), sessions
  (\<open>session\<close>), API tokens (\<open>token\<close>), and a scheduler of periodic tasks (\<open>scheduler\<close>). All paths below
  are relative to \<open>src/src\<close>.

  \<^bold>\<open>Layers.\<close>

  \<^item> \<open>Prelude\<close> has the wrap-around of Go's 64-bit integers and generic lemmas; \<open>Go_Strings\<close>, \<open>Go_Conv\<close>,
    \<open>Go_Base64\<close> and \<open>Go_Net\<close> model what the code uses of the packages \<open>strings\<close>, \<open>strconv\<close>,
    \<open>unicode/utf8\<close>, \<open>encoding/base64\<close>, \<open>encoding/hex\<close> and \<open>net\<close>, with the round trips the components
    need. A Go string is a list of 8-bit characters. \<open>Tables\<close> models SQL statements on a table as
    operations on a list of rows, with their laws, and holds the locale \<open>revocable\<close> of credentials
    that do not come back.
  \<^item> \<open>Line_End\<close> is \<open>lineend/lineend.go\<close>, \<open>Durations\<close> \<open>cli/duration.go\<close>, \<open>Validation\<close> the packages
    \<open>validation\<close>, \<open>portutil\<close> and \<open>mode\<close>, \<open>Hosts\<close> \<open>netshare/host.go\<close>, \<open>Rate_Limit\<close>
    \<open>netshare/ratelimit.go\<close>, \<open>Cron\<close> \<open>scheduler/cron.go\<close>. Their data are numbers and strings.
  \<^item> \<open>Sql_Text\<close> is the text side of \<open>storage/storage.go\<close> (placeholders, dialects, paths); \<open>Storage\<close> is
    \<open>storage/paste.go\<close> and \<open>share.go\<close>: its state \<open>db\<close> holds the rows of the primary table and of the
    backup, and each operation takes the outcomes of the statements it issues. The locale of \<open>Storage\<close>
    states the contract its clients rely on and is interpreted on these operations; \<open>Store_Laws\<close> proves
    the invariants over all sequences of operations.
  \<^item> \<open>Paste_Form\<close> is \<open>netshare/paste.go\<close>, the one way a paste is created. \<open>Readers\<close> holds the handlers that
    read, edit and delete one paste; \<open>Burn\<close> interleaves any number of them and shows that a one-use
    paste is delivered at most once by the guarded routes; \<open>Reader_Laws\<close> composes creating with reading.
  \<^item> \<open>Scheduler\<close> is \<open>scheduler/scheduler.go\<close> over \<open>Cron\<close>: tasks live in a heap, handlers run between two
    atomic sections, and the properties are invariants of the interleaved system.
  \<^item> \<open>Passwd\<close> is \<open>caspasswd/caspasswd.go\<close>; \<open>Brute_Force\<close> is \<open>caspasswd/bruteforce.go\<close> and the handlers that
    check a password. \<open>Sessions\<close> is \<open>session/session.go\<close>, refined to a map from hashes to sessions;
    \<open>Tokens\<close> is \<open>token/token.go\<close>. Both interpret \<open>revocable\<close>.
  \<^item> \<open>Go_Path\<close> models \<open>path/filepath\<close> (\<open>Clean\<close>, \<open>Join\<close>, suffixes) and \<open>Files\<close> a file system whose calls may
    fail, with an error monad and a locale of its laws. \<open>Retention\<close> is \<open>backup/retention.go\<close>,
    \<open>Encryption\<close> \<open>backup/encryption.go\<close>, \<open>Backups\<close> the rest of \<open>backup\<close>: staging, the archive, its
    verification and restoring. Archives and JSON are a record of functions; \<open>Sample_Codec\<close> is one such
    record. \<open>Backup_Copy\<close> shows what \<open>Create\<close> puts into the archive, \<open>Backup_Restore\<close> what \<open>Restore\<close>
    writes, and \<open>Backup_Laws\<close> composes them.
  \<^item> \<open>Http\<close> models requests, headers, cookies and the replies of \<open>net/http\<close>; \<open>Middleware\<close> is
    \<open>web/middleware.go\<close>, \<open>web/csrf.go\<close> and their composition in \<open>server/caspaste.go\<close>; \<open>Chain_Laws\<close> shows
    what the whole chain guarantees for an arbitrary application behind it.
  \<^item> \<open>Mux\<close> models \<open>http.ServeMux\<close>: patterns, their conflicts (for which registering panics), the choice of
    the most specific one and its redirects. \<open>Routes\<close> holds the tables of \<open>server/caspaste.go\<close>,
    \<open>server/debug.go\<close>, \<open>admin/routes.go\<close> and \<open>web/web.go\<close> and the choice of a compatibility mode;
    \<open>Web_Auth\<close> is \<open>web/auth.go\<close> and the dispatcher of the site. \<open>Site_Laws\<close> shows what the routes and the
    guard let through. By \<open>admin_routes_panic\<close> the program as it is panics while it registers the routes of
    the panel; the other theorems are about the tables it registers, whatever handlers stand in them.
  \<^item> \<open>Admin\<close> is \<open>admin/db.go\<close> and \<open>session.go\<close>: the record \<open>panel\<close> holds the rows of the four tables and
    the setup token. \<open>Admin_Panel\<close> holds the setup wizard, the login, the guard and the handlers that change
    these tables. \<open>Admin_System\<close> interleaves any number of such requests, each cut where it issues a
    statement, and \<open>Admin_Laws\<close> proves who can become an administrator and who enters the panel.
  \<^item> \<open>Cli\<close> is \<open>cli/cli.go\<close>: variables carry a value whose constructor is their type, and \<open>Parse\<close> reads the
    environment, then the arguments. \<open>Config\<close> is \<open>config/env.go\<close> with the normal forms of \<open>config/config.go\<close>,
    on the settings that this code touches. \<open>Startup\<close> is the part of \<open>main\<close> in \<open>server/caspaste.go\<close> between
    its flags and its sockets, composed of the two and of \<open>Validation\<close>.
  \<^item> \<open>Updater\<close> is \<open>updater/update.go\<close> and \<open>update_unix.go\<close> on the file system of \<open>Files\<close>, with a triple
    \<open>leads\<close> for conditions before and after that holds whichever call fails.
  \<^item> \<open>Totp\<close> is \<open>totp/totp.go\<close> on 64-bit words, compared with RFC 4226 over natural numbers; \<open>Recovery\<close> is
    \<open>recovery/recovery.go\<close> on its table. No part of the server calls these two packages yet.

  \<^bold>\<open>Conventions.\<close> Everything outside the program is an argument of the definitions: the clock (one
  argument per reading, in the order of the code), random bytes, the outcome of each SQL statement, the
  hash functions, the calendar of a time zone, the decoded body of a request. Errors are values of a sum
  type; a panic is an error value of its own. \<open>Cron\<close> returns an option because a step of 0 makes the
  source loop for ever: \<open>None\<close> is not returning, and no fuel is used. The search loops of \<open>Cron\<close> and of
  \<open>storage\<close> are bounded in the source by counters, which are the structural arguments of the models.
  Integers wrap at 64 bits wherever an operation of the source can leave the range.

  \<^bold>\<open>Properties.\<close> A theorem after a text with a number is a claim about the program, followed somewhere
  below it by its witness, which applies it to a concrete input. Where the code does not do what its
  comments or its purpose say, the theorem states what it does: for example
  \<open>unguarded_routes_never_burn\<close>, \<open>restart_catches_nothing_up\<close> or \<open>trailing_slash_leaves_site\<close>.

  \<^bold>\<open>Not modelled.\<close> Rendering of pages and templates, static documents, the command line client and the
  terminal interface, the decoding of bodies, of YAML and of archive formats, the directories, daemon and
  maintenance commands of the start, operating system services, TLS, Tor, mail and metrics: they are I/O or third-party code behind thin calls.
\<close>

end
